(* ===== verification/Prelude.thy ===== *)
theory Prelude
  imports Complex_Main
begin

text \<open>
  Shared vocabulary of the development: the errors the services throw, handlers as
  state-and-error functions with their combinators and a small program logic for them,
  JSON values, the JavaScript string and date functions the sources call, and the
  list-backed database tables the repositories work on.

  Strings are ASCII character lists. Instants are milliseconds since the epoch (what
  \<open>Date.getTime\<close> returns), so \<open>int\<close>. A handler reads the clock once: \<open>Date.now()\<close> and
  \<open>new Date()\<close> inside one handler denote the same instant.
\<close>

section \<open>Collections\<close>

named_theorems op_defs \<open>definitions of the handler combinators\<close>
named_theorems op_simps \<open>evaluation of the handler combinators\<close>
named_theorems keeps_rules \<open>introduction rules for invariant preservation\<close>
named_theorems frame_rules \<open>introduction rules for handlers that leave a part of the state alone\<close>
named_theorems leads_rules \<open>introduction rules for establishing an assertion\<close>
named_theorems quiet_rules \<open>introduction rules for handlers that leave the state alone\<close>

section \<open>Errors and handlers\<close>

text \<open>The NestJS exceptions the services throw; \<open>InternalError\<close> is a plain \<open>Error\<close>.\<close>

datatype http_error =
    BadRequest string
  | Unauthorized string
  | Forbidden string
  | NotFound string
  | Conflict string
  | Gone string
  | ServiceUnavailable string
  | InternalError string

fun error_message :: "http_error \<Rightarrow> string" where
  "error_message (BadRequest m) = m"
| "error_message (Unauthorized m) = m"
| "error_message (Forbidden m) = m"
| "error_message (NotFound m) = m"
| "error_message (Conflict m) = m"
| "error_message (Gone m) = m"
| "error_message (ServiceUnavailable m) = m"
| "error_message (InternalError m) = m"

text \<open>
  A handler maps a state to its outcome (\<open>Inl\<close> the exception, \<open>Inr\<close> the returned value)
  and the state it leaves behind. What a handler wrote before it throws stays written, as
  in the source, where no transaction surrounds a handler.
\<close>

type_synonym ('s, 'a) handler = "'s \<Rightarrow> (http_error + 'a) \<times> 's"

definition ret :: "'a \<Rightarrow> ('s, 'a) handler" where
  [op_defs]: "ret x = (\<lambda>s. (Inr x, s))"

definition throw :: "http_error \<Rightarrow> ('s, 'a) handler" where
  [op_defs]: "throw e = (\<lambda>s. (Inl e, s))"

definition bindE :: "('s, 'a) handler \<Rightarrow> ('a \<Rightarrow> ('s, 'b) handler) \<Rightarrow> ('s, 'b) handler" where
  [op_defs]: "bindE m f = (\<lambda>s. case m s of (Inl e, s') \<Rightarrow> (Inl e, s') | (Inr x, s') \<Rightarrow> f x s')"

text \<open>Reading from the state, changing it, lifting a pure outcome, a guard.\<close>

definition readE :: "('s \<Rightarrow> 'a) \<Rightarrow> ('s, 'a) handler" where
  [op_defs]: "readE g = (\<lambda>s. (Inr (g s), s))"

definition writeE :: "('s \<Rightarrow> 's) \<Rightarrow> ('s, unit) handler" where
  [op_defs]: "writeE f = (\<lambda>s. (Inr (), f s))"

definition liftE :: "http_error + 'a \<Rightarrow> ('s, 'a) handler" where
  [op_defs]: "liftE r = (\<lambda>s. (r, s))"

definition guardE :: "bool \<Rightarrow> http_error \<Rightarrow> ('s, unit) handler" where
  [op_defs]: "guardE c e = (if c then ret () else throw e)"

definition whenE :: "bool \<Rightarrow> ('s, unit) handler \<Rightarrow> ('s, unit) handler" where
  [op_defs]: "whenE c m = (if c then m else ret ())"

definition someE :: "'a option \<Rightarrow> http_error \<Rightarrow> ('s, 'a) handler" where
  [op_defs]: "someE x e = (case x of None \<Rightarrow> throw e | Some y \<Rightarrow> ret y)"

text \<open>\<open>try { m } catch (e) { h(e) }\<close>\<close>

definition catchE :: "('s, 'a) handler \<Rightarrow> (http_error \<Rightarrow> ('s, 'a) handler) \<Rightarrow> ('s, 'a) handler" where
  "catchE m h = (\<lambda>s. case m s of (Inl e, s') \<Rightarrow> h e s' | (Inr x, s') \<Rightarrow> (Inr x, s'))"

text \<open>A \<open>for\<close> loop with an awaited body: the first exception ends it.\<close>

fun forE :: "('x \<Rightarrow> ('s, 'a) handler) \<Rightarrow> 'x list \<Rightarrow> ('s, 'a list) handler" where
  "forE f [] = ret []"
| "forE f (x # xs) = bindE (f x) (\<lambda>y. bindE (forE f xs) (\<lambda>ys. ret (y # ys)))"

text \<open>The outcome and the final state of a run.\<close>

abbreviation outcome :: "('s, 'a) handler \<Rightarrow> 's \<Rightarrow> http_error + 'a" where
  "outcome m s \<equiv> fst (m s)"

abbreviation after :: "('s, 'a) handler \<Rightarrow> 's \<Rightarrow> 's" where
  "after m s \<equiv> snd (m s)"

subsection \<open>Evaluation rules\<close>

lemma ret_apply [op_simps, simp]: "ret x s = (Inr x, s)"
  by (simp add: ret_def)

lemma throw_apply [op_simps, simp]: "throw e s = (Inl e, s)"
  by (simp add: throw_def)

lemma readE_apply [op_simps, simp]: "readE g s = (Inr (g s), s)"
  by (simp add: readE_def)

lemma writeE_apply [op_simps, simp]: "writeE f s = (Inr (), f s)"
  by (simp add: writeE_def)

lemma liftE_apply [op_simps, simp]: "liftE r s = (r, s)"
  by (simp add: liftE_def)

lemma guardE_apply [op_simps, simp]: "guardE c e s = (if c then (Inr (), s) else (Inl e, s))"
  by (simp add: guardE_def)

lemma whenE_apply [op_simps, simp]: "whenE c m s = (if c then m s else (Inr (), s))"
  by (simp add: whenE_def)

lemma someE_apply [op_simps, simp]:
  "someE x e s = (case x of None \<Rightarrow> (Inl e, s) | Some y \<Rightarrow> (Inr y, s))"
  by (simp add: someE_def split: option.split)

lemma bindE_Inr [op_simps]: "m s = (Inr x, s') \<Longrightarrow> bindE m f s = f x s'"
  by (simp add: bindE_def)

lemma bindE_Inl [op_simps]: "m s = (Inl e, s') \<Longrightarrow> bindE m f s = (Inl e, s')"
  by (simp add: bindE_def)

lemma bindE_ret [simp]: "bindE (ret x) f = f x"
  and bindE_throw [simp]: "bindE (throw e) f = throw e"
  and bindE_liftE_Inr [simp]: "bindE (liftE (Inr x)) f = f x"
  and bindE_liftE_Inl [simp]: "bindE (liftE (Inl e)) f = throw e"
  by (simp_all add: bindE_def liftE_def ret_def throw_def)

lemma bindE_Pair [simp]: "bindE (Pair (Inr x)) f = f x" "bindE (Pair (Inl e)) f = throw e"
  by (simp_all add: bindE_def throw_def)

lemma bindE_readE [simp]: "bindE (readE g) f s = f (g s) s"
  and bindE_writeE [simp]: "bindE (writeE w) f' s = f' () (w s)"
  by (simp_all add: bindE_def)

lemma bindE_guardE [simp]: "bindE (guardE c e) f s = (if c then f () s else (Inl e, s))"
  and bindE_whenE [simp]:
    "bindE (whenE c m) f s = (if c then bindE m f s else f () s)"
  and bindE_someE [simp]:
    "bindE (someE x e) g s = (case x of None \<Rightarrow> (Inl e, s) | Some y \<Rightarrow> g y s)"
  by (simp_all add: bindE_def split: option.split)

lemma bindE_liftE [simp]: "bindE (liftE r) f s = (case r of Inl e \<Rightarrow> (Inl e, s) | Inr x \<Rightarrow> f x s)"
  by (simp add: bindE_def split: sum.split)

lemma bindE_if [simp]: "bindE (if c then m else n) f = (if c then bindE m f else bindE n f)"
  and bindE_case_option [simp]:
    "bindE (case x of None \<Rightarrow> m | Some y \<Rightarrow> g y) f = (case x of None \<Rightarrow> bindE m f | Some y \<Rightarrow> bindE (g y) f)"
  by (simp_all split: option.split)

lemma bindE_assoc [simp]: "bindE (bindE m f) g = bindE m (\<lambda>x. bindE (f x) g)"
  by (simp add: bindE_def fun_eq_iff split: prod.split sum.split)

text \<open>A successful sequence decomposes into successful steps; a failing one into the step
  that failed.\<close>

lemma bindE_success:
  "bindE m f s = (Inr y, s') \<longleftrightarrow> (\<exists>x s1. m s = (Inr x, s1) \<and> f x s1 = (Inr y, s'))"
  by (auto simp: bindE_def split: prod.split sum.split)

lemma bindE_failure:
  "bindE m f s = (Inl e, s') \<longleftrightarrow>
     m s = (Inl e, s') \<or> (\<exists>x s1. m s = (Inr x, s1) \<and> f x s1 = (Inl e, s'))"
  by (auto simp: bindE_def split: prod.split sum.split)

lemma after_bindE_ret:
  "after (bindE m (\<lambda>x. ret (f x))) s = after m s" "after (bindE m (\<lambda>x. Pair (Inr x))) s = after m s"
  by (simp_all add: bindE_def split: prod.split sum.split)

lemma handler_cases:
  obtains (error) e s' where "m s = (Inl e, s')" | (result) x s' where "m s = (Inr x, s')"
  by (cases "m s"; cases "fst (m s)") auto

subsection \<open>Invariant preservation\<close>

definition keeps :: "('s \<Rightarrow> bool) \<Rightarrow> ('s, 'a) handler \<Rightarrow> bool" where
  "keeps I m \<longleftrightarrow> (\<forall>s. I s \<longrightarrow> I (after m s))"

lemma keepsI: "(\<And>s. I s \<Longrightarrow> I (after m s)) \<Longrightarrow> keeps I m"
  by (simp add: keeps_def)

lemma keepsD: "keeps I m \<Longrightarrow> I s \<Longrightarrow> I (after m s)"
  by (simp add: keeps_def)

lemma keeps_ret [keeps_rules, simp]: "keeps I (ret x)"
  and keeps_throw [keeps_rules, simp]: "keeps I (throw e)"
  and keeps_readE [keeps_rules, simp]: "keeps I (readE g)"
  and keeps_liftE [keeps_rules, simp]: "keeps I (liftE r)"
  and keeps_guardE [keeps_rules, simp]: "keeps I (guardE c e)"
  by (simp_all add: keeps_def)

lemma keeps_someE [keeps_rules, simp]: "keeps I (someE x e)"
  by (simp add: keeps_def split: option.split)

lemma keeps_writeE [keeps_rules]: "(\<And>s. I s \<Longrightarrow> I (f s)) \<Longrightarrow> keeps I (writeE f)"
  by (simp add: keeps_def)

lemma keeps_bindE [keeps_rules]:
  "keeps I m \<Longrightarrow> (\<And>x. keeps I (f x)) \<Longrightarrow> keeps I (bindE m f)"
  by (fastforce simp: keeps_def bindE_def split: prod.split sum.split)

lemma keeps_whenE [keeps_rules]: "(c \<Longrightarrow> keeps I m) \<Longrightarrow> keeps I (whenE c m)"
  by (simp add: keeps_def)

lemma keeps_if [keeps_rules]:
  "(c \<Longrightarrow> keeps I m) \<Longrightarrow> (\<not> c \<Longrightarrow> keeps I n) \<Longrightarrow> keeps I (if c then m else n)"
  by simp

lemma keeps_case_option [keeps_rules]:
  "(x = None \<Longrightarrow> keeps I m) \<Longrightarrow> (\<And>y. x = Some y \<Longrightarrow> keeps I (f y)) \<Longrightarrow>
     keeps I (case x of None \<Rightarrow> m | Some y \<Rightarrow> f y)"
  by (cases x) auto

lemma keeps_forE [keeps_rules]:
  "(\<And>x. x \<in> set xs \<Longrightarrow> keeps I (f x)) \<Longrightarrow> keeps I (forE f xs)"
  by (induction xs) (auto intro!: keeps_rules)

lemma keeps_case_prod: "(\<And>a b. x = (a, b) \<Longrightarrow> keeps I (f a b)) \<Longrightarrow> keeps I (case x of (a, b) \<Rightarrow> f a b)"
  by (cases x) simp

subsection \<open>Handlers that leave the state alone\<close>

definition quiet :: "('s, 'a) handler \<Rightarrow> bool" where
  "quiet m \<longleftrightarrow> (\<forall>s. after m s = s)"

lemma quietD [simp]: "quiet m \<Longrightarrow> after m s = s"
  by (simp add: quiet_def)

lemma quiet_run: "quiet m \<Longrightarrow> m s = (r, s') \<Longrightarrow> s' = s"
  by (metis quiet_def snd_conv)

lemma quiet_prims [quiet_rules, simp]:
  "quiet (ret x)" "quiet (throw e)" "quiet (readE g)" "quiet (liftE r)" "quiet (guardE c e)"
  by (simp_all add: quiet_def)

lemma quiet_someE [quiet_rules, simp]: "quiet (someE x e)"
  by (simp add: quiet_def split: option.split)

lemma quiet_bindE [quiet_rules]: "quiet m \<Longrightarrow> (\<And>x. quiet (f x)) \<Longrightarrow> quiet (bindE m f)"
  unfolding quiet_def bindE_def
  by (auto split: prod.split sum.split) (metis snd_conv)+

lemma quiet_if [quiet_rules]: "(c \<Longrightarrow> quiet m) \<Longrightarrow> (\<not> c \<Longrightarrow> quiet n) \<Longrightarrow> quiet (if c then m else n)"
  by simp

lemma quiet_case_option [quiet_rules]:
  "(x = None \<Longrightarrow> quiet m) \<Longrightarrow> (\<And>y. x = Some y \<Longrightarrow> quiet (f y)) \<Longrightarrow>
     quiet (case x of None \<Rightarrow> m | Some y \<Rightarrow> f y)"
  by (cases x) auto

lemma quiet_case_prod [quiet_rules]: "(\<And>a b. x = (a, b) \<Longrightarrow> quiet (f a b)) \<Longrightarrow> quiet (case x of (a, b) \<Rightarrow> f a b)"
  by (cases x) simp

lemma quiet_forE [quiet_rules]: "(\<And>x. x \<in> set xs \<Longrightarrow> quiet (f x)) \<Longrightarrow> quiet (forE f xs)"
  by (induction xs) (auto intro!: quiet_rules)

lemma after_bindE_quiet:
  "quiet m \<Longrightarrow> after (bindE m f) s = (case outcome m s of Inl _ \<Rightarrow> s | Inr x \<Rightarrow> after (f x) s)"
  unfolding quiet_def bindE_def by (cases "m s"; cases "outcome m s") (auto dest: spec[of _ s])

lemma quiet_keeps: "quiet m \<Longrightarrow> keeps I m"
  by (simp add: keeps_def)

subsection \<open>Handlers that leave a part of the state alone\<close>

definition frames :: "('s \<Rightarrow> 'v) \<Rightarrow> ('s, 'a) handler \<Rightarrow> bool" where
  "frames v m \<longleftrightarrow> (\<forall>s. v (after m s) = v s)"

lemma framesI: "(\<And>s. v (after m s) = v s) \<Longrightarrow> frames v m"
  by (simp add: frames_def)

lemma framesD: "frames v m \<Longrightarrow> v (after m s) = v s"
  by (simp add: frames_def)

lemma frames_run: "frames v m \<Longrightarrow> m s = (r, s') \<Longrightarrow> v s' = v s"
  by (metis frames_def snd_conv)

lemma quiet_frames: "quiet m \<Longrightarrow> frames v m"
  by (simp add: frames_def)

lemma frames_keeps: "frames v m \<Longrightarrow> keeps (\<lambda>s. I (v s)) m"
  by (simp add: frames_def keeps_def)

lemma frames_prims [frame_rules, simp]:
  "frames v (ret x)" "frames v (throw e)" "frames v (readE g)" "frames v (liftE r)" "frames v (guardE c e)"
  by (simp_all add: frames_def)

lemma frames_someE [frame_rules, simp]: "frames v (someE x e)"
  by (rule quiet_frames) simp

lemma frames_writeE [frame_rules]: "(\<And>s. v (f s) = v s) \<Longrightarrow> frames v (writeE f)"
  by (simp add: frames_def)

lemma frames_bindE [frame_rules]:
  assumes "frames v m" "\<And>x. frames v (f x)"
  shows "frames v (bindE m f)"
proof (rule framesI)
  fix s
  show "v (after (bindE m f) s) = v s"
    using framesD[OF assms(1), of s] framesD[OF assms(2), of _ "after m s"]
    by (cases "m s"; cases "outcome m s") (auto simp: bindE_def)
qed

lemma frames_whenE [frame_rules]: "(c \<Longrightarrow> frames v m) \<Longrightarrow> frames v (whenE c m)"
  by (simp add: frames_def)

lemma frames_if [frame_rules]:
  "(c \<Longrightarrow> frames v m) \<Longrightarrow> (\<not> c \<Longrightarrow> frames v n) \<Longrightarrow> frames v (if c then m else n)"
  by simp

lemma frames_case_option [frame_rules]:
  "(x = None \<Longrightarrow> frames v m) \<Longrightarrow> (\<And>y. x = Some y \<Longrightarrow> frames v (f y)) \<Longrightarrow>
     frames v (case x of None \<Rightarrow> m | Some y \<Rightarrow> f y)"
  by (cases x) auto

lemma frames_forE [frame_rules]: "(\<And>x. x \<in> set xs \<Longrightarrow> frames v (f x)) \<Longrightarrow> frames v (forE f xs)"
  by (induction xs) (auto intro!: frame_rules)

subsection \<open>Establishing an assertion\<close>

text \<open>From a state with \<open>P\<close> the handler ends, whatever its outcome, in one with \<open>Q\<close>. \<open>keeps\<close> is the
  case of an invariant; \<open>P\<close> may also say what the handler has read so far.\<close>

definition leads :: "('s \<Rightarrow> bool) \<Rightarrow> ('s, 'a) handler \<Rightarrow> ('s \<Rightarrow> bool) \<Rightarrow> bool" where
  "leads P m Q \<longleftrightarrow> (\<forall>s. P s \<longrightarrow> Q (after m s))"

lemma leadsD: "leads P m Q \<Longrightarrow> P s \<Longrightarrow> Q (after m s)"
  by (simp add: leads_def)

lemma leads_keeps: "keeps I m \<longleftrightarrow> leads I m I"
  by (simp add: leads_def keeps_def)

lemma leads_weaken: "leads P m Q \<Longrightarrow> (\<And>s. P' s \<Longrightarrow> P s) \<Longrightarrow> leads P' m Q"
  by (simp add: leads_def)

lemma leads_quiet: "quiet m \<Longrightarrow> (\<And>s. P s \<Longrightarrow> Q s) \<Longrightarrow> leads P m Q"
  by (simp add: leads_def)

lemma leads_write: "(\<And>s. P s \<Longrightarrow> Q (w s)) \<Longrightarrow> leads P (writeE w) Q"
  by (simp add: leads_def)

lemma leads_seq:
  assumes "leads P m R" "\<And>s. R s \<Longrightarrow> Q s" "\<And>x. leads R (f x) Q"
  shows "leads P (bindE m f) Q"
  unfolding leads_def
proof (intro allI impI)
  fix s assume "P s"
  then have R: "R (after m s)" using assms(1) by (simp add: leads_def)
  show "Q (after (bindE m f) s)"
    using R assms(2)[OF R] assms(3) unfolding leads_def
    by (cases "m s"; cases "outcome m s") (auto simp: bindE_def)
qed

lemma leads_after_quiet:
  "quiet m \<Longrightarrow> (\<And>s. P s \<Longrightarrow> Q s) \<Longrightarrow> (\<And>x. leads P (f x) Q) \<Longrightarrow> leads P (bindE m f) Q"
  by (rule leads_seq[where R = P]) (simp_all add: leads_def)

lemma leads_after_write:
  "(\<And>s. P s \<Longrightarrow> R (w s)) \<Longrightarrow> (\<And>s. R s \<Longrightarrow> Q s) \<Longrightarrow> leads R (f ()) Q \<Longrightarrow> leads P (bindE (writeE w) f) Q"
  by (simp add: leads_def)

lemmas leads_quiet_prims [leads_rules] =
  leads_quiet[OF quiet_prims(1)] leads_quiet[OF quiet_prims(2)] leads_quiet[OF quiet_prims(3)]
  leads_quiet[OF quiet_prims(4)] leads_quiet[OF quiet_prims(5)] leads_quiet[OF quiet_someE]
  leads_after_quiet[OF quiet_prims(4)] leads_after_quiet[OF quiet_prims(5)] leads_after_quiet[OF quiet_someE]

lemma leads_after_guard:
  "(\<And>s. P s \<Longrightarrow> Q s) \<Longrightarrow> (c \<Longrightarrow> leads P (f ()) Q) \<Longrightarrow> leads P (bindE (guardE c err) f) Q"
  by (auto simp: leads_def)

lemma leads_after_read: "(\<And>x. leads (\<lambda>s. P s \<and> x = g s) (f x) Q) \<Longrightarrow> leads P (bindE (readE g) f) Q"
  by (simp add: leads_def)

lemma leads_outcome:
  assumes "quiet m" "\<And>s. P s \<Longrightarrow> Q s" "\<And>x. leads (\<lambda>s. P s \<and> outcome m s = Inr x) (f x) Q"
  shows "leads P (bindE m f) Q"
  using assms by (auto simp: leads_def after_bindE_quiet split: sum.split)

lemma leads_if [leads_rules]:
  "(c \<Longrightarrow> leads P m Q) \<Longrightarrow> (\<not> c \<Longrightarrow> leads P n Q) \<Longrightarrow> leads P (if c then m else n) Q"
  by simp

lemma leads_case_option [leads_rules]:
  "(x = None \<Longrightarrow> leads P m Q) \<Longrightarrow> (\<And>y. x = Some y \<Longrightarrow> leads P (f y) Q) \<Longrightarrow>
     leads P (case x of None \<Rightarrow> m | Some y \<Rightarrow> f y) Q"
  by (cases x) auto

lemma leads_case_prod [leads_rules]:
  "(\<And>a b. x = (a, b) \<Longrightarrow> leads P (f a b) Q) \<Longrightarrow> leads P (case x of (a, b) \<Rightarrow> f a b) Q"
  by (cases x) simp

lemma leads_catch:
  assumes "leads P m R" "\<And>s. R s \<Longrightarrow> Q s" "\<And>e. leads R (h e) Q"
  shows "leads P (catchE m h) Q"
  unfolding leads_def
proof (intro allI impI)
  fix s assume "P s"
  then have R: "R (after m s)" using assms(1) by (simp add: leads_def)
  show "Q (after (catchE m h) s)"
    using R assms(2)[OF R] assms(3) unfolding leads_def
    by (cases "m s"; cases "outcome m s") (auto simp: catchE_def)
qed

lemma keeps_catchE: "keeps I m \<Longrightarrow> (\<And>e. keeps I (h e)) \<Longrightarrow> keeps I (catchE m h)"
  by (simp add: leads_keeps) (rule leads_catch, auto)

lemma leads_for:
  assumes "\<And>x. x \<in> set xs \<Longrightarrow> leads P (f x) P" "\<And>s. P s \<Longrightarrow> Q s"
  shows "leads P (forE f xs) Q"
proof -
  have "keeps P (forE f xs)" using assms(1) by (intro keeps_rules) (simp add: leads_keeps)
  then show ?thesis using assms(2) by (simp add: leads_keeps leads_def)
qed

section \<open>Values of the source language\<close>

subsection \<open>JSON\<close>

text \<open>
  \<open>Record<string, unknown>\<close> values. Objects keep their keys in insertion order. Numbers
  are only passed through by the modelled code: \<open>JNum\<close> is an integral one and \<open>JDec\<close> one that
  may have a fraction.
\<close>

datatype json =
    JNull
  | JBool bool
  | JNum int
  | JDec rat
  | JStr string
  | JArr "json list"
  | JObj "(string \<times> json) list"

type_synonym json_object = "(string \<times> json) list"

text \<open>\<open>o[k]\<close> (\<open>None\<close> is \<open>undefined\<close>), \<open>{...o, k: v}\<close> and \<open>{...o, ...p}\<close>.\<close>

abbreviation jget :: "json_object \<Rightarrow> string \<Rightarrow> json option" where
  "jget ob k \<equiv> map_of ob k"

fun jset :: "string \<Rightarrow> json \<Rightarrow> json_object \<Rightarrow> json_object" where
  "jset k v [] = [(k, v)]"
| "jset k v ((k', v') # ob) = (if k = k' then (k, v) # ob else (k', v') # jset k v ob)"

definition jmerge :: "json_object \<Rightarrow> json_object \<Rightarrow> json_object" where
  "jmerge ob upd = fold (\<lambda>(k, v). jset k v) upd ob"

fun jstr_opt :: "string option \<Rightarrow> json" where
  "jstr_opt None = JNull"
| "jstr_opt (Some x) = JStr x"

lemma jget_jset: "jget (jset k v ob) k' = (if k' = k then Some v else jget ob k')"
  by (induction k v ob rule: jset.induct) auto

subsection \<open>Strings\<close>

definition is_ws :: "char \<Rightarrow> bool" where
  "is_ws c \<longleftrightarrow> c \<in> {CHR '' '', CHR 0x09, CHR 0x0A, CHR 0x0B, CHR 0x0C, CHR 0x0D}"

definition trim :: "string \<Rightarrow> string" where
  "trim xs = rev (dropWhile is_ws (rev (dropWhile is_ws xs)))"

text \<open>\<open>s?.trim() || null\<close>\<close>

definition trim_or_null :: "string option \<Rightarrow> string option" where
  "trim_or_null x =
     (case x of None \<Rightarrow> None | Some y \<Rightarrow> (if trim y = [] then None else Some (trim y)))"

text \<open>Truthiness of an optional string: neither \<open>undefined\<close> nor \<open>null\<close> nor empty.\<close>

definition truthy :: "string option \<Rightarrow> bool" where
  "truthy x \<longleftrightarrow> x \<noteq> None \<and> x \<noteq> Some []"

lemma truthy_simps [simp]: "\<not> truthy None" "truthy (Some x) \<longleftrightarrow> x \<noteq> []"
  by (simp_all add: truthy_def)

definition char_lower :: "char \<Rightarrow> char" where
  "char_lower c =
     (let n = of_char c :: nat in if 65 \<le> n \<and> n \<le> 90 then char_of (n + 32) else c)"

definition char_upper :: "char \<Rightarrow> char" where
  "char_upper c =
     (let n = of_char c :: nat in if 97 \<le> n \<and> n \<le> 122 then char_of (n - 32) else c)"

definition toLowerCase :: "string \<Rightarrow> string" where
  "toLowerCase = map char_lower"

definition toUpperCase :: "string \<Rightarrow> string" where
  "toUpperCase = map char_upper"

definition endsWith :: "string \<Rightarrow> string \<Rightarrow> bool" where
  "endsWith xs suf \<longleftrightarrow>
     length suf \<le> length xs \<and> drop (length xs - length suf) xs = suf"

definition startsWith :: "string \<Rightarrow> string \<Rightarrow> bool" where
  "startsWith xs pre \<longleftrightarrow> take (length pre) xs = pre"

fun contains :: "string \<Rightarrow> string \<Rightarrow> bool" where
  "contains [] p \<longleftrightarrow> p = []"
| "contains (c # cs) p \<longleftrightarrow> startsWith (c # cs) p \<or> contains cs p"

fun join_with :: "string \<Rightarrow> string list \<Rightarrow> string" where
  "join_with sep [] = []"
| "join_with sep [x] = x"
| "join_with sep (x # y # ys) = x @ sep @ join_with sep (y # ys)"

text \<open>\<open>s.replace(/\s+/g, ' ')\<close>\<close>

function collapse_ws :: "string \<Rightarrow> string" where
  "collapse_ws [] = []"
| "collapse_ws (c # cs) =
     (if is_ws c then CHR '' '' # collapse_ws (dropWhile is_ws cs) else c # collapse_ws cs)"
  by pat_completeness auto
termination
  by (relation "measure length") (auto simp: less_Suc_eq_le length_dropWhile_le)

text \<open>\<open>Array.from(new Set(xs))\<close>: first occurrences, in order.\<close>

definition uniq :: "'a list \<Rightarrow> 'a list" where
  "uniq xs = rev (remdups (rev xs))"

lemma set_uniq [simp]: "set (uniq xs) = set xs"
  and distinct_uniq [simp]: "distinct (uniq xs)"
  by (simp_all add: uniq_def)

lemma dropWhile_eq_Nil_iff: "dropWhile P xs = [] \<longleftrightarrow> (\<forall>x \<in> set xs. P x)"
  by (induction xs) auto

lemma trim_fixed:
  assumes "xs \<noteq> [] \<Longrightarrow> \<not> is_ws (hd xs) \<and> \<not> is_ws (last xs)"
  shows "trim xs = xs"
proof (cases xs)
  case Nil
  then show ?thesis by (simp add: trim_def)
next
  case (Cons c cs)
  with assms have "\<not> is_ws (hd xs)" "\<not> is_ws (last xs)" by auto
  have "dropWhile is_ws xs = xs" using Cons \<open>\<not> is_ws (hd xs)\<close> by simp
  moreover have "dropWhile is_ws (rev xs) = rev xs"
    using \<open>\<not> is_ws (last xs)\<close> by (cases xs rule: rev_cases) auto
  ultimately show ?thesis by (simp add: trim_def)
qed

lemma trim_ends:
  assumes "trim xs \<noteq> []"
  shows "\<not> is_ws (hd (trim xs))" "\<not> is_ws (last (trim xs))"
proof -
  let ?d = "dropWhile is_ws xs" and ?e = "dropWhile is_ws (rev (dropWhile is_ws xs))"
  have e: "?e \<noteq> []" using assms by (simp add: trim_def)
  then have d: "?d \<noteq> []" by (metis dropWhile.simps(1) rev.simps(1))
  have "\<not> is_ws (hd ?e)" using e by (rule hd_dropWhile)
  then show "\<not> is_ws (last (trim xs))" using e by (simp add: trim_def last_rev)
  obtain pre where pre: "rev ?d = pre @ ?e"
    by (metis takeWhile_dropWhile_id)
  then have "?d = rev ?e @ rev pre" by (metis rev_append rev_rev_ident)
  then have "hd ?d = hd (rev ?e)" using e by (metis hd_append2 rev_is_Nil_conv)
  moreover have "\<not> is_ws (hd ?d)" using d by (rule hd_dropWhile)
  ultimately show "\<not> is_ws (hd (trim xs))" by (simp add: trim_def)
qed

lemma trim_idem [simp]: "trim (trim xs) = trim xs"
  by (rule trim_fixed) (simp add: trim_ends)

subsection \<open>Numbers and dates in text\<close>

definition digit_char :: "nat \<Rightarrow> char" where
  "digit_char d = char_of (48 + d)"

fun show_nat :: "nat \<Rightarrow> string" where
  "show_nat n =
     (if n < 10 then [digit_char n] else show_nat (n div 10) @ [digit_char (n mod 10)])"

declare show_nat.simps [simp del]

lemma digit_char_inj: "a < 10 \<Longrightarrow> b < 10 \<Longrightarrow> digit_char a = digit_char b \<Longrightarrow> a = b"
proof -
  assume a: "a < 10" "b < 10" "digit_char a = digit_char b"
  then have "(of_char (char_of (48 + a)) :: nat) = of_char (char_of (48 + b))"
    by (simp add: digit_char_def)
  then show ?thesis using a(1,2) by simp
qed

lemma show_nat_inj: "show_nat a = show_nat b \<Longrightarrow> a = b"
proof (induction a arbitrary: b rule: less_induct)
  case (less a)
  have ne: "show_nat n \<noteq> []" for n by (subst show_nat.simps) simp
  show ?case
  proof (cases "a < 10"; cases "b < 10")
    assume "a < 10" "b < 10"
    then show ?thesis using less.prems
      by (simp add: show_nat.simps[of a] show_nat.simps[of b] digit_char_inj)
  next
    assume "a < 10" "\<not> b < 10"
    then show ?thesis using less.prems ne[of "b div 10"]
      by (simp add: show_nat.simps[of a] show_nat.simps[of b])
  next
    assume "\<not> a < 10" "b < 10"
    then show ?thesis using less.prems ne[of "a div 10"]
      by (simp add: show_nat.simps[of a] show_nat.simps[of b])
  next
    assume ab: "\<not> a < 10" "\<not> b < 10"
    then have "show_nat (a div 10) = show_nat (b div 10)" "digit_char (a mod 10) = digit_char (b mod 10)"
      using less.prems by (simp_all add: show_nat.simps[of a] show_nat.simps[of b])
    then have "a div 10 = b div 10" "a mod 10 = b mod 10"
      using less.IH[of "a div 10"] ab digit_char_inj[of "a mod 10" "b mod 10"] by simp_all
    then show ?thesis by (metis div_mult_mod_eq)
  qed
qed

lemma inj_show_nat: "inj show_nat"
  using show_nat_inj by (auto simp: inj_def)

definition show_int :: "int \<Rightarrow> string" where
  "show_int i = (if i < 0 then CHR ''-'' # show_nat (nat (- i)) else show_nat (nat i))"

definition pad0 :: "nat \<Rightarrow> string \<Rightarrow> string" where
  "pad0 w xs = replicate (w - length xs) CHR ''0'' @ xs"

text \<open>
  \<open>Date.prototype.toISOString\<close>: the proleptic Gregorian date of a day number, and its text;
  years outside 0 to 9999 are signed and have six digits.
\<close>

definition civil_from_days :: "int \<Rightarrow> int \<times> int \<times> int" where
  "civil_from_days days =
     (let z = days + 719468;
          era = z div 146097;
          doe = z mod 146097;
          yoe = (doe - doe div 1460 + doe div 36524 - doe div 146096) div 365;
          doy = doe - (365 * yoe + yoe div 4 - yoe div 100);
          mp = (5 * doy + 2) div 153;
          d = doy - (153 * mp + 2) div 5 + 1;
          m = (if mp < 10 then mp + 3 else mp - 9);
          y = yoe + era * 400 + (if m \<le> 2 then 1 else 0)
      in (y, m, d))"

definition toISOString :: "int \<Rightarrow> string" where
  "toISOString t =
     (let days = t div 86400000; ms = t mod 86400000;
          (y, m, d) = civil_from_days days;
          p2 = (\<lambda>n. pad0 2 (show_int n));
          year = (if 0 \<le> y \<and> y \<le> 9999 then pad0 4 (show_int y)
                  else (if y < 0 then ''-'' else ''+'') @ pad0 6 (show_int \<bar>y\<bar>))
      in year @ ''-'' @ p2 m @ ''-'' @ p2 d @ ''T'' @ p2 (ms div 3600000) @ '':'' @
         p2 (ms div 60000 mod 60) @ '':'' @ p2 (ms div 1000 mod 60) @ ''.'' @
         pad0 3 (show_int (ms mod 1000)) @ ''Z'')"

fun jtime_opt :: "int option \<Rightarrow> json" where
  "jtime_opt None = JNull"
| "jtime_opt (Some t) = JStr (toISOString t)"

text \<open>A validated ISO timestamp of a request: its text and the instant \<open>new Date\<close> reads.\<close>

datatype timestamp = Timestamp (ts_text: string) (ts_instant: int)

definition instant_or :: "timestamp option \<Rightarrow> int \<Rightarrow> int" where
  "instant_or x t = (case x of None \<Rightarrow> t | Some y \<Rightarrow> ts_instant y)"

section \<open>Tables\<close>

text \<open>
  A table is the list of its rows in insertion order. \<open>find_row\<close> is \<open>findOne\<close>,
  \<open>update_rows\<close> an \<open>UPDATE \<dots> WHERE\<close> with \<open>count_rows\<close> its affected count,
  \<open>save_row\<close> the repository's \<open>save\<close> (replace the row with the same key, or insert),
  \<open>delete_rows\<close> a \<open>DELETE \<dots> WHERE\<close>.  Ties of an \<open>ORDER BY\<close> are broken by insertion order.
\<close>

definition find_row :: "('r \<Rightarrow> bool) \<Rightarrow> 'r list \<Rightarrow> 'r option" where
  "find_row p rows = List.find p rows"

definition update_rows :: "('r \<Rightarrow> bool) \<Rightarrow> ('r \<Rightarrow> 'r) \<Rightarrow> 'r list \<Rightarrow> 'r list" where
  "update_rows p f rows = map (\<lambda>r. if p r then f r else r) rows"

definition count_rows :: "('r \<Rightarrow> bool) \<Rightarrow> 'r list \<Rightarrow> nat" where
  "count_rows p rows = length (filter p rows)"

definition delete_rows :: "('r \<Rightarrow> bool) \<Rightarrow> 'r list \<Rightarrow> 'r list" where
  "delete_rows p rows = filter (\<lambda>r. \<not> p r) rows"

definition save_row :: "('r \<Rightarrow> 'k) \<Rightarrow> 'r \<Rightarrow> 'r list \<Rightarrow> 'r list" where
  "save_row key r rows =
     (if key r \<in> key ` set rows then update_rows (\<lambda>r'. key r' = key r) (\<lambda>_. r) rows
      else rows @ [r])"

lemma find_row_Some: "find_row p rows = Some r \<Longrightarrow> r \<in> set rows \<and> p r"
  by (auto simp: find_row_def find_Some_iff)

lemma find_row_None: "find_row p rows = None \<longleftrightarrow> (\<forall>r \<in> set rows. \<not> p r)"
  by (auto simp: find_row_def find_None_iff)

lemma find_row_exists: "r \<in> set rows \<Longrightarrow> p r \<Longrightarrow> \<exists>r'. find_row p rows = Some r'"
  by (cases "find_row p rows") (auto simp: find_row_None)

lemma find_row_key:
  assumes "distinct (map key rows)" "r \<in> set rows"
  shows "find_row (\<lambda>x. key x = key r) rows = Some r"
proof -
  obtain r' where r': "find_row (\<lambda>x. key x = key r) rows = Some r'"
    using find_row_exists[of r rows "\<lambda>x. key x = key r"] assms(2) by auto
  then have "r' \<in> set rows" "key r' = key r" by (auto dest: find_row_Some)
  with assms have "r' = r" by (auto simp: distinct_map inj_on_def)
  with r' show ?thesis by simp
qed

lemma set_update_rows:
  "set (update_rows p f rows) = f ` {r \<in> set rows. p r} \<union> {r \<in> set rows. \<not> p r}"
  by (auto simp: update_rows_def)

lemma length_update_rows [simp]: "length (update_rows p f rows) = length rows"
  by (simp add: update_rows_def)

lemma set_delete_rows [simp]: "set (delete_rows p rows) = {r \<in> set rows. \<not> p r}"
  by (simp add: delete_rows_def)

lemma map_update_rows:
  "(\<And>r. r \<in> set rows \<Longrightarrow> p r \<Longrightarrow> key (f r) = key r) \<Longrightarrow>
     map key (update_rows p f rows) = map key rows"
  by (simp add: update_rows_def)

lemma distinct_delete_rows [simp]:
  "distinct (map key rows) \<Longrightarrow> distinct (map key (delete_rows p rows))"
  by (simp add: delete_rows_def distinct_map_filter)

lemma set_save_row:
  "set (save_row key r rows) = insert r {r' \<in> set rows. key r' \<noteq> key r}"
  by (auto simp: save_row_def set_update_rows image_iff)

lemma map_key_save_row:
  "map key (save_row key r rows) =
     (if key r \<in> key ` set rows then map key rows else map key rows @ [key r])"
  by (auto simp: save_row_def intro!: map_update_rows)

lemma distinct_save_row:
  "distinct (map key rows) \<Longrightarrow> distinct (map key (save_row key r rows))"
  by (auto simp: map_key_save_row)

text \<open>Saving over an existing row of a keyed table replaces exactly that row.\<close>

lemma save_row_split:
  assumes "distinct (map key (xs @ r # ys))" "key r' = key r"
  shows "save_row key r' (xs @ r # ys) = xs @ r' # ys"
proof -
  have "key x \<noteq> key r" if "x \<in> set xs \<union> set ys" for x
    using assms(1) that by (auto simp: image_iff)
  then have "map (\<lambda>x. if key x = key r then r' else x) xs = xs" "map (\<lambda>x. if key x = key r then r' else x) ys = ys"
    by (auto intro!: map_idI)
  then show ?thesis using assms(2) by (simp add: save_row_def update_rows_def)
qed

lemma save_row_map:
  assumes "distinct (map key rows)" "r \<in> set rows" "key r' = key r" "f r' = f r"
  shows "map f (save_row key r' rows) = map f rows"
proof -
  obtain xs ys where rows: "rows = xs @ r # ys" using assms(2) by (meson split_list)
  have "save_row key r' (xs @ r # ys) = xs @ r' # ys"
    using assms(1,3) unfolding rows by (rule save_row_split)
  then show ?thesis using assms(4) by (simp add: rows)
qed

lemma save_row_distinct:
  assumes "distinct (map key rows)" "r \<in> set rows" "key r' = key r" "distinct (map f rows)"
    and "\<And>x. x \<in> set rows \<Longrightarrow> f x = f r' \<Longrightarrow> key x = key r"
  shows "distinct (map f (save_row key r' rows))"
proof -
  obtain xs ys where rows: "rows = xs @ r # ys" using assms(2) by (meson split_list)
  have "save_row key r' (xs @ r # ys) = xs @ r' # ys"
    using assms(1,3) unfolding rows by (rule save_row_split)
  moreover have "f r' \<notin> f ` (set xs \<union> set ys)"
  proof
    assume "f r' \<in> f ` (set xs \<union> set ys)"
    then obtain x where "x \<in> set xs \<union> set ys" "f x = f r'" by (metis imageE)
    then show False using assms(1) assms(5)[of x] by (auto simp: rows image_iff)
  qed
  ultimately show ?thesis using assms(4) by (auto simp: rows)
qed

lemma count_rows_zero: "count_rows p rows = 0 \<longleftrightarrow> (\<forall>r \<in> set rows. \<not> p r)"
  by (auto simp: count_rows_def filter_empty_conv)

lemma count_update_le: "(\<And>r. \<not> p (f r)) \<Longrightarrow> count_rows p (update_rows q f rows) \<le> count_rows p rows"
  by (induction rows) (simp_all add: count_rows_def update_rows_def)

lemma count_save_le:
  "key r \<in> key ` set rows \<Longrightarrow> \<not> p r \<Longrightarrow> count_rows p (save_row key r rows) \<le> count_rows p rows"
  by (simp add: save_row_def count_update_le)

text \<open>Saving, one after the other, an image of every row that satisfies \<open>p\<close> is an update.\<close>

lemma fold_save_update:
  assumes "distinct (map key (xs @ ys))" "\<And>n. key (f n) = key n"
  shows "fold (\<lambda>n. save_row key (f n)) (filter p ys) (xs @ ys) = xs @ update_rows p f ys"
  using assms(1)
proof (induction ys arbitrary: xs)
  case (Cons y ys)
  have step: "save_row key (f y) (xs @ y # ys) = (xs @ [f y]) @ ys"
    using save_row_split[OF Cons.prems, of "f y"] assms(2) by simp
  show ?case
  proof (cases "p y")
    case True
    have "distinct (map key ((xs @ [f y]) @ ys))" using Cons.prems by (simp add: assms(2))
    from Cons.IH[OF this] show ?thesis using True step by (simp add: update_rows_def)
  next
    case False
    have "distinct (map key ((xs @ [y]) @ ys))" using Cons.prems by simp
    from Cons.IH[OF this] show ?thesis using False by (simp add: update_rows_def)
  qed
qed (simp add: update_rows_def)

lemma find_row_update:
  "(\<And>r. p (f r) = p r) \<Longrightarrow> find_row p (update_rows p f rows) = map_option f (find_row p rows)"
  by (induction rows) (auto simp: find_row_def update_rows_def)

lemma update_rows_none: "count_rows p rows = 0 \<Longrightarrow> update_rows p f rows = rows"
  by (auto simp: count_rows_zero update_rows_def intro: map_idI)

text \<open>\<open>findOne\<close> followed by a throw when there is no such row.\<close>

definition findE :: "('s \<Rightarrow> 'r list) \<Rightarrow> ('r \<Rightarrow> bool) \<Rightarrow> http_error \<Rightarrow> ('s, 'r) handler" where
  "findE sel p err = bindE (readE (\<lambda>s. find_row p (sel s))) (\<lambda>x. someE x err)"

lemma findE_apply [simp]:
  "findE sel p err s = (case find_row p (sel s) of None \<Rightarrow> (Inl err, s) | Some r \<Rightarrow> (Inr r, s))"
  by (simp add: findE_def)

lemma bindE_findE [simp]:
  "bindE (findE sel p err) f s = (case find_row p (sel s) of None \<Rightarrow> (Inl err, s) | Some r \<Rightarrow> f r s)"
  by (simp add: findE_def)

lemma quiet_findE [quiet_rules, simp]: "quiet (findE sel p err)"
  by (simp add: quiet_def split: option.split)

lemma keeps_findE [keeps_rules, simp]: "keeps I (findE sel p err)"
  by (rule quiet_keeps) simp

lemma frames_findE [frame_rules, simp]: "frames v (findE sel p err)"
  by (rule quiet_frames) simp

lemma leads_find:
  assumes "\<And>s. P s \<Longrightarrow> Q s" "\<And>r. leads (\<lambda>s. P s \<and> r \<in> set (sel s) \<and> p r) (f r) Q"
  shows "leads P (bindE (findE sel p err) f) Q"
  using assms by (auto simp: leads_def dest: find_row_Some split: option.split)

text \<open>The total weight of a table, and how an update that never makes a row heavier changes it.\<close>

definition weight :: "('r \<Rightarrow> nat) \<Rightarrow> 'r list \<Rightarrow> nat" where
  "weight v rows = sum_list (map v rows)"

lemma weight_update_le:
  "(\<And>r. r \<in> set rows \<Longrightarrow> p r \<Longrightarrow> v (f r) \<le> v r) \<Longrightarrow> weight v (update_rows p f rows) \<le> weight v rows"
  by (induction rows) (auto simp: weight_def update_rows_def add_mono)

lemma weight_update_less:
  assumes "\<And>r. r \<in> set rows \<Longrightarrow> p r \<Longrightarrow> v (f r) \<le> v r" "\<exists>r \<in> set rows. p r \<and> v (f r) < v r"
  shows "weight v (update_rows p f rows) < weight v rows"
proof -
  obtain r xs ys where rows: "rows = xs @ r # ys" and r: "p r" "v (f r) < v r"
    using assms(2) by (metis split_list)
  have "weight v (update_rows p f xs) \<le> weight v xs" "weight v (update_rows p f ys) \<le> weight v ys"
    using assms(1) by (auto simp: rows intro!: weight_update_le)
  with r show ?thesis by (simp add: rows weight_def update_rows_def)
qed

text \<open>In a keyed table the rows with a key in \<open>K\<close> that satisfy \<open>q\<close> are as many as \<open>K\<close> has
  elements exactly when every key of \<open>K\<close> has such a row.\<close>

lemma count_rows_keys:
  assumes keys: "distinct (map key rows)" and fin: "finite K"
  shows "count_rows (\<lambda>r. key r \<in> K \<and> q r) rows = card K \<longleftrightarrow> (\<forall>k \<in> K. \<exists>r \<in> set rows. key r = k \<and> q r)"
proof -
  let ?E = "{r \<in> set rows. key r \<in> K \<and> q r}"
  have inj: "inj_on key (set rows)" and dist: "distinct rows" using keys by (simp_all add: distinct_map)
  have "count_rows (\<lambda>r. key r \<in> K \<and> q r) rows = card ?E"
    using dist by (simp add: count_rows_def distinct_length_filter Collect_conj_eq Int_commute)
  also have "\<dots> = card (key ` ?E)" by (intro card_image[symmetric] inj_on_subset[OF inj]) auto
  finally have "count_rows (\<lambda>r. key r \<in> K \<and> q r) rows = card K \<longleftrightarrow> key ` ?E = K"
    using card_subset_eq[OF fin, of "key ` ?E"] by auto
  also have "key ` ?E = K \<longleftrightarrow> (\<forall>k \<in> K. k \<in> key ` ?E)" by auto
  also have "\<dots> \<longleftrightarrow> (\<forall>k \<in> K. \<exists>r \<in> set rows. key r = k \<and> q r)" by (auto 4 3 simp: image_iff)
  finally show ?thesis .
qed

lemma map_filter_map: "List.map_filter f (map g xs) = List.map_filter (f \<circ> g) xs"
  by (induction xs) (simp_all add: List.map_filter_simps split: option.split)

lemma map_filter_total:
  "(\<And>x. x \<in> set xs \<Longrightarrow> f x = Some (g x)) \<Longrightarrow> List.map_filter f xs = map g xs"
  by (induction xs) (simp_all add: List.map_filter_simps)

text \<open>\<open>ORDER BY k\<close> with \<open>LIMIT n\<close>.\<close>

definition order_limit :: "('r \<Rightarrow> 'k::linorder) \<Rightarrow> nat \<Rightarrow> 'r list \<Rightarrow> 'r list" where
  "order_limit k n rows = take n (sort_key k rows)"

lemma order_limit_head:
  assumes "order_limit k (Suc 0) rows = r # rs"
  shows "rs = [] \<and> r \<in> set rows \<and> (\<forall>r' \<in> set rows. k r \<le> k r')"
proof -
  from assms obtain ys where s: "sort_key k rows = r # ys" and rs: "rs = []"
    by (cases "sort_key k rows") (auto simp: order_limit_def)
  have "sorted (map k (r # ys))" using s by (metis sorted_sort_key)
  then have le: "\<forall>y \<in> set (r # ys). k r \<le> k y" by auto
  have "set (r # ys) = set rows" using s by (metis set_sort)
  with le rs show ?thesis by auto
qed

lemma order_limit_least:
  assumes "x \<in> set (order_limit k n rows)" "y \<in> set rows" "y \<notin> set (order_limit k n rows)"
  shows "k x \<le> k y"
proof -
  let ?s = "sort_key k rows"
  have "y \<in> set ?s" using assms(2) by simp
  then have "y \<in> set (take n ?s) \<union> set (drop n ?s)" by (metis append_take_drop_id set_append)
  then have "y \<in> set (drop n ?s)" using assms(3) by (simp add: order_limit_def)
  moreover have "sorted (map k (take n ?s @ drop n ?s))" by simp
  ultimately show ?thesis using assms(1)
    by (simp only: map_append sorted_append) (auto simp: order_limit_def)
qed

lemma order_limit_Nil: "0 < n \<Longrightarrow> order_limit k n rows = [] \<longleftrightarrow> rows = []"
proof -
  assume "0 < n"
  have "sort_key k rows = [] \<longleftrightarrow> rows = []"
    by (metis length_0_conv length_sort)
  with \<open>0 < n\<close> show ?thesis by (simp add: order_limit_def)
qed

section \<open>Interfaces\<close>

subsection \<open>Repositories\<close>

text \<open>
  What the services rely on from a repository: a keyed table inside the state, read and
  replaced as a whole.
\<close>

locale repository =
  fixes rows :: "'s \<Rightarrow> 'r list"
    and set_rows :: "'r list \<Rightarrow> 's \<Rightarrow> 's"
    and key :: "'r \<Rightarrow> 'k"
  assumes rows_set [simp]: "rows (set_rows xs s) = xs"
begin

definition keyed :: "'s \<Rightarrow> bool" where
  "keyed s \<longleftrightarrow> distinct (map key (rows s))"

lemma find_after_save:
  assumes "keyed s"
  shows "find_row (\<lambda>x. key x = key r) (rows (set_rows (save_row key r (rows s)) s)) = Some r"
  using assms find_row_key[OF distinct_save_row, of key "rows s" r r]
  by (simp add: keyed_def set_save_row)

lemma find_other_after_save:
  assumes "keyed s" "k \<noteq> key r"
  shows "find_row (\<lambda>x. key x = k) (rows (set_rows (save_row key r (rows s)) s)) =
         find_row (\<lambda>x. key x = k) (rows s)" (is "find_row ?p ?new = find_row ?p ?old")
proof (cases "find_row ?p ?old")
  case None
  then have "\<forall>x \<in> set ?new. \<not> ?p x" using assms(2)
    by (auto simp: find_row_None set_save_row)
  then have "find_row ?p ?new = None" by (simp only: find_row_None)
  then show ?thesis using None by simp
next
  case (Some x)
  then have x: "x \<in> set ?old" "key x = k" by (auto dest: find_row_Some)
  then have "x \<in> set ?new" using assms(2) by (auto simp: set_save_row)
  moreover have "distinct (map key ?new)" using assms(1) by (simp add: keyed_def distinct_save_row)
  ultimately show ?thesis using find_row_key[of key ?new x] x Some by simp
qed

lemma keyed_save: "keyed s \<Longrightarrow> keyed (set_rows (save_row key r (rows s)) s)"
  by (simp add: keyed_def distinct_save_row)

text \<open>A loop that saves, for one row after the other, an image of it. \<open>R\<close> bounds what else it does.\<close>

lemma save_loop:
  assumes one: "\<And>r s. \<exists>x t. m r s = (Inr x, t) \<and> rows t = save_row key (f r) (rows s) \<and> R s t"
    and R: "reflp R" "transp R"
  shows "\<exists>xs t. forE m rs s = (Inr xs, t) \<and> rows t = fold (\<lambda>r. save_row key (f r)) rs (rows s) \<and> R s t"
proof (induction rs arbitrary: s)
  case Nil
  show ?case using R(1) by (simp add: reflp_def)
next
  case (Cons r rs)
  obtain x t where t: "m r s = (Inr x, t)" "rows t = save_row key (f r) (rows s)" "R s t" using one by metis
  obtain xs t' where t': "forE m rs t = (Inr xs, t')" "rows t' = fold (\<lambda>r. save_row key (f r)) rs (rows t)" "R t t'"
    using Cons.IH[of t] by metis
  show ?case using t t' transpD[OF R(2)] by (auto simp: bindE_def)
qed

lemma save_sweep:
  assumes one: "\<And>r s. \<exists>x t. m r s = (Inr x, t) \<and> rows t = save_row key (f r) (rows s) \<and> R s t"
    and R: "reflp R" "transp R" and keyed: "keyed s" and key: "\<And>r. key (f r) = key r"
  shows "\<exists>xs t. forE m (filter p (rows s)) s = (Inr xs, t) \<and> rows t = update_rows p f (rows s) \<and> R s t"
proof -
  have "fold (\<lambda>r. save_row key (f r)) (filter p (rows s)) (rows s) = update_rows p f (rows s)"
    using fold_save_update[of key "[]" "rows s" f p] keyed key by (simp add: keyed_def)
  then show ?thesis using save_loop[where m = m and f = f and rs = "filter p (rows s)" and s = s, OF one R] by simp
qed

lemma keyed_delete: "keyed s \<Longrightarrow> keyed (set_rows (delete_rows p (rows s)) s)"
  by (simp add: keyed_def)

lemma keyed_update:
  "keyed s \<Longrightarrow> (\<And>r. p r \<Longrightarrow> key (f r) = key r) \<Longrightarrow>
     keyed (set_rows (update_rows p f (rows s)) s)"
  by (simp add: keyed_def map_update_rows)

end

subsection \<open>Transition systems\<close>

text \<open>
  The states a component reaches from its initial ones, and what an inductive invariant
  gives for all of them.
\<close>

locale transition_system =
  fixes initial :: "'s \<Rightarrow> bool"
    and step :: "'s \<Rightarrow> 's \<Rightarrow> bool"
    and invar :: "'s \<Rightarrow> bool"
  assumes initial_invar: "initial s \<Longrightarrow> invar s"
    and step_invar: "step s t \<Longrightarrow> invar s \<Longrightarrow> invar t"
begin

inductive reach :: "'s \<Rightarrow> bool" where
  start: "initial s \<Longrightarrow> reach s"
| move: "reach s \<Longrightarrow> step s t \<Longrightarrow> reach t"

lemma reach_invar: "reach s \<Longrightarrow> invar s"
  by (induction rule: reach.induct) (auto intro: initial_invar step_invar)

lemma run_invar: "step\<^sup>*\<^sup>* s t \<Longrightarrow> invar s \<Longrightarrow> invar t"
  by (induction rule: rtranclp_induct) (auto intro: step_invar)

end

subsection \<open>Bounded effects\<close>

text \<open>
  Handlers whose effect on the state stays within a reflexive and transitive relation: such a bound
  is compositional, so it is shown for the parts of a handler and holds for the whole.
\<close>

locale effect_order =
  fixes R :: "'s \<Rightarrow> 's \<Rightarrow> bool"
  assumes R_refl [simp]: "R s s"
    and R_trans: "R s t \<Longrightarrow> R t v \<Longrightarrow> R s v"
begin

definition confined :: "('s, 'a) handler \<Rightarrow> bool" where
  "confined m \<longleftrightarrow> (\<forall>s. R s (after m s))"

lemma confined_quiet: "quiet m \<Longrightarrow> confined m"
  by (simp add: confined_def)

lemma confined_prims [simp]:
  "confined (ret x)" "confined (throw e)" "confined (readE g)" "confined (liftE r)" "confined (guardE c e)"
  "confined (someE y e)" "confined (findE sel p e)"
  by (simp_all add: confined_quiet)

lemma confined_writeE: "(\<And>s. R s (w s)) \<Longrightarrow> confined (writeE w)"
  by (simp add: confined_def)

lemma confined_bindE:
  assumes "confined m" "\<And>x. confined (f x)"
  shows "confined (bindE m f)"
  unfolding confined_def
proof
  fix s
  show "R s (after (bindE m f) s)"
    using assms unfolding confined_def
    by (cases "m s"; cases "outcome m s") (auto simp: bindE_def dest: spec[of _ s], metis R_trans snd_conv)
qed

lemma confined_catchE:
  assumes "confined m" "\<And>x. confined (h x)"
  shows "confined (catchE m h)"
  unfolding confined_def
proof
  fix s
  show "R s (after (catchE m h) s)"
    using assms unfolding confined_def
    by (cases "m s"; cases "outcome m s") (auto simp: catchE_def dest: spec[of _ s], metis R_trans snd_conv)
qed

lemma confined_if: "(c \<Longrightarrow> confined m) \<Longrightarrow> (\<not> c \<Longrightarrow> confined n) \<Longrightarrow> confined (if c then m else n)"
  by simp

lemma confined_case_option:
  "(x = None \<Longrightarrow> confined m) \<Longrightarrow> (\<And>y. x = Some y \<Longrightarrow> confined (f y)) \<Longrightarrow>
     confined (case x of None \<Rightarrow> m | Some y \<Rightarrow> f y)"
  by (cases x) auto

lemma confined_case_prod: "(\<And>a b. x = (a, b) \<Longrightarrow> confined (f a b)) \<Longrightarrow> confined (case x of (a, b) \<Rightarrow> f a b)"
  by (cases x) simp

lemma confined_whenE: "(c \<Longrightarrow> confined m) \<Longrightarrow> confined (whenE c m)"
  by (simp add: confined_def)

lemma confined_forE: "(\<And>x. x \<in> set xs \<Longrightarrow> confined (f x)) \<Longrightarrow> confined (forE f xs)"
  by (induction xs) (auto intro!: confined_bindE)

lemmas confined_rules = confined_prims confined_bindE confined_catchE confined_if confined_case_option confined_case_prod
  confined_whenE confined_forE

end

end
