(* ===== verification/Store.thy ===== *)
theory Store
  imports Prelude "HOL-Library.Word"
begin

text \<open>
  The data model: the enums and entity classes of \<open>src/modules/*/entities\<close> as datatypes and
  records, the database as one record of tables together with the effects the services leave
  behind (realtime emissions, Redis publications, notifications, mails, Telegram messages, agent dispatches) and the in-memory
  counters of the task service, and the environment a handler runs in (clock, identifiers,
  hash function, configuration). Field names carry a prefix per entity because record
  fields share one name space.
\<close>

section \<open>Enumerations\<close>

datatype task_status = QUEUED | ACCEPTED | CLAIMED | RUNNING | SUCCESS | FAILED | CANCELLED

fun task_status_str :: "task_status \<Rightarrow> string" where
  "task_status_str QUEUED = ''queued''"
| "task_status_str ACCEPTED = ''accepted''"
| "task_status_str CLAIMED = ''claimed''"
| "task_status_str RUNNING = ''running''"
| "task_status_str SUCCESS = ''success''"
| "task_status_str FAILED = ''failed''"
| "task_status_str CANCELLED = ''cancelled''"

datatype task_log_level = LOG_INFO | LOG_STDOUT | LOG_STDERR | LOG_ERROR

datatype node_status = ONLINE | OFFLINE

fun node_status_str :: "node_status \<Rightarrow> string" where
  "node_status_str ONLINE = ''online''"
| "node_status_str OFFLINE = ''offline''"

datatype root_profile =
    RA_OFF | RA_OPERATIONAL | RA_TASK | RA_TERMINAL
  | RA_OPERATIONAL_TASK | RA_OPERATIONAL_TERMINAL | RA_TASK_TERMINAL | RA_ALL

fun root_profile_str :: "root_profile \<Rightarrow> string" where
  "root_profile_str RA_OFF = ''off''"
| "root_profile_str RA_OPERATIONAL = ''operational''"
| "root_profile_str RA_TASK = ''task''"
| "root_profile_str RA_TERMINAL = ''terminal''"
| "root_profile_str RA_OPERATIONAL_TASK = ''operational_task''"
| "root_profile_str RA_OPERATIONAL_TERMINAL = ''operational_terminal''"
| "root_profile_str RA_TASK_TERMINAL = ''task_terminal''"
| "root_profile_str RA_ALL = ''all''"

datatype sync_status = SYNC_PENDING | SYNC_APPLIED | SYNC_FAILED

fun sync_status_str :: "sync_status \<Rightarrow> string" where
  "sync_status_str SYNC_PENDING = ''pending''"
| "sync_status_str SYNC_APPLIED = ''applied''"
| "sync_status_str SYNC_FAILED = ''failed''"

datatype severity = INFO | WARNING | CRITICAL

fun severity_str :: "severity \<Rightarrow> string" where
  "severity_str INFO = ''info''"
| "severity_str WARNING = ''warning''"
| "severity_str CRITICAL = ''critical''"

datatype user_role = PLATFORM_ADMIN | USER

datatype membership_role = OWNER | ADMIN | MEMBER | VIEWER

fun membership_role_str :: "membership_role \<Rightarrow> string" where
  "membership_role_str OWNER = ''owner''"
| "membership_role_str ADMIN = ''admin''"
| "membership_role_str MEMBER = ''member''"
| "membership_role_str VIEWER = ''viewer''"

datatype invite_status = INVITE_PENDING | INVITE_ACCEPTED | INVITE_REVOKED

datatype rollout_status = RO_QUEUED | RO_RUNNING | RO_PAUSED | RO_COMPLETED | RO_CANCELLED

datatype target_status =
    TG_PENDING
  | TG_DISPATCHED | TG_DOWNLOADING | TG_VERIFYING | TG_INSTALLING | TG_RESTARTING | TG_WAITING_FOR_RECONNECT
  | TG_COMPLETED | TG_FAILED | TG_SKIPPED | TG_CANCELLED

datatype enrollment_status = EN_PENDING | EN_APPROVED | EN_REVOKED

datatype install_status = NI_PENDING | NI_INSTALLING | NI_COMPLETED | NI_FAILED | NI_EXPIRED

datatype terminal_status = TS_PENDING | TS_OPEN | TS_CLOSED | TS_FAILED | TS_TERMINATING

datatype transcript_direction = STDIN | STDOUT | STDERR | SYSTEM

datatype token_status = TK_PENDING | TK_CONSUMED | TK_REVOKED

datatype outbox_status = OB_PENDING | OB_PROCESSING | OB_FAILED | OB_DELIVERED | OB_DEAD_LETTER

section \<open>Entities\<close>

record workspace =
  w_id :: string
  w_name :: string
  w_slug :: string
  w_defaultTimezone :: string
  w_createdByUserId :: "string option"
  w_isArchived :: bool
  w_isDefault :: bool
  w_automationEmailEnabled :: bool
  w_automationTelegramEnabled :: bool
  w_automationTelegramBotToken :: "string option"
  w_automationTelegramChatId :: "string option"
  w_automationEmailLevels :: "severity list"
  w_automationTelegramLevels :: "severity list"
  w_createdAt :: int
  w_updatedAt :: int

record membership =
  m_id :: string
  m_workspaceId :: string
  m_userId :: string
  m_role :: membership_role
  m_createdAt :: int
  m_updatedAt :: int

record team =
  tm_id :: string
  tm_workspaceId :: string
  tm_name :: string
  tm_description :: "string option"
  tm_createdAt :: int
  tm_updatedAt :: int

record team_membership =
  tmm_id :: string
  tmm_teamId :: string
  tmm_userId :: string
  tmm_createdAt :: int

record user =
  u_id :: string
  u_email :: string
  u_name :: string
  u_role :: user_role
  u_isActive :: bool
  u_inviteStatus :: invite_status
  u_passwordHash :: "string option"
  u_timezone :: string
  u_lastInvitedAt :: "int option"
  u_activatedAt :: "int option"
  u_criticalEventEmailsEnabled :: bool
  u_enrollmentEmailsEnabled :: bool
  u_sessionVersion :: int
  u_mfaEnabled :: bool
  u_mfaSecretEncrypted :: "string option"
  u_mfaPendingSecretEncrypted :: "string option"
  u_mfaRecoveryCodes :: "string list option"
  u_mfaEnabledAt :: "int option"
  u_createdAt :: int
  u_updatedAt :: int

text \<open>Invitations and password resets are rows of the same shape; \<open>TK_CONSUMED\<close> is \<open>accepted\<close>
  for the one and \<open>used\<close> for the other. A password reset has no creator.\<close>

record user_token =
  ut_id :: string
  ut_userId :: string
  ut_tokenLookupHash :: string
  ut_tokenHash :: string
  ut_status :: token_status
  ut_createdByUserId :: "string option"
  ut_expiresAt :: int
  ut_consumedAt :: "int option"
  ut_revokedAt :: "int option"
  ut_createdAt :: int
  ut_updatedAt :: int

record node_location =
  l_provider :: "string option"
  l_source :: "string option"
  l_region :: "string option"
  l_zone :: "string option"
  l_latitude :: "rat option"
  l_longitude :: "rat option"
  l_updatedAt :: "int option"

record node =
  n_id :: string
  n_workspaceId :: string
  n_name :: string
  n_description :: "string option"
  n_hostname :: string
  n_os :: string
  n_arch :: string
  n_status :: node_status
  n_teamId :: "string option"
  n_maintenanceMode :: bool
  n_maintenanceReason :: "string option"
  n_maintenanceStartedAt :: "int option"
  n_maintenanceByUserId :: "string option"
  n_notificationEmailEnabled :: bool
  n_notificationEmailLevels :: "severity list"
  n_notificationTelegramEnabled :: bool
  n_notificationTelegramLevels :: "severity list"
  n_rootAccessProfile :: root_profile
  n_rootAccessAppliedProfile :: root_profile
  n_rootAccessSyncStatus :: sync_status
  n_rootAccessUpdatedAt :: "int option"
  n_rootAccessUpdatedByUserId :: "string option"
  n_rootAccessExpiresAt :: "int option"
  n_rootAccessReason :: "string option"
  n_rootAccessGrantedByUserId :: "string option"
  n_rootAccessGrantId :: "string option"
  n_rootAccessLastAppliedAt :: "int option"
  n_rootAccessLastError :: "string option"
  n_agentVersion :: "string option"
  n_platformVersion :: "string option"
  n_kernelVersion :: "string option"
  n_lastVersionReportedAt :: "int option"
  n_location :: node_location
  n_lastSeenAt :: "int option"
  n_agentTokenHash :: "string option"
  n_pendingAgentTokenHash :: "string option"
  n_pendingAgentTokenExpiresAt :: "int option"
  n_agentTokenRotatedAt :: "int option"
  n_agentTokenRevokedAt :: "int option"
  n_createdAt :: int
  n_updatedAt :: int

record task =
  t_id :: string
  t_workspaceId :: string
  t_nodeId :: string
  t_targetTeamId :: "string option"
  t_templateId :: "string option"
  t_templateName :: "string option"
  t_type :: string
  t_isInternal :: bool
  t_payload :: json_object
  t_status :: task_status
  t_result :: "json_object option"
  t_output :: "string option"
  t_outputTruncated :: "bool option"
  t_leaseUntil :: "int option"
  t_claimedBy :: "string option"
  t_claimToken :: "string option"
  t_startedAt :: "int option"
  t_finishedAt :: "int option"
  t_cancelRequestedAt :: "int option"
  t_cancelReason :: "string option"
  t_createdAt :: int
  t_updatedAt :: int

record task_log =
  tl_id :: string
  tl_taskId :: string
  tl_level :: task_log_level
  tl_message :: string
  tl_timestamp :: "int option"
  tl_createdAt :: int

record task_template =
  tt_id :: string
  tt_workspaceId :: string
  tt_name :: string
  tt_description :: "string option"
  tt_taskType :: string
  tt_payloadTemplate :: json_object
  tt_createdByUserId :: string
  tt_updatedByUserId :: string
  tt_archivedAt :: "int option"
  tt_createdAt :: int
  tt_updatedAt :: int

record scheduled_task =
  st_id :: string
  st_workspaceId :: string
  st_nodeId :: "string option"
  st_targetTeamId :: "string option"
  st_templateId :: "string option"
  st_templateName :: "string option"
  st_ownerUserId :: "string option"
  st_name :: string
  st_command :: string
  st_runAsRoot :: bool
  st_cadence :: string
  st_minute :: int
  st_hour :: "int option"
  st_dayOfWeek :: "int option"
  st_intervalMinutes :: "int option"
  st_timezone :: string
  st_timezoneSource :: string
  st_enabled :: bool
  st_nextRunAt :: "int option"
  st_lastRunAt :: "int option"
  st_lastRunTaskId :: "string option"
  st_lastError :: "string option"
  st_leaseUntil :: "int option"
  st_claimedBy :: "string option"
  st_claimToken :: "string option"
  st_createdAt :: int
  st_updatedAt :: int

record rollout =
  ro_id :: string
  ro_targetVersion :: string
  ro_status :: rollout_status
  ro_rollback :: bool
  ro_requestedByUserId :: "string option"
  ro_requestedByEmailSnapshot :: "string option"
  ro_startedAt :: "int option"
  ro_completedAt :: "int option"
  ro_cancelledAt :: "int option"
  ro_statusMessage :: "string option"
  ro_createdAt :: int
  ro_updatedAt :: int

record rollout_target =
  rt_id :: string
  rt_rolloutId :: string
  rt_nodeId :: string
  rt_workspaceId :: string
  rt_teamId :: "string option"
  rt_nodeNameSnapshot :: string
  rt_previousVersion :: "string option"
  rt_targetVersion :: string
  rt_status :: target_status
  rt_progressPercent :: int
  rt_statusMessage :: "string option"
  rt_taskId :: "string option"
  rt_sequence :: nat
  rt_dispatchedAt :: "int option"
  rt_completedAt :: "int option"
  rt_createdAt :: int
  rt_updatedAt :: int

record enrollment =
  en_id :: string
  en_workspaceId :: "string option"
  en_email :: string
  en_tokenHash :: string
  en_tokenLookupHash :: string
  en_hostname :: string
  en_additionalInfo :: "json_object option"
  en_createdAt :: int
  en_expiresAt :: int
  en_status :: enrollment_status
  en_nodeId :: "string option"
  en_agentToken :: "string option"

record node_install =
  ni_id :: string
  ni_workspaceId :: string
  ni_teamId :: "string option"
  ni_nodeName :: string
  ni_description :: "string option"
  ni_tokenHash :: string
  ni_tokenLookupHash :: string
  ni_hostname :: "string option"
  ni_additionalInfo :: "json_object option"
  ni_nodeId :: "string option"
  ni_status :: install_status
  ni_stage :: string
  ni_progressPercent :: int
  ni_statusMessage :: "string option"
  ni_startedAt :: "int option"
  ni_consumedAt :: "int option"
  ni_expiresAt :: int
  ni_createdAt :: int
  ni_updatedAt :: int

record terminal_session =
  ts_id :: string
  ts_workspaceId :: string
  ts_nodeId :: string
  ts_createdByUserId :: "string option"
  ts_createdByEmailSnapshot :: "string option"
  ts_status :: terminal_status
  ts_openedAt :: "int option"
  ts_closedAt :: "int option"
  ts_closedReason :: "string option"
  ts_exitCode :: "int option"
  ts_cols :: int
  ts_rows :: int
  ts_runAsRoot :: bool
  ts_rootAccessGrantId :: "string option"
  ts_retentionExpiresAt :: int
  ts_transcriptBytes :: int
  ts_chunkCount :: int
  ts_lastChunkSeq :: int
  ts_createdAt :: int
  ts_updatedAt :: int

record terminal_chunk =
  tc_id :: string
  tc_sessionId :: string
  tc_direction :: transcript_direction
  tc_encoding :: string
  tc_payload :: string
  tc_seq :: int
  tc_sourceTimestamp :: "int option"
  tc_createdAt :: int

record lifecycle_event =
  le_id :: string
  le_nodeId :: string
  le_taskId :: string
  le_eventType :: string
  le_eventId :: "string option"
  le_eventSeq :: "int option"
  le_eventTimestamp :: int
  le_payload :: json_object
  le_createdAt :: int

record oidc_provider =
  op_id :: string
  op_slug :: string
  op_name :: string
  op_preset :: "string option"
  op_issuer :: string
  op_clientId :: string
  op_clientSecretEncrypted :: "string option"
  op_discoveryUrl :: string
  op_scopes :: "string list"
  op_enabled :: bool
  op_createdAt :: int
  op_updatedAt :: int

record oidc_identity =
  oi_id :: string
  oi_providerId :: string
  oi_userId :: string
  oi_subject :: string
  oi_email :: string
  oi_createdAt :: int

record metric =
  mt_id :: string
  mt_workspaceId :: string
  mt_nodeId :: string
  mt_cpuUsage :: rat
  mt_memoryUsage :: rat
  mt_diskUsage :: rat
  mt_temperature :: "rat option"
  mt_networkStats :: json_object
  mt_recordedAt :: int

record event =
  ev_id :: string
  ev_workspaceId :: string
  ev_nodeId :: "string option"
  ev_type :: string
  ev_severity :: severity
  ev_message :: string
  ev_metadata :: "json_object option"
  ev_createdAt :: int

record audit_context =
  ac_actorType :: "string option"
  ac_actorUserId :: "string option"
  ac_actorEmailSnapshot :: "string option"
  ac_ipAddress :: "string option"
  ac_userAgent :: "string option"

record audit_log =
  al_id :: string
  al_scope :: string
  al_workspaceId :: "string option"
  al_actorType :: string
  al_actorUserId :: "string option"
  al_actorEmailSnapshot :: "string option"
  al_action :: string
  al_targetType :: string
  al_targetId :: "string option"
  al_targetLabel :: "string option"
  al_ipAddress :: "string option"
  al_userAgent :: "string option"
  al_changes :: "json_object option"
  al_metadata :: "json_object option"
  al_createdAt :: int

record outbox_event =
  o_id :: string
  o_type :: string
  o_payload :: json_object
  o_status :: outbox_status
  o_attempts :: int
  o_maxAttempts :: int
  o_availableAt :: int
  o_lockedAt :: "int option"
  o_lockedBy :: "string option"
  o_processedAt :: "int option"
  o_lastError :: "string option"
  o_createdAt :: int
  o_updatedAt :: int

text \<open>A message handed to the mail transport (\<open>MailDeliveryRecord\<close>).\<close>

record mail =
  ml_to :: "string list"
  ml_subject :: string
  ml_text :: string
  ml_html :: string

text \<open>The signed-in operator (\<open>AuthenticatedUser\<close>).\<close>

record actor =
  a_id :: string
  a_email :: string
  a_role :: user_role

section \<open>The database, effects and environment\<close>

text \<open>What the terminal service of an instance keeps in memory: which timers run, which controller
  sockets are attached to which session (with the user), how many per session, and the command lines
  being typed.\<close>

record terminal_runtime =
  tr_pendingOpen :: "string list"
  tr_detach :: "string list"
  tr_termination :: "string list"
  tr_attachments :: "(string \<times> string \<times> string) list"
  tr_controllers :: "(string \<times> nat) list"
  tr_buffers :: "string \<Rightarrow> string"

text \<open>What the agent realtime service of an instance keeps in memory: its sockets (\<open>AgentSocketSession\<close>), the
  socket of each node and its counters; and the routes the instances share in Redis (\<open>AgentNodeRoute\<close>, with the
  date at which the key expires).\<close>

record socket_session =
  sk_socketId :: string
  sk_nodeId :: string
  sk_agentToken :: string
  sk_authenticatedAt :: int
  sk_lastPingAt :: int
  sk_lastAgentReportedPingAt :: "int option"

record node_route =
  nr_nodeId :: string
  nr_instanceId :: string
  nr_socketId :: string
  nr_updatedAt :: string
  nr_keyExpiresAt :: int

record realtime_runtime =
  rl_nodeToSocketId :: "(string \<times> string) list"
  rl_socketToSession :: "socket_session list"
  rl_counters :: "string \<Rightarrow> nat"
  rl_routes :: "node_route list"

record db =
  workspaces :: "workspace list"
  memberships :: "membership list"
  teams :: "team list"
  team_memberships :: "team_membership list"
  users :: "user list"
  nodes :: "node list"
  tasks :: "task list"
  task_logs :: "task_log list"
  task_templates :: "task_template list"
  scheduled_tasks :: "scheduled_task list"
  invitations :: "user_token list"
  password_resets :: "user_token list"
  rollouts :: "rollout list"
  rollout_targets :: "rollout_target list"
  enrollments :: "enrollment list"
  node_installs :: "node_install list"
  terminal_sessions :: "terminal_session list"
  terminal_chunks :: "terminal_chunk list"
  metrics :: "metric list"
  lifecycle_events :: "lifecycle_event list"
  oidc_providers :: "oidc_provider list"
  oidc_identities :: "oidc_identity list"
  consumed_tokens :: "(string \<times> int) list"
  controller_counts :: "(string \<times> int \<times> int) list"
  realtime :: realtime_runtime
  terminal :: terminal_runtime
  events :: "event list"
  audit_logs :: "audit_log list"
  outbox_events :: "outbox_event list"
  emitted :: "(string \<times> json) list"
  published :: "(string \<times> json) list"
  notified :: "string list"
  dispatched :: "string list"
  mailed :: "mail list"
  telegrams :: "(string \<times> json) list"
  agent_messages :: "(string \<times> string \<times> json) list"
  disconnects :: "string list"
  counters :: "string \<Rightarrow> nat"
  lastClaimAt :: "int option"
  drawn :: nat

text \<open>
  \<open>e_uuid\<close> is the stream of generated identifiers, \<open>e_token\<close> that of random secrets, and \<open>drawn\<close>
  how many are used.
  \<open>e_sha256\<close> stands for Node's \<open>crypto\<close>, \<open>e_lookupHash\<close> for the keyed hash a token is looked up by,
  \<open>e_hashSecret\<close> and \<open>e_matchesSecret\<close> for \<open>bcrypt.hash\<close> (with the salt it draws) and \<open>bcrypt.compare\<close>.
  \<open>e_validTimeZone\<close>, \<open>e_offsetMs\<close> and \<open>e_zoneName\<close> stand
  for \<open>Intl.DateTimeFormat\<close>: whether it accepts a zone name, the UTC offset (in milliseconds) it
  uses for a zone at an instant, and the \<open>shortOffset\<close> name it prints. \<open>e_outbox\<close> says whether
  the optional outbox service is injected. \<open>e_redisEnabled\<close> and \<open>e_redisReady\<close> say whether there is a Redis client and
  whether it is connected; \<open>e_socket\<close> gives the length of the write buffer of an open agent socket. \<open>e_signJwt\<close> (claims and expiry date)
  and \<open>e_verifyJwt\<close> (at an instant) stand for the JWT library, \<open>e_encrypt\<close> (a nonce, the key, the text) and \<open>e_decrypt\<close> for AES-GCM,
  \<open>e_hmacSha1\<close> and \<open>e_randomBytes\<close> (the draw, the number of bytes) for \<open>crypto\<close>. The rest is configuration.
\<close>

datatype jwt_failure = TokenExpired | TokenInvalid | TokenFailed

record env =
  e_now :: int
  e_uuid :: "nat \<Rightarrow> string"
  e_token :: "nat \<Rightarrow> string"
  e_sha256 :: "string \<Rightarrow> string"
  e_lookupHash :: "string \<Rightarrow> string"
  e_hashSecret :: "nat \<Rightarrow> string \<Rightarrow> string"
  e_matchesSecret :: "string \<Rightarrow> string \<Rightarrow> bool"
  e_validTimeZone :: "string \<Rightarrow> bool"
  e_offsetMs :: "string \<Rightarrow> int \<Rightarrow> int"
  e_zoneName :: "string \<Rightarrow> int \<Rightarrow> string option"
  e_outbox :: bool
  e_instanceId :: string
  e_taskClaimLeaseSeconds :: int
  e_enableRealtimeTaskDispatch :: bool
  e_heartbeatTimeoutSeconds :: int
  e_rootAccessMaxDurationMinutes :: "int option"
  e_enrollmentToken :: "string option"
  e_highCpuThreshold :: rat
  e_realtimePingTimeoutSeconds :: int
  e_redisEnabled :: bool
  e_redisReady :: bool
  e_realtimeInstanceId :: string
  e_socket :: "string \<Rightarrow> nat option"
  e_signJwt :: "json_object \<Rightarrow> int \<Rightarrow> string"
  e_verifyJwt :: "int \<Rightarrow> string \<Rightarrow> jwt_failure + json_object"
  e_jwtExpiresInMs :: int
  e_jwtExpiresIn :: string
  e_secretsEncryptionKey :: "string option"
  e_encrypt :: "nat \<Rightarrow> string \<Rightarrow> string \<Rightarrow> string"
  e_decrypt :: "string \<Rightarrow> string \<Rightarrow> string option"
  e_hmacSha1 :: "8 word list \<Rightarrow> 8 word list \<Rightarrow> 8 word list"
  e_randomBytes :: "nat \<Rightarrow> nat \<Rightarrow> 8 word list"

type_synonym 'a op = "(db, 'a) handler"

text \<open>Drawing an identifier (\<open>randomUUID\<close>, or the default of a primary key column).\<close>

definition fresh_id :: "env \<Rightarrow> string op" where
  "fresh_id e = bindE (readE drawn) (\<lambda>n. bindE (writeE (\<lambda>s. s\<lparr>drawn := Suc n\<rparr>)) (\<lambda>_. ret (e_uuid e n)))"

lemma fresh_id_apply [simp]: "fresh_id e s = (Inr (e_uuid e (drawn s)), s\<lparr>drawn := Suc (drawn s)\<rparr>)"
  by (simp add: fresh_id_def)

lemma bindE_fresh_id [simp]:
  "bindE (fresh_id e) f s = f (e_uuid e (drawn s)) (s\<lparr>drawn := Suc (drawn s)\<rparr>)"
  by (simp add: bindE_def)

text \<open>Drawing a secret (\<open>randomBytes(32).toString('hex')\<close>).\<close>

definition fresh_token :: "env \<Rightarrow> string op" where
  "fresh_token e = bindE (readE drawn) (\<lambda>n. bindE (writeE (\<lambda>s. s\<lparr>drawn := Suc n\<rparr>)) (\<lambda>_. ret (e_token e n)))"

lemma bindE_fresh_token [simp]:
  "bindE (fresh_token e) f s = f (e_token e (drawn s)) (s\<lparr>drawn := Suc (drawn s)\<rparr>)"
  by (simp add: fresh_token_def)

text \<open>Every identifier in use was drawn, and the stream never repeats.\<close>

definition issued :: "env \<Rightarrow> db \<Rightarrow> string \<Rightarrow> bool" where
  "issued e s i \<longleftrightarrow> (\<exists>n < drawn s. e_uuid e n = i)"

lemma not_issued_next: "inj (e_uuid e) \<Longrightarrow> \<not> issued e s (e_uuid e (drawn s))"
  by (auto simp: issued_def inj_def)

text \<open>The tables the business logic works on, as opposed to its outputs (events, audit trail, outbox,
  realtime traffic, notifications, statistics).\<close>

definition core where
  "core s = (workspaces s, memberships s, teams s, team_memberships s, users s, nodes s,
     (tasks s, task_logs s, task_templates s, scheduled_tasks s),
     (invitations s, password_resets s, rollouts s, rollout_targets s, enrollments s, node_installs s),
     (terminal_sessions s, terminal_chunks s, metrics s, terminal s),
     (lifecycle_events s, oidc_providers s, oidc_identities s, consumed_tokens s, controller_counts s, realtime s))"

lemma core_eqD:
  assumes "core s = core t"
  shows "workspaces s = workspaces t" "memberships s = memberships t" "teams s = teams t"
    "team_memberships s = team_memberships t" "users s = users t" "nodes s = nodes t"
    "tasks s = tasks t" "task_logs s = task_logs t" "task_templates s = task_templates t"
    "scheduled_tasks s = scheduled_tasks t"
    "invitations s = invitations t" "password_resets s = password_resets t"
    "rollouts s = rollouts t" "rollout_targets s = rollout_targets t"
    "enrollments s = enrollments t" "node_installs s = node_installs t"
    "terminal_sessions s = terminal_sessions t" "terminal_chunks s = terminal_chunks t"
    "metrics s = metrics t" "terminal s = terminal t"
    "lifecycle_events s = lifecycle_events t" "oidc_providers s = oidc_providers t"
    "oidc_identities s = oidc_identities t" "consumed_tokens s = consumed_tokens t"
    "controller_counts s = controller_counts t" "realtime s = realtime t"
  using assms by (simp_all add: core_def)

lemmas frames_core = core_eqD[OF framesD]

text \<open>Handlers that only add to the outputs (and may draw identifiers), and the invariants that do not
  depend on them.\<close>

named_theorems output_rules \<open>introduction rules for handlers that only produce output\<close>

definition outputs :: "'a op \<Rightarrow> bool" where
  "outputs m \<longleftrightarrow> (\<forall>s. core (after m s) = core s \<and> drawn s \<le> drawn (after m s))"

lemma output_quiet: "quiet m \<Longrightarrow> outputs m"
  by (simp add: outputs_def)

lemma output_prims [output_rules, simp]:
  "outputs (ret x)" "outputs (throw e)" "outputs (readE g)" "outputs (liftE r)" "outputs (guardE c e)"
  "outputs (someE y e)" "outputs (findE sel p e)"
  by (simp_all add: output_quiet)

lemma output_bindE [output_rules]:
  assumes "outputs m" "\<And>x. outputs (f x)"
  shows "outputs (bindE m f)"
  unfolding outputs_def
proof
  fix s
  show "core (after (bindE m f) s) = core s \<and> drawn s \<le> drawn (after (bindE m f) s)"
    using assms unfolding outputs_def
    by (cases "m s"; cases "outcome m s") (auto simp: bindE_def dest: spec[of _ s], (metis order_trans snd_conv)+)
qed

lemma output_if [output_rules]: "(c \<Longrightarrow> outputs m) \<Longrightarrow> (\<not> c \<Longrightarrow> outputs n) \<Longrightarrow> outputs (if c then m else n)"
  by simp

lemma output_case_option [output_rules]:
  "(x = None \<Longrightarrow> outputs m) \<Longrightarrow> (\<And>y. x = Some y \<Longrightarrow> outputs (f y)) \<Longrightarrow>
     outputs (case x of None \<Rightarrow> m | Some y \<Rightarrow> f y)"
  by (cases x) auto

lemma output_case_prod [output_rules]:
  "(\<And>a b. x = (a, b) \<Longrightarrow> outputs (f a b)) \<Longrightarrow> outputs (case x of (a, b) \<Rightarrow> f a b)"
  by (cases x) simp

lemma output_whenE [output_rules]: "(c \<Longrightarrow> outputs m) \<Longrightarrow> outputs (whenE c m)"
  by (simp add: outputs_def)

lemma output_forE [output_rules]: "(\<And>x. x \<in> set xs \<Longrightarrow> outputs (f x)) \<Longrightarrow> outputs (forE f xs)"
  by (induction xs) (auto intro!: output_rules)

lemma output_fresh_id [output_rules, simp]: "outputs (fresh_id e)"
  and output_fresh_token [output_rules, simp]: "outputs (fresh_token e)"
  by (simp_all add: outputs_def core_def fresh_token_def)

lemma output_frames: "outputs m \<Longrightarrow> frames core m"
  by (simp add: outputs_def frames_def)

lemma output_run: "outputs m \<Longrightarrow> m s = (r, t) \<Longrightarrow> core t = core s"
  by (metis outputs_def snd_conv)

lemmas output_run_nodes = core_eqD(6)[OF output_run]

lemmas output_run_tasks = core_eqD(7)[OF output_run]

definition stable :: "(db \<Rightarrow> bool) \<Rightarrow> bool" where
  "stable P \<longleftrightarrow> (\<forall>s t. P s \<and> core t = core s \<and> drawn s \<le> drawn t \<longrightarrow> P t)"

lemma stableI: "(\<And>s t. P s \<Longrightarrow> core t = core s \<Longrightarrow> drawn s \<le> drawn t \<Longrightarrow> P t) \<Longrightarrow> stable P"
  by (auto simp: stable_def)

lemma stable_conj [intro]: "stable P \<Longrightarrow> stable Q \<Longrightarrow> stable (\<lambda>s. P s \<and> Q s)"
  unfolding stable_def by blast

lemma stable_nodes [intro]: "stable (\<lambda>s. F (nodes s))"
  and stable_tasks [intro]: "stable (\<lambda>s. G (tasks s))"
  by (rule stableI, metis core_eqD(6)) (rule stableI, metis core_eqD(7))

lemma keeps_output: "stable P \<Longrightarrow> outputs m \<Longrightarrow> keeps P m"
  unfolding stable_def keeps_def outputs_def by blast

lemma leads_output: "stable P \<Longrightarrow> outputs m \<Longrightarrow> (\<And>s. P s \<Longrightarrow> Q s) \<Longrightarrow> leads P m Q"
  unfolding stable_def leads_def outputs_def by blast

lemma leads_after_output:
  "stable P \<Longrightarrow> outputs m \<Longrightarrow> (\<And>s. P s \<Longrightarrow> Q s) \<Longrightarrow> (\<And>x. leads P (f x) Q) \<Longrightarrow> leads P (bindE m f) Q"
  by (rule leads_seq[where R = P]) (simp_all add: leads_output)

section \<open>Repositories\<close>

interpretation ws_repo: repository workspaces "\<lambda>xs s. s\<lparr>workspaces := xs\<rparr>" w_id
  by unfold_locales simp

interpretation node_repo: repository nodes "\<lambda>xs s. s\<lparr>nodes := xs\<rparr>" n_id
  by unfold_locales simp

interpretation task_repo: repository tasks "\<lambda>xs s. s\<lparr>tasks := xs\<rparr>" t_id
  by unfold_locales simp

interpretation outbox_repo: repository outbox_events "\<lambda>xs s. s\<lparr>outbox_events := xs\<rparr>" o_id
  by unfold_locales simp

section \<open>A concrete environment\<close>

text \<open>Used by the closed instances of the properties.\<close>

definition base_env :: env where
  "base_env = \<lparr>e_now = 1000000, e_uuid = show_nat, e_token = show_nat, e_sha256 = id,
     e_lookupHash = id, e_hashSecret = (\<lambda>_. id), e_matchesSecret = (=),
     e_validTimeZone = (\<lambda>z. z = ''UTC''), e_offsetMs = (\<lambda>_ _. 0), e_zoneName = (\<lambda>_ _. Some ''GMT''), e_outbox = True,
     e_instanceId = ''api-1'', e_taskClaimLeaseSeconds = 60, e_enableRealtimeTaskDispatch = False,
     e_heartbeatTimeoutSeconds = 60, e_rootAccessMaxDurationMinutes = Some 120,
     e_enrollmentToken = None, e_highCpuThreshold = 90, e_realtimePingTimeoutSeconds = 45,
     e_redisEnabled = False, e_redisReady = False, e_realtimeInstanceId = ''host-1'', e_socket = (\<lambda>_. Some 0),
     e_signJwt = (\<lambda>_ _. []), e_verifyJwt = (\<lambda>_ _. Inl TokenInvalid), e_jwtExpiresInMs = 3600000, e_jwtExpiresIn = ''1h'',
     e_secretsEncryptionKey = Some ''k'', e_encrypt = (\<lambda>_ _ x. x), e_decrypt = (\<lambda>_ x. Some x),
     e_hmacSha1 = (\<lambda>_ _. replicate 20 0), e_randomBytes = (\<lambda>_ n. replicate n 0)\<rparr>"

definition empty_db :: db where
  "empty_db = \<lparr>workspaces = [], memberships = [], teams = [], team_memberships = [], users = [],
     nodes = [], tasks = [], task_logs = [], task_templates = [], scheduled_tasks = [],
     invitations = [], password_resets = [], rollouts = [], rollout_targets = [], enrollments = [],
     node_installs = [], terminal_sessions = [], terminal_chunks = [], metrics = [],
     lifecycle_events = [], oidc_providers = [], oidc_identities = [], consumed_tokens = [], controller_counts = [],
     realtime = \<lparr>rl_nodeToSocketId = [], rl_socketToSession = [], rl_counters = (\<lambda>_. 0), rl_routes = []\<rparr>,
     terminal = \<lparr>tr_pendingOpen = [], tr_detach = [], tr_termination = [], tr_attachments = [],
       tr_controllers = [], tr_buffers = (\<lambda>_. [])\<rparr>,
     events = [], audit_logs = [], outbox_events = [], emitted = [], published = [],
     notified = [], dispatched = [], mailed = [], telegrams = [], agent_messages = [], disconnects = [], counters = (\<lambda>_. 0), lastClaimAt = None, drawn = 0\<rparr>"

end
