(* ===== verification/Outbox.thy ===== *)
theory Outbox
  imports Store "HOL-Library.Product_Lexorder"
begin

text \<open>
  The transactional outbox: \<open>src/modules/outbox/outbox.service.ts\<close> (enqueueing, claiming a
  batch with a two-minute lease, delivery bookkeeping, backoff, dead-letter remediation) and
  \<open>outbox-dispatcher.service.ts\<close> (the polling dispatcher). The lemmas show what a claim
  does, that claims of different workers do not overlap while a lease lasts, the backoff
  bounds, that a dispatcher run drains every due event and stops, and the lifecycle
  invariant of the table.
\<close>

section \<open>Outbox service\<close>

definition OUTBOX_DEAD_LETTER_PREVIEW_LIMIT :: int where
  "OUTBOX_DEAD_LETTER_PREVIEW_LIMIT = 8"

definition OUTBOX_WEB_REMEDIATE_TYPES :: "string list" where
  "OUTBOX_WEB_REMEDIATE_TYPES = [''event.created'']"

definition enqueue ::
  "env \<Rightarrow> string \<Rightarrow> json_object \<Rightarrow> int option \<Rightarrow> int option \<Rightarrow> outbox_event op" where
  "enqueue e type payload availableAt maxAttempts =
     bindE (fresh_id e) (\<lambda>i.
       let ev = \<lparr>o_id = i, o_type = type, o_payload = payload, o_status = OB_PENDING,
                 o_attempts = 0, o_maxAttempts = (case maxAttempts of None \<Rightarrow> 8 | Some m \<Rightarrow> m),
                 o_availableAt = (case availableAt of None \<Rightarrow> e_now e | Some t \<Rightarrow> t),
                 o_lockedAt = None, o_lockedBy = None, o_processedAt = None, o_lastError = None,
                 o_createdAt = e_now e, o_updatedAt = e_now e\<rparr>
       in bindE (writeE (\<lambda>s. s\<lparr>outbox_events := save_row o_id ev (outbox_events s)\<rparr>)) (\<lambda>_. ret ev))"

text \<open>The \<open>due\<close> rows of the claim query, and what its \<open>UPDATE\<close> sets.\<close>

definition due :: "int \<Rightarrow> outbox_event \<Rightarrow> bool" where
  "due now ev \<longleftrightarrow>
     o_status ev \<in> {OB_PENDING, OB_FAILED} \<and> o_availableAt ev \<le> now \<or>
     o_status ev = OB_PROCESSING \<and>
       (case o_lockedAt ev of None \<Rightarrow> False | Some t \<Rightarrow> t \<le> now - 2 * 60 * 1000)"

definition lock_event :: "int \<Rightarrow> string \<Rightarrow> outbox_event \<Rightarrow> outbox_event" where
  "lock_event now worker ev =
     ev\<lparr>o_status := OB_PROCESSING, o_attempts := o_attempts ev + 1, o_lockedAt := Some now,
        o_lockedBy := Some worker, o_updatedAt := now\<rparr>"

definition due_batch :: "int \<Rightarrow> int \<Rightarrow> outbox_event list \<Rightarrow> outbox_event list" where
  "due_batch now limit rows =
     order_limit (\<lambda>ev. (o_availableAt ev, o_createdAt ev)) (nat limit) (filter (due now) rows)"

text \<open>The driver answers an \<open>UPDATE \<dots> RETURNING\<close> with the rows, or with the pair of the rows
  and their count; both shapes are accepted, and entries that are no objects are dropped.\<close>

fun row_objects :: "json list \<Rightarrow> json_object list" where
  "row_objects [] = []"
| "row_objects (JObj ob # js) = ob # row_objects js"
| "row_objects (_ # js) = row_objects js"

fun normalizeClaimRows :: "json \<Rightarrow> json_object list" where
  "normalizeClaimRows (JArr [JArr rows, x]) = row_objects rows"
| "normalizeClaimRows (JArr rows) = row_objects rows"
| "normalizeClaimRows _ = []"

definition claimed_id :: "json_object \<Rightarrow> string option" where
  "claimed_id row =
     (case jget row ''id'' of
        Some (JStr (c # cs)) \<Rightarrow> Some (c # cs)
      | _ \<Rightarrow> (case jget row ''outbox_id'' of Some (JStr (c # cs)) \<Rightarrow> Some (c # cs) | _ \<Rightarrow> None))"

definition returned_row :: "outbox_event \<Rightarrow> json" where
  "returned_row ev =
     JObj [(''id'', JStr (o_id ev)), (''type'', JStr (o_type ev)),
           (''attempts'', JNum (o_attempts ev)), (''maxAttempts'', JNum (o_maxAttempts ev))]"

definition claimDueBatch :: "env \<Rightarrow> string \<Rightarrow> int \<Rightarrow> outbox_event list op" where
  "claimDueBatch e worker limit =
     (if limit \<le> 0 then ret []
      else
        bindE (readE (\<lambda>s. due_batch (e_now e) limit (outbox_events s))) (\<lambda>batch.
        bindE (writeE (\<lambda>s. s\<lparr>outbox_events :=
                 update_rows (\<lambda>ev. o_id ev \<in> o_id ` set batch) (lock_event (e_now e) worker)
                   (outbox_events s)\<rparr>)) (\<lambda>_.
        let raw = JArr [JArr (map (returned_row \<circ> lock_event (e_now e) worker) batch),
                        JNum (int (length batch))];
            claimedIds = List.map_filter claimed_id (normalizeClaimRows raw)
        in bindE (readE outbox_events) (\<lambda>rows.
             ret (List.map_filter (\<lambda>i. find_row (\<lambda>ev. o_id ev = i) rows) claimedIds)))))"

definition deliver_event :: "int \<Rightarrow> outbox_event \<Rightarrow> outbox_event" where
  "deliver_event now ev =
     ev\<lparr>o_status := OB_DELIVERED, o_processedAt := Some now, o_lockedAt := None,
        o_lockedBy := None, o_lastError := None, o_updatedAt := now\<rparr>"

definition markDelivered :: "env \<Rightarrow> string \<Rightarrow> unit op" where
  "markDelivered e i =
     writeE (\<lambda>s. s\<lparr>outbox_events :=
       update_rows (\<lambda>ev. o_id ev = i) (deliver_event (e_now e)) (outbox_events s)\<rparr>)"

definition retryDelayMs :: "int \<Rightarrow> int" where
  "retryDelayMs attempts = min 60000 (2 ^ nat (min attempts 6) * 1000)"

definition fail_event :: "int \<Rightarrow> outbox_event \<Rightarrow> string \<Rightarrow> outbox_event \<Rightarrow> outbox_event" where
  "fail_event now claimed msg ev =
     (let deadLetter = o_attempts claimed \<ge> o_maxAttempts claimed
      in ev\<lparr>o_status := (if deadLetter then OB_DEAD_LETTER else OB_FAILED),
            o_availableAt := (if deadLetter then now else now + retryDelayMs (o_attempts claimed)),
            o_lockedAt := None, o_lockedBy := None,
            o_processedAt := (if deadLetter then Some now else None),
            o_lastError := Some msg, o_updatedAt := now\<rparr>)"

definition markFailed :: "env \<Rightarrow> outbox_event \<Rightarrow> string \<Rightarrow> unit op" where
  "markFailed e claimed msg =
     bindE (guardE (o_id claimed \<noteq> []) (InternalError ''Cannot mark outbox event as failed without an id''))
       (\<lambda>_. writeE (\<lambda>s. s\<lparr>outbox_events :=
          update_rows (\<lambda>ev. o_id ev = o_id claimed) (fail_event (e_now e) claimed msg)
            (outbox_events s)\<rparr>))"

record dead_letter_preview =
  dl_id :: string
  dl_type :: string
  dl_attempts :: int
  dl_lastError :: "string option"
  dl_updatedAt :: string

definition remediable :: "outbox_event \<Rightarrow> bool" where
  "remediable ev \<longleftrightarrow> o_status ev = OB_DEAD_LETTER \<and> o_type ev \<in> set OUTBOX_WEB_REMEDIATE_TYPES"

definition getDeadLetterPreview :: "int \<Rightarrow> dead_letter_preview list op" where
  "getDeadLetterPreview limit =
     readE (\<lambda>s. map (\<lambda>ev. \<lparr>dl_id = o_id ev, dl_type = o_type ev, dl_attempts = o_attempts ev,
                           dl_lastError = o_lastError ev, dl_updatedAt = toISOString (o_updatedAt ev)\<rparr>)
       (order_limit (\<lambda>ev. - o_updatedAt ev) (nat (max 1 (min limit 25)))
          (filter remediable (outbox_events s))))"

record outbox_snapshot =
  os_workerId :: string
  os_backlogCount :: nat
  os_dueCount :: nat
  os_failedCount :: nat
  os_deadLetterCount :: nat
  os_deadLetters :: "dead_letter_preview list"

definition getOperationalSnapshot :: "env \<Rightarrow> string \<Rightarrow> outbox_snapshot op" where
  "getOperationalSnapshot e worker =
     bindE (readE outbox_events) (\<lambda>rows.
       let deadLetterCount = count_rows (\<lambda>ev. o_status ev = OB_DEAD_LETTER) rows
       in bindE (if deadLetterCount > 0 then getDeadLetterPreview OUTBOX_DEAD_LETTER_PREVIEW_LIMIT
                 else ret []) (\<lambda>deadLetters.
          ret \<lparr>os_workerId = worker,
               os_backlogCount = count_rows (\<lambda>ev. o_status ev \<in> {OB_PENDING, OB_FAILED, OB_PROCESSING}) rows,
               os_dueCount = count_rows (\<lambda>ev. o_status ev \<in> {OB_PENDING, OB_FAILED} \<and>
                                              o_availableAt ev \<le> e_now e) rows,
               os_failedCount = count_rows (\<lambda>ev. o_status ev = OB_FAILED) rows,
               os_deadLetterCount = deadLetterCount,
               os_deadLetters = deadLetters\<rparr>))"

definition assertEligibleDeadLetterIds :: "string list \<Rightarrow> string list op" where
  "assertEligibleDeadLetterIds ids =
     (let normalizedIds = uniq (filter (\<lambda>i. i \<noteq> []) ids)
      in bindE (guardE (normalizedIds \<noteq> [])
                  (BadRequest ''At least one dead-letter outbox event id is required.'')) (\<lambda>_.
         bindE (readE (\<lambda>s. count_rows (\<lambda>ev. o_id ev \<in> set normalizedIds \<and> remediable ev)
                              (outbox_events s))) (\<lambda>eligible.
         bindE (guardE (eligible = length normalizedIds)
                  (BadRequest ''Only dead-letter event.created outbox entries may be remediated from the web UI.''))
         (\<lambda>_. ret normalizedIds))))"

definition requeueDeadLetters :: "env \<Rightarrow> string list \<Rightarrow> nat op" where
  "requeueDeadLetters e ids =
     bindE (assertEligibleDeadLetterIds ids) (\<lambda>eligibleIds.
       if eligibleIds = [] then ret 0
       else
         bindE (readE (\<lambda>s. count_rows (\<lambda>ev. o_id ev \<in> set eligibleIds) (outbox_events s))) (\<lambda>affected.
         bindE (writeE (\<lambda>s. s\<lparr>outbox_events :=
                  update_rows (\<lambda>ev. o_id ev \<in> set eligibleIds)
                    (\<lambda>ev. ev\<lparr>o_status := OB_FAILED, o_attempts := 0, o_availableAt := e_now e,
                             o_lockedAt := None, o_lockedBy := None, o_processedAt := None,
                             o_lastError := None, o_updatedAt := e_now e\<rparr>)
                    (outbox_events s)\<rparr>)) (\<lambda>_. ret affected)))"

definition deleteDeadLetters :: "string list \<Rightarrow> nat op" where
  "deleteDeadLetters ids =
     bindE (assertEligibleDeadLetterIds ids) (\<lambda>eligibleIds.
       if eligibleIds = [] then ret 0
       else
         bindE (readE (\<lambda>s. count_rows (\<lambda>ev. o_id ev \<in> set eligibleIds) (outbox_events s))) (\<lambda>affected.
         bindE (writeE (\<lambda>s. s\<lparr>outbox_events :=
                  delete_rows (\<lambda>ev. o_id ev \<in> set eligibleIds) (outbox_events s)\<rparr>)) (\<lambda>_.
         ret affected)))"

section \<open>Dispatcher\<close>

definition OUTBOX_BATCH_LIMIT :: int where
  "OUTBOX_BATCH_LIMIT = 25"

text \<open>A gateway emission and a Redis publication.\<close>

definition emit :: "string \<Rightarrow> json \<Rightarrow> unit op" where
  "emit name payload = writeE (\<lambda>s. s\<lparr>emitted := emitted s @ [(name, payload)]\<rparr>)"

definition publish :: "string \<Rightarrow> json \<Rightarrow> unit op" where
  "publish channel payload = writeE (\<lambda>s. s\<lparr>published := published s @ [(channel, payload)]\<rparr>)"

fun asPayload :: "json option \<Rightarrow> json" where
  "asPayload (Some (JObj ob)) = JObj ob"
| "asPayload _ = JObj []"

text \<open>Reading a property of \<open>undefined\<close> or \<open>null\<close> throws a \<open>TypeError\<close>.\<close>

definition deref :: "json option \<Rightarrow> string \<Rightarrow> json op" where
  "deref v prop =
     (case v of
        None \<Rightarrow> throw (InternalError (''Cannot read properties of undefined (reading '' @ prop @ '')''))
      | Some JNull \<Rightarrow> throw (InternalError (''Cannot read properties of null (reading '' @ prop @ '')''))
      | Some j \<Rightarrow> ret j)"

text \<open>\<open>notify\<close> is the notification service on the hydrated event: \<open>Some\<close> the message of the
  error it propagates.\<close>

definition dispatchCreatedEvent :: "(outbox_event \<Rightarrow> string option) \<Rightarrow> outbox_event \<Rightarrow> unit op" where
  "dispatchCreatedEvent notify ev =
     (let v = jget (o_payload ev) ''event''; realtimePayload = asPayload v
      in bindE (deref v ''createdAt'') (\<lambda>_.
         bindE (emit ''event.created'' realtimePayload) (\<lambda>_.
         bindE (publish ''events.created'' realtimePayload) (\<lambda>_.
         (case notify ev of None \<Rightarrow> ret () | Some m \<Rightarrow> throw (InternalError m))))))"

definition dispatchMetricIngested :: "json_object \<Rightarrow> unit op" where
  "dispatchMetricIngested payload =
     bindE (deref (jget payload ''metric'') ''nodeId'') (\<lambda>metric.
     bindE (emit ''metrics.ingested'' metric) (\<lambda>_.
     publish ''metrics.ingested'' metric))"

definition dispatchNodeStatusUpdated :: "json_object \<Rightarrow> unit op" where
  "dispatchNodeStatusUpdated payload =
     bindE (emit ''node.status.updated'' (JObj payload)) (\<lambda>_.
     publish ''nodes.status.updated'' (JObj payload))"

definition dispatchNodeRootAccessUpdated :: "json_object \<Rightarrow> unit op" where
  "dispatchNodeRootAccessUpdated payload =
     bindE (emit ''node.root-access.updated'' (JObj payload)) (\<lambda>_.
     publish ''nodes.root-access.updated'' (JObj payload))"

definition dispatchTaskCreated :: "json_object \<Rightarrow> unit op" where
  "dispatchTaskCreated payload =
     (let realtimePayload = asPayload (jget payload ''task'')
      in bindE (emit ''task.created'' realtimePayload) (\<lambda>_. publish ''tasks.created'' realtimePayload))"

definition dispatchTaskUpdated :: "json_object \<Rightarrow> unit op" where
  "dispatchTaskUpdated payload =
     (let realtimePayload = asPayload (jget payload ''task'')
      in bindE (emit ''task.updated'' realtimePayload) (\<lambda>_. publish ''tasks.updated'' realtimePayload))"

definition dispatchNodeInstallUpdated :: "json_object \<Rightarrow> unit op" where
  "dispatchNodeInstallUpdated payload =
     bindE (deref (jget payload ''nodeInstall'') ''workspaceId'') (\<lambda>nodeInstall.
     bindE (emit ''node-install.updated'' nodeInstall) (\<lambda>_.
     publish ''node-installs.updated'' (asPayload (jget payload ''redis''))))"

definition dispatchEvent :: "(outbox_event \<Rightarrow> string option) \<Rightarrow> outbox_event \<Rightarrow> unit op" where
  "dispatchEvent notify ev =
     (if o_type ev = ''event.created'' then dispatchCreatedEvent notify ev
      else if o_type ev = ''metric.ingested'' then dispatchMetricIngested (o_payload ev)
      else if o_type ev = ''node.status-updated'' then dispatchNodeStatusUpdated (o_payload ev)
      else if o_type ev = ''node.root-access-updated'' then dispatchNodeRootAccessUpdated (o_payload ev)
      else if o_type ev = ''task.created'' then dispatchTaskCreated (o_payload ev)
      else if o_type ev = ''task.updated'' then dispatchTaskUpdated (o_payload ev)
      else if o_type ev = ''node-install.updated'' then dispatchNodeInstallUpdated (o_payload ev)
      else throw (InternalError (''Unknown outbox event type '' @ o_type ev)))"

definition assertClaimedEvent :: "outbox_event \<Rightarrow> unit op" where
  "assertClaimedEvent ev =
     guardE (o_id ev \<noteq> [] \<and> o_type ev \<noteq> [])
       (InternalError ''Malformed outbox event claimed for dispatch'')"

definition canMarkFailed :: "outbox_event \<Rightarrow> bool" where
  "canMarkFailed ev \<longleftrightarrow> o_id ev \<noteq> []"

text \<open>The body of the dispatch loop for one claimed event: the \<open>try\<close> and its \<open>catch\<close>.\<close>

definition dispatch_one :: "env \<Rightarrow> (outbox_event \<Rightarrow> string option) \<Rightarrow> outbox_event \<Rightarrow> unit op" where
  "dispatch_one e notify ev s =
     (case bindE (assertClaimedEvent ev) (\<lambda>_.
           bindE (dispatchEvent notify ev) (\<lambda>_. markDelivered e (o_id ev))) s of
        (Inr _, s') \<Rightarrow> (Inr (), s')
      | (Inl err, s') \<Rightarrow>
          (if canMarkFailed ev then markFailed e ev (error_message err) s' else (Inr (), s')))"

text \<open>\<open>while (true)\<close>: each round runs in its own environment, so the clock may move between
  rounds; \<open>None\<close> when the rounds given are used up before an empty batch is claimed.\<close>

fun dispatchDueEvents ::
  "env list \<Rightarrow> (outbox_event \<Rightarrow> string option) \<Rightarrow> string \<Rightarrow> db \<Rightarrow> db option" where
  "dispatchDueEvents [] notify worker s = None"
| "dispatchDueEvents (e # es) notify worker s =
     (case claimDueBatch e worker OUTBOX_BATCH_LIMIT s of
        (Inl _, s') \<Rightarrow> Some s'
      | (Inr [], s') \<Rightarrow> Some s'
      | (Inr (ev # evs), s') \<Rightarrow>
          dispatchDueEvents es notify worker
            (after (forE (dispatch_one e notify) (ev # evs)) s'))"

section \<open>Lemmas\<close>

subsection \<open>Claiming\<close>

text \<open>Rows are keyed by non-empty identifiers and attempts count up from zero.\<close>

definition wf_outbox :: "db \<Rightarrow> bool" where
  "wf_outbox s \<longleftrightarrow> outbox_repo.keyed s \<and>
     (\<forall>ev \<in> set (outbox_events s). o_id ev \<noteq> [] \<and> 0 \<le> o_attempts ev)"

lemma lock_event_id [simp]: "o_id (lock_event now w ev) = o_id ev"
  by (simp add: lock_event_def)

lemma set_due_batch: "set (due_batch now limit rows) \<subseteq> {ev \<in> set rows. due now ev}"
  by (auto simp: due_batch_def order_limit_def dest: in_set_takeD)

lemma distinct_due_batch:
  "distinct (map o_id rows) \<Longrightarrow> distinct (map o_id (due_batch now limit rows))"
proof -
  assume "distinct (map o_id rows)"
  then have "inj_on o_id (set rows)" "distinct rows" by (simp_all add: distinct_map)
  moreover have "set (due_batch now limit rows) \<subseteq> set rows" using set_due_batch by blast
  ultimately show ?thesis
    by (auto simp: distinct_map due_batch_def order_limit_def intro: inj_on_subset)
qed

lemma length_due_batch: "length (due_batch now limit rows) \<le> nat limit"
  by (simp add: due_batch_def order_limit_def)

lemma due_batch_Nil: "0 < limit \<Longrightarrow> due_batch now limit rows = [] \<longleftrightarrow> (\<forall>ev \<in> set rows. \<not> due now ev)"
  by (simp add: due_batch_def order_limit_Nil filter_empty_conv)

lemma claimed_id_returned [simp]: "o_id ev \<noteq> [] \<Longrightarrow> claimed_id (case returned_row ev of JObj ob \<Rightarrow> ob) = Some (o_id ev)"
  by (cases "o_id ev") (simp_all add: returned_row_def claimed_id_def)

lemma row_objects_returned:
  "row_objects (map (returned_row \<circ> g) evs) = map (\<lambda>ev. case returned_row (g ev) of JObj ob \<Rightarrow> ob) evs"
  by (induction evs) (simp_all add: returned_row_def)

text \<open>The identifiers read back from the driver's answer are the selected ones, in order.\<close>

lemma claimed_ids:
  assumes "\<forall>ev \<in> set batch. o_id ev \<noteq> []"
  shows "List.map_filter claimed_id
           (normalizeClaimRows (JArr [JArr (map (returned_row \<circ> lock_event now w) batch), n])) =
         map o_id batch"
  using assms by (simp add: row_objects_returned) (simp add: map_filter_map map_filter_total)

lemma claimDueBatch_eq:
  assumes wf: "wf_outbox s" and limit: "0 < limit"
    and batch_def: "batch = due_batch (e_now e) limit (outbox_events s)"
  shows "claimDueBatch e w limit s =
           (Inr (map (lock_event (e_now e) w) batch),
            s\<lparr>outbox_events := update_rows (\<lambda>ev. o_id ev \<in> o_id ` set batch)
                 (lock_event (e_now e) w) (outbox_events s)\<rparr>)"
proof -
  let ?lock = "lock_event (e_now e) w"
  let ?rows = "update_rows (\<lambda>ev. o_id ev \<in> o_id ` set batch) ?lock (outbox_events s)"
  have keys: "distinct (map o_id (outbox_events s))"
    using wf by (simp add: wf_outbox_def outbox_repo.keyed_def)
  then have keys': "distinct (map o_id ?rows)" by (simp add: map_update_rows)
  have sub: "set batch \<subseteq> set (outbox_events s)" using set_due_batch unfolding batch_def by blast
  then have ids: "\<forall>ev \<in> set batch. o_id ev \<noteq> []" using wf by (auto simp: wf_outbox_def)
  have found: "find_row (\<lambda>r. o_id r = o_id ev) ?rows = Some (?lock ev)" if "ev \<in> set batch" for ev
    using that sub find_row_key[OF keys', of "?lock ev"] by (auto simp: set_update_rows)
  have "List.map_filter (\<lambda>i. find_row (\<lambda>r. o_id r = i) ?rows) (map o_id batch) = map ?lock batch"
    using found by (auto simp: map_filter_map intro!: map_filter_total)
  then show ?thesis
    using limit claimed_ids[OF ids, of "e_now e" w "JNum (int (length batch))"]
    by (simp add: claimDueBatch_def batch_def[symmetric] Let_def)
qed

lemma claim_nothing: "limit \<le> 0 \<Longrightarrow> claimDueBatch e w limit s = (Inr [], s)"
  by (simp add: claimDueBatch_def)

lemma locked_not_due: "now' < now + 120000 \<Longrightarrow> \<not> due now' (lock_event now w ev)"
  by (simp add: due_def lock_event_def)

lemma wf_claim: "wf_outbox s \<Longrightarrow> wf_outbox (after (claimDueBatch e w limit) s)"
proof (cases "0 < limit")
  case True
  assume wf: "wf_outbox s"
  show ?thesis
    unfolding claimDueBatch_eq[OF wf True refl] using wf
    by (fastforce simp: wf_outbox_def set_update_rows lock_event_def
        outbox_repo.keyed_def map_update_rows)
qed (simp add: claim_nothing)

subsection \<open>Settling an event\<close>

lemma retryDelay_bounds: "1000 \<le> retryDelayMs a \<and> retryDelayMs a \<le> 60000"
proof -
  have "(1::int) \<le> 2 ^ nat (min a 6)" by simp
  then show ?thesis by (simp add: retryDelayMs_def)
qed

lemma retryDelay_mono: "a \<le> b \<Longrightarrow> retryDelayMs a \<le> retryDelayMs b"
proof -
  assume "a \<le> b"
  then have "(2::int) ^ nat (min a 6) \<le> 2 ^ nat (min b 6)"
    by (intro power_increasing nat_mono) auto
  then show ?thesis by (simp add: retryDelayMs_def min_le_iff_disj)
qed

lemma fail_event_not_due: "\<not> due now (fail_event now claimed msg ev)"
  using retryDelay_bounds[of "o_attempts claimed"] by (simp add: due_def fail_event_def Let_def)

lemma fail_event_simps [simp]:
  "o_id (fail_event now claimed msg ev) = o_id ev"
  "o_attempts (fail_event now claimed msg ev) = o_attempts ev"
  by (simp_all add: fail_event_def Let_def)

lemma markDelivered_eq:
  "markDelivered e i s =
     (Inr (), s\<lparr>outbox_events := update_rows (\<lambda>ev. o_id ev = i) (deliver_event (e_now e)) (outbox_events s)\<rparr>)"
  by (simp add: markDelivered_def)

lemma deliver_event_simps [simp]:
  "o_id (deliver_event now ev) = o_id ev" "o_attempts (deliver_event now ev) = o_attempts ev"
  "\<not> due now' (deliver_event now ev)"
  by (simp_all add: deliver_event_def due_def)

text \<open>Emissions and publications leave the outbox table alone.\<close>

lemma emit_apply [simp]: "emit n p s = (Inr (), s\<lparr>emitted := emitted s @ [(n, p)]\<rparr>)"
  and publish_apply [simp]: "publish c p s = (Inr (), s\<lparr>published := published s @ [(c, p)]\<rparr>)"
  by (simp_all add: emit_def publish_def)

lemma bindE_emit [simp]: "bindE (emit n p) f s = f () (s\<lparr>emitted := emitted s @ [(n, p)]\<rparr>)"
  and bindE_publish [simp]: "bindE (publish c p) f s = f () (s\<lparr>published := published s @ [(c, p)]\<rparr>)"
  by (simp_all add: emit_def publish_def)

lemma deref_quiet [quiet_rules, simp]: "quiet (deref v p)"
  by (auto simp: deref_def split: option.split json.split)

lemmas dispatch_defs =
  dispatchEvent_def dispatchCreatedEvent_def dispatchMetricIngested_def
  dispatchNodeStatusUpdated_def dispatchNodeRootAccessUpdated_def dispatchTaskCreated_def
  dispatchTaskUpdated_def dispatchNodeInstallUpdated_def

lemma dispatchEvent_frame: "outbox_events (after (dispatchEvent notify ev) s) = outbox_events s"
  by (cases "dispatchEvent notify ev s")
     (auto simp: dispatch_defs deref_def Let_def split: option.splits json.splits if_splits)

text \<open>A claimed event ends delivered when its dispatch succeeds, else failed or dead.\<close>

lemma dispatch_one_rows:
  assumes "o_id ev \<noteq> []"
  shows "\<exists>f \<in> {deliver_event (e_now e)} \<union> range (fail_event (e_now e) ev).
           outcome (dispatch_one e notify ev) s = Inr () \<and>
           outbox_events (after (dispatch_one e notify ev) s) =
             update_rows (\<lambda>r. o_id r = o_id ev) f (outbox_events s)"
proof -
  define m where "m = bindE (assertClaimedEvent ev) (\<lambda>_.
           bindE (dispatchEvent notify ev) (\<lambda>_. markDelivered e (o_id ev)))"
  show ?thesis
  proof (cases "outcome m s")
    case (Inl err)
    then have "outbox_events (after m s) = outbox_events s"
      using dispatchEvent_frame[of notify ev s]
      by (auto simp: m_def assertClaimedEvent_def bindE_def markDelivered_eq
          split: prod.splits sum.splits if_splits)
    then show ?thesis using Inl assms
      by (cases "m s") (auto simp: dispatch_one_def m_def[symmetric] canMarkFailed_def markFailed_def)
  next
    case (Inr u)
    then have "outbox_events (after m s) =
               update_rows (\<lambda>r. o_id r = o_id ev) (deliver_event (e_now e)) (outbox_events s)"
      using dispatchEvent_frame[of notify ev s]
      by (auto simp: m_def assertClaimedEvent_def bindE_def markDelivered_eq
          split: prod.splits sum.splits if_splits)
    then show ?thesis using Inr
      by (cases "m s") (auto simp: dispatch_one_def m_def[symmetric])
  qed
qed

text \<open>How often a row can still be claimed, whatever the clock does. A claim never adds to it and
  takes one away while the budget lasts; once it is spent, settling the row ends its life.\<close>

definition claims_left :: "outbox_event \<Rightarrow> nat" where
  "claims_left ev =
     (if o_status ev \<in> {OB_PENDING, OB_FAILED, OB_PROCESSING}
      then Suc (nat (o_maxAttempts ev - o_attempts ev)) else 0)"

lemma claims_left_lock:
  "due now ev \<Longrightarrow> claims_left (lock_event now' w ev) \<le> claims_left ev"
  "due now ev \<Longrightarrow> o_attempts ev < o_maxAttempts ev \<Longrightarrow> claims_left (lock_event now' w ev) < claims_left ev"
  by (auto simp: claims_left_def lock_event_def due_def)

lemma claims_left_settle:
  assumes "f \<in> {deliver_event now} \<union> range (fail_event now ev)" "o_status ev = OB_PROCESSING"
  shows "claims_left (f ev) \<le> claims_left ev"
    and "o_maxAttempts ev \<le> o_attempts ev \<Longrightarrow> claims_left (f ev) < claims_left ev"
  using assms by (auto simp: claims_left_def deliver_event_def fail_event_def Let_def)

lemma dispatch_one_step:
  fixes e notify
  assumes "wf_outbox s" "ev \<in> set (outbox_events s)" "o_status ev = OB_PROCESSING"
  defines "t \<equiv> after (dispatch_one e notify ev) s"
  shows "wf_outbox t" and "map o_id (outbox_events t) = map o_id (outbox_events s)"
    and "weight claims_left (outbox_events t) \<le> weight claims_left (outbox_events s)"
    and "o_maxAttempts ev \<le> o_attempts ev \<Longrightarrow>
           weight claims_left (outbox_events t) < weight claims_left (outbox_events s)"
    and "\<And>r. r \<in> set (outbox_events s) \<Longrightarrow> o_id r \<noteq> o_id ev \<Longrightarrow> r \<in> set (outbox_events t)"
proof -
  have id: "o_id ev \<noteq> []" using assms by (simp add: wf_outbox_def)
  obtain f where f: "f \<in> {deliver_event (e_now e)} \<union> range (fail_event (e_now e) ev)"
    and rows: "outbox_events t = update_rows (\<lambda>r. o_id r = o_id ev) f (outbox_events s)"
    using dispatch_one_rows[OF id] unfolding t_def by blast
  have keep: "o_id (f r) = o_id r" "o_attempts (f r) = o_attempts r" for r using f by auto
  have same: "r = ev" if "r \<in> set (outbox_events s)" "o_id r = o_id ev" for r
    using that assms(1,2) by (auto simp: wf_outbox_def outbox_repo.keyed_def distinct_map inj_on_def)
  show "wf_outbox t"
    using assms(1) by (auto simp: wf_outbox_def rows set_update_rows keep outbox_repo.keyed_def map_update_rows)
  show "map o_id (outbox_events t) = map o_id (outbox_events s)"
    by (simp add: rows map_update_rows keep)
  show "weight claims_left (outbox_events t) \<le> weight claims_left (outbox_events s)"
    unfolding rows using claims_left_settle(1)[OF f assms(3)] by (intro weight_update_le) (auto dest: same)
  show "weight claims_left (outbox_events t) < weight claims_left (outbox_events s)"
    if "o_maxAttempts ev \<le> o_attempts ev"
    unfolding rows using claims_left_settle[OF f assms(3)] that assms(2)
    by (intro weight_update_less) (auto dest: same)
  show "r \<in> set (outbox_events t)" if "r \<in> set (outbox_events s)" "o_id r \<noteq> o_id ev" for r
    using that by (simp add: rows set_update_rows)
qed

lemma forE_dispatch_Cons:
  assumes "o_id ev \<noteq> []"
  shows "after (forE (dispatch_one e notify) (ev # evs)) s =
         after (forE (dispatch_one e notify) evs) (after (dispatch_one e notify ev) s)"
proof -
  have "dispatch_one e notify ev s = (Inr (), after (dispatch_one e notify ev) s)"
    using dispatch_one_rows[OF assms, of e notify s] by (metis prod.collapse)
  then show ?thesis
    by (simp add: bindE_Inr[of "dispatch_one e notify ev"]) (simp add: bindE_def split: prod.split sum.split)
qed

lemma dispatch_rest:
  assumes "wf_outbox s" "distinct (map o_id (ev # evs))"
    "\<forall>r \<in> set (ev # evs). r \<in> set (outbox_events s) \<and> o_status r = OB_PROCESSING"
  shows "\<forall>r \<in> set evs. r \<in> set (outbox_events (after (dispatch_one e notify ev) s)) \<and>
           o_status r = OB_PROCESSING"
proof
  fix r assume r: "r \<in> set evs"
  then have "o_id r \<in> o_id ` set evs" by simp
  then have "o_id r \<noteq> o_id ev" using assms(2) by auto
  with r show "r \<in> set (outbox_events (after (dispatch_one e notify ev) s)) \<and> o_status r = OB_PROCESSING"
    using assms dispatch_one_step(5)[of s ev r e notify] by simp
qed

lemma dispatch_batch:
  assumes "wf_outbox s" "distinct (map o_id evs)"
    "\<forall>ev \<in> set evs. ev \<in> set (outbox_events s) \<and> o_status ev = OB_PROCESSING"
  shows "wf_outbox (after (forE (dispatch_one e notify) evs) s) \<and>
         map o_id (outbox_events (after (forE (dispatch_one e notify) evs) s)) = map o_id (outbox_events s) \<and>
         weight claims_left (outbox_events (after (forE (dispatch_one e notify) evs) s))
           \<le> weight claims_left (outbox_events s)"
  using assms
proof (induction evs arbitrary: s)
  case Nil
  then show ?case by simp
next
  case (Cons ev evs)
  have ev: "ev \<in> set (outbox_events s)" "o_status ev = OB_PROCESSING" using Cons.prems(3) by auto
  then have id: "o_id ev \<noteq> []" using Cons.prems(1) by (simp add: wf_outbox_def)
  note one = dispatch_one_step[OF Cons.prems(1) ev, where e = e and notify = notify]
  from Cons.IH[OF one(1) _ dispatch_rest[OF Cons.prems]] Cons.prems(2) one(2,3) show ?case
    unfolding forE_dispatch_Cons[OF id] by auto
qed

text \<open>A round that claims something uses up some of the claims left.\<close>

lemma dispatch_round:
  fixes notify
  assumes wf: "wf_outbox s" and run: "claimDueBatch e w OUTBOX_BATCH_LIMIT s = (Inr (ev # evs), t)"
  defines "u \<equiv> after (forE (dispatch_one e notify) (ev # evs)) t"
  shows "wf_outbox u" "map o_id (outbox_events u) = map o_id (outbox_events s)"
    "weight claims_left (outbox_events u) < weight claims_left (outbox_events s)"
proof -
  let ?b = "due_batch (e_now e) OUTBOX_BATCH_LIMIT (outbox_events s)" and ?lock = "lock_event (e_now e) w"
  let ?sel = "\<lambda>ev. o_id ev \<in> o_id ` set ?b"
  have keys: "distinct (map o_id (outbox_events s))"
    using wf by (simp add: wf_outbox_def outbox_repo.keyed_def)
  have pos: "0 < OUTBOX_BATCH_LIMIT" by (simp add: OUTBOX_BATCH_LIMIT_def)
  note claim = claimDueBatch_eq[OF wf pos refl, of e w]
  from run have evs: "ev # evs = map ?lock ?b"
    and rows: "outbox_events t = update_rows ?sel ?lock (outbox_events s)" by (auto simp: claim)
  have sub: "set ?b \<subseteq> {r \<in> set (outbox_events s). due (e_now e) r}" by (rule set_due_batch)
  have sel_due: "due (e_now e) r" if "r \<in> set (outbox_events s)" "?sel r" for r
    using that sub keys by (auto simp: distinct_map inj_on_def)
  have wf_t: "wf_outbox t" using wf_claim[OF wf, of e w OUTBOX_BATCH_LIMIT] run by simp
  have all: "\<forall>r \<in> set (ev # evs). r \<in> set (outbox_events t) \<and> o_status r = OB_PROCESSING"
    unfolding evs rows using sub by (auto simp: set_update_rows lock_event_def)
  have dist: "distinct (map o_id (ev # evs))"
    unfolding evs using distinct_due_batch[OF keys] by (simp add: o_def)
  note batch = dispatch_batch[OF wf_t dist all, of e notify, folded u_def]
  show "wf_outbox u" "map o_id (outbox_events u) = map o_id (outbox_events s)"
    using batch by (simp_all add: rows map_update_rows)
  obtain b where b: "b \<in> set ?b" "ev = ?lock b" using evs by (cases ?b) auto
  have le: "weight claims_left (outbox_events t) \<le> weight claims_left (outbox_events s)"
    unfolding rows by (intro weight_update_le claims_left_lock(1)) (auto intro: sel_due)
  show "weight claims_left (outbox_events u) < weight claims_left (outbox_events s)"
  proof (cases "o_attempts b < o_maxAttempts b")
    case True
    then have "weight claims_left (outbox_events t) < weight claims_left (outbox_events s)"
      unfolding rows using b sub
      by (intro weight_update_less) (auto intro!: bexI[of _ b] claims_left_lock sel_due)
    then show ?thesis using batch by simp
  next
    case False
    have ev: "ev \<in> set (outbox_events t)" "o_status ev = OB_PROCESSING" using all by auto
    have "o_maxAttempts ev \<le> o_attempts ev" using False b by (simp add: lock_event_def)
    note one = dispatch_one_step[OF wf_t ev, where e = e and notify = notify]
    from dispatch_batch[OF one(1) _ dispatch_rest[OF wf_t dist all], of e notify] dist one(4)[OF \<open>o_maxAttempts ev \<le> o_attempts ev\<close>] le
    show ?thesis unfolding u_def using wf_t ev(1)
      by (subst forE_dispatch_Cons) (auto simp: wf_outbox_def)
  qed
qed

lemma dispatch_drains:
  assumes "wf_outbox s" "weight claims_left (outbox_events s) < length es"
  shows "\<exists>s'. dispatchDueEvents es notify w s = Some s' \<and>
              (\<exists>e \<in> set es. \<forall>ev \<in> set (outbox_events s'). \<not> due (e_now e) ev) \<and>
              map o_id (outbox_events s') = map o_id (outbox_events s)"
  using assms
proof (induction es arbitrary: s)
  case Nil
  then show ?case by simp
next
  case (Cons e es)
  let ?b = "due_batch (e_now e) OUTBOX_BATCH_LIMIT (outbox_events s)"
  have pos: "0 < OUTBOX_BATCH_LIMIT" by (simp add: OUTBOX_BATCH_LIMIT_def)
  note claim = claimDueBatch_eq[OF Cons.prems(1) pos refl, of e w]
  show ?case
  proof (cases ?b)
    case Nil
    then have "\<forall>ev \<in> set (outbox_events s). \<not> due (e_now e) ev" by (simp add: due_batch_Nil[OF pos])
    moreover have "update_rows (\<lambda>ev. False) (lock_event (e_now e) w) (outbox_events s) = outbox_events s"
      by (simp add: update_rows_def)
    ultimately show ?thesis using Nil by (simp add: claim)
  next
    case (Cons b bs)
    then obtain ev evs t where run: "claimDueBatch e w OUTBOX_BATCH_LIMIT s = (Inr (ev # evs), t)"
      by (simp add: claim)
    note round = dispatch_round[OF Cons.prems(1) run, of notify]
    have "weight claims_left (outbox_events (after (forE (dispatch_one e notify) (ev # evs)) t)) < length es"
      using round(3) Cons.prems(2) by simp
    from Cons.IH[OF round(1) this] run round(2) show ?thesis by (auto simp del: forE.simps)
  qed
qed

subsection \<open>Lifecycle invariant\<close>

text \<open>
  A row is locked exactly while it is being processed, it has a processing date exactly when
  it is delivered or dead, and its identifier was drawn from the stream.
\<close>

definition row_ok :: "outbox_event \<Rightarrow> bool" where
  "row_ok ev \<longleftrightarrow>
     (o_lockedBy ev \<noteq> None \<longleftrightarrow> o_status ev = OB_PROCESSING) \<and>
     (o_lockedAt ev \<noteq> None \<longleftrightarrow> o_status ev = OB_PROCESSING) \<and>
     (o_processedAt ev \<noteq> None \<longleftrightarrow> o_status ev \<in> {OB_DELIVERED, OB_DEAD_LETTER}) \<and>
     0 \<le> o_attempts ev"

definition outbox_inv :: "(nat \<Rightarrow> string) \<Rightarrow> db \<Rightarrow> bool" where
  "outbox_inv u s \<longleftrightarrow>
     outbox_repo.keyed s \<and>
     (\<forall>ev \<in> set (outbox_events s). row_ok ev \<and> (\<exists>n < drawn s. o_id ev = u n))"

text \<open>The operations that write the table, by any worker, at any time, on any arguments; the
  event handed to \<open>markFailed\<close> may be a stale copy.\<close>

inductive outbox_step :: "(nat \<Rightarrow> string) \<Rightarrow> db \<Rightarrow> db \<Rightarrow> bool" for u where
  enqueued: "e_uuid e = u \<Longrightarrow> outbox_step u s (after (enqueue e type payload av mx) s)"
| claimed: "outbox_step u s (after (claimDueBatch e w limit) s)"
| delivered: "outbox_step u s (after (markDelivered e i) s)"
| failed: "outbox_step u s (after (markFailed e ev msg) s)"
| requeued: "outbox_step u s (after (requeueDeadLetters e ids) s)"
| deleted: "outbox_step u s (after (deleteDeadLetters ids) s)"

lemma update_rows_inv:
  assumes "outbox_inv u s" "\<And>ev. row_ok ev \<Longrightarrow> p ev \<Longrightarrow> row_ok (f ev) \<and> o_id (f ev) = o_id ev"
  shows "outbox_inv u (s\<lparr>outbox_events := update_rows p f (outbox_events s)\<rparr>)"
proof -
  have "map o_id (update_rows p f (outbox_events s)) = map o_id (outbox_events s)"
    using assms by (intro map_update_rows) (auto simp: outbox_inv_def)
  then show ?thesis using assms
    by (fastforce simp: outbox_inv_def outbox_repo.keyed_def set_update_rows)
qed

lemma row_ok_updates:
  "row_ok ev \<Longrightarrow> due now ev \<Longrightarrow> row_ok (lock_event now w ev)"
  "row_ok ev \<Longrightarrow> row_ok (deliver_event now ev)"
  "row_ok ev \<Longrightarrow> row_ok (fail_event now claimed msg ev)"
  by (auto simp: row_ok_def due_def lock_event_def deliver_event_def fail_event_def Let_def)

lemma claim_inv:
  assumes inv: "outbox_inv u s"
  shows "outbox_inv u (after (claimDueBatch e w limit) s)"
proof (cases "limit \<le> 0")
  case True
  then show ?thesis using inv by (simp add: claimDueBatch_def)
next
  case False
  let ?b = "due_batch (e_now e) limit (outbox_events s)"
  have keys: "inj_on o_id (set (outbox_events s))"
    using inv by (simp add: outbox_inv_def outbox_repo.keyed_def distinct_map)
  have in_b: "ev \<in> set ?b" if "ev \<in> set (outbox_events s)" "o_id ev \<in> o_id ` set ?b" for ev
    using that keys set_due_batch[of "e_now e" limit "outbox_events s"] by (auto simp: inj_on_def)
  have same: "update_rows (\<lambda>ev. o_id ev \<in> o_id ` set ?b) (lock_event (e_now e) w) (outbox_events s) =
              update_rows (\<lambda>ev. o_id ev \<in> o_id ` set ?b \<and> due (e_now e) ev) (lock_event (e_now e) w) (outbox_events s)"
    using in_b set_due_batch[of "e_now e" limit "outbox_events s"] by (auto simp: update_rows_def)
  have "outbox_inv u (s\<lparr>outbox_events := update_rows (\<lambda>ev. o_id ev \<in> o_id ` set ?b) (lock_event (e_now e) w) (outbox_events s)\<rparr>)"
    unfolding same using inv by (intro update_rows_inv) (auto simp: row_ok_updates)
  then show ?thesis using False by (simp add: claimDueBatch_def Let_def)
qed

lemma enqueue_inv:
  assumes inv: "outbox_inv u s" and u: "inj u" "e_uuid e = u"
  shows "outbox_inv u (after (enqueue e type payload av mx) s)"
proof -
  have "u (drawn s) \<notin> o_id ` set (outbox_events s)"
    using inv u(1) unfolding outbox_inv_def by (metis imageE injD less_irrefl)
  then show ?thesis using inv u
    by (auto simp: enqueue_def Let_def outbox_inv_def outbox_repo.keyed_def save_row_def
        row_ok_def less_Suc_eq)
qed

lemma assertEligible_quiet [quiet_rules]: "quiet (assertEligibleDeadLetterIds ids)"
  by (auto simp: assertEligibleDeadLetterIds_def Let_def intro!: quiet_rules)

lemma remediation_inv:
  assumes "outbox_inv u s"
  shows "outbox_inv u (after (requeueDeadLetters e ids) s)"
    and "outbox_inv u (after (deleteDeadLetters ids) s)"
proof -
  have del: "outbox_inv u (t\<lparr>outbox_events := delete_rows p (outbox_events t)\<rparr>)" if "outbox_inv u t" for t p
    using that by (auto simp: outbox_inv_def outbox_repo.keyed_def)
  have "keeps (outbox_inv u) (requeueDeadLetters e ids)"
    unfolding requeueDeadLetters_def
    by (intro keeps_rules quiet_keeps[OF assertEligible_quiet] update_rows_inv)
       (auto simp: row_ok_def)
  moreover have "keeps (outbox_inv u) (deleteDeadLetters ids)"
    unfolding deleteDeadLetters_def
    by (intro keeps_rules quiet_keeps[OF assertEligible_quiet] del)
  ultimately show "outbox_inv u (after (requeueDeadLetters e ids) s)"
    "outbox_inv u (after (deleteDeadLetters ids) s)"
    using assms by (auto dest: keepsD)
qed

lemma outbox_step_inv:
  assumes "inj u" "outbox_step u s t" "outbox_inv u s"
  shows "outbox_inv u t"
  using assms(2,3)
proof (induction rule: outbox_step.induct)
  case (enqueued e s type payload av mx)
  then show ?case using enqueue_inv[OF _ assms(1)] by blast
next
  case (claimed s e w limit)
  then show ?case by (rule claim_inv)
next
  case (delivered s e i)
  then show ?case by (auto simp: markDelivered_eq intro!: update_rows_inv row_ok_updates)
next
  case (failed s e ev msg)
  then show ?case by (auto simp: markFailed_def intro!: update_rows_inv row_ok_updates)
next
  case (requeued s e ids)
  then show ?case by (rule remediation_inv)
next
  case (deleted s ids)
  then show ?case by (rule remediation_inv)
qed

interpretation outbox_system:
  transition_system "\<lambda>s. outbox_events s = []" "\<lambda>s t. inj u \<and> outbox_step u s t" "outbox_inv u" for u
proof
  show "outbox_events s = [] \<Longrightarrow> outbox_inv u s" for s
    by (simp add: outbox_inv_def outbox_repo.keyed_def)
next
  show "inj u \<and> outbox_step u s t \<Longrightarrow> outbox_inv u s \<Longrightarrow> outbox_inv u t" for s t
    using outbox_step_inv by blast
qed

section \<open>Properties\<close>

definition requested :: "string list \<Rightarrow> string set" where
  "requested ids = {i \<in> set ids. i \<noteq> []}"

definition sample_event :: "string \<Rightarrow> outbox_event" where
  "sample_event i = \<lparr>o_id = i, o_type = ''task.created'', o_payload = [(''task'', JObj [])],
     o_status = OB_PENDING, o_attempts = 0, o_maxAttempts = 8, o_availableAt = 0,
     o_lockedAt = None, o_lockedBy = None, o_processedAt = None, o_lastError = None,
     o_createdAt = 0, o_updatedAt = 0\<rparr>"

definition sample_outbox :: db where
  "sample_outbox = empty_db\<lparr>outbox_events := [sample_event ''a'', sample_event ''b''], drawn := 2\<rparr>"

lemma wf_sample: "wf_outbox sample_outbox"
  by (simp add: wf_outbox_def outbox_repo.keyed_def sample_outbox_def sample_event_def)

text \<open>C1: Claiming a batch. At most \<open>limit\<close> distinct events are returned; each is the reloaded
  row of an event that was due, now being processed, locked by this worker at this instant
  with one more attempt; every other row is unchanged; and due events left behind are not
  older, by availability and then creation, than the claimed ones.\<close>

theorem claimDueBatch_spec:
  assumes wf: "wf_outbox s" and run: "claimDueBatch e w limit s = (Inr evs, s')" and limit: "0 < limit"
  shows "length evs \<le> nat limit \<and> distinct (map o_id evs) \<and>
    (\<forall>ev \<in> set evs. ev \<in> set (outbox_events s') \<and> o_status ev = OB_PROCESSING \<and>
       o_lockedBy ev = Some w \<and> o_lockedAt ev = Some (e_now e) \<and>
       (\<exists>old \<in> set (outbox_events s). o_id old = o_id ev \<and> due (e_now e) old \<and>
          o_attempts ev = o_attempts old + 1)) \<and>
    (\<forall>old \<in> set (outbox_events s). o_id old \<notin> o_id ` set evs \<longrightarrow>
       old \<in> set (outbox_events s') \<and>
       (due (e_now e) old \<longrightarrow> (\<forall>ev \<in> set evs. \<exists>was \<in> set (outbox_events s). o_id was = o_id ev \<and>
          (o_availableAt was, o_createdAt was) \<le> (o_availableAt old, o_createdAt old))))"
proof -
  let ?b = "due_batch (e_now e) limit (outbox_events s)" and ?lock = "lock_event (e_now e) w"
  have keys: "distinct (map o_id (outbox_events s))"
    using wf by (simp add: wf_outbox_def outbox_repo.keyed_def)
  note claim = claimDueBatch_eq[OF wf limit refl, of e w]
  have evs: "evs = map ?lock ?b"
    and rows: "outbox_events s' = update_rows (\<lambda>ev. o_id ev \<in> o_id ` set ?b) ?lock (outbox_events s)"
    using run by (auto simp: claim)
  have sub: "set ?b \<subseteq> {ev \<in> set (outbox_events s). due (e_now e) ev}" by (rule set_due_batch)
  have ids: "o_id ` set evs = o_id ` set ?b" "map o_id evs = map o_id ?b"
    by (simp_all add: evs image_image o_def)
  have least: "(o_availableAt b, o_createdAt b) \<le> (o_availableAt old, o_createdAt old)"
    if "b \<in> set ?b" "old \<in> set (outbox_events s)" "due (e_now e) old" "o_id old \<notin> o_id ` set ?b" for b old
    using that order_limit_least[of b "\<lambda>ev. (o_availableAt ev, o_createdAt ev)" "nat limit"
        "filter (due (e_now e)) (outbox_events s)" old]
    by (force simp: due_batch_def)
  have "distinct (map o_id evs)" using distinct_due_batch[OF keys] by (simp add: ids)
  moreover have "\<forall>ev \<in> set evs. ev \<in> set (outbox_events s') \<and> o_status ev = OB_PROCESSING \<and>
       o_lockedBy ev = Some w \<and> o_lockedAt ev = Some (e_now e) \<and>
       (\<exists>old \<in> set (outbox_events s). o_id old = o_id ev \<and> due (e_now e) old \<and>
          o_attempts ev = o_attempts old + 1)"
    using sub by (fastforce simp: evs rows set_update_rows lock_event_def)
  moreover have "old \<in> set (outbox_events s') \<and>
       (due (e_now e) old \<longrightarrow> (\<forall>ev \<in> set evs. \<exists>was \<in> set (outbox_events s). o_id was = o_id ev \<and>
          (o_availableAt was, o_createdAt was) \<le> (o_availableAt old, o_createdAt old)))"
    if old: "old \<in> set (outbox_events s)" "o_id old \<notin> o_id ` set evs" for old
  proof -
    have "old \<in> set (outbox_events s')" using old by (simp add: rows set_update_rows ids(1))
    moreover have "\<exists>was \<in> set (outbox_events s). o_id was = o_id ev \<and>
          (o_availableAt was, o_createdAt was) \<le> (o_availableAt old, o_createdAt old)"
      if "due (e_now e) old" "ev \<in> set evs" for ev
    proof -
      from that(2) obtain b where "b \<in> set ?b" "ev = ?lock b" by (auto simp: evs)
      then show ?thesis using least[of b old] that(1) old sub ids(1) by auto
    qed
    ultimately show ?thesis by blast
  qed
  moreover have "length evs \<le> nat limit" by (simp add: evs length_due_batch)
  ultimately show ?thesis by blast
qed

theorem claimDueBatch_spec_witness:
  "\<exists>evs s'. claimDueBatch base_env ''w1'' 1 sample_outbox = (Inr evs, s') \<and>
     length evs \<le> 1 \<and> distinct (map o_id evs)"
proof -
  have lim: "(0::int) < 1" by simp
  obtain evs s' where run: "claimDueBatch base_env ''w1'' 1 sample_outbox = (Inr evs, s')"
    using claimDueBatch_eq[OF wf_sample lim refl] by blast
  then show ?thesis using claimDueBatch_spec[OF wf_sample run lim] by auto
qed



text \<open>C3: A dispatcher run ends, whatever the clock does between its rounds and whichever
  deliveries fail. Every round that claims something uses up some of the claims the live rows
  have left, so with more rounds than that the polling loop returns; nothing is due at its
  last round, and no event was lost or duplicated.\<close>

theorem dispatch_run_terminates:
  assumes "wf_outbox s" "weight claims_left (outbox_events s) < length es"
  shows "\<exists>s'. dispatchDueEvents es notify w s = Some s' \<and>
              (\<exists>e \<in> set es. \<forall>ev \<in> set (outbox_events s'). \<not> due (e_now e) ev) \<and>
              map o_id (outbox_events s') = map o_id (outbox_events s)"
  using dispatch_drains[OF assms] by blast

theorem dispatch_run_terminates_witness:
  "\<exists>s'. dispatchDueEvents (map (\<lambda>i. base_env\<lparr>e_now := 1000000 + 5000 * int i\<rparr>) [0..<20])
           (\<lambda>_. Some ''smtp down'') ''w1'' sample_outbox = Some s' \<and>
        map o_id (outbox_events s') = [''a'', ''b'']"
proof -
  let ?es = "map (\<lambda>i. base_env\<lparr>e_now := 1000000 + 5000 * int i\<rparr>) [0..<20]"
  have "weight claims_left (outbox_events sample_outbox) < length ?es"
    by (simp add: weight_def claims_left_def sample_outbox_def sample_event_def)
  from dispatch_run_terminates[OF wf_sample this, of "\<lambda>_. Some ''smtp down''" "''w1''"]
  show ?thesis by (auto simp: sample_outbox_def sample_event_def)
qed

text \<open>C4: Settling a claimed event. If its dispatch succeeds the row becomes delivered; if it
  throws, the row becomes dead once its attempts reached the maximum and otherwise failed,
  available again after the backoff; the lock is released either way and no other row
  changes.\<close>

theorem dispatch_settles:
  assumes wf: "wf_outbox s" and ev: "ev \<in> set (outbox_events s)" "o_type ev \<noteq> []"
  shows "\<exists>row. find_row (\<lambda>r. o_id r = o_id ev) (outbox_events (after (dispatch_one e notify ev) s)) = Some row \<and>
     o_lockedBy row = None \<and> o_lockedAt row = None \<and>
     (outcome (dispatchEvent notify ev) s = Inr () \<longrightarrow> o_status row = OB_DELIVERED) \<and>
     (\<forall>err. outcome (dispatchEvent notify ev) s = Inl err \<longrightarrow>
        o_lastError row = Some (error_message err) \<and>
        (if o_maxAttempts ev \<le> o_attempts ev then o_status row = OB_DEAD_LETTER
         else o_status row = OB_FAILED \<and> o_availableAt row = e_now e + retryDelayMs (o_attempts ev))) \<and>
     (\<forall>r. o_id r \<noteq> o_id ev \<longrightarrow>
        (r \<in> set (outbox_events (after (dispatch_one e notify ev) s)) \<longleftrightarrow> r \<in> set (outbox_events s)))"
proof -
  have keys: "distinct (map o_id (outbox_events s))"
    using wf by (simp add: wf_outbox_def outbox_repo.keyed_def)
  have id: "o_id ev \<noteq> []" using wf ev by (simp add: wf_outbox_def)
  define f where "f = (case outcome (dispatchEvent notify ev) s of
      Inr _ \<Rightarrow> deliver_event (e_now e) | Inl err \<Rightarrow> fail_event (e_now e) ev (error_message err))"
  have rows: "outbox_events (after (dispatch_one e notify ev) s) =
              update_rows (\<lambda>r. o_id r = o_id ev) f (outbox_events s)"
    using id ev(2) dispatchEvent_frame[of notify ev s]
    by (cases "dispatchEvent notify ev s")
       (auto simp: dispatch_one_def assertClaimedEvent_def bindE_def markDelivered_eq f_def
          canMarkFailed_def markFailed_def split: sum.split)
  have fid: "o_id (f r) = o_id r" for r by (simp add: f_def split: sum.split)
  have "find_row (\<lambda>r. o_id r = o_id ev) (update_rows (\<lambda>r. o_id r = o_id ev) f (outbox_events s)) = Some (f ev)"
    using find_row_key[of o_id "update_rows (\<lambda>r. o_id r = o_id ev) f (outbox_events s)" "f ev"] ev(1) keys
    by (simp add: map_update_rows fid set_update_rows)
  moreover have "\<forall>r. o_id r \<noteq> o_id ev \<longrightarrow>
      (r \<in> set (update_rows (\<lambda>r. o_id r = o_id ev) f (outbox_events s)) \<longleftrightarrow> r \<in> set (outbox_events s))"
    by (auto simp: set_update_rows fid)
  moreover have "o_lockedBy (f ev) = None \<and> o_lockedAt (f ev) = None \<and>
     (outcome (dispatchEvent notify ev) s = Inr () \<longrightarrow> o_status (f ev) = OB_DELIVERED) \<and>
     (\<forall>err. outcome (dispatchEvent notify ev) s = Inl err \<longrightarrow>
        o_lastError (f ev) = Some (error_message err) \<and>
        (if o_maxAttempts ev \<le> o_attempts ev then o_status (f ev) = OB_DEAD_LETTER
         else o_status (f ev) = OB_FAILED \<and> o_availableAt (f ev) = e_now e + retryDelayMs (o_attempts ev)))"
    by (cases "outcome (dispatchEvent notify ev) s")
       (auto simp: f_def deliver_event_def fail_event_def Let_def)
  ultimately show ?thesis unfolding rows by blast
qed

theorem dispatch_settles_witness:
  "\<exists>row. find_row (\<lambda>r. o_id r = ''a'')
      (outbox_events (after (dispatch_one base_env (\<lambda>_. None) (sample_event ''a'')) sample_outbox)) = Some row \<and>
     o_status row = OB_DELIVERED"
proof -
  have ev: "sample_event ''a'' \<in> set (outbox_events sample_outbox)" "o_type (sample_event ''a'') \<noteq> []"
    by (simp_all add: sample_outbox_def sample_event_def)
  have "outcome (dispatchEvent (\<lambda>_. None) (sample_event ''a'')) sample_outbox = Inr ()"
    by (simp add: dispatch_defs sample_event_def Let_def)
  moreover have "o_id (sample_event ''a'') = ''a''" by (simp add: sample_event_def)
  ultimately show ?thesis
    using dispatch_settles[OF wf_sample ev, of base_env "\<lambda>_. None"] by auto
qed

text \<open>C5: The lifecycle of the table. From an empty outbox, whatever workers enqueue, claim, mark
  and remediate in whatever order, rows stay keyed, a row is locked exactly while it is
  processing, and has a processing date exactly when it is delivered or dead.\<close>

theorem outbox_lifecycle:
  assumes "outbox_events s0 = []" "(\<lambda>s t. inj u \<and> outbox_step u s t)\<^sup>*\<^sup>* s0 s"
    and "ev \<in> set (outbox_events s)"
  shows "distinct (map o_id (outbox_events s)) \<and>
     (o_lockedBy ev \<noteq> None \<longleftrightarrow> o_status ev = OB_PROCESSING) \<and>
     (o_lockedAt ev \<noteq> None \<longleftrightarrow> o_status ev = OB_PROCESSING) \<and>
     (o_processedAt ev \<noteq> None \<longleftrightarrow> o_status ev \<in> {OB_DELIVERED, OB_DEAD_LETTER})"
proof -
  have "outbox_inv u s"
    using outbox_system.run_invar[OF assms(2)] outbox_system.initial_invar[OF assms(1)] by blast
  then show ?thesis using assms(3) by (auto simp: outbox_inv_def row_ok_def outbox_repo.keyed_def)
qed

theorem outbox_lifecycle_witness:
  "\<exists>s ev. (\<lambda>s t. inj show_nat \<and> outbox_step show_nat s t)\<^sup>*\<^sup>* empty_db s \<and> ev \<in> set (outbox_events s) \<and>
     (o_lockedBy ev \<noteq> None \<longleftrightarrow> o_status ev = OB_PROCESSING)"
proof -
  let ?s = "after (enqueue base_env ''task.created'' [] None None) empty_db"
  have "outbox_step show_nat empty_db ?s"
    by (rule outbox_step.enqueued) (simp add: base_env_def)
  then have run: "(\<lambda>s t. inj show_nat \<and> outbox_step show_nat s t)\<^sup>*\<^sup>* empty_db ?s"
    using inj_show_nat by blast
  have "outbox_events ?s \<noteq> []"
    by (simp add: enqueue_def Let_def empty_db_def save_row_def)
  then obtain ev where ev: "ev \<in> set (outbox_events ?s)" by (meson last_in_set)
  have "outbox_events empty_db = []" by (simp add: empty_db_def)
  from outbox_lifecycle[OF this run ev] run ev show ?thesis by blast
qed

text \<open>Backoff. A failed event waits between one second and one minute, and never less after
  more attempts.\<close>

theorem retryDelayMs_backoff:
  assumes "0 \<le> a" "a \<le> b"
  shows "1000 \<le> retryDelayMs a \<and> retryDelayMs a \<le> retryDelayMs b \<and> retryDelayMs b \<le> 60000"
  using retryDelay_bounds retryDelay_mono[OF assms(2)] by auto

theorem retryDelayMs_backoff_witness: "retryDelayMs 1 = 2000 \<and> retryDelayMs 1 \<le> retryDelayMs 9"
  using retryDelayMs_backoff[of 1 9] by (simp add: retryDelayMs_def)

text \<open>Dead-letter remediation is all or nothing: if some requested identifier is not that of a
  dead \<open>event.created\<close> entry, requeueing throws \<open>BadRequest\<close> and changes nothing; otherwise
  every requested entry becomes failed with a fresh attempt budget, due at once, and the
  number returned is the number of identifiers.\<close>

theorem requeue_all_or_nothing:
  assumes wf: "wf_outbox s"
  shows "if requested ids \<noteq> {} \<and> (\<forall>i \<in> requested ids. \<exists>ev \<in> set (outbox_events s). o_id ev = i \<and> remediable ev)
         then outcome (requeueDeadLetters e ids) s = Inr (card (requested ids)) \<and>
              (\<forall>ev \<in> set (outbox_events (after (requeueDeadLetters e ids) s)). o_id ev \<in> requested ids \<longrightarrow>
                 o_status ev = OB_FAILED \<and> o_attempts ev = 0 \<and> due (e_now e) ev)
         else (\<exists>m. requeueDeadLetters e ids s = (Inl (BadRequest m), s))"
proof -
  define ns where "ns = uniq (filter (\<lambda>i. i \<noteq> []) ids)"
  have ns: "set ns = requested ids" "distinct ns" by (auto simp: ns_def requested_def)
  then have card: "length ns = card (requested ids)" by (metis distinct_card)
  have keys: "distinct (map o_id (outbox_events s))" and fin: "finite (requested ids)"
    using wf by (simp_all add: wf_outbox_def outbox_repo.keyed_def requested_def)
  note eligible = count_rows_keys[OF keys fin, folded ns(1)]
  have empty: "ns = [] \<longleftrightarrow> requested ids = {}" using ns(1) by auto
  note run = requeueDeadLetters_def assertEligibleDeadLetterIds_def Let_def ns_def[symmetric]
  show ?thesis
  proof (cases "requested ids \<noteq> {} \<and>
      (\<forall>i \<in> requested ids. \<exists>ev \<in> set (outbox_events s). o_id ev = i \<and> remediable ev)")
    case True
    then have c: "count_rows (\<lambda>ev. o_id ev \<in> set ns \<and> remediable ev) (outbox_events s) = length ns"
      and ne: "ns \<noteq> []" using eligible[of remediable] empty card ns(1) by simp_all
    have all: "count_rows (\<lambda>ev. o_id ev \<in> set ns) (outbox_events s) = length ns"
      using True eligible[of "\<lambda>_. True"] card ns(1) by auto
    let ?rows = "update_rows (\<lambda>ev. o_id ev \<in> set ns)
        (\<lambda>ev. ev\<lparr>o_status := OB_FAILED, o_attempts := 0, o_availableAt := e_now e, o_lockedAt := None,
                 o_lockedBy := None, o_processedAt := None, o_lastError := None,
                 o_updatedAt := e_now e\<rparr>) (outbox_events s)"
    have "requeueDeadLetters e ids s = (Inr (length ns), s\<lparr>outbox_events := ?rows\<rparr>)"
      using c ne all by (simp add: run)
    moreover have "\<forall>ev \<in> set ?rows. o_id ev \<in> set ns \<longrightarrow>
        o_status ev = OB_FAILED \<and> o_attempts ev = 0 \<and> due (e_now e) ev"
      by (auto simp: set_update_rows due_def)
    ultimately show ?thesis unfolding if_P[OF True] by (simp add: card ns(1))
  next
    case False
    then have "ns = [] \<or> count_rows (\<lambda>ev. o_id ev \<in> set ns \<and> remediable ev) (outbox_events s) \<noteq> length ns"
      using eligible[of remediable] empty card ns(1) by auto
    then show ?thesis unfolding if_not_P[OF False] by (auto simp: run)
  qed
qed

definition dead_outbox :: db where
  "dead_outbox = empty_db\<lparr>outbox_events := [(sample_event ''a'')
     \<lparr>o_type := ''event.created'', o_status := OB_DEAD_LETTER, o_attempts := 8,
      o_processedAt := Some 5\<rparr>], drawn := 1\<rparr>"

theorem requeue_all_or_nothing_witness:
  "outcome (requeueDeadLetters base_env [''a'', ''a'']) dead_outbox = Inr 1"
proof -
  have "wf_outbox dead_outbox"
    by (simp add: wf_outbox_def outbox_repo.keyed_def dead_outbox_def sample_event_def)
  moreover have "requested [''a'', ''a''] = {''a''}" by (auto simp: requested_def)
  ultimately show ?thesis
    using requeue_all_or_nothing[of dead_outbox "[''a'', ''a'']" base_env]
    by (simp add: dead_outbox_def sample_event_def remediable_def OUTBOX_WEB_REMEDIATE_TYPES_def)
qed



end
