(* ===== verification/Events.thy ===== *)
theory Events
  imports Outbox
begin

text \<open>
  The system event log (\<open>src/modules/events/events.service.ts\<close>) and the audit trail
  (\<open>src/modules/audit-logs/audit-logs.service.ts\<close>): recording, with the hand-over to the
  outbox or, without one, straight to the gateway, Redis and the notifications, and the
  filtered listings. Every other service records its effects through these two.
\<close>

section \<open>Events service\<close>

definition opt_json :: "json_object option \<Rightarrow> json" where
  "opt_json x = (case x of None \<Rightarrow> JNull | Some ob \<Rightarrow> JObj ob)"

definition event_json :: "env \<Rightarrow> event \<Rightarrow> json" where
  "event_json e ev =
     JObj [(''id'', JStr (ev_id ev)), (''workspaceId'', JStr (ev_workspaceId ev)),
           (''nodeId'', jstr_opt (ev_nodeId ev)), (''type'', JStr (ev_type ev)),
           (''severity'', JStr (severity_str (ev_severity ev))), (''message'', JStr (ev_message ev)),
           (''metadata'', opt_json (ev_metadata ev)),
           (''createdAt'', JStr (toISOString (ev_createdAt ev))),
           (''sourceInstanceId'', JStr (e_instanceId e))]"

text \<open>\<open>input.workspaceId ?? (input.nodeId ? \<dots>?.workspaceId : null)\<close>\<close>

definition event_workspace :: "string option \<Rightarrow> string option \<Rightarrow> node list \<Rightarrow> string option" where
  "event_workspace workspaceId nodeId rows =
     (case workspaceId of
        Some w \<Rightarrow> Some w
      | None \<Rightarrow>
          (case nodeId of
             None \<Rightarrow> None
           | Some i \<Rightarrow> (if i = [] then None
                        else map_option n_workspaceId (find_row (\<lambda>n. n_id n = i) rows))))"

definition recordEvent ::
  "env \<Rightarrow> string option \<Rightarrow> string option \<Rightarrow> string \<Rightarrow> severity option \<Rightarrow> string \<Rightarrow>
     json_object option \<Rightarrow> event op" where
  "recordEvent e workspaceId nodeId type sev message metadata =
     bindE (readE (\<lambda>s. event_workspace workspaceId nodeId (nodes s))) (\<lambda>resolved.
     bindE (guardE (truthy resolved)
              (InternalError (''Workspace context could not be resolved for event '' @ type))) (\<lambda>_.
     bindE (fresh_id e) (\<lambda>i.
       let ev = \<lparr>ev_id = i, ev_workspaceId = the resolved, ev_nodeId = nodeId, ev_type = type,
                 ev_severity = (case sev of None \<Rightarrow> INFO | Some x \<Rightarrow> x), ev_message = message,
                 ev_metadata = metadata, ev_createdAt = e_now e\<rparr>
       in bindE (writeE (\<lambda>s. s\<lparr>events := events s @ [ev]\<rparr>)) (\<lambda>_.
          if e_outbox e then
            bindE (enqueue e ''event.created'' [(''event'', event_json e ev)] None None) (\<lambda>_. ret ev)
          else
            bindE (emit ''event.created'' (event_json e ev)) (\<lambda>_.
            bindE (publish ''events.created'' (event_json e ev)) (\<lambda>_.
            bindE (writeE (\<lambda>s. s\<lparr>notified := notified s @ [ev_id ev]\<rparr>)) (\<lambda>_. ret ev)))))))"

text \<open>An optional filter: absent or empty means no restriction.\<close>

definition if_given :: "string option \<Rightarrow> (string \<Rightarrow> bool) \<Rightarrow> bool" where
  "if_given x q \<longleftrightarrow> (truthy x \<longrightarrow> q (the x))"

record event_query =
  qe_nodeId :: "string option"
  qe_type :: "string option"
  qe_severity :: "severity option"
  qe_limit :: "nat option"

definition events_findAll :: "event_query \<Rightarrow> string option \<Rightarrow> event list op" where
  "events_findAll q workspaceId =
     readE (\<lambda>s. order_limit (\<lambda>ev. - ev_createdAt ev) (case qe_limit q of None \<Rightarrow> 50 | Some n \<Rightarrow> n)
       (filter (\<lambda>ev. if_given workspaceId (\<lambda>w. ev_workspaceId ev = w) \<and>
                     if_given (qe_nodeId q) (\<lambda>n. ev_nodeId ev = Some n) \<and>
                     if_given (qe_type q) (\<lambda>t. ev_type ev = t) \<and>
                     (case qe_severity q of None \<Rightarrow> True | Some v \<Rightarrow> ev_severity ev = v))
          (events s)))"

section \<open>Audit service\<close>

record audit_input =
  ai_scope :: string
  ai_workspaceId :: "string option"
  ai_action :: string
  ai_targetType :: string
  ai_targetId :: "string option"
  ai_targetLabel :: "string option"
  ai_changes :: "json_object option"
  ai_metadata :: "json_object option"

definition recordAudit :: "env \<Rightarrow> audit_input \<Rightarrow> audit_context option \<Rightarrow> audit_log op" where
  "recordAudit e inp ctx =
     bindE (fresh_id e) (\<lambda>i.
       let r = \<lparr>al_id = i, al_scope = ai_scope inp, al_workspaceId = ai_workspaceId inp,
                al_actorType = (case Option.bind ctx ac_actorType of None \<Rightarrow> ''user'' | Some a \<Rightarrow> a),
                al_actorUserId = Option.bind ctx ac_actorUserId,
                al_actorEmailSnapshot = Option.bind ctx ac_actorEmailSnapshot,
                al_action = ai_action inp, al_targetType = ai_targetType inp,
                al_targetId = ai_targetId inp, al_targetLabel = ai_targetLabel inp,
                al_ipAddress = Option.bind ctx ac_ipAddress,
                al_userAgent = Option.bind ctx ac_userAgent,
                al_changes = ai_changes inp, al_metadata = ai_metadata inp, al_createdAt = e_now e\<rparr>
       in bindE (writeE (\<lambda>s. s\<lparr>audit_logs := audit_logs s @ [r]\<rparr>)) (\<lambda>_. ret r))"

text \<open>SQL \<open>LIKE\<close>: \<open>%\<close> any run, \<open>_\<close> any character, a backslash takes the next one literally.\<close>

fun like :: "string \<Rightarrow> string \<Rightarrow> bool" where
  "like [] xs \<longleftrightarrow> xs = []"
| "like (p # ps) [] \<longleftrightarrow> p = CHR ''%'' \<and> like ps []"
| "like (p # ps) (x # xs) \<longleftrightarrow>
     (if p = CHR ''%'' then like ps (x # xs) \<or> like (p # ps) xs
      else if p = CHR ''_'' then like ps xs
      else if p = CHR 0x5C \<and> ps \<noteq> [] then hd ps = x \<and> like (tl ps) xs
      else p = x \<and> like ps xs)"

definition ilike_containing :: "string \<Rightarrow> string \<Rightarrow> bool" where
  "ilike_containing needle xs \<longleftrightarrow> like (''%'' @ toLowerCase needle @ ''%'') (toLowerCase xs)"

record audit_query =
  qa_actor :: "string option"
  qa_action :: "string option"
  qa_targetType :: "string option"
  qa_from :: "timestamp option"
  qa_to :: "timestamp option"
  qa_limit :: "nat option"
  qa_offset :: "nat option"

definition audit_matches :: "audit_query \<Rightarrow> string option \<Rightarrow> audit_log \<Rightarrow> bool" where
  "audit_matches q workspaceId r \<longleftrightarrow>
     (if truthy workspaceId then al_workspaceId r = workspaceId else al_scope r = ''platform'') \<and>
     if_given (qa_actor q) (\<lambda>a. (case al_actorEmailSnapshot r of None \<Rightarrow> False | Some m \<Rightarrow> ilike_containing a m) \<or>
                                al_actorUserId r = Some a) \<and>
     if_given (qa_action q) (\<lambda>a. ilike_containing a (al_action r)) \<and>
     if_given (qa_targetType q) (\<lambda>t. al_targetType r = t) \<and>
     (case qa_from q of None \<Rightarrow> True | Some f \<Rightarrow> ts_instant f \<le> al_createdAt r) \<and>
     (case qa_to q of None \<Rightarrow> True | Some t \<Rightarrow> al_createdAt r \<le> ts_instant t)"

definition audit_findAll :: "audit_query \<Rightarrow> string option \<Rightarrow> audit_log list op" where
  "audit_findAll q workspaceId =
     readE (\<lambda>s. take (case qa_limit q of None \<Rightarrow> 50 | Some n \<Rightarrow> n)
       (drop (case qa_offset q of None \<Rightarrow> 0 | Some n \<Rightarrow> n)
         (sort_key (\<lambda>r. - al_createdAt r) (filter (audit_matches q workspaceId) (audit_logs s)))))"

section \<open>Lemmas\<close>

subsection \<open>Evaluation\<close>

lemma enqueue_apply:
  "\<exists>ev. enqueue e type payload av mx s =
     (Inr ev, s\<lparr>drawn := Suc (drawn s), outbox_events := save_row o_id ev (outbox_events s)\<rparr>) \<and>
     o_id ev = e_uuid e (drawn s) \<and> o_type ev = type \<and> o_payload ev = payload \<and> o_status ev = OB_PENDING"
  by (simp add: enqueue_def Let_def)

lemma enqueue_frames [frame_rules, simp]: "frames core (enqueue e type payload av mx)"
  and emit_frames [frame_rules, simp]: "frames core (emit n p)"
  and publish_frames [frame_rules, simp]: "frames core (publish n p)"
  by (simp_all add: frames_def enqueue_def Let_def core_def)

lemma recordEvent_frames [frame_rules, simp]: "frames core (recordEvent e w n type sev msg md)"
  unfolding recordEvent_def Let_def
  by (intro frame_rules) (simp_all add: frames_def core_def)

lemma recordAudit_frames [frame_rules, simp]: "frames core (recordAudit e inp ctx)"
  by (simp add: frames_def recordAudit_def core_def Let_def)

lemma output_emit [output_rules, simp]: "outputs (emit n p)"
  and output_publish [output_rules, simp]: "outputs (publish n p)"
  and output_enqueue [output_rules, simp]: "outputs (enqueue e type payload av mx)"
  and output_recordAudit [output_rules, simp]: "outputs (recordAudit e inp ctx)"
  by (simp_all add: outputs_def core_def emit_def publish_def enqueue_def recordAudit_def Let_def)

lemma output_notify [output_rules, simp]: "outputs (writeE (\<lambda>s. s\<lparr>notified := f s\<rparr>))"
  and output_events [output_rules, simp]: "outputs (writeE (\<lambda>s. s\<lparr>events := g s\<rparr>))"
  by (simp_all add: outputs_def core_def)

lemma output_recordEvent [output_rules, simp]: "outputs (recordEvent e w n type sev msg md)"
  unfolding recordEvent_def Let_def by (intro output_rules)

lemmas leads_outputs [leads_rules] =
  leads_output[OF _ output_recordAudit] leads_output[OF _ output_recordEvent] leads_output[OF _ output_emit]
  leads_output[OF _ output_publish] leads_output[OF _ output_enqueue] leads_output[OF _ output_fresh_id]
  leads_after_output[OF _ output_recordAudit] leads_after_output[OF _ output_recordEvent]
  leads_after_output[OF _ output_emit] leads_after_output[OF _ output_publish]
  leads_after_output[OF _ output_enqueue] leads_after_output[OF _ output_fresh_id]
  leads_after_output[OF _ output_fresh_token]

lemmas recordEvent_core [simp] = frames_core[OF recordEvent_frames]
lemmas recordAudit_core [simp] = frames_core[OF recordAudit_frames]
lemmas enqueue_core [simp] = frames_core[OF enqueue_frames]

lemma recordAudit_other [simp]:
  "drawn (after (recordAudit e inp ctx) s) = Suc (drawn s)"
  "events (after (recordAudit e inp ctx) s) = events s"
  "outbox_events (after (recordAudit e inp ctx) s) = outbox_events s"
  "emitted (after (recordAudit e inp ctx) s) = emitted s"
  "published (after (recordAudit e inp ctx) s) = published s"
  by (simp_all add: recordAudit_def Let_def)

text \<open>An audit record never fails, and an event of a known workspace never does.\<close>

lemma recordAudit_Inr: "\<exists>r. outcome (recordAudit e inp ctx) s = Inr r"
  by (simp add: recordAudit_def Let_def)

lemma enqueue_Inr: "\<exists>r. outcome (enqueue e type payload av mx) s = Inr r"
  by (simp add: enqueue_def Let_def)

lemma recordEvent_Inr:
  "truthy (event_workspace w n (nodes s)) \<Longrightarrow> \<exists>r. outcome (recordEvent e w n type sev msg md) s = Inr r"
  using enqueue_Inr by (auto simp: recordEvent_def Let_def enqueue_def)

lemma bindE_recordAudit [simp]:
  "bindE (recordAudit e inp ctx) f s =
     f (projr (outcome (recordAudit e inp ctx) s)) (after (recordAudit e inp ctx) s)"
  using recordAudit_Inr[of e inp ctx s]
  by (cases "recordAudit e inp ctx s") (auto simp: bindE_def)

lemma bindE_enqueue [simp]:
  "bindE (enqueue e type payload av mx) f s =
     f (projr (outcome (enqueue e type payload av mx) s)) (after (enqueue e type payload av mx) s)"
  using enqueue_Inr[of e type payload av mx s]
  by (cases "enqueue e type payload av mx s") (auto simp: bindE_def)

lemma bindE_recordEvent [simp]:
  "truthy (event_workspace w n (nodes s)) \<Longrightarrow>
     bindE (recordEvent e w n type sev msg md) f s =
       f (projr (outcome (recordEvent e w n type sev msg md) s)) (after (recordEvent e w n type sev msg md) s)"
  using recordEvent_Inr[of w n s e type sev msg md]
  by (cases "recordEvent e w n type sev msg md s") (auto simp: bindE_def)

lemma event_workspace_given [simp]: "event_workspace (Some w) n rows = Some w"
  by (simp add: event_workspace_def)

subsection \<open>Searching the trail\<close>

text \<open>For a search text without wildcards, \<open>ILIKE '%text%'\<close> is the case-insensitive
  substring test.\<close>

definition plain :: "string \<Rightarrow> bool" where
  "plain xs \<longleftrightarrow> set xs \<inter> {CHR ''%'', CHR ''_'', CHR 0x5C} = {}"

lemma like_any: "like ''%'' xs"
  by (induction xs) simp_all

lemma like_prefix:
  "plain ps \<Longrightarrow> like (ps @ ''%'') xs \<longleftrightarrow> (\<exists>suf. xs = ps @ suf)"
  by (induction ps arbitrary: xs; case_tac xs) (auto simp: plain_def like_any)

lemma like_infix:
  assumes "plain ps"
  shows "like (CHR ''%'' # ps @ ''%'') xs \<longleftrightarrow> (\<exists>pre suf. xs = pre @ ps @ suf)"
proof (induction xs)
  case Nil
  then show ?case using like_prefix[OF assms, of "[]"] by simp
next
  case (Cons x xs)
  have "(\<exists>pre suf. x # xs = pre @ ps @ suf) \<longleftrightarrow>
        (\<exists>suf. x # xs = ps @ suf) \<or> (\<exists>pre suf. xs = pre @ ps @ suf)"
    by (metis append_Cons append_Nil append_eq_Cons_conv)
  then show ?case using Cons.IH like_prefix[OF assms, of "x # xs"] by simp
qed

lemma char_lower_letter: "char_lower c \<noteq> c \<Longrightarrow> (97::nat) \<le> of_char (char_lower c)"
  by (auto simp: char_lower_def Let_def split: if_splits)

lemma plain_lower: "plain ps \<Longrightarrow> plain (toLowerCase ps)"
proof -
  have "char_lower c \<notin> {CHR ''%'', CHR ''_'', CHR 0x5C}" if "c \<notin> {CHR ''%'', CHR ''_'', CHR 0x5C}" for c
  proof (cases "char_lower c = c")
    case False
    then have "(97::nat) \<le> of_char (char_lower c)" by (rule char_lower_letter)
    then show ?thesis by auto
  qed (use that in simp)
  moreover assume "plain ps"
  ultimately have "char_lower c \<notin> {CHR ''%'', CHR ''_'', CHR 0x5C}" if "c \<in> set ps" for c
    using that unfolding plain_def by blast
  then have "set (map char_lower ps) \<inter> {CHR ''%'', CHR ''_'', CHR 0x5C} = {}"
    unfolding set_map by blast
  then show "plain (toLowerCase ps)" unfolding plain_def toLowerCase_def .
qed

section \<open>Properties\<close>

text \<open>Recording an event. When the workspace is neither given nor found through the node the
  call throws and nothing changes. Otherwise exactly one event of that workspace is appended,
  and it leaves in exactly one way: as one new pending \<open>event.created\<close> outbox entry that
  carries it (nothing is emitted yet), or, without an outbox, by one emission, one publication
  and one notification.\<close>

theorem recordEvent_spec:
  assumes fresh: "e_uuid e (Suc (drawn s)) \<notin> o_id ` set (outbox_events s)"
  shows "if truthy (event_workspace w n (nodes s)) then
           \<exists>ev s'. recordEvent e w n type sev msg md s = (Inr ev, s') \<and> events s' = events s @ [ev] \<and>
             Some (ev_workspaceId ev) = event_workspace w n (nodes s) \<and> ev_nodeId ev = n \<and> core s' = core s \<and>
             (if e_outbox e
              then (\<exists>o_ev. outbox_events s' = outbox_events s @ [o_ev] \<and> o_type o_ev = ''event.created'' \<and>
                      o_status o_ev = OB_PENDING \<and> due (e_now e) o_ev \<and>
                      o_payload o_ev = [(''event'', event_json e ev)]) \<and>
                   (emitted s', published s', notified s') = (emitted s, published s, notified s)
              else outbox_events s' = outbox_events s \<and>
                   emitted s' = emitted s @ [(''event.created'', event_json e ev)] \<and>
                   published s' = published s @ [(''events.created'', event_json e ev)] \<and>
                   notified s' = notified s @ [ev_id ev])
         else \<exists>m. recordEvent e w n type sev msg md s = (Inl (InternalError m), s)"
  using fresh
  by (auto simp: recordEvent_def Let_def enqueue_def bindE_def core_def save_row_def due_def truthy_def)

theorem recordEvent_spec_witness:
  "\<exists>ev s'. recordEvent base_env (Some ''w'') None ''node.offline'' None ''down'' None empty_db = (Inr ev, s') \<and>
     ev_workspaceId ev = ''w'' \<and> events s' = [ev]"
proof -
  have "e_uuid base_env (Suc (drawn empty_db)) \<notin> o_id ` set (outbox_events empty_db)"
    by (simp add: empty_db_def)
  from recordEvent_spec[OF this, of "Some ''w''" None "''node.offline''" None "''down''" None]
  have "\<exists>ev s'. recordEvent base_env (Some ''w'') None ''node.offline'' None ''down'' None empty_db = (Inr ev, s') \<and>
     events s' = events empty_db @ [ev] \<and> Some (ev_workspaceId ev) = Some ''w''"
    by simp blast
  moreover have "events empty_db = []" by (simp add: empty_db_def)
  ultimately show ?thesis by auto
qed

text \<open>Searching the audit trail. A workspace listing returns records of that workspace only, at
  most \<open>limit\<close> (50 by default) of them, newest first; a plain search text selects the records
  whose action contains it, whatever the case.\<close>

theorem audit_findAll_spec:
  fixes s
  assumes "w \<noteq> []" "qa_action q = Some a" "a \<noteq> []" "plain a"
  defines "rs \<equiv> projr (outcome (audit_findAll q (Some w)) s)"
  shows "length rs \<le> (case qa_limit q of None \<Rightarrow> 50 | Some n \<Rightarrow> n) \<and>
    sorted_wrt (\<lambda>x y. al_createdAt y \<le> al_createdAt x) rs \<and>
    (\<forall>r \<in> set rs. r \<in> set (audit_logs s) \<and> al_workspaceId r = Some w \<and>
       (\<exists>pre suf. toLowerCase (al_action r) = pre @ toLowerCase a @ suf))"
proof -
  let ?rows = "filter (audit_matches q (Some w)) (audit_logs s)"
  let ?k = "\<lambda>r. - al_createdAt r"
  have rs: "rs = take (case qa_limit q of None \<Rightarrow> 50 | Some n \<Rightarrow> n)
       (drop (case qa_offset q of None \<Rightarrow> 0 | Some n \<Rightarrow> n) (sort_key ?k ?rows))"
    by (simp add: rs_def audit_findAll_def)
  have "sorted_wrt (\<lambda>x y. ?k x \<le> ?k y) (sort_key ?k ?rows)"
    using sorted_sort_key[of ?k ?rows] by (simp add: sorted_map)
  then have "sorted_wrt (\<lambda>x y. al_createdAt y \<le> al_createdAt x) rs"
    unfolding rs by (simp add: sorted_wrt_take sorted_wrt_drop)
  moreover have "set rs \<subseteq> set ?rows"
    unfolding rs by (metis set_sort set_take_subset set_drop_subset subset_trans)
  moreover have "\<exists>pre suf. toLowerCase (al_action r) = pre @ toLowerCase a @ suf"
    if "audit_matches q (Some w) r" for r
    using that assms(2,3) like_infix[OF plain_lower[OF assms(4)]]
    by (simp add: audit_matches_def if_given_def ilike_containing_def)
  moreover have "al_workspaceId r = Some w" if "audit_matches q (Some w) r" for r
    using that assms(1) by (simp add: audit_matches_def)
  ultimately show ?thesis by (auto simp: rs)
qed

definition sample_audit :: "string \<Rightarrow> string \<Rightarrow> audit_log" where
  "sample_audit i act = \<lparr>al_id = i, al_scope = ''workspace'', al_workspaceId = Some ''w'', al_actorType = ''user'',
     al_actorUserId = None, al_actorEmailSnapshot = None, al_action = act, al_targetType = ''task'',
     al_targetId = None, al_targetLabel = None, al_ipAddress = None, al_userAgent = None,
     al_changes = None, al_metadata = None, al_createdAt = 5\<rparr>"

definition sample_query :: audit_query where
  "sample_query = \<lparr>qa_actor = None, qa_action = Some ''TASK'', qa_targetType = None, qa_from = None,
     qa_to = None, qa_limit = Some 1, qa_offset = None\<rparr>"

theorem audit_findAll_spec_witness:
  "let s = empty_db\<lparr>audit_logs := [sample_audit ''1'' ''task.created'', sample_audit ''2'' ''node.deleted'']\<rparr>
   in length (projr (outcome (audit_findAll sample_query (Some ''w'')) s)) \<le> 1"
  using audit_findAll_spec[of "''w''" sample_query "''TASK''"
      "empty_db\<lparr>audit_logs := [sample_audit ''1'' ''task.created'', sample_audit ''2'' ''node.deleted'']\<rparr>"]
  by (simp add: sample_query_def plain_def Let_def)

end
