(* ===== verification/Schedule.thy ===== *)
theory Schedule
  imports Store
begin

text \<open>
  The schedule arithmetic of \<open>src/modules/tasks/scheduled-task.utils.ts\<close> and the time zone
  checks of \<open>src/common/utils/timezone.util.ts\<close>: when a minutely, custom, hourly, daily or
  weekly schedule runs next. What \<open>Intl.DateTimeFormat\<close> knows of a zone is a parameter of the
  environment. The lemmas show that the calendar conversion is a bijection, that the next run
  lies in the future, and that in a zone with a fixed offset it is the earliest instant with
  the wanted local time.
\<close>

section \<open>Time zones\<close>

definition DEFAULT_TIMEZONE :: string where
  "DEFAULT_TIMEZONE = ''UTC''"

definition isValidTimeZone :: "env \<Rightarrow> string \<Rightarrow> bool" where
  "isValidTimeZone e v \<longleftrightarrow> v \<noteq> [] \<and> trim v \<noteq> [] \<and> e_validTimeZone e (trim v)"

definition assertValidTimeZone :: "env \<Rightarrow> string \<Rightarrow> http_error + string" where
  "assertValidTimeZone e v =
     (let normalized = trim v
      in if isValidTimeZone e normalized then Inr normalized
         else Inl (BadRequest ((if v = [] then ''Timezone'' else v) @ '' is not a valid IANA timezone.'')))"

section \<open>Calendar\<close>

text \<open>\<open>Date.UTC\<close> (month from 1; a year below 100 means that year of the 1900s).\<close>

definition days_from_civil :: "int \<Rightarrow> int \<Rightarrow> int \<Rightarrow> int" where
  "days_from_civil y m d =
     (let y' = (if m \<le> 2 then y - 1 else y);
          era = y' div 400;
          yoe = y' mod 400;
          doy = (153 * ((m + 9) mod 12) + 2) div 5 + d - 1;
          doe = yoe * 365 + yoe div 4 - yoe div 100 + doy
      in era * 146097 + doe - 719468)"

definition date_UTC :: "int \<Rightarrow> int \<Rightarrow> int \<Rightarrow> int \<Rightarrow> int \<Rightarrow> int" where
  "date_UTC y m d h mi =
     days_from_civil (if 0 \<le> y \<and> y \<le> 99 then 1900 + y else y) m d * 86400000 + h * 3600000 + mi * 60000"

record local_time =
  lt_year :: int
  lt_month :: int
  lt_day :: int
  lt_hour :: int
  lt_minute :: int

record zoned_time = local_time +
  zt_second :: int
  zt_dayOfWeek :: int

text \<open>The calendar fields \<open>formatToParts\<close> prints for an instant in a zone.\<close>

definition getZonedDateTimeParts :: "env \<Rightarrow> int \<Rightarrow> string \<Rightarrow> zoned_time" where
  "getZonedDateTimeParts e t timezone =
     (let l = t + e_offsetMs e timezone t;
          days = l div 86400000;
          ms = l mod 86400000;
          (y, m, d) = civil_from_days days
      in \<lparr>lt_year = y, lt_month = m, lt_day = d, lt_hour = ms div 3600000,
          lt_minute = ms div 60000 mod 60, zt_second = ms div 1000 mod 60,
          zt_dayOfWeek = (days + 4) mod 7\<rparr>)"

text \<open>The match of \<open>/^GMT([+-])(\d{1,2})(?::?(\d{2}))?$/\<close> and the minutes it denotes.\<close>

definition is_digit :: "char \<Rightarrow> bool" where
  "is_digit c \<longleftrightarrow> (let n = of_char c :: nat in 48 \<le> n \<and> n \<le> 57)"

definition digit_val :: "char \<Rightarrow> int" where
  "digit_val c = of_char c - 48"

fun offset_minute_part :: "string \<Rightarrow> int option" where
  "offset_minute_part [] = Some 0"
| "offset_minute_part [a, b] = (if is_digit a \<and> is_digit b then Some (digit_val a * 10 + digit_val b) else None)"
| "offset_minute_part [c, a, b] =
     (if c = CHR '':'' \<and> is_digit a \<and> is_digit b then Some (digit_val a * 10 + digit_val b) else None)"
| "offset_minute_part _ = None"

definition offset_digits :: "string \<Rightarrow> int option" where
  "offset_digits xs =
     (case xs of
        a # b # rest \<Rightarrow>
          (if is_digit a then
             (case (if is_digit b then offset_minute_part rest else None) of
                Some m \<Rightarrow> Some ((digit_val a * 10 + digit_val b) * 60 + m)
              | None \<Rightarrow> map_option (\<lambda>m. digit_val a * 60 + m) (offset_minute_part (b # rest)))
           else None)
      | [a] \<Rightarrow> (if is_digit a then Some (digit_val a * 60) else None)
      | [] \<Rightarrow> None)"

fun offset_minutes :: "string \<Rightarrow> int option" where
  "offset_minutes (g # m # t # sign # rest) =
     (if [g, m, t] = ''GMT'' then
        (if sign = CHR ''+'' then offset_digits rest
         else if sign = CHR ''-'' then map_option uminus (offset_digits rest) else None)
      else None)"
| "offset_minutes _ = None"

definition getTimeZoneOffsetMinutes :: "env \<Rightarrow> int \<Rightarrow> string \<Rightarrow> int" where
  "getTimeZoneOffsetMinutes e t timezone =
     (case Option.bind (e_zoneName e timezone t) offset_minutes of None \<Rightarrow> 0 | Some m \<Rightarrow> m)"

definition addLocalDays :: "int \<times> int \<times> int \<Rightarrow> int \<Rightarrow> int \<times> int \<times> int" where
  "addLocalDays ymd days =
     (case ymd of (y, m, d) \<Rightarrow> civil_from_days (date_UTC y m d 0 0 div 86400000 + days))"

definition compareLocalDateTime :: "'a local_time_scheme \<Rightarrow> 'b local_time_scheme \<Rightarrow> int" where
  "compareLocalDateTime l r =
     date_UTC (lt_year l) (lt_month l) (lt_day l) (lt_hour l) (lt_minute l) -
     date_UTC (lt_year r) (lt_month r) (lt_day r) (lt_hour r) (lt_minute r)"

definition clamp :: "int \<Rightarrow> int \<Rightarrow> int \<Rightarrow> int" where
  "clamp v lo hi = min (max v lo) hi"

section \<open>Resolving a local time\<close>

definition same_minute :: "'a local_time_scheme \<Rightarrow> 'b local_time_scheme \<Rightarrow> bool" where
  "same_minute l r \<longleftrightarrow>
     lt_year l = lt_year r \<and> lt_month l = lt_month r \<and> lt_day l = lt_day r \<and>
     lt_hour l = lt_hour r \<and> lt_minute l = lt_minute r"

definition findMatchingInstants :: "env \<Rightarrow> local_time \<Rightarrow> string \<Rightarrow> int \<Rightarrow> int list" where
  "findMatchingInstants e target timezone guessMs =
     sort (filter (\<lambda>t. same_minute (getZonedDateTimeParts e t timezone) target)
             (map (\<lambda>k. guessMs + k * 60000) [-180..180]))"

definition findGapFallbackInstant :: "env \<Rightarrow> local_time \<Rightarrow> string \<Rightarrow> int \<Rightarrow> bool \<Rightarrow> int option" where
  "findGapFallbackInstant e target timezone guessMs preserveMinute =
     List.find (\<lambda>t. let parts = getZonedDateTimeParts e t timezone
                    in lt_year parts = lt_year target \<and> lt_month parts = lt_month target \<and>
                       lt_day parts = lt_day target \<and>
                       (preserveMinute \<longrightarrow> lt_minute parts = lt_minute target) \<and>
                       compareLocalDateTime parts target > 0)
       (map (\<lambda>k. guessMs + k * 60000) [0..240])"

definition resolveLocalDateTime :: "env \<Rightarrow> local_time \<Rightarrow> string \<Rightarrow> int" where
  "resolveLocalDateTime e target timezone =
     (let approximateUtcMs = date_UTC (lt_year target) (lt_month target) (lt_day target)
                               (lt_hour target) (lt_minute target);
          offsetMinutes = getTimeZoneOffsetMinutes e approximateUtcMs timezone;
          guessMs = approximateUtcMs - offsetMinutes * 60000
      in case findMatchingInstants e target timezone guessMs of
           t # _ \<Rightarrow> t
         | [] \<Rightarrow>
             (case findGapFallbackInstant e target timezone guessMs True of
                Some t \<Rightarrow> t
              | None \<Rightarrow>
                  (case findGapFallbackInstant e target timezone guessMs False of
                     Some t \<Rightarrow> t
                   | None \<Rightarrow> guessMs)))"

section \<open>Next run\<close>

definition computeMinutelyRun :: "int \<Rightarrow> int" where
  "computeMinutelyRun t =
     (let candidate = t div 60000 * 60000 in if candidate \<le> t then candidate + 60000 else candidate)"

definition computeCustomIntervalRun :: "int \<Rightarrow> int \<Rightarrow> int" where
  "computeCustomIntervalRun intervalMinutes t =
     computeMinutelyRun t + max 0 (intervalMinutes - 1) * 60000"

text \<open>The 180 candidates of the hourly search, minute by minute.\<close>

fun hourly_search :: "nat \<Rightarrow> env \<Rightarrow> int \<Rightarrow> int \<Rightarrow> string \<Rightarrow> http_error + int" where
  "hourly_search 0 e minute candidate timezone =
     Inl (InternalError (''Unable to resolve hourly schedule in '' @ timezone))"
| "hourly_search (Suc n) e minute candidate timezone =
     (if lt_minute (getZonedDateTimeParts e candidate timezone) = minute then Inr candidate
      else hourly_search n e minute (candidate + 60000) timezone)"

definition computeHourlyRun :: "env \<Rightarrow> int \<Rightarrow> int \<Rightarrow> string \<Rightarrow> http_error + int" where
  "computeHourlyRun e minute t timezone =
     (let candidate = t div 60000 * 60000
      in hourly_search 180 e minute (if candidate \<le> t then candidate + 60000 else candidate) timezone)"

definition local_at :: "int \<times> int \<times> int \<Rightarrow> int \<Rightarrow> int \<Rightarrow> local_time" where
  "local_at ymd hour minute =
     (case ymd of (y, m, d) \<Rightarrow> \<lparr>lt_year = y, lt_month = m, lt_day = d, lt_hour = hour, lt_minute = minute\<rparr>)"

definition local_date :: "'a local_time_scheme \<Rightarrow> int \<times> int \<times> int" where
  "local_date l = (lt_year l, lt_month l, lt_day l)"

definition computeDailyRun :: "env \<Rightarrow> int \<Rightarrow> int \<Rightarrow> int \<Rightarrow> string \<Rightarrow> int" where
  "computeDailyRun e hour minute t timezone =
     (let reference = getZonedDateTimeParts e t timezone;
          target = local_at (local_date reference) hour minute;
          target = (if compareLocalDateTime target reference \<le> 0
                    then local_at (addLocalDays (local_date target) 1) hour minute else target)
      in resolveLocalDateTime e target timezone)"

definition computeWeeklyRun :: "env \<Rightarrow> int \<Rightarrow> int \<Rightarrow> int \<Rightarrow> int \<Rightarrow> string \<Rightarrow> int" where
  "computeWeeklyRun e dayOfWeek hour minute t timezone =
     (let reference = getZonedDateTimeParts e t timezone;
          dayOffset = dayOfWeek - zt_dayOfWeek reference;
          dayOffset = (if dayOffset < 0 then dayOffset + 7 else dayOffset);
          target = local_at (addLocalDays (local_date reference) dayOffset) hour minute;
          target = (if dayOffset = 0 \<and> compareLocalDateTime target reference \<le> 0
                    then local_at (addLocalDays (local_date target) 7) hour minute else target)
      in resolveLocalDateTime e target timezone)"

definition computeNextScheduledRun :: "env \<Rightarrow> scheduled_task \<Rightarrow> int \<Rightarrow> http_error + int" where
  "computeNextScheduledRun e inp t =
     (let minute = clamp (st_minute inp) 0 59;
          hour = map_option (\<lambda>h. clamp h 0 23) (st_hour inp);
          day = map_option (\<lambda>d. clamp d 0 6) (st_dayOfWeek inp);
          interval = map_option (\<lambda>i. clamp i 1 10080) (st_intervalMinutes inp)
      in case assertValidTimeZone e (st_timezone inp) of
           Inl err \<Rightarrow> Inl err
         | Inr timezone \<Rightarrow>
             (if st_cadence inp = ''minutely'' then Inr (computeMinutelyRun t)
              else if st_cadence inp = ''custom'' then
                Inr (computeCustomIntervalRun (case interval of None \<Rightarrow> 1 | Some i \<Rightarrow> i) t)
              else if st_cadence inp = ''hourly'' then computeHourlyRun e minute t timezone
              else if st_cadence inp = ''daily'' then
                Inr (computeDailyRun e (case hour of None \<Rightarrow> 0 | Some h \<Rightarrow> h) minute t timezone)
              else if st_cadence inp = ''weekly'' then
                Inr (computeWeeklyRun e (case day of None \<Rightarrow> 0 | Some d \<Rightarrow> d)
                       (case hour of None \<Rightarrow> 0 | Some h \<Rightarrow> h) minute t timezone)
              else computeHourlyRun e minute t timezone))"

definition WEEKDAY_LABELS :: "string list" where
  "WEEKDAY_LABELS = [''Sunday'', ''Monday'', ''Tuesday'', ''Wednesday'', ''Thursday'', ''Friday'', ''Saturday'']"

text \<open>\<open>undefined\<close> is what a template string prints for a weekday out of range.\<close>

definition describeScheduledTask :: "scheduled_task \<Rightarrow> string" where
  "describeScheduledTask inp =
     (let minute = pad0 2 (show_int (st_minute inp));
          hour = pad0 2 (show_int (case st_hour inp of None \<Rightarrow> 0 | Some h \<Rightarrow> h));
          d = (case st_dayOfWeek inp of None \<Rightarrow> 0 | Some d \<Rightarrow> d);
          day = (if 0 \<le> d \<and> d \<le> 6 then WEEKDAY_LABELS ! nat d else ''undefined'')
      in if st_cadence inp = ''minutely'' then ''Every minute '' @ st_timezone inp
         else if st_cadence inp = ''custom'' then
           ''Every '' @ show_int (case st_intervalMinutes inp of None \<Rightarrow> 1 | Some i \<Rightarrow> i) @ '' minutes '' @ st_timezone inp
         else if st_cadence inp = ''hourly'' then ''Every hour at :'' @ minute @ '' '' @ st_timezone inp
         else if st_cadence inp = ''daily'' then
           ''Every day at '' @ hour @ '':'' @ minute @ '' '' @ st_timezone inp
         else if st_cadence inp = ''weekly'' then
           ''Every '' @ day @ '' at '' @ hour @ '':'' @ minute @ '' '' @ st_timezone inp
         else ''Scheduled task'')"

section \<open>Lemmas\<close>

subsection \<open>The calendar\<close>

text \<open>Within a 400-year era the year computed from a day number is the year that day lies in.\<close>

lemma year_of_century:
  fixes r b a y :: int
  assumes "0 \<le> r" "r < 36524" "0 \<le> b" "b \<le> 3"
    and a: "1460 * a \<le> 36524 * b + r" "36524 * b + r < 1460 * a + 1460"
    and y: "365 * y \<le> r - (a - 25 * b)" "r - (a - 25 * b) < 365 * y + 365"
  shows "0 \<le> y" "y < 100" "365 * y + y div 4 \<le> r" "r < 365 * y + y div 4 + 366"
proof -
  define k where "k = a - 25 * b"
  define q where "q = y div 4"
  have k: "1460 * k \<le> 24 * b + r" "24 * b + r < 1460 * k + 1460" using a by (simp_all add: k_def)
  have ry: "365 * y \<le> r - k" "r - k < 365 * y + 365" using y by (simp_all add: k_def)
  have q: "4 * q \<le> y" "y \<le> 4 * q + 3" unfolding q_def by presburger+
  have "0 \<le> k" using k assms by linarith
  show "0 \<le> y" using ry k assms by linarith
  show "y < 100" using ry k assms \<open>0 \<le> k\<close> by linarith
  have "q \<le> k" using q ry k assms \<open>0 \<le> k\<close> by linarith
  then show "365 * y + y div 4 \<le> r" using ry by (simp add: q_def[symmetric])
  have "q \<le> 24" using q \<open>y < 100\<close> by linarith
  then have "k \<le> q + 1" using q ry k assms by linarith
  then show "r < 365 * y + y div 4 + 366" using ry by (simp add: q_def[symmetric])
qed

lemma year_of_era:
  fixes doe :: int
  assumes "0 \<le> doe" "doe < 146097"
  defines "yoe \<equiv> (doe - doe div 1460 + doe div 36524 - doe div 146096) div 365"
  shows "0 \<le> yoe \<and> yoe < 400 \<and>
    365 * yoe + yoe div 4 - yoe div 100 \<le> doe \<and> doe < 365 * yoe + yoe div 4 - yoe div 100 + 366"
proof (cases "doe = 146096")
  case True
  then show ?thesis by (simp add: yoe_def)
next
  case False
  define b where "b = doe div 36524"
  define r where "r = doe mod 36524"
  define a where "a = doe div 1460"
  define y where "y = (r - (a - 25 * b)) div 365"
  have doe: "doe = 36524 * b + r" by (simp add: b_def r_def)
  have r: "0 \<le> r" "r < 36524" by (simp_all add: r_def)
  have b: "0 \<le> b" "b \<le> 3" using assms False r doe by linarith+
  have a: "1460 * a \<le> 36524 * b + r" "36524 * b + r < 1460 * a + 1460"
    unfolding doe[symmetric] a_def by presburger+
  have y: "365 * y \<le> r - (a - 25 * b)" "r - (a - 25 * b) < 365 * y + 365"
    unfolding y_def by presburger+
  note c = year_of_century[OF r b a y]
  have "doe div 146096 = 0" using assms False by (simp add: div_pos_pos_trivial)
  then have "yoe = (36500 * b + (r - (a - 25 * b))) div 365"
    by (simp add: yoe_def doe[symmetric] a_def[symmetric] b_def[symmetric]) (simp add: doe)
  then have yoe: "yoe = 100 * b + y" by (simp add: y_def)
  have "yoe div 4 = 25 * b + y div 4" "yoe div 100 = b" using c(1,2) by (simp_all add: yoe)
  then show ?thesis using c b by (simp add: yoe doe)
qed

lemma days_from_civil_from_days: "(case civil_from_days n of (y, m, d) \<Rightarrow> days_from_civil y m d) = n"
proof -
  define z where "z = n + 719468"
  define era where "era = z div 146097"
  define doe where "doe = z mod 146097"
  define yoe where "yoe = (doe - doe div 1460 + doe div 36524 - doe div 146096) div 365"
  define doy where "doy = doe - (365 * yoe + yoe div 4 - yoe div 100)"
  define mp where "mp = (5 * doy + 2) div 153"
  define m where "m = (if mp < 10 then mp + 3 else mp - 9)"
  have "0 \<le> doe" "doe < 146097" by (simp_all add: doe_def)
  from year_of_era[OF this] have yoe: "0 \<le> yoe" "yoe < 400" and doy: "0 \<le> doy" "doy < 366"
    by (simp_all add: yoe_def doy_def)
  have "153 * mp \<le> 5 * doy + 2" "5 * doy + 2 < 153 * mp + 153" unfolding mp_def by presburger+
  then have mp: "0 \<le> mp" "mp < 12" using doy by linarith+
  have "civil_from_days n =
      (yoe + era * 400 + (if m \<le> 2 then 1 else 0), m, doy - (153 * mp + 2) div 5 + 1)"
    unfolding civil_from_days_def Let_def z_def[symmetric] doe_def[symmetric] era_def[symmetric]
      yoe_def[symmetric] doy_def[symmetric] mp_def[symmetric] m_def[symmetric] by simp
  moreover have "(m + 9) mod 12 = mp" using mp by (auto simp: m_def)
  moreover have "(yoe + era * 400) div 400 = era" "(yoe + era * 400) mod 400 = yoe" using yoe by simp_all
  ultimately have "(case civil_from_days n of (y, m, d) \<Rightarrow> days_from_civil y m d) = era * 146097 + doe - 719468"
    by (simp add: days_from_civil_def Let_def doy_def)
  then show ?thesis by (simp add: era_def doe_def z_def)
qed

lemma civil_year: "-573371 \<le> n \<Longrightarrow> 100 \<le> fst (civil_from_days n)"
proof -
  assume n: "-573371 \<le> n"
  define z where "z = n + 719468"
  define doe where "doe = z mod 146097"
  define yoe where "yoe = (doe - doe div 1460 + doe div 36524 - doe div 146096) div 365"
  have "0 \<le> doe" "doe < 146097" by (simp_all add: doe_def)
  from year_of_era[OF this] have "0 \<le> yoe" unfolding yoe_def by blast
  moreover have "1 \<le> z div 146097" using zdiv_mono1[of 146097 z 146097] n by (simp add: z_def)
  moreover have "\<exists>C. fst (civil_from_days n) = yoe + z div 146097 * 400 + (if C then 1 else 0)"
    unfolding civil_from_days_def Let_def z_def[symmetric] doe_def[symmetric] yoe_def[symmetric] fst_conv
    by (rule exI, rule refl)
  then obtain C where "fst (civil_from_days n) = yoe + z div 146097 * 400 + (if C then 1 else 0)" ..
  ultimately show ?thesis by (cases C) simp_all
qed

lemma date_UTC_civil:
  "-573371 \<le> n \<Longrightarrow> (case civil_from_days n of (y, m, d) \<Rightarrow> date_UTC y m d h mi) = n * 86400000 + h * 3600000 + mi * 60000"
  using days_from_civil_from_days[of n] civil_year[of n]
  by (simp add: date_UTC_def split: prod.splits)

subsection \<open>Local time\<close>

definition local_ms :: "env \<Rightarrow> string \<Rightarrow> int \<Rightarrow> int" where
  "local_ms e z t = t + e_offsetMs e z t"

lemma day_minutes: "l div 60000 = l div 86400000 * 1440 + l mod 86400000 div 60000" for l :: int
proof -
  define n ms where "n = l div 86400000" and "ms = l mod 86400000"
  have "l = ms + (n * 1440) * 60000" by (simp add: n_def ms_def)
  then show ?thesis unfolding n_def[symmetric] ms_def[symmetric]
    using div_mult_self1[of 60000 ms "n * 1440"] by simp
qed

lemma parts_eq:
  assumes "civil_from_days (local_ms e z t div 86400000) = (y, m, d)"
  shows "getZonedDateTimeParts e t z =
     \<lparr>lt_year = y, lt_month = m, lt_day = d, lt_hour = local_ms e z t mod 86400000 div 3600000,
      lt_minute = local_ms e z t mod 86400000 div 60000 mod 60,
      zt_second = local_ms e z t mod 86400000 div 1000 mod 60,
      zt_dayOfWeek = (local_ms e z t div 86400000 + 4) mod 7\<rparr>"
  by (simp only: getZonedDateTimeParts_def Let_def local_ms_def[symmetric] assms prod.case)

lemma parts_fields:
  "local_date (getZonedDateTimeParts e t z) = civil_from_days (local_ms e z t div 86400000)"
  "lt_hour (getZonedDateTimeParts e t z) = local_ms e z t mod 86400000 div 3600000"
  "lt_minute (getZonedDateTimeParts e t z) = local_ms e z t mod 86400000 div 60000 mod 60"
  "zt_dayOfWeek (getZonedDateTimeParts e t z) = (local_ms e z t div 86400000 + 4) mod 7"
  by (cases "civil_from_days (local_ms e z t div 86400000)";
      simp only: parts_eq local_date_def local_time.select_convs zoned_time.select_convs)+

text \<open>A local time is exact to the minute.\<close>

lemma parts_date_UTC:
  assumes "-573371 * 86400000 \<le> local_ms e z t"
  shows "date_UTC (lt_year (getZonedDateTimeParts e t z)) (lt_month (getZonedDateTimeParts e t z))
           (lt_day (getZonedDateTimeParts e t z)) (lt_hour (getZonedDateTimeParts e t z))
           (lt_minute (getZonedDateTimeParts e t z)) = local_ms e z t div 60000 * 60000"
proof -
  define n where "n = local_ms e z t div 86400000"
  define ms where "ms = local_ms e z t mod 86400000"
  obtain y m d where ymd: "civil_from_days n = (y, m, d)" by (cases "civil_from_days n") auto
  have n: "-573371 \<le> n" using zdiv_mono1[OF assms, of 86400000] by (simp add: n_def)
  have "ms div 3600000 = ms div 60000 div 60" by (simp add: zdiv_zmult2_eq[symmetric])
  then have "ms div 3600000 * 3600000 + ms div 60000 mod 60 * 60000 = ms div 60000 * 60000"
    using div_mult_mod_eq[of "ms div 60000" 60] by linarith
  moreover have "local_ms e z t div 60000 = n * 1440 + ms div 60000"
    unfolding n_def ms_def by (rule day_minutes)
  ultimately have flat: "n * 86400000 + ms div 3600000 * 3600000 + ms div 60000 mod 60 * 60000 =
      local_ms e z t div 60000 * 60000" by linarith
  have "date_UTC y m d (ms div 3600000) (ms div 60000 mod 60) = local_ms e z t div 60000 * 60000"
    using date_UTC_civil[OF n, of "ms div 3600000" "ms div 60000 mod 60"] unfolding ymd prod.case flat .
  then show ?thesis unfolding parts_eq[OF ymd[unfolded n_def]] local_time.select_convs ms_def .
qed

lemma parts_minute: "lt_minute (getZonedDateTimeParts e t z) = local_ms e z t div 60000 mod 60"
proof -
  have "(n * 1440 + x) mod 60 = x mod 60" for n x :: int
    using mod_mult_self1[of x "n * 24" 60] by (simp add: add.commute mult.commute)
  from this[symmetric] show ?thesis
    unfolding parts_fields arg_cong[of _ _ "\<lambda>x. x mod 60", OF day_minutes[of "local_ms e z t"]] .
qed

lemma local_date_at [simp]: "local_date (local_at ymd h mi) = ymd"
  by (simp add: local_date_def local_at_def split: prod.split)

lemma addLocalDays_civil: "-573371 \<le> n \<Longrightarrow> addLocalDays (civil_from_days n) k = civil_from_days (n + k)"
  using date_UTC_civil[of n 0 0] by (simp add: addLocalDays_def split: prod.splits)

lemma local_at_date_UTC:
  assumes "-573371 \<le> n"
  shows "date_UTC (lt_year (local_at (civil_from_days n) h mi)) (lt_month (local_at (civil_from_days n) h mi))
           (lt_day (local_at (civil_from_days n) h mi)) (lt_hour (local_at (civil_from_days n) h mi))
           (lt_minute (local_at (civil_from_days n) h mi)) = n * 86400000 + h * 3600000 + mi * 60000"
  using date_UTC_civil[OF assms, of h mi] by (simp add: local_at_def split: prod.splits)

subsection \<open>The next instant of a period\<close>

text \<open>The abstract schedule: the first instant after \<open>t\<close> that is \<open>phase\<close> modulo the period.\<close>

definition next_at :: "int \<Rightarrow> int \<Rightarrow> int \<Rightarrow> int" where
  "next_at period phase t = t + period - (t - phase) mod period"

lemma next_at_spec:
  assumes "0 < p"
  shows "t < next_at p ph t" "next_at p ph t \<le> t + p" "p dvd next_at p ph t - ph"
proof -
  show "t < next_at p ph t" "next_at p ph t \<le> t + p"
    using assms by (simp_all add: next_at_def pos_mod_bound)
  have "next_at p ph t - ph = p + p * ((t - ph) div p)"
    using mult_div_mod_eq[of p "t - ph"] unfolding next_at_def by linarith
  then show "p dvd next_at p ph t - ph" by simp
qed

lemma next_at_unique:
  assumes "0 < p" "t < r" "r \<le> t + p" "p dvd r - ph"
  shows "r = next_at p ph t"
proof -
  have "p dvd (r - ph) - (next_at p ph t - ph)"
    using assms(4) next_at_spec(3)[OF assms(1)] by (rule dvd_diff)
  then have "p dvd r - next_at p ph t" by simp
  moreover have "\<bar>r - next_at p ph t\<bar> < p" using assms(2,3) next_at_spec(1,2)[OF assms(1), where t = t and ph = ph] by linarith
  ultimately have "r - next_at p ph t = 0" using zdvd_not_zless[of "\<bar>r - next_at p ph t\<bar>" p] by auto
  then show ?thesis by simp
qed

lemma next_at_least: "0 < p \<Longrightarrow> t < u \<Longrightarrow> p dvd u - ph \<Longrightarrow> next_at p ph t \<le> u"
proof (rule ccontr)
  assume a: "0 < p" "t < u" "p dvd u - ph" "\<not> next_at p ph t \<le> u"
  then have "u \<le> t + p" using next_at_spec(2)[OF a(1), where t = t and ph = ph] by simp
  then show False using next_at_unique[OF a(1,2) _ a(3)] a(4) by simp
qed

subsection \<open>Zones with a fixed offset\<close>

definition fixed_zone :: "env \<Rightarrow> string \<Rightarrow> int \<Rightarrow> bool" where
  "fixed_zone e z k \<longleftrightarrow>
     (\<forall>t. e_offsetMs e z t = 60000 * k \<and>
          (case Option.bind (e_zoneName e z t) offset_minutes of None \<Rightarrow> k = 0 | Some m \<Rightarrow> m = k))"

lemma fixed_zoneD:
  assumes "fixed_zone e z k"
  shows "local_ms e z t = t + 60000 * k" "getTimeZoneOffsetMinutes e t z = k"
proof -
  have "e_offsetMs e z t = 60000 * k"
    and "case Option.bind (e_zoneName e z t) offset_minutes of None \<Rightarrow> k = 0 | Some m \<Rightarrow> m = k"
    using assms unfolding fixed_zone_def by blast+
  then show "local_ms e z t = t + 60000 * k" "getTimeZoneOffsetMinutes e t z = k"
    by (simp_all add: local_ms_def getTimeZoneOffsetMinutes_def split: option.splits)
qed

lemma singleton_list:
  assumes "set xs = {x}" "distinct xs"
  shows "xs = [x]"
proof (cases xs)
  case (Cons y ys)
  then have "y = x" using assms(1) by simp
  then have "ys = []" using Cons assms by (cases ys) auto
  then show ?thesis using Cons \<open>y = x\<close> by simp
qed (use assms in simp)

lemma resolve_fixed:
  assumes z: "fixed_zone e z k" and n: "-500000 \<le> n" and h: "0 \<le> h" "h < 24" and mi: "0 \<le> mi" "mi < 60"
  shows "resolveLocalDateTime e (local_at (civil_from_days n) h mi) z = n * 86400000 + h * 3600000 + mi * 60000 - 60000 * k"
proof -
  define A where "A = n * 86400000 + h * 3600000 + mi * 60000"
  define target where "target = local_at (civil_from_days n) h mi"
  define guess where "guess = A - k * 60000"
  let ?cs = "map (\<lambda>j. guess + j * 60000) [-180..180]"
  let ?ok = "\<lambda>t. same_minute (getZonedDateTimeParts e t z) target"
  have A: "date_UTC (lt_year target) (lt_month target) (lt_day target) (lt_hour target) (lt_minute target) = A"
    using local_at_date_UTC[of n h mi] n by (simp add: A_def target_def)
  have local: "local_ms e z (guess + j * 60000) = A + j * 60000" for j
    by (simp add: fixed_zoneD[OF z] guess_def)
  have low: "-573371 * 86400000 \<le> A + j * 60000" if "-180 \<le> j" for j
    using that n h mi unfolding A_def by linarith
  have only: "j = 0" if "-180 \<le> j" "?ok (guess + j * 60000)" for j
  proof -
    have "local_ms e z (guess + j * 60000) div 60000 * 60000 = A"
      using that(2) parts_date_UTC[of e z "guess + j * 60000"] low[OF that(1)]
      unfolding local same_minute_def by (simp add: A)
    moreover have "A + j * 60000 = (n * 1440 + h * 60 + mi + j) * 60000" by (simp add: A_def)
    then have "(A + j * 60000) div 60000 * 60000 = A + j * 60000" by simp
    ultimately show ?thesis unfolding local by simp
  qed
  have hit: "?ok guess"
  proof -
    define x where "x = h * 3600000 + mi * 60000"
    have x: "0 \<le> x" "x < 86400000" using h mi unfolding x_def by linarith+
    have "A = x + n * 86400000" by (simp add: A_def x_def)
    then have A': "A div 86400000 = n" "A mod 86400000 = x" using x by simp_all
    have x': "x div 3600000 = h" "x div 60000 mod 60 = mi"
    proof -
      have "x = mi * 60000 + h * 3600000" "0 \<le> mi * 60000" "mi * 60000 < 3600000"
        using mi unfolding x_def by linarith+
      then show "x div 3600000 = h" by simp
      have "x = (h * 60 + mi) * 60000" by (simp add: x_def distrib_right)
      then show "x div 60000 mod 60 = mi" using mi by simp
    qed
    have "local_ms e z guess = A" using local[of 0] by simp
    obtain y m d where ymd: "civil_from_days n = (y, m, d)" by (cases "civil_from_days n") auto
    have "getZonedDateTimeParts e guess z = \<lparr>lt_year = y, lt_month = m, lt_day = d, lt_hour = h, lt_minute = mi,
        zt_second = x div 1000 mod 60, zt_dayOfWeek = (n + 4) mod 7\<rparr>"
      by (rule parts_eq[of e z guess y m d, unfolded \<open>local_ms e z guess = A\<close> A' x', OF ymd])
    then show ?thesis by (simp add: same_minute_def target_def local_at_def ymd)
  qed
  have "set (filter ?ok ?cs) = {guess}"
  proof (intro equalityI subsetI)
    fix u assume "u \<in> set (filter ?ok ?cs)"
    then have "u \<in> (\<lambda>j. guess + j * 60000) ` {-180..180}" and "?ok u"
      unfolding set_filter set_map set_upto by blast+
    then obtain j where "-180 \<le> j" "u = guess + j * 60000" "?ok u" by auto
    then show "u \<in> {guess}" using only[of j] by simp
  next
    fix u assume "u \<in> {guess}"
    moreover have "guess \<in> set ?cs" unfolding set_map set_upto by (rule image_eqI[of _ _ 0]) simp_all
    ultimately show "u \<in> set (filter ?ok ?cs)" using hit unfolding set_filter by blast
  qed
  moreover have "distinct (filter ?ok ?cs)" 
    by (intro distinct_filter) (simp add: distinct_map inj_on_def del: upto_rec_numeral)
  ultimately have found: "filter ?ok ?cs = [guess]" by (rule singleton_list)
  have "findMatchingInstants e target z guess = [guess]" unfolding findMatchingInstants_def found by simp
  then show ?thesis
    by (simp add: resolveLocalDateTime_def Let_def target_def[symmetric] A fixed_zoneD[OF z] guess_def[symmetric] A_def[symmetric])
       (simp add: guess_def)
qed

lemma compare_fixed:
  assumes "fixed_zone e z k" "0 \<le> t + 60000 * k"
  shows "compareLocalDateTime (local_at (civil_from_days ((t + 60000 * k) div 86400000)) h mi) (getZonedDateTimeParts e t z)
    = (t + 60000 * k) div 86400000 * 86400000 + h * 3600000 + mi * 60000 - (t + 60000 * k) div 60000 * 60000"
proof -
  have "0 \<le> (t + 60000 * k) div 86400000" using assms(2) by (simp add: pos_imp_zdiv_nonneg_iff)
  then show ?thesis
    using local_at_date_UTC[of "(t + 60000 * k) div 86400000" h mi] parts_date_UTC[of e z t] assms
    by (simp add: compareLocalDateTime_def fixed_zoneD[OF assms(1)])
qed

text \<open>A whole minute is after \<open>l\<close> exactly when it is after the minute \<open>l\<close> lies in.\<close>

lemma minute_after: "60000 * j \<le> l div 60000 * 60000 \<longleftrightarrow> 60000 * j \<le> l" for j l :: int
proof -
  define q where "q = l div 60000"
  have "q * 60000 \<le> l" "l < q * 60000 + 60000" unfolding q_def by presburger+
  moreover from this have "j \<le> q" if "60000 * j \<le> l" using that by linarith
  ultimately show ?thesis unfolding q_def[symmetric] by auto
qed

lemma daily_fixed:
  assumes z: "fixed_zone e z k" and t: "0 \<le> t + 60000 * k"
    and h: "0 \<le> h" "h < 24" and mi: "0 \<le> mi" "mi < 60"
  shows "computeDailyRun e h mi t z = next_at 86400000 (h * 3600000 + mi * 60000 - 60000 * k) t"
proof -
  define l where "l = t + 60000 * k"
  define n where "n = l div 86400000"
  define hm where "hm = h * 3600000 + mi * 60000"
  define n' where "n' = (if n * 86400000 + hm \<le> l then n + 1 else n)"
  have n: "0 \<le> n" using t by (simp add: n_def l_def pos_imp_zdiv_nonneg_iff)
  have nl: "n * 86400000 \<le> l" "l < n * 86400000 + 86400000"
    using pos_mod_sign[of 86400000 l] pos_mod_bound[of 86400000 l] div_mult_mod_eq[of l 86400000]
    unfolding n_def by linarith+
  have hm: "0 \<le> hm" "hm < 86400000" using h mi unfolding hm_def by linarith+
  have j: "n * 86400000 + h * 3600000 + mi * 60000 = 60000 * (n * 1440 + h * 60 + mi)" by simp
  have "n * 86400000 + h * 3600000 + mi * 60000 - l div 60000 * 60000 \<le> 0 \<longleftrightarrow> n * 86400000 + hm \<le> l"
    using minute_after[of "n * 1440 + h * 60 + mi" l] unfolding j[symmetric] hm_def by linarith
  then have "computeDailyRun e h mi t z = resolveLocalDateTime e (local_at (civil_from_days n') h mi) z"
    using compare_fixed[OF z t, of h mi] n
    by (simp add: computeDailyRun_def Let_def parts_fields fixed_zoneD[OF z] l_def[symmetric] n_def[symmetric]
        addLocalDays_civil n'_def)
  also have "\<dots> = n' * 86400000 + h * 3600000 + mi * 60000 - 60000 * k"
    using n h mi by (intro resolve_fixed[OF z]) (simp_all add: n'_def)
  also have "\<dots> = next_at 86400000 (h * 3600000 + mi * 60000 - 60000 * k) t"
  proof (rule next_at_unique)
    show "t < n' * 86400000 + h * 3600000 + mi * 60000 - 60000 * k"
      using nl hm unfolding n'_def hm_def l_def by (simp split: if_split)
    show "n' * 86400000 + h * 3600000 + mi * 60000 - 60000 * k \<le> t + 86400000"
      using nl hm unfolding n'_def hm_def l_def by (simp split: if_split)
  qed simp_all
  finally show ?thesis .
qed

lemma week_offset:
  fixes n d :: int
  assumes "0 \<le> d" "d \<le> 6"
  defines "x \<equiv> d - (n + 4) mod 7"
  defines "off \<equiv> (if x < 0 then x + 7 else x)"
  shows "0 \<le> off" "off \<le> 6" "7 dvd n + off - (d - 4)"
  using assms(1,2) unfolding off_def x_def by presburger+

lemma weekly_fixed:
  assumes z: "fixed_zone e z k" and t: "0 \<le> t + 60000 * k"
    and d: "0 \<le> d" "d \<le> 6" and h: "0 \<le> h" "h < 24" and mi: "0 \<le> mi" "mi < 60"
  shows "computeWeeklyRun e d h mi t z =
         next_at 604800000 ((d - 4) * 86400000 + h * 3600000 + mi * 60000 - 60000 * k) t"
proof -
  define l where "l = t + 60000 * k"
  define n where "n = l div 86400000"
  define hm where "hm = h * 3600000 + mi * 60000"
  define off where "off = (let x = d - (n + 4) mod 7 in if x < 0 then x + 7 else x)"
  define n' where "n' = (if off = 0 \<and> n * 86400000 + hm \<le> l then n + 7 else n + off)"
  have off: "0 \<le> off" "off \<le> 6" "7 dvd n + off - (d - 4)"
    using week_offset[OF d, of n] by (simp_all add: off_def Let_def)
  have n: "0 \<le> n" using t by (simp add: n_def l_def pos_imp_zdiv_nonneg_iff)
  have nl: "n * 86400000 \<le> l" "l < n * 86400000 + 86400000"
    using pos_mod_sign[of 86400000 l] pos_mod_bound[of 86400000 l] div_mult_mod_eq[of l 86400000]
    unfolding n_def by linarith+
  have hm: "0 \<le> hm" "hm < 86400000" using h mi unfolding hm_def by linarith+
  have j: "n * 86400000 + h * 3600000 + mi * 60000 = 60000 * (n * 1440 + h * 60 + mi)" by simp
  have le: "n * 86400000 + h * 3600000 + mi * 60000 - l div 60000 * 60000 \<le> 0 \<longleftrightarrow> n * 86400000 + hm \<le> l"
    using minute_after[of "n * 1440 + h * 60 + mi" l] unfolding j[symmetric] hm_def by linarith
  have sel: "off = 0 \<Longrightarrow> compareLocalDateTime (local_at (civil_from_days (n + off)) h mi) (getZonedDateTimeParts e t z) \<le> 0
      \<longleftrightarrow> n * 86400000 + hm \<le> l"
    using compare_fixed[OF z t, of h mi] le by (simp add: l_def[symmetric] n_def[symmetric])
  have "computeWeeklyRun e d h mi t z = resolveLocalDateTime e (local_at (civil_from_days n') h mi) z"
    using n off sel
    by (auto simp: computeWeeklyRun_def Let_def parts_fields fixed_zoneD[OF z] l_def[symmetric] n_def[symmetric]
        addLocalDays_civil n'_def off_def)
  also have "\<dots> = n' * 86400000 + h * 3600000 + mi * 60000 - 60000 * k"
    using n h mi off by (intro resolve_fixed[OF z]) (simp_all add: n'_def)
  also have "\<dots> = next_at 604800000 ((d - 4) * 86400000 + h * 3600000 + mi * 60000 - 60000 * k) t"
  proof (rule next_at_unique)
    show "t < n' * 86400000 + h * 3600000 + mi * 60000 - 60000 * k"
      using nl hm off unfolding n'_def hm_def l_def by (auto split: if_splits)
    show "n' * 86400000 + h * 3600000 + mi * 60000 - 60000 * k \<le> t + 604800000"
      using nl hm off unfolding n'_def hm_def l_def by (auto split: if_splits)
    obtain c where "n + off - (d - 4) = 7 * c" using off(3) by (auto simp: dvd_def)
    then have "n' - (d - 4) = 7 * (if n' = n + 7 \<and> off = 0 then c + 1 else c)" using off by (auto simp: n'_def)
    then obtain c' where "n' = (d - 4) + 7 * c'" by (metis add_diff_cancel_left' diff_add_cancel add.commute)
    then show "604800000 dvd n' * 86400000 + h * 3600000 + mi * 60000 - 60000 * k -
        ((d - 4) * 86400000 + h * 3600000 + mi * 60000 - 60000 * k)"
      by (intro dvdI[of _ _ c']) simp
  qed simp
  finally show ?thesis .
qed

lemma mod_minus_one: "y mod 60 \<noteq> 0 \<Longrightarrow> (y - 1) mod 60 = y mod 60 - 1" for y :: int
proof -
  assume nz: "y mod 60 \<noteq> 0"
  define r where "r = y mod 60"
  have r: "0 \<le> r - 1" "r - 1 < 60" using nz pos_mod_sign[of 60 y] pos_mod_bound[of 60 y] unfolding r_def by linarith+
  have "y - 1 = (r - 1) + 60 * (y div 60)" unfolding r_def using mult_div_mod_eq[of 60 y] by linarith
  then have "(y - 1) mod 60 = (r - 1) mod 60" by (metis mod_mult_self2)
  also have "\<dots> = r - 1" using r by (rule mod_pos_pos_trivial)
  finally show ?thesis unfolding r_def .
qed

lemma hourly_search_fixed:
  assumes z: "fixed_zone e z k" and mi: "0 \<le> mi" "mi < 60"
  shows "(mi - (q + k)) mod 60 < int m \<Longrightarrow>
    hourly_search m e mi (60000 * q) z = Inr (60000 * (q + (mi - (q + k)) mod 60))"
proof (induction m arbitrary: q)
  case 0
  then show ?case using pos_mod_sign[of 60 "mi - (q + k)"] by simp
next
  case (Suc m)
  have "local_ms e z (60000 * q) = (q + k) * 60000" by (simp add: fixed_zoneD[OF z])
  then have minute: "lt_minute (getZonedDateTimeParts e (60000 * q) z) = (q + k) mod 60"
    by (simp add: parts_minute)
  show ?case
  proof (cases "(q + k) mod 60 = mi")
    case True
    then have "(mi - (q + k)) mod 60 = 0" by (metis diff_self mod_0 mod_diff_left_eq)
    then show ?thesis using True minute by simp
  next
    case False
    have "(mi - (q + k)) mod 60 \<noteq> 0"
    proof
      assume "(mi - (q + k)) mod 60 = 0"
      then have "mi mod 60 = (q + k) mod 60" by (simp add: mod_eq_dvd_iff mod_0_imp_dvd)
      then show False using False mi by simp
    qed
    then have "(mi - (q + k) - 1) mod 60 = (mi - (q + k)) mod 60 - 1"
      using mod_minus_one[of "mi - (q + k)"] by blast
    then have step: "(mi - (q + 1 + k)) mod 60 = (mi - (q + k)) mod 60 - 1" by (simp add: algebra_simps)
    then show ?thesis using Suc.IH[of "q + 1"] Suc.prems False minute by (simp add: algebra_simps)
  qed
qed

lemma next_minute: "(if t div 60000 * 60000 \<le> t then t div 60000 * 60000 + 60000 else t div 60000 * 60000)
    = 60000 * (t div 60000 + 1)" for t :: int
proof -
  have "t div 60000 * 60000 \<le> t" by presburger
  then show ?thesis by simp
qed

lemma hourly_fixed:
  assumes z: "fixed_zone e z k" and mi: "0 \<le> mi" "mi < 60"
  shows "computeHourlyRun e mi t z = Inr (next_at 3600000 (mi * 60000 - 60000 * k) t)"
proof -
  define q where "q = t div 60000 + 1"
  define x where "x = (mi - (q + k)) mod 60"
  have x: "0 \<le> x" "x < 60" by (simp_all add: x_def)
  have "60 dvd (mi - (q + k)) - x" unfolding x_def by (simp add: minus_mod_eq_mult_div)
  then obtain c where c: "mi - (q + k) - x = 60 * c" by (auto simp: dvd_def)
  have tq: "60000 * q - 60000 \<le> t" "t < 60000 * q" unfolding q_def by presburger+
  have "computeHourlyRun e mi t z = Inr (60000 * (q + x))"
    using hourly_search_fixed[OF z mi, of q 180] x
    unfolding computeHourlyRun_def Let_def next_minute by (simp add: q_def x_def)
  moreover have "60000 * (q + x) = next_at 3600000 (mi * 60000 - 60000 * k) t"
  proof (rule next_at_unique)
    have "60000 * (q + x) - (mi * 60000 - 60000 * k) = 3600000 * (- c)" using c by simp
    then show "3600000 dvd 60000 * (q + x) - (mi * 60000 - 60000 * k)" by (metis dvd_triv_left)
  qed (use x tq in auto)
  ultimately show ?thesis by simp
qed

lemma minutely_next: "computeMinutelyRun t = next_at 60000 0 t"
proof -
  have "computeMinutelyRun t = 60000 * (t div 60000 + 1)"
    unfolding computeMinutelyRun_def Let_def next_minute ..
  moreover have "60000 * (t div 60000 + 1) - 60000 \<le> t" "t < 60000 * (t div 60000 + 1)" by presburger+
  ultimately show ?thesis using next_at_unique[of 60000 t "60000 * (t div 60000 + 1)" 0] by simp
qed

subsection \<open>The search never looks back\<close>

lemma hourly_search_Inr:
  "hourly_search m e mi c z = Inr r \<Longrightarrow> 60000 dvd c \<Longrightarrow>
     c \<le> r \<and> 60000 dvd r \<and> lt_minute (getZonedDateTimeParts e r z) = mi"
proof (induction m arbitrary: c)
  case (Suc m)
  then show ?case using Suc.IH[of "c + 60000"] by (fastforce split: if_splits)
qed simp

section \<open>Properties\<close>

text \<open>The abstract schedule of a cadence in a zone \<open>k\<close> minutes ahead of UTC: the next instant of
  a period, with the hours, minutes and days brought into range.\<close>

definition spec_next :: "int \<Rightarrow> scheduled_task \<Rightarrow> int \<Rightarrow> int" where
  "spec_next k inp t =
     (let mi = clamp (st_minute inp) 0 59;
          h = (case st_hour inp of None \<Rightarrow> 0 | Some x \<Rightarrow> clamp x 0 23);
          d = (case st_dayOfWeek inp of None \<Rightarrow> 0 | Some x \<Rightarrow> clamp x 0 6);
          i = (case st_intervalMinutes inp of None \<Rightarrow> 1 | Some x \<Rightarrow> clamp x 1 10080)
      in if st_cadence inp = ''minutely'' then next_at 60000 0 t
         else if st_cadence inp = ''custom'' then next_at 60000 0 t + (i - 1) * 60000
         else if st_cadence inp = ''daily'' then next_at 86400000 (h * 3600000 + mi * 60000 - 60000 * k) t
         else if st_cadence inp = ''weekly'' then
           next_at 604800000 ((d - 4) * 86400000 + h * 3600000 + mi * 60000 - 60000 * k) t
         else next_at 3600000 (mi * 60000 - 60000 * k) t)"

lemma clamp_range: "lo \<le> hi \<Longrightarrow> lo \<le> clamp v lo hi \<and> clamp v lo hi \<le> hi"
  by (auto simp: clamp_def)

definition sample_schedule :: scheduled_task where
  "sample_schedule = \<lparr>st_id = ''sch'', st_workspaceId = ''w'', st_nodeId = Some ''n'', st_targetTeamId = None,
     st_templateId = None, st_templateName = None, st_ownerUserId = None, st_name = ''nightly'',
     st_command = ''backup'', st_runAsRoot = False, st_cadence = ''daily'', st_minute = 30, st_hour = Some 1,
     st_dayOfWeek = None, st_intervalMinutes = None, st_timezone = ''UTC'', st_timezoneSource = ''workspace'',
     st_enabled = True, st_nextRunAt = None, st_lastRunAt = None, st_lastRunTaskId = None, st_lastError = None,
     st_leaseUntil = None, st_claimedBy = None, st_claimToken = None, st_createdAt = 0, st_updatedAt = 0\<rparr>"

text \<open>C7: In a zone with a fixed offset of whole minutes the search through calendar fields,
  formatted offsets and candidate minutes computes exactly the abstract schedule: the first
  instant after \<open>t\<close> with the wanted local minute, time of day, or weekday and time of day.\<close>

theorem next_run_refines_spec:
  assumes zone: "fixed_zone e (trim (st_timezone inp)) k" and valid: "isValidTimeZone e (trim (st_timezone inp))"
    and t: "0 \<le> t + 60000 * k"
  shows "computeNextScheduledRun e inp t = Inr (spec_next k inp t) \<and>
    (st_cadence inp = ''daily'' \<longrightarrow> t < spec_next k inp t \<and>
       (\<forall>u > t. (u + 60000 * k) mod 86400000 =
                 (case st_hour inp of None \<Rightarrow> 0 | Some x \<Rightarrow> clamp x 0 23) * 3600000 + clamp (st_minute inp) 0 59 * 60000
               \<longrightarrow> spec_next k inp t \<le> u))"
proof
  define mi where "mi = clamp (st_minute inp) 0 59"
  define h where "h = (case st_hour inp of None \<Rightarrow> 0 | Some x \<Rightarrow> clamp x 0 23)"
  define d where "d = (case st_dayOfWeek inp of None \<Rightarrow> 0 | Some x \<Rightarrow> clamp x 0 6)"
  define i where "i = (case st_intervalMinutes inp of None \<Rightarrow> 1 | Some x \<Rightarrow> clamp x 1 10080)"
  have mi: "0 \<le> mi" "mi < 60" using clamp_range[of 0 59 "st_minute inp"] by (simp_all add: mi_def)
  have h: "0 \<le> h" "h < 24" by (auto simp: h_def clamp_def split: option.split)
  have d: "0 \<le> d" "d \<le> 6" using clamp_range[of 0 6] by (auto simp: d_def split: option.split)
  have i: "1 \<le> i" using clamp_range[of 1 10080] by (auto simp: i_def split: option.split)
  have opts: "(case map_option (\<lambda>h. clamp h 0 23) (st_hour inp) of None \<Rightarrow> 0 | Some h \<Rightarrow> h) = h"
    "(case map_option (\<lambda>d. clamp d 0 6) (st_dayOfWeek inp) of None \<Rightarrow> 0 | Some d \<Rightarrow> d) = d"
    "(case map_option (\<lambda>i. clamp i 1 10080) (st_intervalMinutes inp) of None \<Rightarrow> 1 | Some i \<Rightarrow> i) = i"
    by (auto simp: h_def d_def i_def split: option.split)
  have tz: "assertValidTimeZone e (st_timezone inp) = Inr (trim (st_timezone inp))"
    using valid by (simp add: assertValidTimeZone_def Let_def)
  show "computeNextScheduledRun e inp t = Inr (spec_next k inp t)"
    using daily_fixed[OF zone t h mi] weekly_fixed[OF zone t d h mi] hourly_fixed[OF zone mi, of t] i
    unfolding computeNextScheduledRun_def spec_next_def Let_def mi_def[symmetric] h_def[symmetric]
      d_def[symmetric] i_def[symmetric] opts tz
    by (simp add: minutely_next computeCustomIntervalRun_def)
  have dvd: "86400000 dvd u - (hm - 60000 * k)" if "(u + 60000 * k) mod 86400000 = hm" for u hm :: int
  proof -
    have "u - (hm - 60000 * k) = 86400000 * ((u + 60000 * k) div 86400000)"
      using mult_div_mod_eq[of 86400000 "u + 60000 * k"] that by linarith
    then show ?thesis by simp
  qed
  show "st_cadence inp = ''daily'' \<longrightarrow> t < spec_next k inp t \<and>
       (\<forall>u > t. (u + 60000 * k) mod 86400000 =
                 (case st_hour inp of None \<Rightarrow> 0 | Some x \<Rightarrow> clamp x 0 23) * 3600000 + clamp (st_minute inp) 0 59 * 60000
               \<longrightarrow> spec_next k inp t \<le> u)"
    using next_at_spec(1)[of 86400000] next_at_least[of 86400000 t, OF _ _ dvd]
    unfolding spec_next_def Let_def h_def[symmetric] mi_def[symmetric] by simp
qed

theorem next_run_refines_spec_witness:
  "computeNextScheduledRun base_env sample_schedule 1000000 = Inr 5400000"
proof -
  have "fixed_zone base_env (trim (st_timezone sample_schedule)) 0"
    by (simp add: fixed_zone_def base_env_def)
  moreover have "isValidTimeZone base_env (trim (st_timezone sample_schedule))"
    by (simp add: isValidTimeZone_def base_env_def sample_schedule_def trim_def is_ws_def)
  ultimately have "computeNextScheduledRun base_env sample_schedule 1000000 = Inr (spec_next 0 sample_schedule 1000000)"
    using next_run_refines_spec[of base_env sample_schedule 0 1000000] by simp
  then show ?thesis by (simp add: spec_next_def sample_schedule_def clamp_def next_at_def)
qed

text \<open>Whatever the zone does (offset changes included), a minutely, custom or hourly schedule runs
  strictly in the future, on a whole minute, and an hourly one at its local minute; an invalid
  zone is a \<open>BadRequest\<close>.\<close>

theorem next_run_in_future:
  assumes "st_cadence inp \<noteq> ''daily''" "st_cadence inp \<noteq> ''weekly''"
  shows "(\<forall>r. computeNextScheduledRun e inp t = Inr r \<longrightarrow> t < r \<and> r mod 60000 = 0 \<and>
            (st_cadence inp = ''hourly'' \<longrightarrow>
               lt_minute (getZonedDateTimeParts e r (trim (st_timezone inp))) = clamp (st_minute inp) 0 59)) \<and>
         (\<not> isValidTimeZone e (trim (st_timezone inp)) \<longrightarrow>
            (\<exists>m. computeNextScheduledRun e inp t = Inl (BadRequest m)))"
proof (intro conjI allI impI)
  fix r assume run: "computeNextScheduledRun e inp t = Inr r"
  define q where "q = 60000 * (t div 60000 + 1)"
  have q: "t < q" "60000 dvd q" unfolding q_def by presburger simp
  have min: "computeMinutelyRun t = q"
    unfolding computeMinutelyRun_def Let_def next_minute q_def ..
  have hour: "t < r \<and> r mod 60000 = 0 \<and> lt_minute (getZonedDateTimeParts e r z) = mi"
    if "computeHourlyRun e mi t z = Inr r" for mi z
    using that hourly_search_Inr[of 180 e mi q z r] q unfolding computeHourlyRun_def Let_def next_minute q_def[symmetric]
    by auto
  have cust: "t < computeCustomIntervalRun i t \<and> computeCustomIntervalRun i t mod 60000 = 0" for i
  proof -
    have "0 \<le> max 0 (i - 1) * 60000" by simp
    then have "t < q + max 0 (i - 1) * 60000" using q(1) by linarith
    then show ?thesis using q(2) by (simp add: computeCustomIntervalRun_def min dvd_imp_mod_0)
  qed
  have tz: "assertValidTimeZone e (st_timezone inp) = Inr (trim (st_timezone inp))"
    using run by (auto simp: computeNextScheduledRun_def assertValidTimeZone_def Let_def split: if_splits)
  note run' = run[unfolded computeNextScheduledRun_def tz Let_def sum.case]
  show "t < r" "r mod 60000 = 0"
    using run' assms q min cust hour by (auto split: if_splits)
  show "lt_minute (getZonedDateTimeParts e r (trim (st_timezone inp))) = clamp (st_minute inp) 0 59"
    if "st_cadence inp = ''hourly''"
    using run' that hour by simp
next
  assume "\<not> isValidTimeZone e (trim (st_timezone inp))"
  then show "\<exists>m. computeNextScheduledRun e inp t = Inl (BadRequest m)"
    by (auto simp: computeNextScheduledRun_def assertValidTimeZone_def Let_def)
qed

theorem next_run_in_future_witness:
  "\<exists>r. computeNextScheduledRun base_env (sample_schedule\<lparr>st_cadence := ''custom'', st_intervalMinutes := Some 5\<rparr>) 1000000 = Inr r
     \<and> 1000000 < r"
proof -
  let ?s = "sample_schedule\<lparr>st_cadence := ''custom'', st_intervalMinutes := Some 5\<rparr>"
  have "isValidTimeZone base_env (trim (st_timezone ?s))"
    by (simp add: isValidTimeZone_def base_env_def sample_schedule_def trim_def is_ws_def)
  then obtain r where "computeNextScheduledRun base_env ?s 1000000 = Inr r"
    by (auto simp: computeNextScheduledRun_def assertValidTimeZone_def Let_def)
  moreover have "st_cadence ?s \<noteq> ''daily''" "st_cadence ?s \<noteq> ''weekly''" by simp_all
  ultimately show ?thesis using next_run_in_future[of ?s base_env 1000000] by blast
qed

text \<open>A zone that leaves summer time at 01:00 UTC: the local hour from 01:00 occurs twice.\<close>

definition fold_env :: env where
  "fold_env = base_env\<lparr>e_offsetMs := (\<lambda>_ t. if t < 3600000 then 3600000 else 0),
     e_zoneName := (\<lambda>_ t. Some (if t < 3600000 then ''GMT+1'' else ''GMT''))\<rparr>"

lemma fold_local: "local_ms fold_env z t = (if t < 3600000 then t + 3600000 else t)"
  by (simp add: local_ms_def fold_env_def)

lemma fold_parts:
  "getZonedDateTimeParts fold_env 1800000 z = \<lparr>lt_year = 1970, lt_month = 1, lt_day = 1, lt_hour = 1,
     lt_minute = 30, zt_second = 0, zt_dayOfWeek = 4\<rparr>"
  "getZonedDateTimeParts fold_env 4800000 z = \<lparr>lt_year = 1970, lt_month = 1, lt_day = 1, lt_hour = 1,
     lt_minute = 20, zt_second = 0, zt_dayOfWeek = 4\<rparr>"
proof -
  have "civil_from_days 0 = (1970, 1, 1)" by code_simp
  then have "civil_from_days (local_ms fold_env z 1800000 div 86400000) = (1970, 1, 1)"
    and "civil_from_days (local_ms fold_env z 4800000 div 86400000) = (1970, 1, 1)"
    by (simp_all add: fold_local)
  from this[THEN parts_eq] show
    "getZonedDateTimeParts fold_env 1800000 z = \<lparr>lt_year = 1970, lt_month = 1, lt_day = 1, lt_hour = 1,
       lt_minute = 30, zt_second = 0, zt_dayOfWeek = 4\<rparr>"
    "getZonedDateTimeParts fold_env 4800000 z = \<lparr>lt_year = 1970, lt_month = 1, lt_day = 1, lt_hour = 1,
       lt_minute = 20, zt_second = 0, zt_dayOfWeek = 4\<rparr>"
    by (simp_all add: fold_local)
qed

lemma fold_matches:
  "\<exists>rest. findMatchingInstants fold_env (local_at (1970, 1, 1) 1 30) z 5400000 = 1800000 # rest"
proof -
  let ?cs = "map (\<lambda>j. 5400000 + j * 60000) [-180..180]"
  let ?ok = "\<lambda>t. same_minute (getZonedDateTimeParts fold_env t z) (local_at (1970, 1, 1) 1 30)"
  define xs where "xs = filter ?ok ?cs"
  have "1800000 \<in> set ?cs" unfolding set_map set_upto by (rule image_eqI[of _ _ "- 60"]) simp_all
  moreover have "?ok 1800000" by (simp add: same_minute_def fold_parts local_at_def)
  ultimately have mem: "1800000 \<in> set xs" unfolding xs_def set_filter by blast
  have low: "1800000 \<le> u" if "u \<in> set xs" for u
  proof -
    from that have "u \<in> (\<lambda>j. 5400000 + j * 60000) ` {-180..180}" and ok: "?ok u"
      unfolding xs_def set_filter set_map set_upto by blast+
    then obtain j where j: "-180 \<le> j" "u = (90 + j) * 60000" by auto
    then have "-573371 * 86400000 \<le> local_ms fold_env z u" by (simp add: fold_local)
    from parts_date_UTC[OF this] ok have "local_ms fold_env z u div 60000 * 60000 = date_UTC 1970 1 1 1 30"
      by (simp add: same_minute_def local_at_def)
    then have local: "local_ms fold_env z u div 60000 * 60000 = 5400000"
      by (simp add: date_UTC_def days_from_civil_def)
    have "local_ms fold_env z u = ((if u < 3600000 then 60 else 0) + 90 + j) * 60000"
      unfolding fold_local by (simp add: j(2))
    then show ?thesis using local j(2) by (simp split: if_splits)
  qed
  have "sort xs \<noteq> []" using mem by (metis empty_iff empty_set set_sort)
  then obtain y ys where srt: "sort xs = y # ys" by (cases "sort xs") auto
  then have "y \<in> set xs" "1800000 \<in> set (y # ys)" using mem by (metis list.set_intros(1) set_sort, metis set_sort)
  moreover have "sorted (y # ys)" unfolding srt[symmetric] by simp
  ultimately have "y = 1800000" using low[of y] by auto
  then show ?thesis using srt unfolding findMatchingInstants_def xs_def by blast
qed

text \<open>When clocks go back, the next daily run can lie in the past. At 01:20 local time of the
  second pass (01:20 UTC) a schedule for 01:30 resolves to the first pass, 50 minutes earlier,
  because the earliest matching instant is taken without comparing it with the current time;
  the schedule is then due at once, again and again, until 01:30.\<close>

theorem daily_run_in_the_past:
  "computeNextScheduledRun fold_env sample_schedule 4800000 = Inr 1800000"
proof -
  have tz: "assertValidTimeZone fold_env ''UTC'' = Inr ''UTC''"
    by (simp add: assertValidTimeZone_def isValidTimeZone_def trim_def is_ws_def fold_env_def base_env_def)
  have "compareLocalDateTime (local_at (1970, 1, 1) 1 30) (getZonedDateTimeParts fold_env 4800000 ''UTC'') = 600000"
    by (simp add: compareLocalDateTime_def fold_parts local_at_def date_UTC_def)
  then have "computeDailyRun fold_env 1 30 4800000 ''UTC'' = resolveLocalDateTime fold_env (local_at (1970, 1, 1) 1 30) ''UTC''"
    by (simp add: computeDailyRun_def Let_def fold_parts local_date_def)
  also have "\<dots> = 1800000"
  proof -
    have "date_UTC 1970 1 1 1 30 = 5400000" by (simp add: date_UTC_def days_from_civil_def)
    moreover have "getTimeZoneOffsetMinutes fold_env 5400000 ''UTC'' = 0"
      by (simp add: getTimeZoneOffsetMinutes_def fold_env_def)
    ultimately show ?thesis using fold_matches[of "''UTC''"]
      unfolding resolveLocalDateTime_def Let_def by (auto simp: local_at_def)
  qed
  finally show ?thesis using tz
    by (simp add: computeNextScheduledRun_def sample_schedule_def clamp_def)
qed

end
