(* ===== verification/Workspaces.thy ===== *)
theory Workspaces
  imports Events Schedule
begin

text \<open>
  Workspaces, memberships and teams (\<open>src/modules/workspaces/workspaces.service.ts\<close>, with the
  foreign-key actions of \<open>bootstrap/workspace-schema.bootstrap.ts\<close> and the unique constraints
  of the entities). One definition per service method. The lemmas show the access rules, what
  every mutation does, and the invariants of the three tables: one default workspace, unique
  slugs and memberships, and team members that are members of the team's workspace.
\<close>

section \<open>Requests\<close>

record create_workspace_dto =
  cw_name :: string
  cw_slug :: string
  cw_defaultTimezone :: "string option"
  cw_isArchived :: "bool option"
  cw_isDefault :: "bool option"
  cw_automationEmailEnabled :: "bool option"
  cw_automationTelegramEnabled :: "bool option"
  cw_automationTelegramBotToken :: "string option"
  cw_automationTelegramChatId :: "string option"
  cw_automationEmailLevels :: "severity list option"
  cw_automationTelegramLevels :: "severity list option"

text \<open>An update leaves out (\<open>undefined\<close>) what it does not change; the two nullable columns may also
  be set to \<open>null\<close>.\<close>

record update_workspace_dto =
  uw_name :: "string option"
  uw_slug :: "string option"
  uw_defaultTimezone :: "string option"
  uw_isArchived :: "bool option"
  uw_isDefault :: "bool option"
  uw_automationEmailEnabled :: "bool option"
  uw_automationTelegramEnabled :: "bool option"
  uw_automationTelegramBotToken :: "string option option"
  uw_automationTelegramChatId :: "string option option"
  uw_automationEmailLevels :: "severity list option"
  uw_automationTelegramLevels :: "severity list option"

section \<open>Access\<close>

definition user_context :: "actor \<Rightarrow> audit_context option" where
  "user_context a =
     Some \<lparr>ac_actorType = Some ''user'', ac_actorUserId = Some (a_id a), ac_actorEmailSnapshot = Some (a_email a),
           ac_ipAddress = None, ac_userAgent = None\<rparr>"

definition orElse :: "'a option \<Rightarrow> 'a \<Rightarrow> 'a" where
  "orElse x d = (case x of None \<Rightarrow> d | Some y \<Rightarrow> y)"

definition findWorkspaceOrFail :: "string \<Rightarrow> workspace op" where
  "findWorkspaceOrFail i =
     findE workspaces (\<lambda>w. w_id w = i) (NotFound (''Workspace '' @ i @ '' was not found''))"

definition findMembershipForUser :: "string \<Rightarrow> string \<Rightarrow> membership option op" where
  "findMembershipForUser workspaceId userId =
     readE (\<lambda>s. find_row (\<lambda>m. m_workspaceId m = workspaceId \<and> m_userId m = userId) (memberships s))"

text \<open>The row and the transient \<open>currentUserRole\<close>.\<close>

definition findWorkspaceForUserOrFail :: "string \<Rightarrow> actor \<Rightarrow> (workspace \<times> membership_role) op" where
  "findWorkspaceForUserOrFail workspaceId u =
     bindE (findWorkspaceOrFail workspaceId) (\<lambda>w.
       if a_role u = PLATFORM_ADMIN then ret (w, OWNER)
       else
         bindE (findMembershipForUser workspaceId (a_id u)) (\<lambda>m.
           (case m of
              None \<Rightarrow> throw (Forbidden ''You do not have access to this workspace.'')
            | Some x \<Rightarrow> ret (w, m_role x))))"

definition findBySlugForUserOrFail :: "string \<Rightarrow> actor \<Rightarrow> (workspace \<times> membership_role) op" where
  "findBySlugForUserOrFail slug u =
     bindE (findE workspaces (\<lambda>w. w_slug w = slug) (NotFound (''Workspace '' @ slug @ '' was not found''))) (\<lambda>w.
       findWorkspaceForUserOrFail (w_id w) u)"

text \<open>\<open>ORDER BY isDefault DESC, isArchived ASC, createdAt ASC\<close>\<close>

definition workspace_order :: "workspace list \<Rightarrow> workspace list" where
  "workspace_order = sort_key (\<lambda>w. (\<not> w_isDefault w, w_isArchived w, w_createdAt w))"

definition findAccessibleWorkspaces :: "actor \<Rightarrow> (workspace \<times> membership_role option) list op" where
  "findAccessibleWorkspaces u =
     readE (\<lambda>s.
       if a_role u = PLATFORM_ADMIN then map (\<lambda>w. (w, Some OWNER)) (workspace_order (workspaces s))
       else
         let mine = filter (\<lambda>m. m_userId m = a_id u) (memberships s)
         in map (\<lambda>w. (w, map_option m_role (find_row (\<lambda>m. m_workspaceId m = w_id w) (rev mine))))
              (workspace_order (filter (\<lambda>w. \<exists>m \<in> set mine. m_workspaceId m = w_id w) (workspaces s))))"

definition assertPlatformAdmin :: "actor \<Rightarrow> unit op" where
  "assertPlatformAdmin u =
     guardE (a_role u = PLATFORM_ADMIN) (Forbidden ''Platform admin access is required.'')"

definition assertWorkspaceAdmin :: "string \<Rightarrow> actor \<Rightarrow> unit op" where
  "assertWorkspaceAdmin workspaceId u =
     (if a_role u = PLATFORM_ADMIN then ret ()
      else
        bindE (findMembershipForUser workspaceId (a_id u)) (\<lambda>m.
          guardE (case m of None \<Rightarrow> False | Some x \<Rightarrow> m_role x = OWNER \<or> m_role x = ADMIN)
            (Forbidden ''Workspace owner or admin access is required.'')))"

definition assertWorkspaceWritable :: "string \<Rightarrow> workspace op" where
  "assertWorkspaceWritable workspaceId =
     bindE (findWorkspaceOrFail workspaceId) (\<lambda>w.
     bindE (guardE (\<not> w_isArchived w)
              (Conflict ''Archived workspaces are read-only. Restore the workspace before making changes.'')) (\<lambda>_.
     ret w))"

section \<open>Workspaces\<close>

definition normalizeSlug :: "string \<Rightarrow> http_error + string" where
  "normalizeSlug v =
     (let slug = toLowerCase (trim v)
      in if slug = [] then Inl (BadRequest ''Workspace slug is required.'') else Inr slug)"

definition hasDefaultWorkspace :: "bool op" where
  "hasDefaultWorkspace = readE (\<lambda>s. find_row w_isDefault (workspaces s) \<noteq> None)"

definition setDefaultWorkspace :: "env \<Rightarrow> string \<Rightarrow> unit op" where
  "setDefaultWorkspace e workspaceId =
     writeE (\<lambda>s. s\<lparr>workspaces :=
       update_rows (\<lambda>w. w_id w = workspaceId) (\<lambda>w. w\<lparr>w_isDefault := True, w_updatedAt := e_now e\<rparr>)
         (update_rows w_isDefault (\<lambda>w. w\<lparr>w_isDefault := False, w_updatedAt := e_now e\<rparr>) (workspaces s))\<rparr>)"

definition getDefaultWorkspaceOrFail :: "workspace op" where
  "getDefaultWorkspaceOrFail =
     bindE (readE (\<lambda>s. order_limit (\<lambda>w. (\<not> w_isDefault w, w_createdAt w)) 1
              (filter (\<lambda>w. w_isDefault w \<or> w_slug w = ''default'') (workspaces s)))) (\<lambda>ws.
       (case ws of [] \<Rightarrow> throw (NotFound ''Default workspace was not found.'') | w # _ \<Rightarrow> ret w))"

definition saveMembership :: "env \<Rightarrow> string \<Rightarrow> string \<Rightarrow> membership_role \<Rightarrow> membership op" where
  "saveMembership e workspaceId userId role =
     bindE (fresh_id e) (\<lambda>i.
       let m = \<lparr>m_id = i, m_workspaceId = workspaceId, m_userId = userId, m_role = role,
                m_createdAt = e_now e, m_updatedAt = e_now e\<rparr>
       in bindE (writeE (\<lambda>s. s\<lparr>memberships := memberships s @ [m]\<rparr>)) (\<lambda>_. ret m))"

definition new_workspace :: "env \<Rightarrow> actor \<Rightarrow> create_workspace_dto \<Rightarrow> string \<Rightarrow> string \<Rightarrow> string \<Rightarrow> workspace" where
  "new_workspace e u dto slug timezone i =
     \<lparr>w_id = i, w_name = trim (cw_name dto), w_slug = slug, w_defaultTimezone = timezone,
      w_createdByUserId = Some (a_id u), w_isArchived = orElse (cw_isArchived dto) False,
      w_isDefault = False,
      w_automationEmailEnabled = orElse (cw_automationEmailEnabled dto) False,
      w_automationTelegramEnabled = orElse (cw_automationTelegramEnabled dto) False,
      w_automationTelegramBotToken = cw_automationTelegramBotToken dto,
      w_automationTelegramChatId = cw_automationTelegramChatId dto,
      w_automationEmailLevels = orElse (cw_automationEmailLevels dto) [CRITICAL],
      w_automationTelegramLevels = orElse (cw_automationTelegramLevels dto) [CRITICAL],
      w_createdAt = e_now e, w_updatedAt = e_now e\<rparr>"

definition requestedTimezone :: "env \<Rightarrow> string option \<Rightarrow> http_error + string" where
  "requestedTimezone e z = (if truthy z then assertValidTimeZone e (the z) else Inr DEFAULT_TIMEZONE)"

definition createWorkspace :: "env \<Rightarrow> actor \<Rightarrow> create_workspace_dto \<Rightarrow> workspace op" where
  "createWorkspace e u dto =
     bindE (assertPlatformAdmin u) (\<lambda>_.
     bindE (liftE (normalizeSlug (cw_slug dto))) (\<lambda>slug.
     bindE (liftE (requestedTimezone e (cw_defaultTimezone dto))) (\<lambda>timezone.
     bindE hasDefaultWorkspace (\<lambda>hasDefault.
     bindE (readE (\<lambda>s. find_row (\<lambda>w. w_slug w = slug) (workspaces s))) (\<lambda>existing.
     bindE (guardE (existing = None) (Conflict ''A workspace with this slug already exists.'')) (\<lambda>_.
     bindE (fresh_id e) (\<lambda>i.
       let shouldBecomeDefault = (cw_isDefault dto = Some True \<or> \<not> hasDefault);
           w = new_workspace e u dto slug timezone i
       in bindE (writeE (\<lambda>s. s\<lparr>workspaces := workspaces s @ [w]\<rparr>)) (\<lambda>_.
          bindE (saveMembership e i (a_id u) OWNER) (\<lambda>_.
          bindE (recordAudit e \<lparr>ai_scope = ''platform'', ai_workspaceId = None, ai_action = ''workspace.created'',
                   ai_targetType = ''workspace'', ai_targetId = Some i, ai_targetLabel = Some (w_name w),
                   ai_changes = None,
                   ai_metadata = Some [(''slug'', JStr slug), (''defaultTimezone'', JStr timezone)]\<rparr>
                   (user_context u)) (\<lambda>_.
          if shouldBecomeDefault
          then bindE (setDefaultWorkspace e i) (\<lambda>_. findWorkspaceOrFail i)
          else ret w))))))))))"

definition isUnarchiveOnlyRequest :: "update_workspace_dto \<Rightarrow> bool" where
  "isUnarchiveOnlyRequest dto \<longleftrightarrow>
     dto = \<lparr>uw_name = None, uw_slug = None, uw_defaultTimezone = None, uw_isArchived = Some False,
            uw_isDefault = None, uw_automationEmailEnabled = None, uw_automationTelegramEnabled = None,
            uw_automationTelegramBotToken = None, uw_automationTelegramChatId = None,
            uw_automationEmailLevels = None, uw_automationTelegramLevels = None\<rparr>"

text \<open>Saving a changed row moves its update date; saving an unchanged one does nothing.\<close>

definition touched :: "(int \<Rightarrow> 'r \<Rightarrow> 'r) \<Rightarrow> int \<Rightarrow> 'r \<Rightarrow> 'r \<Rightarrow> 'r" where
  "touched set_date now old new = (if new = old then new else set_date now new)"

definition recomputeWorkspaceSchedules :: "env \<Rightarrow> string \<Rightarrow> string \<Rightarrow> unit op" where
  "recomputeWorkspaceSchedules e workspaceId timezone =
     bindE (readE (\<lambda>s. sort_key st_createdAt
              (filter (\<lambda>sch. st_workspaceId sch = workspaceId \<and> st_timezoneSource sch = ''workspace'')
                 (scheduled_tasks s)))) (\<lambda>schedules.
     bindE (forE (\<lambda>old.
              let sch = old\<lparr>st_timezone := timezone, st_claimToken := None, st_claimedBy := None,
                            st_leaseUntil := None\<rparr>
              in bindE (if st_enabled sch
                        then bindE (liftE (computeNextScheduledRun e sch (e_now e))) (\<lambda>t. ret (Some t))
                        else ret None) (\<lambda>next.
                 ret (touched (\<lambda>t r. r\<lparr>st_updatedAt := t\<rparr>) (e_now e) old (sch\<lparr>st_nextRunAt := next\<rparr>))))
            schedules) (\<lambda>saved.
     writeE (\<lambda>s. s\<lparr>scheduled_tasks := fold (save_row st_id) saved (scheduled_tasks s)\<rparr>)))"

definition workspace_summary :: "workspace \<Rightarrow> json" where
  "workspace_summary w =
     JObj [(''name'', JStr (w_name w)), (''slug'', JStr (w_slug w)),
           (''defaultTimezone'', JStr (w_defaultTimezone w)), (''isArchived'', JBool (w_isArchived w)),
           (''isDefault'', JBool (w_isDefault w))]"

text \<open>The checks of an update, in order, and the changed row (before it is saved).\<close>

definition checkWorkspaceUpdate :: "actor \<Rightarrow> update_workspace_dto \<Rightarrow> workspace \<Rightarrow> unit op" where
  "checkWorkspaceUpdate u dto w =
     bindE (guardE (\<not> w_isArchived w \<or> isUnarchiveOnlyRequest dto)
              (Conflict ''Archived workspaces are read-only. Restore the workspace before changing settings.'')) (\<lambda>_.
     bindE (whenE (uw_isDefault dto \<noteq> None)
              (bindE (assertPlatformAdmin u) (\<lambda>_.
               guardE (uw_isDefault dto = Some True \<or> \<not> w_isDefault w)
                 (BadRequest ''Default workspace cannot be unset directly. Select another workspace as default first.'')))) (\<lambda>_.
     bindE (guardE (\<not> (uw_isArchived dto = Some True \<and> w_isDefault w))
              (Conflict ''Default workspace cannot be archived. Select another default workspace first.'')) (\<lambda>_.
     guardE (\<not> (uw_isDefault dto = Some True \<and> (w_isArchived w \<or> uw_isArchived dto = Some True)))
       (Conflict ''Archived workspaces cannot become the default workspace.''))))"

definition changeWorkspace :: "env \<Rightarrow> update_workspace_dto \<Rightarrow> workspace \<Rightarrow> workspace op" where
  "changeWorkspace e dto w =
     bindE (case uw_name dto of None \<Rightarrow> ret w
            | Some n \<Rightarrow> bindE (guardE (2 \<le> length (trim n)) (BadRequest ''Workspace name must be at least 2 characters.''))
                          (\<lambda>_. ret (w\<lparr>w_name := trim n\<rparr>))) (\<lambda>w.
     bindE (case uw_slug dto of None \<Rightarrow> ret w
            | Some v \<Rightarrow>
                bindE (liftE (normalizeSlug v)) (\<lambda>slug.
                bindE (readE (\<lambda>s. find_row (\<lambda>x. w_slug x = slug) (workspaces s))) (\<lambda>existing.
                bindE (guardE (case existing of None \<Rightarrow> True | Some x \<Rightarrow> w_id x = w_id w)
                         (Conflict ''A workspace with this slug already exists.'')) (\<lambda>_.
                ret (w\<lparr>w_slug := slug\<rparr>))))) (\<lambda>w.
     bindE (case uw_defaultTimezone dto of None \<Rightarrow> ret w
            | Some z \<Rightarrow> bindE (liftE (assertValidTimeZone e z)) (\<lambda>tz. ret (w\<lparr>w_defaultTimezone := tz\<rparr>))) (\<lambda>w.
     ret (w\<lparr>w_isArchived := orElse (uw_isArchived dto) (w_isArchived w),
            w_automationEmailEnabled := orElse (uw_automationEmailEnabled dto) (w_automationEmailEnabled w),
            w_automationTelegramEnabled := orElse (uw_automationTelegramEnabled dto) (w_automationTelegramEnabled w),
            w_automationTelegramBotToken := orElse (uw_automationTelegramBotToken dto) (w_automationTelegramBotToken w),
            w_automationTelegramChatId := orElse (uw_automationTelegramChatId dto) (w_automationTelegramChatId w),
            w_automationEmailLevels := orElse (uw_automationEmailLevels dto) (w_automationEmailLevels w),
            w_automationTelegramLevels := orElse (uw_automationTelegramLevels dto) (w_automationTelegramLevels w)\<rparr>))))"

definition saveWorkspaceUpdate :: "env \<Rightarrow> actor \<Rightarrow> update_workspace_dto \<Rightarrow> workspace \<Rightarrow> workspace \<Rightarrow> workspace op" where
  "saveWorkspaceUpdate e u dto w changed =
     (let saved = touched (\<lambda>t r. r\<lparr>w_updatedAt := t\<rparr>) (e_now e) w changed;
          audit = (\<lambda>final. recordAudit e \<lparr>ai_scope = ''workspace'', ai_workspaceId = Some (w_id saved),
                      ai_action = ''workspace.updated'', ai_targetType = ''workspace'',
                      ai_targetId = Some (w_id saved), ai_targetLabel = Some (w_name saved),
                      ai_changes = Some [(''before'', workspace_summary w), (''after'', workspace_summary final)],
                      ai_metadata = None\<rparr> (user_context u))
      in bindE (writeE (\<lambda>s. s\<lparr>workspaces := save_row w_id saved (workspaces s)\<rparr>)) (\<lambda>_.
         bindE (whenE (uw_defaultTimezone dto \<noteq> None)
                  (recomputeWorkspaceSchedules e (w_id saved) (w_defaultTimezone saved))) (\<lambda>_.
         if uw_isDefault dto = Some True then
           bindE (setDefaultWorkspace e (w_id saved)) (\<lambda>_.
           bindE (findWorkspaceOrFail (w_id saved)) (\<lambda>final.
           bindE (audit final) (\<lambda>_. ret final)))
         else bindE (audit saved) (\<lambda>_. ret saved))))"

definition updateWorkspace :: "env \<Rightarrow> string \<Rightarrow> actor \<Rightarrow> update_workspace_dto \<Rightarrow> workspace op" where
  "updateWorkspace e workspaceId u dto =
     bindE (findWorkspaceForUserOrFail workspaceId u) (\<lambda>(w, _).
     bindE (assertWorkspaceAdmin workspaceId u) (\<lambda>_.
     bindE (checkWorkspaceUpdate u dto w) (\<lambda>_.
     bindE (changeWorkspace e dto w) (\<lambda>changed.
     saveWorkspaceUpdate e u dto w changed))))"

text \<open>What the foreign keys do when a workspace or a team row is removed: memberships, teams, team
  memberships, nodes, tasks, task logs, templates, events and schedules go with it; a node of a
  removed team loses its assignment.\<close>

definition remove_teams :: "(team \<Rightarrow> bool) \<Rightarrow> db \<Rightarrow> db" where
  "remove_teams gone s =
     (let ids = tm_id ` {t \<in> set (teams s). gone t}
      in s\<lparr>teams := delete_rows gone (teams s),
           team_memberships := delete_rows (\<lambda>m. tmm_teamId m \<in> ids) (team_memberships s),
           nodes := update_rows (\<lambda>n. case n_teamId n of None \<Rightarrow> False | Some i \<Rightarrow> i \<in> ids)
                      (\<lambda>n. n\<lparr>n_teamId := None\<rparr>) (nodes s)\<rparr>)"

definition remove_workspace :: "string \<Rightarrow> db \<Rightarrow> db" where
  "remove_workspace i s =
     (let s = remove_teams (\<lambda>t. tm_workspaceId t = i) s;
          nodeIds = n_id ` {n \<in> set (nodes s). n_workspaceId n = i};
          taskIds = t_id ` {t \<in> set (tasks s). t_workspaceId t = i}
      in s\<lparr>workspaces := delete_rows (\<lambda>w. w_id w = i) (workspaces s),
           memberships := delete_rows (\<lambda>m. m_workspaceId m = i) (memberships s),
           nodes := delete_rows (\<lambda>n. n_workspaceId n = i) (nodes s),
           tasks := delete_rows (\<lambda>t. t_workspaceId t = i) (tasks s),
           task_logs := delete_rows (\<lambda>l. tl_taskId l \<in> taskIds) (task_logs s),
           task_templates := delete_rows (\<lambda>t. tt_workspaceId t = i) (task_templates s),
           events := delete_rows (\<lambda>ev. ev_workspaceId ev = i) (events s),
           metrics := delete_rows (\<lambda>m. mt_workspaceId m = i) (metrics s),
           enrollments := update_rows (\<lambda>x. en_workspaceId x = Some i) (\<lambda>x. x\<lparr>en_workspaceId := None\<rparr>) (enrollments s),
           scheduled_tasks := delete_rows (\<lambda>sch. st_workspaceId sch = i \<or>
               (case st_nodeId sch of None \<Rightarrow> False | Some n \<Rightarrow> n \<in> nodeIds)) (scheduled_tasks s)\<rparr>)"

definition deleteWorkspace :: "env \<Rightarrow> string \<Rightarrow> actor \<Rightarrow> (string \<times> string) op" where
  "deleteWorkspace e workspaceId u =
     bindE (findWorkspaceForUserOrFail workspaceId u) (\<lambda>(w, _).
     bindE (assertWorkspaceAdmin workspaceId u) (\<lambda>_.
     bindE (assertWorkspaceWritable workspaceId) (\<lambda>_.
     bindE (guardE (\<not> w_isDefault w)
              (Conflict ''Default workspace cannot be deleted. Select another default workspace first.'')) (\<lambda>_.
     bindE (writeE (remove_workspace (w_id w))) (\<lambda>_.
     bindE (recordAudit e \<lparr>ai_scope = ''workspace'', ai_workspaceId = Some (w_id w), ai_action = ''workspace.deleted'',
              ai_targetType = ''workspace'', ai_targetId = Some (w_id w), ai_targetLabel = Some (w_name w),
              ai_changes = None, ai_metadata = None\<rparr> (user_context u)) (\<lambda>_.
     ret (w_id w, w_slug w)))))))"

section \<open>Members\<close>

text \<open>A membership with the user row its \<open>userName\<close>, \<open>userEmail\<close> and \<open>userIsActive\<close> are read from.\<close>

definition with_user :: "user list \<Rightarrow> ('m \<Rightarrow> string) \<Rightarrow> 'm \<Rightarrow> 'm \<times> user option" where
  "with_user us uid m = (m, find_row (\<lambda>x. u_id x = uid m) us)"

definition listMembers :: "string \<Rightarrow> (membership \<times> user option) list op" where
  "listMembers workspaceId =
     readE (\<lambda>s. map (with_user (users s) m_userId)
       (sort_key m_createdAt (filter (\<lambda>m. m_workspaceId m = workspaceId) (memberships s))))"

definition member_audit ::
  "string \<Rightarrow> string \<Rightarrow> string \<Rightarrow> string option \<Rightarrow> string option \<Rightarrow> json_object option \<Rightarrow> audit_input" where
  "member_audit workspaceId action targetType targetId label metadata =
     \<lparr>ai_scope = ''workspace'', ai_workspaceId = Some workspaceId, ai_action = action, ai_targetType = targetType,
      ai_targetId = targetId, ai_targetLabel = label, ai_changes = None, ai_metadata = metadata\<rparr>"

definition accepted_user :: "user \<Rightarrow> bool" where
  "accepted_user x \<longleftrightarrow> u_isActive x \<and> u_inviteStatus x = INVITE_ACCEPTED"

definition addMember :: "env \<Rightarrow> string \<Rightarrow> actor \<Rightarrow> string \<Rightarrow> membership_role \<Rightarrow> membership op" where
  "addMember e workspaceId u userId role =
     bindE (assertWorkspaceAdmin workspaceId u) (\<lambda>_.
     bindE (assertWorkspaceWritable workspaceId) (\<lambda>_.
     bindE (findE users (\<lambda>x. u_id x = userId) (NotFound (''User '' @ userId @ '' was not found.''))) (\<lambda>user.
     bindE (guardE (accepted_user user)
              (BadRequest ''Only active accepted users can be added to a workspace.'')) (\<lambda>_.
     bindE (findMembershipForUser workspaceId (u_id user)) (\<lambda>existing.
     bindE (guardE (existing = None) (Conflict ''This user is already a member of the workspace.'')) (\<lambda>_.
     bindE (saveMembership e workspaceId (u_id user) role) (\<lambda>saved.
     bindE (recordAudit e (member_audit workspaceId ''workspace.member.added'' ''user'' (Some (u_id user))
              (Some (u_email user)) (Some [(''role'', JStr (membership_role_str (m_role saved)))]))
              (user_context u)) (\<lambda>_.
     ret saved))))))))"

definition updateMember :: "env \<Rightarrow> string \<Rightarrow> string \<Rightarrow> actor \<Rightarrow> membership_role \<Rightarrow> membership op" where
  "updateMember e workspaceId membershipId u role =
     bindE (assertWorkspaceAdmin workspaceId u) (\<lambda>_.
     bindE (assertWorkspaceWritable workspaceId) (\<lambda>_.
     bindE (findE memberships (\<lambda>m. m_id m = membershipId \<and> m_workspaceId m = workspaceId)
              (NotFound (''Workspace membership '' @ membershipId @ '' was not found''))) (\<lambda>m.
       let saved = touched (\<lambda>t r. r\<lparr>m_updatedAt := t\<rparr>) (e_now e) m (m\<lparr>m_role := role\<rparr>)
       in bindE (writeE (\<lambda>s. s\<lparr>memberships := save_row m_id saved (memberships s)\<rparr>)) (\<lambda>_.
          bindE (readE (\<lambda>s. find_row (\<lambda>x. u_id x = m_userId m) (users s))) (\<lambda>user.
          bindE (recordAudit e (member_audit workspaceId ''workspace.member.updated'' ''user'' (Some (m_userId m))
                   (Some (case user of None \<Rightarrow> m_userId m | Some x \<Rightarrow> u_email x))
                   (Some [(''role'', JStr (membership_role_str (m_role saved)))])) (user_context u)) (\<lambda>_.
          ret saved))))))"

definition removeMember :: "env \<Rightarrow> string \<Rightarrow> string \<Rightarrow> actor \<Rightarrow> string op" where
  "removeMember e workspaceId membershipId u =
     bindE (assertWorkspaceAdmin workspaceId u) (\<lambda>_.
     bindE (assertWorkspaceWritable workspaceId) (\<lambda>_.
     bindE (findE memberships (\<lambda>m. m_id m = membershipId \<and> m_workspaceId m = workspaceId)
              (NotFound (''Workspace membership '' @ membershipId @ '' was not found''))) (\<lambda>m.
     bindE (writeE (\<lambda>s.
              let teamIds = tm_id ` {t \<in> set (teams s). tm_workspaceId t = workspaceId}
              in s\<lparr>team_memberships := delete_rows (\<lambda>x. tmm_userId x = m_userId m \<and> tmm_teamId x \<in> teamIds)
                                         (team_memberships s),
                   memberships := delete_rows (\<lambda>x. m_id x = m_id m) (memberships s)\<rparr>)) (\<lambda>_.
     bindE (recordAudit e (member_audit workspaceId ''workspace.member.removed'' ''workspace_membership''
              (Some membershipId) None None) (user_context u)) (\<lambda>_.
     ret membershipId)))))"

section \<open>Teams\<close>

definition listTeams :: "string \<Rightarrow> team list op" where
  "listTeams workspaceId =
     readE (\<lambda>s. sort_key tm_createdAt (filter (\<lambda>t. tm_workspaceId t = workspaceId) (teams s)))"

definition findTeamOrFail :: "string \<Rightarrow> string \<Rightarrow> team op" where
  "findTeamOrFail workspaceId teamId =
     findE teams (\<lambda>t. tm_id t = teamId \<and> tm_workspaceId t = workspaceId)
       (NotFound (''Team '' @ teamId @ '' was not found''))"

text \<open>The database keeps team names unique within a workspace: a save that breaks this throws.\<close>

definition assertTeamNameFree :: "string \<Rightarrow> string \<Rightarrow> string option \<Rightarrow> unit op" where
  "assertTeamNameFree workspaceId name self =
     bindE (readE (\<lambda>s. find_row (\<lambda>x. tm_workspaceId x = workspaceId \<and> tm_name x = name \<and> Some (tm_id x) \<noteq> self)
                         (teams s))) (\<lambda>clash.
     guardE (clash = None)
       (InternalError ''duplicate key value violates unique constraint UQ_teams_workspace_name''))"

definition createTeam :: "env \<Rightarrow> string \<Rightarrow> actor \<Rightarrow> string \<Rightarrow> string option \<Rightarrow> team op" where
  "createTeam e workspaceId u name description =
     bindE (assertWorkspaceAdmin workspaceId u) (\<lambda>_.
     bindE (assertWorkspaceWritable workspaceId) (\<lambda>_.
     bindE (assertTeamNameFree workspaceId (trim name) None) (\<lambda>_.
     bindE (fresh_id e) (\<lambda>i.
       let t = \<lparr>tm_id = i, tm_workspaceId = workspaceId, tm_name = trim name,
                tm_description = trim_or_null description, tm_createdAt = e_now e, tm_updatedAt = e_now e\<rparr>
       in bindE (writeE (\<lambda>s. s\<lparr>teams := teams s @ [t]\<rparr>)) (\<lambda>_.
          bindE (recordAudit e (member_audit workspaceId ''team.created'' ''team'' (Some i) (Some (tm_name t)) None)
                   (user_context u)) (\<lambda>_.
          ret t))))))"

text \<open>\<open>description\<close> may be absent, \<open>null\<close> or a text.\<close>

definition updateTeam ::
  "env \<Rightarrow> string \<Rightarrow> string \<Rightarrow> actor \<Rightarrow> string option \<Rightarrow> string option option \<Rightarrow> team op" where
  "updateTeam e workspaceId teamId u name description =
     bindE (assertWorkspaceAdmin workspaceId u) (\<lambda>_.
     bindE (assertWorkspaceWritable workspaceId) (\<lambda>_.
     bindE (findTeamOrFail workspaceId teamId) (\<lambda>t.
       let changed = t\<lparr>tm_name := (case name of None \<Rightarrow> tm_name t | Some n \<Rightarrow> trim n),
                       tm_description := (case description of None \<Rightarrow> tm_description t | Some d \<Rightarrow> trim_or_null d)\<rparr>;
           saved = touched (\<lambda>d r. r\<lparr>tm_updatedAt := d\<rparr>) (e_now e) t changed
       in bindE (assertTeamNameFree workspaceId (tm_name saved) (Some (tm_id saved))) (\<lambda>_.
          bindE (writeE (\<lambda>s. s\<lparr>teams := save_row tm_id saved (teams s)\<rparr>)) (\<lambda>_.
          bindE (recordAudit e (member_audit workspaceId ''team.updated'' ''team'' (Some (tm_id saved))
                   (Some (tm_name saved)) (Some [(''description'', jstr_opt (tm_description saved))]))
                   (user_context u)) (\<lambda>_.
          ret saved))))))"

definition deleteTeam :: "env \<Rightarrow> string \<Rightarrow> string \<Rightarrow> actor \<Rightarrow> string op" where
  "deleteTeam e workspaceId teamId u =
     bindE (assertWorkspaceAdmin workspaceId u) (\<lambda>_.
     bindE (assertWorkspaceWritable workspaceId) (\<lambda>_.
     bindE (findTeamOrFail workspaceId teamId) (\<lambda>t.
     bindE (readE (\<lambda>s. (count_rows (\<lambda>n. n_workspaceId n = workspaceId \<and> n_teamId n = Some teamId) (nodes s),
                        count_rows (\<lambda>sch. st_workspaceId sch = workspaceId \<and> st_targetTeamId sch = Some teamId)
                          (scheduled_tasks s)))) (\<lambda>(assignedNodeCount, targetedScheduleCount).
     bindE (guardE (assignedNodeCount = 0)
              (BadRequest ''Reassign or clear team-owned nodes before deleting this team.'')) (\<lambda>_.
     bindE (guardE (targetedScheduleCount = 0)
              (BadRequest ''Delete or retarget team schedules before deleting this team.'')) (\<lambda>_.
     bindE (writeE (remove_teams (\<lambda>x. tm_id x = tm_id t))) (\<lambda>_.
     bindE (recordAudit e (member_audit workspaceId ''team.deleted'' ''team'' (Some (tm_id t)) (Some (tm_name t)) None)
              (user_context u)) (\<lambda>_.
     ret teamId))))))))"

definition listTeamMembers :: "string \<Rightarrow> string \<Rightarrow> (team_membership \<times> user option) list op" where
  "listTeamMembers workspaceId teamId =
     bindE (findTeamOrFail workspaceId teamId) (\<lambda>_.
     readE (\<lambda>s. map (with_user (users s) tmm_userId)
       (sort_key tmm_createdAt (filter (\<lambda>m. tmm_teamId m = teamId) (team_memberships s)))))"

definition addTeamMember :: "env \<Rightarrow> string \<Rightarrow> string \<Rightarrow> actor \<Rightarrow> string \<Rightarrow> team_membership op" where
  "addTeamMember e workspaceId teamId u userId =
     bindE (assertWorkspaceAdmin workspaceId u) (\<lambda>_.
     bindE (assertWorkspaceWritable workspaceId) (\<lambda>_.
     bindE (findTeamOrFail workspaceId teamId) (\<lambda>_.
     bindE (findMembershipForUser workspaceId userId) (\<lambda>m.
     bindE (guardE (m \<noteq> None) (BadRequest ''Only workspace members can be added to a team.'')) (\<lambda>_.
     bindE (findE users (\<lambda>x. u_id x = userId) (NotFound (''User '' @ userId @ '' was not found.''))) (\<lambda>user.
     bindE (guardE (accepted_user user)
              (BadRequest ''Only active workspace members can be added to a team.'')) (\<lambda>_.
     bindE (readE (\<lambda>s. find_row (\<lambda>x. tmm_teamId x = teamId \<and> tmm_userId x = userId) (team_memberships s))) (\<lambda>existing.
     bindE (guardE (existing = None) (Conflict ''This user is already a member of the team.'')) (\<lambda>_.
     bindE (fresh_id e) (\<lambda>i.
       let saved = \<lparr>tmm_id = i, tmm_teamId = teamId, tmm_userId = userId, tmm_createdAt = e_now e\<rparr>
       in bindE (writeE (\<lambda>s. s\<lparr>team_memberships := team_memberships s @ [saved]\<rparr>)) (\<lambda>_.
          bindE (recordAudit e (member_audit workspaceId ''team.member.added'' ''user'' (Some (u_id user))
                   (Some (u_email user)) (Some [(''teamId'', JStr teamId)])) (user_context u)) (\<lambda>_.
          ret saved))))))))))))"

definition removeTeamMember :: "env \<Rightarrow> string \<Rightarrow> string \<Rightarrow> string \<Rightarrow> actor \<Rightarrow> string op" where
  "removeTeamMember e workspaceId teamId userId u =
     bindE (assertWorkspaceAdmin workspaceId u) (\<lambda>_.
     bindE (assertWorkspaceWritable workspaceId) (\<lambda>_.
     bindE (findTeamOrFail workspaceId teamId) (\<lambda>_.
     bindE (findE team_memberships (\<lambda>x. tmm_teamId x = teamId \<and> tmm_userId x = userId)
              (NotFound (''Team membership for user '' @ userId @ '' was not found''))) (\<lambda>m.
     bindE (writeE (\<lambda>s. s\<lparr>team_memberships := delete_rows (\<lambda>x. tmm_id x = tmm_id m) (team_memberships s)\<rparr>)) (\<lambda>_.
     bindE (recordAudit e (member_audit workspaceId ''team.member.removed'' ''user'' (Some userId) None
              (Some [(''teamId'', JStr teamId)])) (user_context u)) (\<lambda>_.
     ret userId))))))"

section \<open>Lemmas\<close>

subsection \<open>Access\<close>

definition may_administer :: "db \<Rightarrow> actor \<Rightarrow> string \<Rightarrow> bool" where
  "may_administer s u workspaceId \<longleftrightarrow> a_role u = PLATFORM_ADMIN \<or>
     (case find_row (\<lambda>m. m_workspaceId m = workspaceId \<and> m_userId m = a_id u) (memberships s) of
        None \<Rightarrow> False | Some m \<Rightarrow> m_role m = OWNER \<or> m_role m = ADMIN)"

definition writable :: "db \<Rightarrow> string \<Rightarrow> bool" where
  "writable s workspaceId \<longleftrightarrow>
     (case find_row (\<lambda>w. w_id w = workspaceId) (workspaces s) of None \<Rightarrow> False | Some w \<Rightarrow> \<not> w_isArchived w)"

lemma assertWorkspaceAdmin_apply [simp]:
  "assertWorkspaceAdmin i u s =
     (if may_administer s u i then (Inr (), s)
      else (Inl (Forbidden ''Workspace owner or admin access is required.''), s))"
  by (simp add: assertWorkspaceAdmin_def findMembershipForUser_def may_administer_def split: option.split)

lemma bindE_assertWorkspaceAdmin [simp]:
  "bindE (assertWorkspaceAdmin i u) f s =
     (if may_administer s u i then f () s
      else (Inl (Forbidden ''Workspace owner or admin access is required.''), s))"
  by (simp add: bindE_def)

lemma bindE_findWorkspaceOrFail [simp]:
  "bindE (findWorkspaceOrFail i) f s =
     (case find_row (\<lambda>w. w_id w = i) (workspaces s) of
        None \<Rightarrow> (Inl (NotFound (''Workspace '' @ i @ '' was not found'')), s) | Some w \<Rightarrow> f w s)"
  unfolding findWorkspaceOrFail_def by (rule bindE_findE)

lemma assertWorkspaceWritable_run:
  "writable s i \<Longrightarrow> bindE (assertWorkspaceWritable i) f s = f (the (find_row (\<lambda>w. w_id w = i) (workspaces s))) s"
  "\<not> writable s i \<Longrightarrow> \<exists>err. bindE (assertWorkspaceWritable i) f s = (Inl err, s)"
  by (auto simp: assertWorkspaceWritable_def writable_def split: option.splits)

text \<open>Every operation on members and teams first checks the actor, then the workspace, and only
  then does its work.\<close>

locale guarded_mutation =
  fixes run :: "'a op" and workspaceId :: string and u :: actor
  assumes checked: "\<exists>body. run = bindE (assertWorkspaceAdmin workspaceId u) (\<lambda>_. bindE (assertWorkspaceWritable workspaceId) (\<lambda>_. body))"
begin

lemma denied:
  "\<not> may_administer s u workspaceId \<Longrightarrow>
     run s = (Inl (Forbidden ''Workspace owner or admin access is required.''), s)"
  using checked by auto

lemma read_only: "\<not> writable s workspaceId \<Longrightarrow> \<exists>err. run s = (Inl err, s)"
  using checked assertWorkspaceWritable_run(2)[of s workspaceId] by (cases "may_administer s u workspaceId") auto

lemma changed: "after run s \<noteq> s \<or> outcome run s = Inr x \<Longrightarrow> may_administer s u workspaceId \<and> writable s workspaceId"
  using denied[of s] read_only[of s]
  by (cases "may_administer s u workspaceId"; cases "writable s workspaceId") auto

end

interpretation addMember: guarded_mutation "addMember e i u userId role" i u for e i u userId role
  by unfold_locales (unfold addMember_def, rule exI, rule refl)

interpretation updateMember: guarded_mutation "updateMember e i membershipId u role" i u for e i membershipId u role
  by unfold_locales (unfold updateMember_def, rule exI, rule refl)

interpretation removeMember: guarded_mutation "removeMember e i membershipId u" i u for e i membershipId u
  by unfold_locales (unfold removeMember_def, rule exI, rule refl)

interpretation createTeam: guarded_mutation "createTeam e i u name description" i u for e i u name description
  by unfold_locales (unfold createTeam_def, rule exI, rule refl)

interpretation updateTeam: guarded_mutation "updateTeam e i teamId u name description" i u for e i teamId u name description
  by unfold_locales (unfold updateTeam_def, rule exI, rule refl)

interpretation deleteTeam: guarded_mutation "deleteTeam e i teamId u" i u for e i teamId u
  by unfold_locales (unfold deleteTeam_def, rule exI, rule refl)

interpretation addTeamMember: guarded_mutation "addTeamMember e i teamId u userId" i u for e i teamId u userId
  by unfold_locales (unfold addTeamMember_def, rule exI, rule refl)

interpretation removeTeamMember: guarded_mutation "removeTeamMember e i teamId userId u" i u for e i teamId userId u
  by unfold_locales (unfold removeTeamMember_def, rule exI, rule refl)

subsection \<open>The invariant\<close>

definition drawn_ids :: "(nat \<Rightarrow> string) \<Rightarrow> nat \<Rightarrow> string list \<Rightarrow> bool" where
  "drawn_ids u n ids \<longleftrightarrow> distinct ids \<and> (\<forall>i \<in> set ids. \<exists>k < n. i = u k)"

lemma drawn_ids_Suc [intro]: "drawn_ids u n ids \<Longrightarrow> n \<le> n' \<Longrightarrow> drawn_ids u n' ids"
  by (auto simp: drawn_ids_def) (meson less_le_trans)

lemma drawn_ids_fresh:
  assumes "drawn_ids u n ids" "inj u" "n \<le> k"
  shows "u k \<notin> set ids" "k < n' \<Longrightarrow> drawn_ids u n' (ids @ [u k])"
proof -
  show "u k \<notin> set ids" using assms unfolding drawn_ids_def by (metis injD not_le)
  then show "k < n' \<Longrightarrow> drawn_ids u n' (ids @ [u k])"
    using assms by (auto simp: drawn_ids_def) (meson le_less_trans less_le_trans less_imp_le)
qed

lemma drawn_ids_filter: "drawn_ids u n (map k rows) \<Longrightarrow> drawn_ids u n (map k (delete_rows p rows))"
  by (auto simp: drawn_ids_def)

text \<open>
  Identifiers are unique and were drawn; slugs are unique; there is exactly one default workspace
  as soon as there is a workspace; a user is a member of a workspace at most once, of a team at
  most once, and of a team only together with its workspace; memberships and teams belong to
  existing workspaces.
\<close>

definition workspaces_ok :: "(nat \<Rightarrow> string) \<Rightarrow> nat \<Rightarrow> workspace list \<Rightarrow> bool" where
  "workspaces_ok u n W \<longleftrightarrow> drawn_ids u n (map w_id W) \<and> distinct (map w_slug W) \<and>
     count_rows w_isDefault W = (if W = [] then 0 else 1)"

definition memberships_ok :: "(nat \<Rightarrow> string) \<Rightarrow> nat \<Rightarrow> workspace list \<Rightarrow> membership list \<Rightarrow> bool" where
  "memberships_ok u n W M \<longleftrightarrow> drawn_ids u n (map m_id M) \<and> distinct (map (\<lambda>m. (m_workspaceId m, m_userId m)) M) \<and>
     (\<forall>m \<in> set M. m_workspaceId m \<in> w_id ` set W)"

definition teams_ok :: "(nat \<Rightarrow> string) \<Rightarrow> nat \<Rightarrow> workspace list \<Rightarrow> team list \<Rightarrow> bool" where
  "teams_ok u n W T \<longleftrightarrow> drawn_ids u n (map tm_id T) \<and> distinct (map (\<lambda>t. (tm_workspaceId t, tm_name t)) T) \<and>
     (\<forall>t \<in> set T. tm_workspaceId t \<in> w_id ` set W)"

definition team_members_ok ::
  "(nat \<Rightarrow> string) \<Rightarrow> nat \<Rightarrow> membership list \<Rightarrow> team list \<Rightarrow> team_membership list \<Rightarrow> bool" where
  "team_members_ok u n M T X \<longleftrightarrow> drawn_ids u n (map tmm_id X) \<and> distinct (map (\<lambda>x. (tmm_teamId x, tmm_userId x)) X) \<and>
     (\<forall>x \<in> set X. \<exists>t \<in> set T. tm_id t = tmm_teamId x \<and>
        (\<exists>m \<in> set M. m_workspaceId m = tm_workspaceId t \<and> m_userId m = tmm_userId x))"

definition workspace_inv :: "(nat \<Rightarrow> string) \<Rightarrow> db \<Rightarrow> bool" where
  "workspace_inv u s \<longleftrightarrow>
     workspaces_ok u (drawn s) (workspaces s) \<and>
     memberships_ok u (drawn s) (workspaces s) (memberships s) \<and>
     teams_ok u (drawn s) (workspaces s) (teams s) \<and>
     team_members_ok u (drawn s) (memberships s) (teams s) (team_memberships s)"

lemmas parts_ok = workspaces_ok_def memberships_ok_def teams_ok_def team_members_ok_def

lemma workspace_inv_later:
  assumes "workspace_inv u s" "drawn s \<le> drawn s'" "workspaces s' = workspaces s"
    "memberships s' = memberships s" "teams s' = teams s" "team_memberships s' = team_memberships s"
  shows "workspace_inv u s'"
  using assms unfolding workspace_inv_def parts_ok by auto

lemma memberships_ok_W: "memberships_ok u n W M \<Longrightarrow> w_id ` set W \<subseteq> w_id ` set W' \<Longrightarrow> n \<le> n' \<Longrightarrow> memberships_ok u n' W' M"
  and teams_ok_W: "teams_ok u n W T \<Longrightarrow> w_id ` set W \<subseteq> w_id ` set W' \<Longrightarrow> n \<le> n' \<Longrightarrow> teams_ok u n' W' T"
  by (auto simp: parts_ok)

lemma memberships_ok_add:
  assumes "memberships_ok u n W M" "inj u" "m_id m = u k" "n \<le> k" "k < n'"
    and "\<And>x. x \<in> set M \<Longrightarrow> m_workspaceId x = m_workspaceId m \<Longrightarrow> m_userId x \<noteq> m_userId m"
    and "m_workspaceId m \<in> w_id ` set W'" "w_id ` set W \<subseteq> w_id ` set W'"
  shows "memberships_ok u n' W' (M @ [m])"
  unfolding memberships_ok_def
proof (intro conjI)
  show "drawn_ids u n' (map m_id (M @ [m]))"
    using drawn_ids_fresh(2)[OF _ assms(2,4,5), of "map m_id M"] assms(1,3) by (simp add: memberships_ok_def)
  show "distinct (map (\<lambda>m. (m_workspaceId m, m_userId m)) (M @ [m]))"
    using assms(1) assms(6) by (fastforce simp: memberships_ok_def)
  show "\<forall>m \<in> set (M @ [m]). m_workspaceId m \<in> w_id ` set W'"
    using assms(1,7,8) unfolding memberships_ok_def by auto
qed

lemma teams_ok_add:
  assumes "teams_ok u n W T" "inj u" "tm_id t = u k" "n \<le> k" "k < n'"
    and "\<And>x. x \<in> set T \<Longrightarrow> tm_workspaceId x = tm_workspaceId t \<Longrightarrow> tm_name x \<noteq> tm_name t"
    and "tm_workspaceId t \<in> w_id ` set W"
  shows "teams_ok u n' W (T @ [t])"
  unfolding teams_ok_def
proof (intro conjI)
  show "drawn_ids u n' (map tm_id (T @ [t]))"
    using drawn_ids_fresh(2)[OF _ assms(2,4,5), of "map tm_id T"] assms(1,3) by (simp add: teams_ok_def)
  show "distinct (map (\<lambda>t. (tm_workspaceId t, tm_name t)) (T @ [t]))"
    using assms(1) assms(6) by (fastforce simp: teams_ok_def)
  show "\<forall>t \<in> set (T @ [t]). tm_workspaceId t \<in> w_id ` set W"
    using assms(1,7) unfolding teams_ok_def by auto
qed

text \<open>Team members stay covered when no team loses its row or workspace and no membership goes.\<close>

lemma team_members_ok_grow:
  assumes "team_members_ok u n M T X" "n \<le> n'"
    and "(\<lambda>t. (tm_id t, tm_workspaceId t)) ` set T \<subseteq> (\<lambda>t. (tm_id t, tm_workspaceId t)) ` set T'"
    and "(\<lambda>m. (m_workspaceId m, m_userId m)) ` set M \<subseteq> (\<lambda>m. (m_workspaceId m, m_userId m)) ` set M'"
  shows "team_members_ok u n' M' T' X"
proof -
  have "\<exists>t \<in> set T'. tm_id t = tmm_teamId x \<and>
        (\<exists>m \<in> set M'. m_workspaceId m = tm_workspaceId t \<and> m_userId m = tmm_userId x)" if "x \<in> set X" for x
  proof -
    from that assms(1) obtain t m where t: "t \<in> set T" "tm_id t = tmm_teamId x"
      and m: "m \<in> set M" "m_workspaceId m = tm_workspaceId t" "m_userId m = tmm_userId x"
      unfolding team_members_ok_def by blast
    obtain t' where "t' \<in> set T'" "tm_id t' = tm_id t" "tm_workspaceId t' = tm_workspaceId t"
      using assms(3) t(1) by force
    moreover obtain m' where "m' \<in> set M'" "m_workspaceId m' = m_workspaceId m" "m_userId m' = m_userId m"
      using assms(4) m(1) by force
    ultimately show ?thesis using t m by metis
  qed
  then show ?thesis using assms(1,2) unfolding team_members_ok_def by blast
qed

lemma team_members_ok_shrink:
  assumes "team_members_ok u n M T X"
    and "\<And>x t m. x \<in> set X \<Longrightarrow> \<not> px x \<Longrightarrow> t \<in> set T \<Longrightarrow> tm_id t = tmm_teamId x \<Longrightarrow> m \<in> set M \<Longrightarrow>
      m_workspaceId m = tm_workspaceId t \<Longrightarrow> m_userId m = tmm_userId x \<Longrightarrow> \<not> pt t \<and> \<not> pm m"
  shows "team_members_ok u n (delete_rows pm M) (delete_rows pt T) (delete_rows px X)"
proof -
  have "\<exists>t \<in> set (delete_rows pt T). tm_id t = tmm_teamId x \<and>
        (\<exists>m \<in> set (delete_rows pm M). m_workspaceId m = tm_workspaceId t \<and> m_userId m = tmm_userId x)"
    if "x \<in> set (delete_rows px X)" for x
  proof -
    from that assms(1) obtain t m where "x \<in> set X" "\<not> px x" "t \<in> set T" "tm_id t = tmm_teamId x"
      "m \<in> set M" "m_workspaceId m = tm_workspaceId t" "m_userId m = tmm_userId x"
      unfolding team_members_ok_def by auto
    with assms(2)[OF this] show ?thesis by auto
  qed
  then show ?thesis using assms(1) unfolding team_members_ok_def by (simp add: drawn_ids_filter)
qed

text \<open>Making one existing workspace the default leaves exactly that one.\<close>

definition defaulted :: "int \<Rightarrow> string \<Rightarrow> workspace list \<Rightarrow> workspace list" where
  "defaulted now i W =
     update_rows (\<lambda>w. w_id w = i) (\<lambda>w. w\<lparr>w_isDefault := True, w_updatedAt := now\<rparr>)
       (update_rows w_isDefault (\<lambda>w. w\<lparr>w_isDefault := False, w_updatedAt := now\<rparr>) W)"

lemma defaulted_map:
  "map w_id (defaulted now i W) = map w_id W" "map w_slug (defaulted now i W) = map w_slug W"
  by (simp_all add: defaulted_def map_update_rows)

lemma defaulted_flags: "map w_isDefault (defaulted now i W) = map (\<lambda>w. w_id w = i) W"
  by (simp add: defaulted_def update_rows_def)

lemma count_rows_map: "count_rows p rows = length (filter id (map p rows))"
  by (induction rows) (auto simp: count_rows_def)

lemma count_key:
  "distinct (map key rows) \<Longrightarrow> k \<in> key ` set rows \<Longrightarrow> count_rows (\<lambda>r. key r = k) rows = 1"
proof (induction rows)
  case (Cons r rows)
  have "key r = k \<Longrightarrow> count_rows (\<lambda>r. key r = k) rows = 0"
    using Cons.prems(1) by (auto simp: count_rows_zero image_iff)
  then show ?case using Cons by (auto simp: count_rows_def)
qed simp

lemma workspaces_ok_defaulted:
  assumes "drawn_ids u n (map w_id W)" "distinct (map w_slug W)" "i \<in> w_id ` set W"
  shows "workspaces_ok u n (defaulted now i W)"
proof -
  have "count_rows w_isDefault (defaulted now i W) = count_rows (\<lambda>w. w_id w = i) W"
    by (simp add: count_rows_map defaulted_flags)
  also have "\<dots> = 1" using assms by (intro count_key) (auto simp: drawn_ids_def)
  finally show ?thesis using assms
    by (auto simp: workspaces_ok_def defaulted_map) (metis defaulted_map(1) empty_iff list.map_disc_iff list.set(1))
qed

lemma setDefaultWorkspace_apply [simp]:
  "setDefaultWorkspace e i s = (Inr (), s\<lparr>workspaces := defaulted (e_now e) i (workspaces s)\<rparr>)"
  by (simp add: setDefaultWorkspace_def defaulted_def)

lemma bindE_setDefaultWorkspace [simp]:
  "bindE (setDefaultWorkspace e i) f s = f () (s\<lparr>workspaces := defaulted (e_now e) i (workspaces s)\<rparr>)"
  by (simp add: bindE_def)

lemma saveMembership_apply [simp]:
  "bindE (saveMembership e i userId role) f s =
     (let m = \<lparr>m_id = e_uuid e (drawn s), m_workspaceId = i, m_userId = userId, m_role = role,
               m_createdAt = e_now e, m_updatedAt = e_now e\<rparr>
      in f m (s\<lparr>drawn := Suc (drawn s), memberships := memberships s @ [m]\<rparr>))"
  by (simp add: saveMembership_def Let_def)

subsection \<open>Every operation keeps the invariant\<close>

text \<open>What a successful creation leaves behind; a failing one changes nothing.\<close>

definition created :: "env \<Rightarrow> actor \<Rightarrow> create_workspace_dto \<Rightarrow> string \<Rightarrow> string \<Rightarrow> db \<Rightarrow> db \<Rightarrow> bool" where
  "created e a dto slug tz s s' \<longleftrightarrow>
     (let w = new_workspace e a dto slug tz (e_uuid e (drawn s));
          W = workspaces s @ [w]
      in a_role a = PLATFORM_ADMIN \<and> normalizeSlug (cw_slug dto) = Inr slug \<and> slug \<notin> w_slug ` set (workspaces s) \<and>
         workspaces s' = (if cw_isDefault dto = Some True \<or> (\<forall>x \<in> set (workspaces s). \<not> w_isDefault x)
                          then defaulted (e_now e) (w_id w) W else W) \<and>
         memberships s' = memberships s @ [\<lparr>m_id = e_uuid e (Suc (drawn s)), m_workspaceId = w_id w, m_userId = a_id a,
             m_role = OWNER, m_createdAt = e_now e, m_updatedAt = e_now e\<rparr>] \<and>
         teams s' = teams s \<and> team_memberships s' = team_memberships s \<and> drawn s' = drawn s + 3)"

lemma new_workspace_id [simp]: "w_id (new_workspace e a dto slug tz i) = i"
  and new_workspace_slug [simp]: "w_slug (new_workspace e a dto slug tz i) = slug"
  and new_workspace_default [simp]: "\<not> w_isDefault (new_workspace e a dto slug tz i)"
  by (simp_all add: new_workspace_def)

lemma find_defaulted: "i \<in> w_id ` set W \<Longrightarrow> \<exists>w. find_row (\<lambda>w. w_id w = i) (defaulted now i W) = Some w"
proof -
  assume "i \<in> w_id ` set W"
  then have "i \<in> w_id ` set (defaulted now i W)" by (metis defaulted_map(1) set_map)
  then show ?thesis using find_row_exists[of _ "defaulted now i W" "\<lambda>w. w_id w = i"] by (metis imageE)
qed

lemma createWorkspace_run:
  "(\<exists>err. createWorkspace e a dto s = (Inl err, s)) \<or>
   (\<exists>slug tz w s'. createWorkspace e a dto s = (Inr w, s') \<and> created e a dto slug tz s s')"
proof (cases "a_role a = PLATFORM_ADMIN")
  case admin: True
  show ?thesis
  proof (cases "normalizeSlug (cw_slug dto)"; cases "requestedTimezone e (cw_defaultTimezone dto)")
    fix slug tz
    assume ok: "normalizeSlug (cw_slug dto) = Inr slug" "requestedTimezone e (cw_defaultTimezone dto) = Inr tz"
    let ?w = "new_workspace e a dto slug tz (e_uuid e (drawn s))"
    obtain w where w: "find_row (\<lambda>w. w_id w = w_id ?w) (defaulted (e_now e) (w_id ?w) (workspaces s @ [?w])) = Some w"
      using find_defaulted[of "w_id ?w" "workspaces s @ [?w]" "e_now e"] by auto
    show ?thesis
    proof (cases "find_row (\<lambda>w. w_slug w = slug) (workspaces s)")
      case None
      then have "slug \<notin> w_slug ` set (workspaces s)" by (auto simp: find_row_None)
      then have "\<exists>x s'. createWorkspace e a dto s = (Inr x, s') \<and> created e a dto slug tz s s'"
        using admin ok None w
        by (auto simp: createWorkspace_def assertPlatformAdmin_def hasDefaultWorkspace_def created_def Let_def
            find_row_None findWorkspaceOrFail_def)
      then show ?thesis by blast
    next
      case (Some x)
      then show ?thesis using admin ok
        by (simp add: createWorkspace_def assertPlatformAdmin_def hasDefaultWorkspace_def)
    qed
  qed (use admin in \<open>simp_all add: createWorkspace_def assertPlatformAdmin_def\<close>)
qed (simp add: createWorkspace_def assertPlatformAdmin_def)

lemma createWorkspace_inv:
  assumes inv: "workspace_inv u s" and u: "inj u" "e_uuid e = u"
  shows "workspace_inv u (after (createWorkspace e a dto) s)"
proof -
  consider "after (createWorkspace e a dto) s = s"
    | slug tz s' where "after (createWorkspace e a dto) s = s'" "created e a dto slug tz s s'"
    using createWorkspace_run[of e a dto s] by auto
  then show ?thesis
  proof cases
    case 1
    then show ?thesis using inv by simp
  next
    case (2 slug tz s')
    let ?i = "u (drawn s)" and ?w = "new_workspace e a dto slug tz (u (drawn s))"
    let ?W = "workspaces s @ [?w]"
    note c = 2(2)[unfolded created_def Let_def u(2)]
    note i = inv[unfolded workspace_inv_def parts_ok]
    have ids: "drawn_ids u (drawn s') (map w_id ?W)"
      using drawn_ids_fresh(2)[OF _ u(1), of "drawn s" "map w_id (workspaces s)" "drawn s" "drawn s'"] i c by simp
    have slugs: "distinct (map w_slug ?W)" using c i by simp
    have W: "workspaces_ok u (drawn s') (workspaces s')"
    proof (cases "cw_isDefault dto = Some True \<or> (\<forall>x \<in> set (workspaces s). \<not> w_isDefault x)")
      case True
      then have "workspaces s' = defaulted (e_now e) ?i ?W" using c by simp
      then show ?thesis using workspaces_ok_defaulted[OF ids slugs, of ?i "e_now e"] by simp
    next
      case False
      then have "workspaces s \<noteq> []" by auto
      then show ?thesis using False c i ids slugs by (auto simp: workspaces_ok_def count_rows_def)
    qed
    have sub: "w_id ` set (workspaces s) \<subseteq> w_id ` set (workspaces s')" "?i \<in> w_id ` set (workspaces s')"
      using c by (auto simp: image_Un defaulted_map simp flip: set_map)
    have new: "?i \<notin> w_id ` set (workspaces s)"
      using drawn_ids_fresh(1)[OF _ u(1), of "drawn s" "map w_id (workspaces s)" "drawn s"] i by simp
    let ?m = "\<lparr>m_id = u (Suc (drawn s)), m_workspaceId = ?i, m_userId = a_id a, m_role = OWNER,
               m_createdAt = e_now e, m_updatedAt = e_now e\<rparr>"
    have "m_workspaceId x \<noteq> ?i" if "x \<in> set (memberships s)" for x using that i new by metis
    then have "memberships_ok u (drawn s') (workspaces s') (memberships s @ [?m])"
      using inv c sub u(1)
      by (intro memberships_ok_add[where n = "drawn s" and k = "Suc (drawn s)" and W = "workspaces s"])
         (auto simp: workspace_inv_def)
    then have M: "memberships_ok u (drawn s') (workspaces s') (memberships s')" using c by simp
    have "teams_ok u (drawn s') (workspaces s') (teams s')"
      using teams_ok_W[OF _ sub(1), of u "drawn s" "teams s" "drawn s'"] inv c by (simp add: workspace_inv_def)
    moreover have "team_members_ok u (drawn s') (memberships s') (teams s') (team_memberships s')"
    proof -
      have old: "team_members_ok u (drawn s) (memberships s) (teams s) (team_memberships s)"
        using inv by (simp add: workspace_inv_def)
      show ?thesis using team_members_ok_grow[OF old, of "drawn s'" "teams s'" "memberships s'"] c by auto
    qed
    ultimately show ?thesis using W M 2(1) by (simp add: workspace_inv_def)
  qed
qed

lemma findWorkspaceForUserOrFail_quiet [quiet_rules, simp]: "quiet (findWorkspaceForUserOrFail i a)"
  unfolding findWorkspaceForUserOrFail_def findWorkspaceOrFail_def findMembershipForUser_def by (intro quiet_rules)

lemma assertWorkspaceAdmin_quiet [quiet_rules, simp]: "quiet (assertWorkspaceAdmin i a)"
  by (simp add: quiet_def)

lemma assertWorkspaceWritable_quiet [quiet_rules, simp]: "quiet (assertWorkspaceWritable i)"
  unfolding assertWorkspaceWritable_def findWorkspaceOrFail_def by (intro quiet_rules)

lemma findTeamOrFail_quiet [quiet_rules, simp]: "quiet (findTeamOrFail i t)"
  unfolding findTeamOrFail_def by (intro quiet_rules)

lemmas leads_workspace_checks [leads_rules] =
  leads_after_quiet[OF assertWorkspaceAdmin_quiet] leads_after_quiet[OF assertWorkspaceWritable_quiet]
  leads_after_quiet[OF findTeamOrFail_quiet]

lemma quiet_whenE [quiet_rules]: "(c \<Longrightarrow> quiet m) \<Longrightarrow> quiet (whenE c m)"
  by (simp add: quiet_def)

lemma checkWorkspaceUpdate_quiet [quiet_rules, simp]: "quiet (checkWorkspaceUpdate a dto w)"
  unfolding checkWorkspaceUpdate_def assertPlatformAdmin_def by (intro quiet_rules)

lemma changeWorkspace_quiet [quiet_rules, simp]: "quiet (changeWorkspace e dto w)"
  unfolding changeWorkspace_def by (intro quiet_rules)

lemma findWorkspaceForUserOrFail_Inr:
  "outcome (findWorkspaceForUserOrFail i a) s = Inr (w, r) \<Longrightarrow> w \<in> set (workspaces s) \<and> w_id w = i"
  by (auto simp: findWorkspaceForUserOrFail_def findMembershipForUser_def split: option.splits if_splits
      dest: find_row_Some)

text \<open>A change keeps the identity and the default mark of the row, and its slug is its own.\<close>

lemma changeWorkspace_Inr:
  assumes "outcome (changeWorkspace e dto w) s = Inr c" "w \<in> set (workspaces s)" "distinct (map w_slug (workspaces s))"
  shows "w_id c = w_id w \<and> w_isDefault c = w_isDefault w \<and>
    (\<forall>x \<in> set (workspaces s). w_slug x = w_slug c \<longrightarrow> w_id x = w_id w)"
proof -
  have same: "w_id x = w_id y" if "x \<in> set (workspaces s)" "y \<in> set (workspaces s)" "w_slug x = w_slug y" for x y
    using that assms(3) by (auto simp: distinct_map inj_on_def)
  from assms(1) obtain s' where "changeWorkspace e dto w s = (Inr c, s')" by (cases "changeWorkspace e dto w s") auto
  then obtain w1 s1 w2 s2 w3 s3 where
    1: "(case uw_name dto of None \<Rightarrow> ret w
         | Some n \<Rightarrow> bindE (guardE (2 \<le> length (trim n)) (BadRequest ''Workspace name must be at least 2 characters.''))
                       (\<lambda>_. ret (w\<lparr>w_name := trim n\<rparr>))) s = (Inr w1, s1)" and
    2: "(case uw_slug dto of None \<Rightarrow> ret w1
         | Some v \<Rightarrow>
             bindE (liftE (normalizeSlug v)) (\<lambda>slug.
             bindE (readE (\<lambda>s. find_row (\<lambda>x. w_slug x = slug) (workspaces s))) (\<lambda>existing.
             bindE (guardE (case existing of None \<Rightarrow> True | Some x \<Rightarrow> w_id x = w_id w1)
                      (Conflict ''A workspace with this slug already exists.'')) (\<lambda>_.
             ret (w1\<lparr>w_slug := slug\<rparr>))))) s1 = (Inr w2, s2)" and
    3: "(case uw_defaultTimezone dto of None \<Rightarrow> ret w2
         | Some z \<Rightarrow> bindE (liftE (assertValidTimeZone e z)) (\<lambda>tz. ret (w2\<lparr>w_defaultTimezone := tz\<rparr>))) s2 = (Inr w3, s3)" and
    4: "w_id c = w_id w3 \<and> w_isDefault c = w_isDefault w3 \<and> w_slug c = w_slug w3"
    unfolding changeWorkspace_def bindE_success by (auto simp del: bindE_case_option)
  have w1: "s1 = s" "w_id w1 = w_id w" "w_isDefault w1 = w_isDefault w" "w_slug w1 = w_slug w"
    using 1 by (auto split: option.splits if_splits)
  have w2: "w_id w2 = w_id w" "w_isDefault w2 = w_isDefault w"
    using 2 w1 by (auto split: option.splits if_splits sum.splits)
  have slug: "w_id x = w_id w" if x: "x \<in> set (workspaces s)" "w_slug x = w_slug w2" for x
  proof (cases "uw_slug dto")
    case None
    then show ?thesis using 2 w1 x same[OF x(1) assms(2)] by simp
  next
    case (Some v)
    then obtain sl where sl: "normalizeSlug v = Inr sl" "w_slug w2 = sl"
      using 2 by (auto split: if_splits sum.splits)
    then obtain y where "find_row (\<lambda>x. w_slug x = sl) (workspaces s) = Some y"
      using x find_row_exists[of x "workspaces s" "\<lambda>x. w_slug x = sl"] by auto
    moreover from this have "y \<in> set (workspaces s)" "w_slug y = sl" by (auto dest: find_row_Some)
    ultimately show ?thesis using 2 Some sl w1 x same[of x y] by (auto split: if_splits)
  qed
  have "w_id w3 = w_id w2" "w_isDefault w3 = w_isDefault w2" "w_slug w3 = w_slug w2"
    using 3 by (auto split: option.splits sum.splits)
  then show ?thesis using 4 w2 slug by auto
qed

lemma touched_simps [simp]:
  "w_id (touched (\<lambda>t r. r\<lparr>w_updatedAt := t\<rparr>) now old new) = w_id new"
  "w_slug (touched (\<lambda>t r. r\<lparr>w_updatedAt := t\<rparr>) now old new) = w_slug new"
  "w_isDefault (touched (\<lambda>t r. r\<lparr>w_updatedAt := t\<rparr>) now old new) = w_isDefault new"
  "w_isArchived (touched (\<lambda>t r. r\<lparr>w_updatedAt := t\<rparr>) now old new) = w_isArchived new"
  by (simp_all add: touched_def)

lemma recompute_frames [frame_rules]:
  "frames (\<lambda>s. (workspaces s, memberships s, teams s, team_memberships s, drawn s)) (recomputeWorkspaceSchedules e i tz)"
  unfolding recomputeWorkspaceSchedules_def Let_def by (intro frame_rules) simp_all

lemma inv_defaulted:
  assumes "workspace_inv u s" "i \<in> w_id ` set (workspaces s)"
  shows "workspace_inv u (s\<lparr>workspaces := defaulted now i (workspaces s)\<rparr>)"
proof -
  have ids: "w_id ` set (defaulted now i (workspaces s)) = w_id ` set (workspaces s)"
    by (metis defaulted_map(1) set_map)
  then show ?thesis using assms workspaces_ok_defaulted[of u "drawn s" "workspaces s" i now]
    by (auto simp: workspace_inv_def parts_ok)
qed

lemma keeps_inv_audit [keeps_rules]: "keeps (workspace_inv u) (recordAudit e inp ctx)"
proof (rule keepsI)
  fix s assume "workspace_inv u s"
  then show "workspace_inv u (after (recordAudit e inp ctx) s)" by (rule workspace_inv_later) simp_all
qed

lemma inv_save_workspace:
  assumes inv: "workspace_inv u s" and w: "w \<in> set (workspaces s)"
    and c: "w_id c = w_id w" "w_isDefault c = w_isDefault w"
      "\<And>x. x \<in> set (workspaces s) \<Longrightarrow> w_slug x = w_slug c \<Longrightarrow> w_id x = w_id w"
  shows "workspace_inv u (s\<lparr>workspaces := save_row w_id c (workspaces s)\<rparr>)"
proof -
  let ?W = "save_row w_id c (workspaces s)"
  have keys: "distinct (map w_id (workspaces s))" and slugs: "distinct (map w_slug (workspaces s))"
    using inv by (simp_all add: workspace_inv_def workspaces_ok_def drawn_ids_def)
  have ids: "map w_id ?W = map w_id (workspaces s)" by (rule save_row_map[OF keys w c(1)]) (simp add: c(1))
  have flags: "map w_isDefault ?W = map w_isDefault (workspaces s)" by (rule save_row_map[OF keys w c(1,2)])
  have "distinct (map w_slug ?W)" by (rule save_row_distinct[OF keys w c(1) slugs]) (use c(3) in auto)
  moreover have "count_rows w_isDefault ?W = count_rows w_isDefault (workspaces s)"
    by (simp add: count_rows_map flags)
  moreover have "?W = [] \<longleftrightarrow> workspaces s = []" using ids by (metis list.map_disc_iff)
  moreover have "w_id ` set ?W = w_id ` set (workspaces s)" using ids by (metis set_map)
  ultimately show ?thesis using inv ids by (auto simp: workspace_inv_def parts_ok)
qed

lemma saveWorkspaceUpdate_inv:
  assumes inv: "workspace_inv u s" and w: "w \<in> set (workspaces s)"
    and c: "w_id c = w_id w" "w_isDefault c = w_isDefault w"
      "\<And>x. x \<in> set (workspaces s) \<Longrightarrow> w_slug x = w_slug c \<Longrightarrow> w_id x = w_id w"
  shows "workspace_inv u (after (saveWorkspaceUpdate e a dto w c) s)"
proof -
  define saved where "saved = touched (\<lambda>t r. r\<lparr>w_updatedAt := t\<rparr>) (e_now e) w c"
  define J where "J = (\<lambda>s. workspace_inv u s \<and> w_id w \<in> w_id ` set (workspaces s))"
  have id: "w_id saved = w_id w" by (simp add: saved_def c(1))
  have "workspace_inv u (s\<lparr>workspaces := save_row w_id saved (workspaces s)\<rparr>)"
    using inv w c by (intro inv_save_workspace) (auto simp: saved_def)
  moreover have "w_id w \<in> w_id ` set (save_row w_id saved (workspaces s))"
    by (simp add: set_save_row id)
  ultimately have J: "J (s\<lparr>workspaces := save_row w_id saved (workspaces s)\<rparr>)" by (simp add: J_def)
  have audit: "keeps J (recordAudit e inp ctx)" for inp ctx
    using keepsD[OF keeps_inv_audit] by (auto simp: J_def keeps_def)
  have dflt: "keeps J (setDefaultWorkspace e (w_id w))"
    unfolding keeps_def J_def using inv_defaulted by (auto simp: defaulted_map simp flip: set_map)
  have rec: "keeps J (recomputeWorkspaceSchedules e i tz)" for i tz
  proof (rule keepsI)
    fix t assume "J t"
    moreover from framesD[OF recompute_frames, of e i tz t]
    have "workspaces (after (recomputeWorkspaceSchedules e i tz) t) = workspaces t"
      "memberships (after (recomputeWorkspaceSchedules e i tz) t) = memberships t"
      "teams (after (recomputeWorkspaceSchedules e i tz) t) = teams t"
      "team_memberships (after (recomputeWorkspaceSchedules e i tz) t) = team_memberships t"
      "drawn (after (recomputeWorkspaceSchedules e i tz) t) = drawn t" by simp_all
    ultimately show "J (after (recomputeWorkspaceSchedules e i tz) t)"
      unfolding J_def by (metis workspace_inv_later order_refl)
  qed
  have "after (saveWorkspaceUpdate e a dto w c) s =
    after (bindE (whenE (uw_defaultTimezone dto \<noteq> None) (recomputeWorkspaceSchedules e (w_id w) (w_defaultTimezone saved))) (\<lambda>_.
         if uw_isDefault dto = Some True then
           bindE (setDefaultWorkspace e (w_id w)) (\<lambda>_.
           bindE (findWorkspaceOrFail (w_id w)) (\<lambda>final.
           bindE (recordAudit e \<lparr>ai_scope = ''workspace'', ai_workspaceId = Some (w_id w),
                      ai_action = ''workspace.updated'', ai_targetType = ''workspace'',
                      ai_targetId = Some (w_id w), ai_targetLabel = Some (w_name saved),
                      ai_changes = Some [(''before'', workspace_summary w), (''after'', workspace_summary final)],
                      ai_metadata = None\<rparr> (user_context a)) (\<lambda>_. ret final)))
         else bindE (recordAudit e \<lparr>ai_scope = ''workspace'', ai_workspaceId = Some (w_id w),
                      ai_action = ''workspace.updated'', ai_targetType = ''workspace'',
                      ai_targetId = Some (w_id w), ai_targetLabel = Some (w_name saved),
                      ai_changes = Some [(''before'', workspace_summary w), (''after'', workspace_summary saved)],
                      ai_metadata = None\<rparr> (user_context a)) (\<lambda>_. ret saved)))
      (s\<lparr>workspaces := save_row w_id saved (workspaces s)\<rparr>)"
    unfolding saveWorkspaceUpdate_def Let_def saved_def[symmetric] id bindE_writeE ..
  moreover have "J \<dots>"
    by (rule keepsD[where I = J, OF _ J]) (unfold findWorkspaceOrFail_def, intro keeps_rules audit dflt rec)
  ultimately show ?thesis by (simp add: J_def)
qed

lemma updateWorkspace_inv:
  assumes inv: "workspace_inv u s"
  shows "workspace_inv u (after (updateWorkspace e i a dto) s)"
proof -
  have slugs: "distinct (map w_slug (workspaces s))" using inv by (simp add: workspace_inv_def workspaces_ok_def)
  have "workspace_inv u (after (saveWorkspaceUpdate e a dto w c) s)"
    if "w \<in> set (workspaces s)" "outcome (changeWorkspace e dto w) s = Inr c" for w c
    using saveWorkspaceUpdate_inv[OF inv that(1)] changeWorkspace_Inr[OF that(2,1) slugs] by blast
  then show ?thesis using inv findWorkspaceForUserOrFail_Inr[of i a s]
    unfolding updateWorkspace_def by (auto simp: after_bindE_quiet split: sum.split prod.split)
qed

lemma deleteWorkspace_inv:
  assumes inv: "workspace_inv u s"
  shows "workspace_inv u (after (deleteWorkspace e i a) s)"
proof -
  have "workspace_inv u (remove_workspace (w_id w) s)"
    if w: "w \<in> set (workspaces s)" "\<not> w_isDefault w" for w
  proof -
    note ok = inv[unfolded workspace_inv_def parts_ok]
    let ?W = "delete_rows (\<lambda>x. w_id x = w_id w) (workspaces s)"
    have keys: "distinct (map w_id (workspaces s))" using ok by (simp add: drawn_ids_def)
    have "filter w_isDefault ?W = filter w_isDefault (workspaces s)"
      using w keys unfolding delete_rows_def filter_filter
      by (intro filter_cong refl) (auto simp: distinct_map inj_on_def)
    then have count: "count_rows w_isDefault ?W = 1" using ok w by (auto simp: count_rows_def)
    then have "?W \<noteq> []" by (auto simp: count_rows_def)
    then have "workspaces_ok u (drawn s) ?W"
      using ok count by (auto simp: workspaces_ok_def drawn_ids_filter)
    moreover have "w_id ` set ?W = w_id ` set (workspaces s) - {w_id w}" by auto
    moreover have "team_members_ok u (drawn s) (delete_rows (\<lambda>m. m_workspaceId m = w_id w) (memberships s))
        (delete_rows (\<lambda>t. tm_workspaceId t = w_id w) (teams s))
        (delete_rows (\<lambda>x. tmm_teamId x \<in> tm_id ` {t \<in> set (teams s). tm_workspaceId t = w_id w}) (team_memberships s))"
      using inv by (intro team_members_ok_shrink) (auto simp: workspace_inv_def image_iff)
    ultimately show ?thesis using ok
      unfolding workspace_inv_def remove_workspace_def remove_teams_def Let_def memberships_ok_def teams_ok_def
      by (auto simp: drawn_ids_filter)
  qed
  then show ?thesis
    using inv findWorkspaceForUserOrFail_Inr[of i a s] keepsD[OF keeps_inv_audit]
    unfolding deleteWorkspace_def by (auto simp: after_bindE_quiet split: sum.split prod.split)
qed

text \<open>The parts of the invariant, and the guards of the member and team operations.\<close>

lemma inv_parts:
  assumes "workspace_inv u s"
  shows "workspaces_ok u (drawn s) (workspaces s)" "memberships_ok u (drawn s) (workspaces s) (memberships s)"
    "teams_ok u (drawn s) (workspaces s) (teams s)"
    "team_members_ok u (drawn s) (memberships s) (teams s) (team_memberships s)"
  using assms by (simp_all add: workspace_inv_def)

lemma ok_later:
  "workspaces_ok u n W \<Longrightarrow> n \<le> n' \<Longrightarrow> workspaces_ok u n' W"
  "memberships_ok u n W M \<Longrightarrow> n \<le> n' \<Longrightarrow> memberships_ok u n' W M"
  "teams_ok u n W T \<Longrightarrow> n \<le> n' \<Longrightarrow> teams_ok u n' W T"
  "team_members_ok u n M T X \<Longrightarrow> n \<le> n' \<Longrightarrow> team_members_ok u n' M T X"
  by (auto simp: parts_ok)

lemma writable_workspace: "writable s i \<Longrightarrow> i \<in> w_id ` set (workspaces s)"
  by (auto simp: writable_def split: option.splits dest: find_row_Some)

lemma inv_audit: "workspace_inv u s \<Longrightarrow> workspace_inv u (after (recordAudit e inp ctx) s)"
  by (rule keepsD[OF keeps_inv_audit])

lemma addMember_inv:
  assumes inv: "workspace_inv u s" and u: "inj u" "e_uuid e = u"
  shows "workspace_inv u (after (addMember e i a userId role) s)"
proof (cases "may_administer s a i \<and> writable s i")
  case True
  let ?m = "\<lparr>m_id = u (drawn s), m_workspaceId = i, m_userId = userId, m_role = role,
             m_createdAt = e_now e, m_updatedAt = e_now e\<rparr>"
  let ?t = "s\<lparr>drawn := Suc (drawn s), memberships := memberships s @ [?m]\<rparr>"
  note ok = inv_parts[OF inv]
  have added: "workspace_inv u ?t"
    if none: "find_row (\<lambda>m. m_workspaceId m = i \<and> m_userId m = userId) (memberships s) = None"
  proof -
    have "memberships_ok u (Suc (drawn s)) (workspaces s) (memberships s @ [?m])"
      by (rule memberships_ok_add[OF ok(2) u(1), where k = "drawn s"])
         (use none True writable_workspace in \<open>auto simp: find_row_None\<close>)
    moreover have "team_members_ok u (Suc (drawn s)) (memberships s @ [?m]) (teams s) (team_memberships s)"
      by (rule team_members_ok_grow[OF ok(4)]) auto
    ultimately show ?thesis using ok by (simp add: workspace_inv_def ok_later)
  qed
  show ?thesis
  proof (cases "find_row (\<lambda>x. u_id x = userId) (users s)")
    case None
    then show ?thesis using True inv by (simp add: addMember_def assertWorkspaceWritable_run)
  next
    case (Some x)
    then have x: "u_id x = userId" by (auto dest: find_row_Some)
    show ?thesis using True inv added Some
      by (cases "accepted_user x") (simp_all add: addMember_def findMembershipForUser_def assertWorkspaceWritable_run
          Let_def u(2) x inv_audit)
  qed
next
  case False
  then have "after (addMember e i a userId role) s = s" using addMember.changed by metis
  then show ?thesis using inv by simp
qed

lemma updateMember_inv:
  assumes inv: "workspace_inv u s"
  shows "workspace_inv u (after (updateMember e i membershipId a role) s)"
proof (cases "may_administer s a i \<and> writable s i")
  case True
  note ok = inv_parts[OF inv]
  have saved: "workspace_inv u (s\<lparr>memberships := save_row m_id m' (memberships s)\<rparr>)"
    if m: "m \<in> set (memberships s)" and m': "m_id m' = m_id m" "m_workspaceId m' = m_workspaceId m" "m_userId m' = m_userId m"
    for m m'
  proof -
    let ?M = "save_row m_id m' (memberships s)" and ?k = "\<lambda>m. (m_workspaceId m, m_userId m)"
    have keys: "distinct (map m_id (memberships s))" using ok(2) by (simp add: memberships_ok_def drawn_ids_def)
    have same: "map m_id ?M = map m_id (memberships s)" "map ?k ?M = map ?k (memberships s)"
      "map m_workspaceId ?M = map m_workspaceId (memberships s)"
      using m' by (auto intro!: save_row_map[OF keys m])
    have sets: "?k ` set ?M = ?k ` set (memberships s)" "m_workspaceId ` set ?M = m_workspaceId ` set (memberships s)"
      using arg_cong[OF same(2), of set] arg_cong[OF same(3), of set] by simp_all
    have "m_workspaceId x \<in> w_id ` set (workspaces s)" if "x \<in> set ?M" for x
    proof -
      have "m_workspaceId x \<in> m_workspaceId ` set (memberships s)" using that sets(2) by blast
      then show ?thesis using ok(2) by (auto simp: memberships_ok_def)
    qed
    then have "memberships_ok u (drawn s) (workspaces s) ?M"
      using ok(2) same unfolding memberships_ok_def by simp
    moreover have "team_members_ok u (drawn s) ?M (teams s) (team_memberships s)"
      by (rule team_members_ok_grow[OF ok(4)]) (simp_all add: sets)
    ultimately show ?thesis using ok by (simp add: workspace_inv_def)
  qed
  show ?thesis
  proof (cases "find_row (\<lambda>m. m_id m = membershipId \<and> m_workspaceId m = i) (memberships s)")
    case None
    then show ?thesis using True inv by (simp add: updateMember_def assertWorkspaceWritable_run)
  next
    case (Some m)
    then have "m \<in> set (memberships s)" by (auto dest: find_row_Some)
    then show ?thesis using True Some saved[of m "touched (\<lambda>t r. r\<lparr>m_updatedAt := t\<rparr>) (e_now e) m (m\<lparr>m_role := role\<rparr>)"]
      by (simp add: updateMember_def assertWorkspaceWritable_run Let_def inv_audit) (simp add: touched_def inv_audit)
  qed
next
  case False
  then have "after (updateMember e i membershipId a role) s = s" using updateMember.changed by metis
  then show ?thesis using inv by simp
qed

lemma removeMember_inv:
  assumes inv: "workspace_inv u s"
  shows "workspace_inv u (after (removeMember e i membershipId a) s)"
proof (cases "may_administer s a i \<and> writable s i")
  case True
  note ok = inv_parts[OF inv]
  show ?thesis
  proof (cases "find_row (\<lambda>m. m_id m = membershipId \<and> m_workspaceId m = i) (memberships s)")
    case None
    then show ?thesis using True inv by (simp add: removeMember_def assertWorkspaceWritable_run)
  next
    case (Some m)
    then have m: "m \<in> set (memberships s)" "m_workspaceId m = i" by (auto dest: find_row_Some)
    let ?gone = "\<lambda>x. m_id x = m_id m"
    let ?out = "\<lambda>x. tmm_userId x = m_userId m \<and> tmm_teamId x \<in> tm_id ` {t \<in> set (teams s). tm_workspaceId t = i}"
    have only: "x = m" if "x \<in> set (memberships s)" "m_id x = m_id m" for x
      using that m(1) ok(2) by (auto simp: memberships_ok_def drawn_ids_def distinct_map inj_on_def)
    have "team_members_ok u (drawn s) (delete_rows ?gone (memberships s)) (delete_rows (\<lambda>_. False) (teams s))
        (delete_rows ?out (team_memberships s))"
      by (rule team_members_ok_shrink[OF ok(4)]) (use m in \<open>fastforce dest: only simp: image_iff\<close>)
    moreover have "memberships_ok u (drawn s) (workspaces s) (delete_rows ?gone (memberships s))"
      using ok(2) by (auto simp: memberships_ok_def drawn_ids_filter)
    ultimately have "workspace_inv u (s\<lparr>team_memberships := delete_rows ?out (team_memberships s),
        memberships := delete_rows ?gone (memberships s)\<rparr>)"
      using ok by (simp add: workspace_inv_def delete_rows_def)
    then show ?thesis using True Some
      by (simp add: removeMember_def assertWorkspaceWritable_run Let_def inv_audit)
  qed
next
  case False
  then have "after (removeMember e i membershipId a) s = s" using removeMember.changed by metis
  then show ?thesis using inv by simp
qed

lemma createTeam_inv:
  assumes inv: "workspace_inv u s" and u: "inj u" "e_uuid e = u"
  shows "workspace_inv u (after (createTeam e i a name description) s)"
proof (cases "may_administer s a i \<and> writable s i")
  case True
  note ok = inv_parts[OF inv]
  let ?t = "\<lparr>tm_id = u (drawn s), tm_workspaceId = i, tm_name = trim name,
              tm_description = trim_or_null description, tm_createdAt = e_now e, tm_updatedAt = e_now e\<rparr>"
  have added: "workspace_inv u (s\<lparr>drawn := Suc (drawn s), teams := teams s @ [?t]\<rparr>)"
    if none: "find_row (\<lambda>x. tm_workspaceId x = i \<and> tm_name x = trim name \<and> Some (tm_id x) \<noteq> None) (teams s) = None"
  proof -
    have "teams_ok u (Suc (drawn s)) (workspaces s) (teams s @ [?t])"
      by (rule teams_ok_add[OF ok(3) u(1), where k = "drawn s"])
         (use none True writable_workspace in \<open>auto simp: find_row_None\<close>)
    moreover have "team_members_ok u (Suc (drawn s)) (memberships s) (teams s @ [?t]) (team_memberships s)"
      by (rule team_members_ok_grow[OF ok(4)]) auto
    ultimately show ?thesis using ok by (simp add: workspace_inv_def ok_later)
  qed
  show ?thesis
    using True inv added
    by (cases "find_row (\<lambda>x. tm_workspaceId x = i \<and> tm_name x = trim name \<and> Some (tm_id x) \<noteq> None) (teams s)")
       (simp_all add: createTeam_def assertTeamNameFree_def assertWorkspaceWritable_run Let_def u(2) inv_audit)
next
  case False
  then have "after (createTeam e i a name description) s = s" using createTeam.changed by metis
  then show ?thesis using inv by simp
qed

lemma updateTeam_inv:
  assumes inv: "workspace_inv u s"
  shows "workspace_inv u (after (updateTeam e i teamId a name description) s)"
proof (cases "may_administer s a i \<and> writable s i")
  case True
  note ok = inv_parts[OF inv]
  have saved: "workspace_inv u (s\<lparr>teams := save_row tm_id t' (teams s)\<rparr>)"
    if t: "t \<in> set (teams s)" "tm_workspaceId t = i" and t': "tm_id t' = tm_id t" "tm_workspaceId t' = i"
      and free: "find_row (\<lambda>x. tm_workspaceId x = i \<and> tm_name x = tm_name t' \<and> Some (tm_id x) \<noteq> Some (tm_id t')) (teams s) = None"
    for t t'
  proof -
    let ?T = "save_row tm_id t' (teams s)" and ?k = "\<lambda>t. (tm_id t, tm_workspaceId t)"
    have keys: "distinct (map tm_id (teams s))" and names: "distinct (map (\<lambda>t. (tm_workspaceId t, tm_name t)) (teams s))"
      using ok(3) by (simp_all add: teams_ok_def drawn_ids_def)
    have same: "map tm_id ?T = map tm_id (teams s)" "map ?k ?T = map ?k (teams s)"
      "map tm_workspaceId ?T = map tm_workspaceId (teams s)"
      using t t' by (auto intro!: save_row_map[OF keys t(1)])
    have sets: "?k ` set ?T = ?k ` set (teams s)" "tm_workspaceId ` set ?T = tm_workspaceId ` set (teams s)"
      using arg_cong[OF same(2), of set] arg_cong[OF same(3), of set] by simp_all
    have "tm_workspaceId x \<in> w_id ` set (workspaces s)" if "x \<in> set ?T" for x
    proof -
      have "tm_workspaceId x \<in> tm_workspaceId ` set (teams s)" using that sets(2) by blast
      then show ?thesis using ok(3) by (auto simp: teams_ok_def)
    qed
    moreover have "distinct (map (\<lambda>t. (tm_workspaceId t, tm_name t)) ?T)"
      using free t' by (intro save_row_distinct[OF keys t(1) t'(1) names]) (auto simp: find_row_None)
    ultimately have "teams_ok u (drawn s) (workspaces s) ?T"
      using ok(3) same unfolding teams_ok_def by simp
    moreover have "team_members_ok u (drawn s) (memberships s) ?T (team_memberships s)"
      by (rule team_members_ok_grow[OF ok(4)]) (simp_all add: sets)
    ultimately show ?thesis using ok by (simp add: workspace_inv_def)
  qed
  show ?thesis
  proof (cases "find_row (\<lambda>t. tm_id t = teamId \<and> tm_workspaceId t = i) (teams s)")
    case None
    then show ?thesis using True inv by (simp add: updateTeam_def findTeamOrFail_def assertWorkspaceWritable_run)
  next
    case (Some t)
    then have t: "t \<in> set (teams s)" "tm_workspaceId t = i" by (auto dest: find_row_Some)
    define t' where "t' = touched (\<lambda>d r. r\<lparr>tm_updatedAt := d\<rparr>) (e_now e) t
      (t\<lparr>tm_name := (case name of None \<Rightarrow> tm_name t | Some n \<Rightarrow> trim n),
         tm_description := (case description of None \<Rightarrow> tm_description t | Some d \<Rightarrow> trim_or_null d)\<rparr>)"
    have t': "tm_id t' = tm_id t" "tm_workspaceId t' = i" using t by (simp_all add: t'_def touched_def)
    show ?thesis
    proof (cases "find_row (\<lambda>x. tm_workspaceId x = i \<and> tm_name x = tm_name t' \<and> Some (tm_id x) \<noteq> Some (tm_id t')) (teams s)")
      case None
      then show ?thesis using True Some saved[OF t t' None]
        by (simp add: updateTeam_def findTeamOrFail_def assertWorkspaceWritable_run assertTeamNameFree_def Let_def
            t'_def[symmetric] inv_audit)
    next
      case (Some y)
      then show ?thesis using True inv \<open>find_row (\<lambda>t. tm_id t = teamId \<and> tm_workspaceId t = i) (teams s) = Some t\<close>
        by (simp add: updateTeam_def findTeamOrFail_def assertWorkspaceWritable_run assertTeamNameFree_def Let_def
            t'_def[symmetric])
    qed
  qed
next
  case False
  then have "after (updateTeam e i teamId a name description) s = s" using updateTeam.changed by metis
  then show ?thesis using inv by simp
qed

lemma deleteTeam_inv:
  assumes inv: "workspace_inv u s"
  shows "workspace_inv u (after (deleteTeam e i teamId a) s)"
proof (cases "may_administer s a i \<and> writable s i")
  case True
  note ok = inv_parts[OF inv]
  have removed: "workspace_inv u (remove_teams (\<lambda>x. tm_id x = k) s)" for k
  proof -
    have "team_members_ok u (drawn s) (delete_rows (\<lambda>_. False) (memberships s)) (delete_rows (\<lambda>x. tm_id x = k) (teams s))
        (delete_rows (\<lambda>x. tmm_teamId x \<in> tm_id ` {t \<in> set (teams s). tm_id t = k}) (team_memberships s))"
      by (rule team_members_ok_shrink[OF ok(4)]) (auto simp: image_iff)
    moreover have "teams_ok u (drawn s) (workspaces s) (delete_rows (\<lambda>x. tm_id x = k) (teams s))"
      using ok(3) by (auto simp: teams_ok_def drawn_ids_filter)
    ultimately show ?thesis using ok by (simp add: workspace_inv_def remove_teams_def delete_rows_def Let_def)
  qed
  show ?thesis using True inv removed
    by (cases "find_row (\<lambda>t. tm_id t = teamId \<and> tm_workspaceId t = i) (teams s)")
       (simp_all add: deleteTeam_def findTeamOrFail_def assertWorkspaceWritable_run inv_audit)
next
  case False
  then have "after (deleteTeam e i teamId a) s = s" using deleteTeam.changed by metis
  then show ?thesis using inv by simp
qed

lemma addTeamMember_inv:
  assumes inv: "workspace_inv u s" and u: "inj u" "e_uuid e = u"
  shows "workspace_inv u (after (addTeamMember e i teamId a userId) s)"
proof (cases "may_administer s a i \<and> writable s i")
  case True
  note ok = inv_parts[OF inv]
  let ?x = "\<lparr>tmm_id = u (drawn s), tmm_teamId = teamId, tmm_userId = userId, tmm_createdAt = e_now e\<rparr>"
  let ?t = "find_row (\<lambda>t. tm_id t = teamId \<and> tm_workspaceId t = i) (teams s)"
  let ?m = "find_row (\<lambda>m. m_workspaceId m = i \<and> m_userId m = userId) (memberships s)"
  let ?d = "find_row (\<lambda>x. tmm_teamId x = teamId \<and> tmm_userId x = userId) (team_memberships s)"
  have added: "workspace_inv u (s\<lparr>drawn := Suc (drawn s), team_memberships := team_memberships s @ [?x]\<rparr>)"
    if "?t = Some t" "?m = Some m" "?d = None" for t m
  proof -
    have "drawn_ids u (Suc (drawn s)) (map tmm_id (team_memberships s) @ [u (drawn s)])"
      using drawn_ids_fresh(2)[OF _ u(1), of "drawn s" "map tmm_id (team_memberships s)" "drawn s"] ok(4)
      by (simp add: team_members_ok_def)
    moreover have "(teamId, userId) \<notin> (\<lambda>x. (tmm_teamId x, tmm_userId x)) ` set (team_memberships s)"
      using that(3) by (auto simp: find_row_None)
    moreover have "t \<in> set (teams s) \<and> tm_id t = teamId \<and> tm_workspaceId t = i"
      "m \<in> set (memberships s) \<and> m_workspaceId m = i \<and> m_userId m = userId"
      using that(1,2) by (auto dest: find_row_Some)
    ultimately have "team_members_ok u (Suc (drawn s)) (memberships s) (teams s) (team_memberships s @ [?x])"
      using ok(4) unfolding team_members_ok_def by auto
    then show ?thesis using ok by (simp add: workspace_inv_def ok_later)
  qed
  show ?thesis
    using True inv added
    by (cases ?t; cases ?m; cases ?d; cases "find_row (\<lambda>x. u_id x = userId) (users s)")
       (simp_all add: addTeamMember_def findTeamOrFail_def findMembershipForUser_def assertWorkspaceWritable_run Let_def
          u(2) inv_audit)
next
  case False
  then have "after (addTeamMember e i teamId a userId) s = s" using addTeamMember.changed by metis
  then show ?thesis using inv by simp
qed

lemma removeTeamMember_inv:
  assumes inv: "workspace_inv u s"
  shows "workspace_inv u (after (removeTeamMember e i teamId userId a) s)"
proof (cases "may_administer s a i \<and> writable s i")
  case True
  note ok = inv_parts[OF inv]
  have removed: "workspace_inv u (s\<lparr>team_memberships := delete_rows p (team_memberships s)\<rparr>)" for p
  proof -
    have "team_members_ok u (drawn s) (delete_rows (\<lambda>_. False) (memberships s)) (delete_rows (\<lambda>_. False) (teams s))
        (delete_rows p (team_memberships s))"
      by (rule team_members_ok_shrink[OF ok(4)]) simp
    then show ?thesis using ok by (simp add: workspace_inv_def delete_rows_def)
  qed
  show ?thesis using True inv removed
    by (cases "find_row (\<lambda>t. tm_id t = teamId \<and> tm_workspaceId t = i) (teams s)";
        cases "find_row (\<lambda>x. tmm_teamId x = teamId \<and> tmm_userId x = userId) (team_memberships s)")
       (simp_all add: removeTeamMember_def findTeamOrFail_def assertWorkspaceWritable_run inv_audit)
next
  case False
  then have "after (removeTeamMember e i teamId userId a) s = s" using removeTeamMember.changed by metis
  then show ?thesis using inv by simp
qed

lemma deleteWorkspace_Inr:
  assumes run: "deleteWorkspace e i a s = (Inr r, s')"
  shows "\<exists>w \<in> set (workspaces s). w_id w = i \<and> \<not> w_isDefault w \<and> \<not> w_isArchived w \<and>
    core s' = core (remove_workspace i s) \<and> events s' = events (remove_workspace i s)"
proof (cases "find_row (\<lambda>w. w_id w = i) (workspaces s)")
  case None
  then show ?thesis using run by (simp add: deleteWorkspace_def findWorkspaceForUserOrFail_def)
next
  case (Some w)
  then have w: "w \<in> set (workspaces s)" "w_id w = i" by (auto dest: find_row_Some)
  show ?thesis using run Some w framesD[OF recordAudit_frames]
    by (auto simp: deleteWorkspace_def findWorkspaceForUserOrFail_def findMembershipForUser_def
        assertWorkspaceWritable_def split: if_splits option.splits)
qed

subsection \<open>Reachable states\<close>

inductive workspace_step :: "(nat \<Rightarrow> string) \<Rightarrow> db \<Rightarrow> db \<Rightarrow> bool" for u where
  create: "e_uuid e = u \<Longrightarrow> workspace_step u s (after (createWorkspace e a dto) s)"
| update: "workspace_step u s (after (updateWorkspace e i a udto) s)"
| delete: "workspace_step u s (after (deleteWorkspace e i a) s)"
| add_member: "e_uuid e = u \<Longrightarrow> workspace_step u s (after (addMember e i a userId role) s)"
| update_member: "workspace_step u s (after (updateMember e i membershipId a role) s)"
| remove_member: "workspace_step u s (after (removeMember e i membershipId a) s)"
| create_team: "e_uuid e = u \<Longrightarrow> workspace_step u s (after (createTeam e i a name description) s)"
| update_team: "workspace_step u s (after (updateTeam e i teamId a uname udescription) s)"
| delete_team: "workspace_step u s (after (deleteTeam e i teamId a) s)"
| add_team_member: "e_uuid e = u \<Longrightarrow> workspace_step u s (after (addTeamMember e i teamId a userId) s)"
| remove_team_member: "workspace_step u s (after (removeTeamMember e i teamId userId a) s)"

definition no_workspaces :: "db \<Rightarrow> bool" where
  "no_workspaces s \<longleftrightarrow> workspaces s = [] \<and> memberships s = [] \<and> teams s = [] \<and> team_memberships s = []"

interpretation workspace_system:
  transition_system no_workspaces "\<lambda>s t. inj u \<and> workspace_step u s t" "workspace_inv u" for u
proof
  show "no_workspaces s \<Longrightarrow> workspace_inv u s" for s
    by (simp add: no_workspaces_def workspace_inv_def parts_ok drawn_ids_def count_rows_def)
next
  fix s t assume "inj u \<and> workspace_step u s t" and inv: "workspace_inv u s"
  then show "workspace_inv u t"
    by (auto elim!: workspace_step.cases intro: createWorkspace_inv updateWorkspace_inv deleteWorkspace_inv
        addMember_inv updateMember_inv removeMember_inv createTeam_inv updateTeam_inv deleteTeam_inv
        addTeamMember_inv removeTeamMember_inv)
qed

lemma count_one: "count_rows p rows = 1 \<Longrightarrow> \<exists>r \<in> set rows. p r \<and> filter p rows = [r]"
proof -
  assume "count_rows p rows = 1"
  then obtain r where r: "filter p rows = [r]" by (auto simp: count_rows_def length_Suc_conv)
  then have "r \<in> set (filter p rows)" by simp
  then have "r \<in> set rows \<and> p r" unfolding set_filter by simp
  then show ?thesis using r by blast
qed

section \<open>Properties\<close>

definition sample_admin :: actor where
  "sample_admin = \<lparr>a_id = ''root'', a_email = ''root@example.com'', a_role = PLATFORM_ADMIN\<rparr>"

definition sample_dto :: create_workspace_dto where
  "sample_dto = \<lparr>cw_name = ''Ops'', cw_slug = ''ops'', cw_defaultTimezone = None, cw_isArchived = None,
     cw_isDefault = None, cw_automationEmailEnabled = None, cw_automationTelegramEnabled = None,
     cw_automationTelegramBotToken = None, cw_automationTelegramChatId = None,
     cw_automationEmailLevels = None, cw_automationTelegramLevels = None\<rparr>"

lemma sample_slug: "normalizeSlug ''ops'' = Inr ''ops''"
  by (simp add: normalizeSlug_def trim_def is_ws_def toLowerCase_def char_lower_def)

lemma sample_created:
  "\<exists>w. workspaces (after (createWorkspace base_env sample_admin sample_dto) empty_db) = [w] \<and> w_isDefault w"
proof -
  have run: "requestedTimezone base_env None = Inr DEFAULT_TIMEZONE" by (simp add: requestedTimezone_def)
  show ?thesis
    by (simp add: createWorkspace_def assertPlatformAdmin_def sample_admin_def sample_dto_def sample_slug run
        hasDefaultWorkspace_def empty_db_def find_row_def Let_def findWorkspaceOrFail_def defaulted_def
        update_rows_def)
qed

lemma sample_reached:
  "(\<lambda>s t. inj show_nat \<and> workspace_step show_nat s t)\<^sup>*\<^sup>* empty_db
     (after (createWorkspace base_env sample_admin sample_dto) empty_db)"
  using inj_show_nat workspace_step.create[of base_env show_nat empty_db sample_admin sample_dto]
  by (auto simp: base_env_def)

text \<open>C8: Whatever operators do, in whatever order, as soon as there is a workspace exactly one is the
  default one, it is the one \<open>getDefaultWorkspaceOrFail\<close> returns, and no two workspaces share a
  slug.\<close>

theorem one_default_workspace:
  assumes "no_workspaces s0" "(\<lambda>s t. inj u \<and> workspace_step u s t)\<^sup>*\<^sup>* s0 s" "workspaces s \<noteq> []"
  shows "\<exists>w \<in> set (workspaces s). w_isDefault w \<and> (\<forall>x \<in> set (workspaces s). w_isDefault x \<longrightarrow> x = w) \<and>
     getDefaultWorkspaceOrFail s = (Inr w, s) \<and> distinct (map w_slug (workspaces s))"
proof -
  have "workspace_inv u s" using workspace_system.run_invar[OF assms(2)] workspace_system.initial_invar[OF assms(1)] by blast
  then have ok: "count_rows w_isDefault (workspaces s) = 1" "distinct (map w_slug (workspaces s))"
    using assms(3) by (simp_all add: workspace_inv_def workspaces_ok_def)
  obtain w where w: "w \<in> set (workspaces s)" "w_isDefault w" "filter w_isDefault (workspaces s) = [w]"
    using count_one[OF ok(1)] by blast
  have only: "x = w" if "x \<in> set (workspaces s)" "w_isDefault x" for x
  proof -
    have "x \<in> set (filter w_isDefault (workspaces s))" using that by simp
    then show ?thesis unfolding w(3) by simp
  qed
  define C where "C = filter (\<lambda>w. w_isDefault w \<or> w_slug w = ''default'') (workspaces s)"
  obtain x xs where x: "order_limit (\<lambda>w. (\<not> w_isDefault w, w_createdAt w)) 1 C = x # xs"
    using order_limit_Nil[of 1 _ C] w(1,2) by (cases "order_limit (\<lambda>w. (\<not> w_isDefault w, w_createdAt w)) 1 C")
      (auto simp: C_def filter_empty_conv)
  have "w \<in> set C" using w(1,2) by (simp add: C_def)
  then have "x \<in> set C" "(\<not> w_isDefault x, w_createdAt x) \<le> (\<not> w_isDefault w, w_createdAt w)"
    using order_limit_head[OF x[unfolded One_nat_def]] by blast+
  then have "x = w" using w(2) only[of x] by (auto simp: less_eq_prod_def C_def)
  then have "getDefaultWorkspaceOrFail s = (Inr w, s)"
    using x by (simp add: getDefaultWorkspaceOrFail_def C_def)
  then show ?thesis using w only ok(2) by blast
qed

theorem one_default_workspace_witness:
  "\<exists>w. getDefaultWorkspaceOrFail (after (createWorkspace base_env sample_admin sample_dto) empty_db) =
      (Inr w, after (createWorkspace base_env sample_admin sample_dto) empty_db)"
proof -
  have "no_workspaces empty_db" by (simp add: no_workspaces_def empty_db_def)
  moreover have "workspaces (after (createWorkspace base_env sample_admin sample_dto) empty_db) \<noteq> []"
    using sample_created by auto
  ultimately show ?thesis using one_default_workspace[OF _ sample_reached] by blast
qed

text \<open>C9: In every reachable state a member of a team is a member of the team's workspace, no user is
  twice in a workspace or in a team, and every team and membership belongs to a workspace.\<close>

theorem team_members_are_members:
  assumes "no_workspaces s0" "(\<lambda>s t. inj u \<and> workspace_step u s t)\<^sup>*\<^sup>* s0 s"
  shows "(\<forall>x \<in> set (team_memberships s). \<exists>t \<in> set (teams s). tm_id t = tmm_teamId x \<and>
            (\<exists>m \<in> set (memberships s). m_workspaceId m = tm_workspaceId t \<and> m_userId m = tmm_userId x)) \<and>
         distinct (map (\<lambda>m. (m_workspaceId m, m_userId m)) (memberships s)) \<and>
         distinct (map (\<lambda>x. (tmm_teamId x, tmm_userId x)) (team_memberships s)) \<and>
         (\<forall>t \<in> set (teams s). tm_workspaceId t \<in> w_id ` set (workspaces s)) \<and>
         (\<forall>m \<in> set (memberships s). m_workspaceId m \<in> w_id ` set (workspaces s))"
proof -
  have "workspace_inv u s" using workspace_system.run_invar[OF assms(2)] workspace_system.initial_invar[OF assms(1)] by blast
  then show ?thesis unfolding workspace_inv_def parts_ok by blast
qed

theorem team_members_are_members_witness:
  "distinct (map (\<lambda>m. (m_workspaceId m, m_userId m)) (memberships (after (createWorkspace base_env sample_admin sample_dto) empty_db)))"
proof -
  have "no_workspaces empty_db" by (simp add: no_workspaces_def empty_db_def)
  then show ?thesis using team_members_are_members[OF _ sample_reached] by blast
qed

text \<open>Someone who is neither a platform administrator nor an owner or administrator of the workspace
  gets \<open>Forbidden\<close> from every member and team operation, and nothing changes.\<close>

theorem mutations_need_admin:
  assumes "\<not> may_administer s a i"
  shows "let no = (Forbidden ''Workspace owner or admin access is required.'', s) in
    addMember e i a userId role s = (Inl (fst no), snd no) \<and>
    updateMember e i membershipId a role s = (Inl (fst no), snd no) \<and>
    removeMember e i membershipId a s = (Inl (fst no), snd no) \<and>
    createTeam e i a name description s = (Inl (fst no), snd no) \<and>
    updateTeam e i teamId a uname udescription s = (Inl (fst no), snd no) \<and>
    deleteTeam e i teamId a s = (Inl (fst no), snd no) \<and>
    addTeamMember e i teamId a userId s = (Inl (fst no), snd no) \<and>
    removeTeamMember e i teamId userId a s = (Inl (fst no), snd no)"
  by (simp add: Let_def addMember.denied[OF assms] updateMember.denied[OF assms] removeMember.denied[OF assms]
      createTeam.denied[OF assms] updateTeam.denied[OF assms] deleteTeam.denied[OF assms]
      addTeamMember.denied[OF assms] removeTeamMember.denied[OF assms])

theorem mutations_need_admin_witness:
  "outcome (createTeam base_env ''w'' (sample_admin\<lparr>a_role := USER\<rparr>) ''SRE'' None) empty_db =
     Inl (Forbidden ''Workspace owner or admin access is required.'')"
proof -
  have "\<not> may_administer empty_db (sample_admin\<lparr>a_role := USER\<rparr>) ''w''"
    by (simp add: may_administer_def empty_db_def find_row_def)
  from mutations_need_admin[OF this, where e = base_env and name = "''SRE''" and description = None]
  show ?thesis by (simp add: Let_def)
qed

text \<open>C10: An archived workspace is read-only: every member and team operation, its deletion, and every
  settings change other than restoring it throw and leave the whole state as it was.\<close>

theorem archived_read_only:
  assumes "find_row (\<lambda>w. w_id w = i) (workspaces s) = Some w" "w_isArchived w"
    and "\<not> isUnarchiveOnlyRequest dto"
  shows "(\<exists>x. updateWorkspace e i a dto s = (Inl x, s)) \<and> (\<exists>x. deleteWorkspace e i a s = (Inl x, s)) \<and>
    (\<exists>x. addMember e i a userId role s = (Inl x, s)) \<and> (\<exists>x. updateMember e i membershipId a role s = (Inl x, s)) \<and>
    (\<exists>x. removeMember e i membershipId a s = (Inl x, s)) \<and> (\<exists>x. createTeam e i a name description s = (Inl x, s)) \<and>
    (\<exists>x. updateTeam e i teamId a uname udescription s = (Inl x, s)) \<and> (\<exists>x. deleteTeam e i teamId a s = (Inl x, s)) \<and>
    (\<exists>x. addTeamMember e i teamId a userId s = (Inl x, s)) \<and> (\<exists>x. removeTeamMember e i teamId userId a s = (Inl x, s))"
proof -
  have ro: "\<not> writable s i" using assms(1,2) by (simp add: writable_def)
  have upd: "\<exists>x. updateWorkspace e i a dto s = (Inl x, s)"
    using assms by (auto simp: updateWorkspace_def findWorkspaceForUserOrFail_def findMembershipForUser_def
        checkWorkspaceUpdate_def split: option.split)
  have del: "\<exists>x. deleteWorkspace e i a s = (Inl x, s)"
    using assms by (auto simp: deleteWorkspace_def findWorkspaceForUserOrFail_def findMembershipForUser_def
        assertWorkspaceWritable_def split: option.split)
  show ?thesis
    by (intro conjI upd del addMember.read_only[OF ro] updateMember.read_only[OF ro] removeMember.read_only[OF ro]
        createTeam.read_only[OF ro] updateTeam.read_only[OF ro] deleteTeam.read_only[OF ro]
        addTeamMember.read_only[OF ro] removeTeamMember.read_only[OF ro])
qed

definition sample_workspace :: workspace where
  "sample_workspace = (new_workspace base_env sample_admin sample_dto ''ops'' ''UTC'' ''w'')"

theorem archived_read_only_witness:
  "\<exists>x. addMember base_env ''w'' sample_admin ''bob'' MEMBER
        (empty_db\<lparr>workspaces := [sample_workspace\<lparr>w_isArchived := True\<rparr>]\<rparr>) =
      (Inl x, empty_db\<lparr>workspaces := [sample_workspace\<lparr>w_isArchived := True\<rparr>]\<rparr>)"
proof -
  let ?s = "empty_db\<lparr>workspaces := [sample_workspace\<lparr>w_isArchived := True\<rparr>]\<rparr>"
  let ?dto = "\<lparr>uw_name = Some ''New'', uw_slug = None, uw_defaultTimezone = None, uw_isArchived = None,
      uw_isDefault = None, uw_automationEmailEnabled = None, uw_automationTelegramEnabled = None,
      uw_automationTelegramBotToken = None, uw_automationTelegramChatId = None,
      uw_automationEmailLevels = None, uw_automationTelegramLevels = None\<rparr>"
  have "find_row (\<lambda>w. w_id w = ''w'') (workspaces ?s) = Some (sample_workspace\<lparr>w_isArchived := True\<rparr>)"
    by (simp add: find_row_def sample_workspace_def)
  moreover have "w_isArchived (sample_workspace\<lparr>w_isArchived := True\<rparr>)" by simp
  moreover have "\<not> isUnarchiveOnlyRequest ?dto" by (simp add: isUnarchiveOnlyRequest_def)
  ultimately show ?thesis
    using archived_read_only[of "''w''" ?s _ ?dto base_env sample_admin "''bob''" MEMBER] by blast
qed

text \<open>Removing a member removes the user from every team of that workspace in the same step; no
  other membership and no team membership of another user or workspace is touched.\<close>

theorem removeMember_leaves_teams:
  assumes inv: "workspace_inv u s" and run: "removeMember e i membershipId a s = (Inr r, s')"
  shows "\<exists>m \<in> set (memberships s). m_id m = membershipId \<and> m_workspaceId m = i \<and>
    set (memberships s') = set (memberships s) - {m} \<and>
    (\<forall>x. x \<in> set (team_memberships s') \<longleftrightarrow> x \<in> set (team_memberships s) \<and>
       \<not> (tmm_userId x = m_userId m \<and> (\<exists>t \<in> set (teams s). tm_workspaceId t = i \<and> tm_id t = tmm_teamId x)))"
proof -
  have guard: "may_administer s a i" "writable s i"
    using removeMember.changed[of e i membershipId a s r] run by auto
  show ?thesis
  proof (cases "find_row (\<lambda>m. m_id m = membershipId \<and> m_workspaceId m = i) (memberships s)")
    case None
    then show ?thesis using run guard by (simp add: removeMember_def assertWorkspaceWritable_run)
  next
    case (Some m)
    then have m: "m \<in> set (memberships s)" "m_id m = membershipId" "m_workspaceId m = i"
      by (auto dest: find_row_Some)
    let ?ids = "tm_id ` {t \<in> set (teams s). tm_workspaceId t = i}"
    have s': "memberships s' = delete_rows (\<lambda>x. m_id x = m_id m) (memberships s)"
      "team_memberships s' = delete_rows (\<lambda>x. tmm_userId x = m_userId m \<and> tmm_teamId x \<in> ?ids) (team_memberships s)"
      using run guard Some by (auto simp: removeMember_def assertWorkspaceWritable_run Let_def)
    have "m_id x = m_id m \<longleftrightarrow> x = m" if "x \<in> set (memberships s)" for x
      using that m(1) inv_parts(2)[OF inv] by (auto simp: memberships_ok_def drawn_ids_def distinct_map inj_on_def)
    then have "set (memberships s') = set (memberships s) - {m}" by (auto simp: s')
    moreover have "\<forall>x. x \<in> set (team_memberships s') \<longleftrightarrow> x \<in> set (team_memberships s) \<and>
       \<not> (tmm_userId x = m_userId m \<and> (\<exists>t \<in> set (teams s). tm_workspaceId t = i \<and> tm_id t = tmm_teamId x))"
      by (auto simp: s' image_iff)
    ultimately show ?thesis using m by blast
  qed
qed

definition member_db :: db where
  "member_db = empty_db\<lparr>workspaces := [sample_workspace\<lparr>w_id := ''0'', w_isDefault := True\<rparr>],
     memberships := [\<lparr>m_id = ''1'', m_workspaceId = ''0'', m_userId = ''bob'', m_role = MEMBER, m_createdAt = 0, m_updatedAt = 0\<rparr>],
     teams := [\<lparr>tm_id = ''2'', tm_workspaceId = ''0'', tm_name = ''SRE'', tm_description = None, tm_createdAt = 0, tm_updatedAt = 0\<rparr>],
     team_memberships := [\<lparr>tmm_id = ''3'', tmm_teamId = ''2'', tmm_userId = ''bob'', tmm_createdAt = 0\<rparr>], drawn := 4\<rparr>"

lemma member_db_inv: "workspace_inv show_nat member_db"
proof -
  have n: "show_nat 0 = ''0''" "show_nat 1 = ''1''" "show_nat 2 = ''2''" "show_nat 3 = ''3''"
    by code_simp+
  have "\<exists>k < 4. ''0'' = show_nat k" by (rule exI[of _ 0]) (simp add: n)
  moreover have "\<exists>k < 4. ''1'' = show_nat k" by (rule exI[of _ 1]) (simp only: n, simp)
  moreover have "\<exists>k < 4. ''2'' = show_nat k" by (rule exI[of _ 2]) (simp add: n)
  moreover have "\<exists>k < 4. ''3'' = show_nat k" by (rule exI[of _ 3]) (simp add: n)
  ultimately show ?thesis
    by (simp add: member_db_def workspace_inv_def parts_ok drawn_ids_def count_rows_def)
qed

theorem removeMember_leaves_teams_witness:
  "\<exists>r s'. removeMember base_env ''0'' ''1'' sample_admin member_db = (Inr r, s') \<and> team_memberships s' = []"
proof -
  have "writable member_db ''0''" "may_administer member_db sample_admin ''0''"
    by (simp_all add: writable_def may_administer_def member_db_def find_row_def sample_admin_def sample_workspace_def new_workspace_def orElse_def sample_dto_def)
  moreover have "\<exists>m. find_row (\<lambda>m. m_id m = ''1'' \<and> m_workspaceId m = ''0'') (memberships member_db) = Some m"
    by (simp add: member_db_def find_row_def)
  ultimately have "\<exists>r s'. removeMember base_env ''0'' ''1'' sample_admin member_db = (Inr r, s')"
    by (auto simp: removeMember_def assertWorkspaceWritable_run Let_def)
  then obtain r s' where run: "removeMember base_env ''0'' ''1'' sample_admin member_db = (Inr r, s')" by blast
  from removeMember_leaves_teams[OF member_db_inv this] obtain m where m: "m \<in> set (memberships member_db)"
    and rest: "\<forall>x. x \<in> set (team_memberships s') \<longleftrightarrow> x \<in> set (team_memberships member_db) \<and>
       \<not> (tmm_userId x = m_userId m \<and> (\<exists>t \<in> set (teams member_db). tm_workspaceId t = ''0'' \<and> tm_id t = tmm_teamId x))"
    by blast
  have "m_userId m = ''bob''" using m by (simp add: member_db_def)
  then have "x \<notin> set (team_memberships s')" for x
    using spec[OF rest, of x] by (auto simp: member_db_def)
  then have "set (team_memberships s') = {}" by (meson equals0I)
  then show ?thesis using run by auto
qed



text \<open>Creation skips two rules that updates enforce. The first workspace, created as archived, becomes
  the archived default workspace (an update refuses to make an archived workspace the default),
  and a name of blanks is stored as the empty name (an update asks for two characters after
  trimming).\<close>

theorem creation_skips_update_rules:
  "\<exists>w. workspaces (after (createWorkspace base_env sample_admin
            (sample_dto\<lparr>cw_isArchived := Some True, cw_name := ''  ''\<rparr>)) empty_db) = [w] \<and>
       w_isDefault w \<and> w_isArchived w \<and> w_name w = []"
proof -
  have run: "requestedTimezone base_env None = Inr DEFAULT_TIMEZONE" by (simp add: requestedTimezone_def)
  have blank: "trim ''  '' = []" by (simp add: trim_def is_ws_def)
  show ?thesis
    by (simp add: createWorkspace_def assertPlatformAdmin_def sample_admin_def sample_dto_def sample_slug run blank
        hasDefaultWorkspace_def empty_db_def find_row_def Let_def findWorkspaceOrFail_def defaulted_def
        update_rows_def new_workspace_def orElse_def)
qed

end
