(* ===== verification/NodeLocation.thy ===== *)
theory NodeLocation
  imports Store
begin

text \<open>
  Where a node is (\<open>src/modules/nodes/node-location.util.ts\<close>): the location an agent reports is
  normalised and completed with the centre coordinates of its cloud region, or dropped. The
  lemmas show that every location that gets stored is well formed.

  Coordinates are exact rationals; a JavaScript number is finite or \<open>None\<close> (\<open>NaN\<close>, \<open>Infinity\<close>).
\<close>

section \<open>Numbers in text\<close>

text \<open>\<open>Number(s)\<close> of a string, \<open>None\<close> when it is not a finite number.\<close>

definition is_digit :: "char \<Rightarrow> bool" where
  "is_digit c \<longleftrightarrow> 48 \<le> (of_char c :: nat) \<and> (of_char c :: nat) \<le> 57"

definition digit_value :: "char \<Rightarrow> nat" where
  "digit_value c =
     (let n = of_char (char_lower c) :: nat in if is_digit c then n - 48 else if 97 \<le> n then n - 87 else 99)"

definition digits_value :: "nat \<Rightarrow> string \<Rightarrow> nat" where
  "digits_value base ds = foldl (\<lambda>acc c. acc * base + digit_value c) 0 ds"

definition in_base :: "nat \<Rightarrow> string \<Rightarrow> rat option" where
  "in_base base ds =
     (if ds \<noteq> [] \<and> (\<forall>c \<in> set ds. digit_value c < base) then Some (of_nat (digits_value base ds)) else None)"

fun signed :: "string \<Rightarrow> rat \<times> string" where
  "signed (c # cs) = (if c = CHR ''-'' then (-1, cs) else if c = CHR ''+'' then (1, cs) else (1, c # cs))"
| "signed [] = (1, [])"

definition exponent :: "string \<Rightarrow> rat option" where
  "exponent xs =
     (let (sg, ds) = signed xs
      in if ds \<noteq> [] \<and> list_all is_digit ds
         then Some (if sg = 1 then 10 ^ digits_value 10 ds else 1 / 10 ^ digits_value 10 ds) else None)"

definition decimal :: "string \<Rightarrow> rat option" where
  "decimal xs =
     (let (sg, xs) = signed xs;
          ip = takeWhile is_digit xs; r1 = dropWhile is_digit xs;
          (fp, r2) = (case r1 of [] \<Rightarrow> ([], [])
                      | c # cs \<Rightarrow> if c = CHR ''.'' then (takeWhile is_digit cs, dropWhile is_digit cs) else ([], r1));
          mantissa = sg * of_nat (digits_value 10 (ip @ fp)) / 10 ^ length fp
      in if ip = [] \<and> fp = [] then None
         else case r2 of [] \<Rightarrow> Some mantissa
              | c # cs \<Rightarrow> if char_lower c = CHR ''e'' then map_option (\<lambda>k. mantissa * k) (exponent cs) else None)"

definition Number :: "string \<Rightarrow> rat option" where
  "Number v =
     (let xs = trim v
      in if xs = [] then Some 0
         else if take 2 xs \<in> {''0x'', ''0X''} then in_base 16 (drop 2 xs)
         else if take 2 xs \<in> {''0o'', ''0O''} then in_base 8 (drop 2 xs)
         else if take 2 xs \<in> {''0b'', ''0B''} then in_base 2 (drop 2 xs)
         else decimal xs)"

section \<open>Region centres\<close>

definition REGION_COORDINATES_aws :: "(string \<times> rat \<times> rat) list" where
  "REGION_COORDINATES_aws =
    [(''af-south-1'', (- 33.9249), 18.4241),
     (''ap-east-1'', 22.3193, 114.1694),
     (''ap-northeast-1'', 35.6762, 139.6503),
     (''ap-northeast-2'', 37.5665, 126.978),
     (''ap-northeast-3'', 34.6937, 135.5023),
     (''ap-south-1'', 19.076, 72.8777),
     (''ap-south-2'', 17.385, 78.4867),
     (''ap-southeast-1'', 1.3521, 103.8198),
     (''ap-southeast-2'', (- 33.8688), 151.2093),
     (''ap-southeast-3'', (- 6.2088), 106.8456),
     (''ap-southeast-4'', (- 37.8136), 144.9631),
     (''ap-southeast-5'', 3.139, 101.6869),
     (''ap-southeast-7'', 13.7563, 100.5018),
     (''ca-central-1'', 45.5017, (- 73.5673)),
     (''ca-west-1'', 51.0447, (- 114.0719)),
     (''cn-north-1'', 39.9042, 116.4074),
     (''cn-northwest-1'', 38.2827, 109.7453),
     (''eu-central-1'', 50.1109, 8.6821),
     (''eu-central-2'', 47.3769, 8.5417),
     (''eu-north-1'', 59.3293, 18.0686),
     (''eu-south-1'', 45.4642, 9.19),
     (''eu-south-2'', 40.4168, (- 3.7038)),
     (''eu-west-1'', 53.3498, (- 6.2603)),
     (''eu-west-2'', 51.5072, (- 0.1276)),
     (''eu-west-3'', 48.8566, 2.3522),
     (''il-central-1'', 32.0853, 34.7818),
     (''me-central-1'', 25.2048, 55.2708),
     (''me-south-1'', 26.2285, 50.586),
     (''sa-east-1'', (- 23.5558), (- 46.6396)),
     (''us-east-1'', 39.0438, (- 77.4874)),
     (''us-east-2'', 39.9612, (- 82.9988)),
     (''us-gov-east-1'', 39.0438, (- 77.4874)),
     (''us-gov-west-1'', 47.6062, (- 122.3321)),
     (''us-west-1'', 37.3382, (- 121.8863)),
     (''us-west-2'', 45.5152, (- 122.6784))]"

definition REGION_COORDINATES_gcp :: "(string \<times> rat \<times> rat) list" where
  "REGION_COORDINATES_gcp =
    [(''africa-south1'', (- 26.2041), 28.0473),
     (''asia-east1'', 25.033, 121.5654),
     (''asia-east2'', 22.3193, 114.1694),
     (''asia-northeast1'', 35.6762, 139.6503),
     (''asia-northeast2'', 34.6937, 135.5023),
     (''asia-northeast3'', 37.5665, 126.978),
     (''asia-south1'', 19.076, 72.8777),
     (''asia-south2'', 28.6139, 77.209),
     (''asia-southeast1'', 1.3521, 103.8198),
     (''asia-southeast2'', (- 6.2088), 106.8456),
     (''australia-southeast1'', (- 33.8688), 151.2093),
     (''australia-southeast2'', (- 37.8136), 144.9631),
     (''europe-central2'', 52.2297, 21.0122),
     (''europe-north1'', 60.1699, 24.9384),
     (''europe-southwest1'', 40.4168, (- 3.7038)),
     (''europe-west1'', 50.8503, 4.3517),
     (''europe-west2'', 51.5072, (- 0.1276)),
     (''europe-west3'', 50.1109, 8.6821),
     (''europe-west4'', 52.3676, 4.9041),
     (''europe-west6'', 47.3769, 8.5417),
     (''europe-west8'', 45.4642, 9.19),
     (''europe-west9'', 48.8566, 2.3522),
     (''europe-west10'', 52.52, 13.405),
     (''europe-west12'', 45.0703, 7.6869),
     (''me-central1'', 25.2854, 51.531),
     (''me-central2'', 24.7136, 46.6753),
     (''me-west1'', 32.0853, 34.7818),
     (''northamerica-northeast1'', 45.5017, (- 73.5673)),
     (''northamerica-northeast2'', 43.6532, (- 79.3832)),
     (''southamerica-east1'', (- 23.5558), (- 46.6396)),
     (''southamerica-west1'', (- 33.4489), (- 70.6693)),
     (''us-central1'', 41.2619, (- 95.8608)),
     (''us-east1'', 33.8361, (- 81.1637)),
     (''us-east4'', 39.0438, (- 77.4874)),
     (''us-east5'', 39.9612, (- 82.9988)),
     (''us-south1'', 32.7767, (- 96.797)),
     (''us-west1'', 45.5152, (- 122.6784)),
     (''us-west2'', 34.0522, (- 118.2437)),
     (''us-west3'', 40.7608, (- 111.891)),
     (''us-west4'', 36.1699, (- 115.1398))]"

definition REGION_COORDINATES_azure :: "(string \<times> rat \<times> rat) list" where
  "REGION_COORDINATES_azure =
    [(''australiaeast'', (- 33.8688), 151.2093),
     (''australiasoutheast'', (- 37.8136), 144.9631),
     (''brazilsouth'', (- 23.5558), (- 46.6396)),
     (''canadacentral'', 43.6532, (- 79.3832)),
     (''canadaeast'', 46.8139, (- 71.2082)),
     (''centralindia'', 18.5204, 73.8567),
     (''centralus'', 41.2619, (- 95.8608)),
     (''eastasia'', 22.3193, 114.1694),
     (''eastus'', 37.4316, (- 78.6569)),
     (''eastus2'', 36.6681, (- 78.3889)),
     (''francecentral'', 48.8566, 2.3522),
     (''germanywestcentral'', 50.1109, 8.6821),
     (''israelcentral'', 32.0853, 34.7818),
     (''italynorth'', 45.4642, 9.19),
     (''japaneast'', 35.6762, 139.6503),
     (''japanwest'', 34.6937, 135.5023),
     (''koreacentral'', 37.5665, 126.978),
     (''koreasouth'', 35.1796, 129.0756),
     (''northcentralus'', 41.8781, (- 87.6298)),
     (''northeurope'', 53.3498, (- 6.2603)),
     (''norwayeast'', 59.9139, 10.7522),
     (''polandcentral'', 52.2297, 21.0122),
     (''qatarcentral'', 25.2854, 51.531),
     (''southafricanorth'', (- 26.2041), 28.0473),
     (''southcentralus'', 29.7604, (- 95.3698)),
     (''southeastasia'', 1.3521, 103.8198),
     (''southindia'', 13.0827, 80.2707),
     (''spaincentral'', 40.4168, (- 3.7038)),
     (''swedencentral'', 60.6749, 17.1413),
     (''switzerlandnorth'', 47.3769, 8.5417),
     (''uaenorth'', 25.2048, 55.2708),
     (''uksouth'', 51.5072, (- 0.1276)),
     (''ukwest'', 53.4084, (- 2.9916)),
     (''westcentralus'', 40.7608, (- 111.891)),
     (''westeurope'', 52.3676, 4.9041),
     (''westindia'', 19.076, 72.8777),
     (''westus'', 37.3382, (- 121.8863)),
     (''westus2'', 47.6062, (- 122.3321)),
     (''westus3'', 33.4484, (- 112.074))]"

definition REGION_COORDINATES :: "string \<Rightarrow> string \<Rightarrow> (rat \<times> rat) option" where
  "REGION_COORDINATES provider region =
     (if provider = ''aws'' then map_of REGION_COORDINATES_aws region
      else if provider = ''gcp'' then map_of REGION_COORDINATES_gcp region
      else if provider = ''azure'' then map_of REGION_COORDINATES_azure region
      else None)"

section \<open>Normalisation\<close>

definition NODE_LOCATION_PROVIDERS :: "string list" where
  "NODE_LOCATION_PROVIDERS = [''aws'', ''gcp'', ''azure'', ''manual'', ''public_ip'']"

definition NODE_LOCATION_SOURCES :: "string list" where
  "NODE_LOCATION_SOURCES = [''cloud_metadata'', ''manual'', ''ipinfo'']"

definition CLOUD_LOCATION_PROVIDERS :: "string list" where
  "CLOUD_LOCATION_PROVIDERS = [''aws'', ''gcp'', ''azure'']"

text \<open>A coordinate of a request: a number, finite or not, or a string.\<close>

datatype coordinate_input = Num "rat option" | Str string

record node_location_input =
  li_provider :: "string option"
  li_source :: "string option"
  li_region :: "string option"
  li_zone :: "string option"
  li_latitude :: "coordinate_input option"
  li_longitude :: "coordinate_input option"

definition isCloudProvider :: "string \<Rightarrow> bool" where
  "isCloudProvider provider \<longleftrightarrow> provider \<in> set CLOUD_LOCATION_PROVIDERS"

definition normalizeToken :: "string option \<Rightarrow> string option" where
  "normalizeToken v =
     (case v of None \<Rightarrow> None | Some x \<Rightarrow> (let y = toLowerCase (trim x) in if y = [] then None else Some y))"

definition normalizeProvider :: "string option \<Rightarrow> string option" where
  "normalizeProvider v =
     (case normalizeToken v of None \<Rightarrow> None | Some x \<Rightarrow> if x \<in> set NODE_LOCATION_PROVIDERS then Some x else None)"

definition normalizeSource :: "string option \<Rightarrow> string option" where
  "normalizeSource v =
     (case normalizeToken v of None \<Rightarrow> None | Some x \<Rightarrow> if x \<in> set NODE_LOCATION_SOURCES then Some x else None)"

definition normalizeCloudRegion :: "string option \<Rightarrow> string option" where
  "normalizeCloudRegion v = map_option (filter (\<lambda>c. \<not> is_ws c)) (normalizeToken v)"

definition normalizeLocationLabel :: "string option \<Rightarrow> string option" where
  "normalizeLocationLabel v =
     (case v of None \<Rightarrow> None
      | Some x \<Rightarrow> (let y = collapse_ws (trim x) in if y = [] then None else Some (take 80 y)))"

definition normalizeCoordinate :: "coordinate_input option \<Rightarrow> rat \<Rightarrow> rat \<Rightarrow> rat option" where
  "normalizeCoordinate v lo hi =
     (case v of None \<Rightarrow> None
      | Some c \<Rightarrow>
          (case (case c of Num x \<Rightarrow> x | Str xs \<Rightarrow> Number xs) of None \<Rightarrow> None
           | Some p \<Rightarrow> if p < lo \<or> hi < p then None else Some p))"

definition normalizeInputCoordinates ::
  "coordinate_input option \<Rightarrow> coordinate_input option \<Rightarrow> (rat \<times> rat) option" where
  "normalizeInputCoordinates latitude longitude =
     (case (normalizeCoordinate latitude (-90) 90, normalizeCoordinate longitude (-180) 180) of
        (Some lat, Some lng) \<Rightarrow> Some (lat, lng)
      | _ \<Rightarrow> None)"

definition defaultSourceForProvider :: "string \<Rightarrow> string option" where
  "defaultSourceForProvider provider =
     (if isCloudProvider provider then Some ''cloud_metadata''
      else if provider = ''manual'' then Some ''manual''
      else if provider = ''public_ip'' then Some ''ipinfo''
      else None)"

definition isValidProviderSource :: "string \<Rightarrow> string \<Rightarrow> bool" where
  "isValidProviderSource provider source \<longleftrightarrow>
     (if isCloudProvider provider then source = ''cloud_metadata''
      else if provider = ''manual'' then source = ''manual''
      else provider = ''public_ip'' \<and> source = ''ipinfo'')"

text \<open>\<open>zone.replace(/-[a-z]$/, '')\<close> and \<open>zone.replace(/[a-z]$/, '')\<close>.\<close>

definition is_lower :: "char \<Rightarrow> bool" where
  "is_lower c \<longleftrightarrow> 97 \<le> (of_char c :: nat) \<and> (of_char c :: nat) \<le> 122"

definition deriveRegion :: "string \<Rightarrow> string option \<Rightarrow> string option" where
  "deriveRegion provider zone =
     (if \<not> truthy zone then None
      else let z = the zone; letter = (is_lower (last z)) in
        if provider = ''gcp'' then
          Some (if letter \<and> 2 \<le> length z \<and> last (butlast z) = CHR ''-'' then butlast (butlast z) else z)
        else if provider = ''aws'' then Some (if letter then butlast z else z)
        else None)"

definition location_fields ::
  "string \<Rightarrow> string \<Rightarrow> string \<Rightarrow> string option \<Rightarrow> (rat \<times> rat) option \<Rightarrow> int \<Rightarrow> node_location" where
  "location_fields provider source region zone coordinates updatedAt =
     \<lparr>l_provider = Some provider, l_source = Some source, l_region = Some region, l_zone = zone,
      l_latitude = map_option fst coordinates, l_longitude = map_option snd coordinates,
      l_updatedAt = Some updatedAt\<rparr>"

definition resolveNodeLocationFields :: "node_location_input option \<Rightarrow> int \<Rightarrow> node_location option" where
  "resolveNodeLocationFields inp updatedAt =
     Option.bind (normalizeProvider (Option.bind inp li_provider)) (\<lambda>provider.
       let requestedSource = map_option trim (Option.bind inp li_source);
           source = normalizeSource (Option.bind inp li_source)
       in if truthy requestedSource \<and> source = None then None
          else Option.bind (case source of None \<Rightarrow> defaultSourceForProvider provider | Some x \<Rightarrow> Some x)
            (\<lambda>effectiveSource.
              if \<not> isValidProviderSource provider effectiveSource then None
              else if isCloudProvider provider then
                let zone = normalizeToken (Option.bind inp li_zone);
                    region = (case normalizeCloudRegion (Option.bind inp li_region) of
                                None \<Rightarrow> deriveRegion provider zone | Some r \<Rightarrow> Some r)
                in if \<not> truthy region then None
                   else Some (location_fields provider effectiveSource (the region) zone
                                (REGION_COORDINATES provider (the region)) updatedAt)
              else
                let region = normalizeLocationLabel (Option.bind inp li_region);
                    zone = normalizeLocationLabel (Option.bind inp li_zone);
                    coordinates = normalizeInputCoordinates (Option.bind inp li_latitude) (Option.bind inp li_longitude)
                in if region = None \<or> coordinates = None then None
                   else Some (location_fields provider effectiveSource (the region) zone coordinates updatedAt)))"

definition jdec_opt :: "rat option \<Rightarrow> json" where
  "jdec_opt x = (case x of None \<Rightarrow> JNull | Some r \<Rightarrow> JDec r)"

text \<open>The location as the API shows it; \<open>zone: undefined\<close> is left out.\<close>

definition buildNodeLocationDto :: "node_location \<Rightarrow> json" where
  "buildNodeLocationDto l =
     (if \<not> truthy (l_provider l) \<or> \<not> truthy (l_source l) \<or> \<not> truthy (l_region l) then JNull
      else JObj ([(''provider'', jstr_opt (l_provider l)), (''source'', jstr_opt (l_source l)),
                  (''region'', jstr_opt (l_region l))] @
                 (case l_zone l of None \<Rightarrow> [] | Some z \<Rightarrow> [(''zone'', JStr z)]) @
                 [(''latitude'', jdec_opt (l_latitude l)), (''longitude'', jdec_opt (l_longitude l)),
                  (''updatedAt'', jtime_opt (l_updatedAt l))]))"

definition no_location :: node_location where
  "no_location = \<lparr>l_provider = None, l_source = None, l_region = None, l_zone = None, l_latitude = None,
     l_longitude = None, l_updatedAt = None\<rparr>"

section \<open>Lemmas\<close>

lemma normalizeToken_Some: "normalizeToken v = Some x \<Longrightarrow> x \<noteq> []"
  by (auto simp: normalizeToken_def Let_def split: option.splits if_splits)

lemma normalizeProvider_Some: "normalizeProvider v = Some x \<Longrightarrow> x \<in> set NODE_LOCATION_PROVIDERS"
  by (auto simp: normalizeProvider_def split: option.splits if_splits)

lemma normalizeLocationLabel_Some: "normalizeLocationLabel v = Some x \<Longrightarrow> x \<noteq> [] \<and> length x \<le> 80"
  by (auto simp: normalizeLocationLabel_def Let_def split: option.splits if_splits)

lemma normalizeCoordinate_Some: "normalizeCoordinate v lo hi = Some p \<Longrightarrow> lo \<le> p \<and> p \<le> hi"
  by (auto simp: normalizeCoordinate_def split: option.splits coordinate_input.splits if_splits)

lemma normalizeInputCoordinates_Some:
  "normalizeInputCoordinates a b = Some (lat, lng) \<Longrightarrow> -90 \<le> lat \<and> lat \<le> 90 \<and> -180 \<le> lng \<and> lng \<le> 180"
  by (auto simp: normalizeInputCoordinates_def split: option.splits dest!: normalizeCoordinate_Some)

text \<open>Every centre of the table is a point of the globe.\<close>

definition on_globe :: "rat \<times> rat \<Rightarrow> bool" where
  "on_globe p \<longleftrightarrow> -90 \<le> fst p \<and> fst p \<le> 90 \<and> -180 \<le> snd p \<and> snd p \<le> 180"

lemma region_tables_on_globe:
  "list_all (\<lambda>e. on_globe (snd e)) REGION_COORDINATES_aws"
  "list_all (\<lambda>e. on_globe (snd e)) REGION_COORDINATES_gcp"
  "list_all (\<lambda>e. on_globe (snd e)) REGION_COORDINATES_azure"
  by (simp_all add: REGION_COORDINATES_aws_def REGION_COORDINATES_gcp_def REGION_COORDINATES_azure_def on_globe_def)

lemma map_of_all: "list_all (\<lambda>e. P (snd e)) xs \<Longrightarrow> map_of xs k = Some v \<Longrightarrow> P v"
  by (induction xs) (auto split: if_splits)

lemma REGION_COORDINATES_on_globe: "REGION_COORDINATES p r = Some c \<Longrightarrow> on_globe c"
  unfolding REGION_COORDINATES_def
  by (auto split: if_splits dest: map_of_all[OF region_tables_on_globe(1)]
      map_of_all[OF region_tables_on_globe(2)] map_of_all[OF region_tables_on_globe(3)])

text \<open>The two ways a location is accepted.\<close>

lemma resolve_cases:
  assumes "resolveNodeLocationFields inp t = Some l"
  obtains (cloud) p src r z where "isCloudProvider p" "isValidProviderSource p src" "r \<noteq> []"
      "l = location_fields p src r z (REGION_COORDINATES p r) t"
  | (other) p src r z c where "\<not> isCloudProvider p" "p \<in> set NODE_LOCATION_PROVIDERS" "isValidProviderSource p src"
      "r \<noteq> []" "length r \<le> 80" "on_globe c" "l = location_fields p src r z (Some c) t"
proof -
  obtain p where p: "normalizeProvider (Option.bind inp li_provider) = Some p"
    using assms by (auto simp: resolveNodeLocationFields_def bind_eq_Some_conv)
  obtain src where src: "isValidProviderSource p src" and rest:
    "(if isCloudProvider p then
        let zone = normalizeToken (Option.bind inp li_zone);
            region = (case normalizeCloudRegion (Option.bind inp li_region) of
                        None \<Rightarrow> deriveRegion p zone | Some r \<Rightarrow> Some r)
        in if \<not> truthy region then None
           else Some (location_fields p src (the region) zone (REGION_COORDINATES p (the region)) t)
      else
        let region = normalizeLocationLabel (Option.bind inp li_region);
            zone = normalizeLocationLabel (Option.bind inp li_zone);
            coordinates = normalizeInputCoordinates (Option.bind inp li_latitude) (Option.bind inp li_longitude)
        in if region = None \<or> coordinates = None then None
           else Some (location_fields p src (the region) zone coordinates t)) = Some l"
    using assms p by (auto simp: resolveNodeLocationFields_def bind_eq_Some_conv Let_def split: if_splits)
  show thesis
  proof (cases "isCloudProvider p")
    case True
    then show thesis using rest src cloud[of p src] by (auto simp: Let_def truthy_def split: if_splits)
  next
    case False
    then obtain r c where r: "normalizeLocationLabel (Option.bind inp li_region) = Some r"
      and c: "normalizeInputCoordinates (Option.bind inp li_latitude) (Option.bind inp li_longitude) = Some c"
      and l: "l = location_fields p src r (normalizeLocationLabel (Option.bind inp li_zone)) (Some c) t"
      using rest by (auto simp: Let_def split: if_splits)
    have "on_globe c" using c normalizeInputCoordinates_Some[of _ _ "fst c" "snd c"] by (simp add: on_globe_def)
    with other[OF False normalizeProvider_Some[OF p] src _ _ _ l] normalizeLocationLabel_Some[OF r]
    show thesis by blast
  qed
qed

section \<open>Properties\<close>

text \<open>Whatever an agent reports, a location that is accepted names a known provider with the one source
  that goes with it and a region that is not empty. Its coordinates are a point of the globe: for a
  cloud provider the centre of the region from the table, or none when the region is not in it
  (what the agent sent is ignored), otherwise always present. Its date is the report's.\<close>

theorem accepted_location_wellformed:
  assumes "resolveNodeLocationFields inp t = Some l"
  shows "\<exists>p r. l_provider l = Some p \<and> p \<in> set NODE_LOCATION_PROVIDERS \<and>
    l_source l = defaultSourceForProvider p \<and> l_region l = Some r \<and> r \<noteq> [] \<and> l_updatedAt l = Some t \<and>
    (if isCloudProvider p
     then (l_latitude l, l_longitude l) =
            (map_option fst (REGION_COORDINATES p r), map_option snd (REGION_COORDINATES p r))
     else l_latitude l \<noteq> None \<and> l_longitude l \<noteq> None \<and> length r \<le> 80) \<and>
    (\<forall>lat. l_latitude l = Some lat \<longrightarrow> -90 \<le> lat \<and> lat \<le> 90) \<and>
    (\<forall>lng. l_longitude l = Some lng \<longrightarrow> -180 \<le> lng \<and> lng \<le> 180)"
  using assms
proof (cases rule: resolve_cases)
  case (cloud p src r z)
  then show ?thesis using REGION_COORDINATES_on_globe[of p r]
    by (auto simp: location_fields_def isCloudProvider_def CLOUD_LOCATION_PROVIDERS_def NODE_LOCATION_PROVIDERS_def
        isValidProviderSource_def defaultSourceForProvider_def on_globe_def)
next
  case (other p src r z c)
  then show ?thesis
    by (auto simp: location_fields_def isValidProviderSource_def defaultSourceForProvider_def on_globe_def split: if_splits)
qed

definition sample_location_input :: node_location_input where
  "sample_location_input = \<lparr>li_provider = Some '' AWS'', li_source = None, li_region = None,
     li_zone = Some ''eu-central-1a'', li_latitude = Some (Num (Some 12)), li_longitude = None\<rparr>"

lemma sample_location:
  "resolveNodeLocationFields (Some sample_location_input) 7 =
     Some (location_fields ''aws'' ''cloud_metadata'' ''eu-central-1'' (Some ''eu-central-1a'') (Some (50.1109, 8.6821)) 7)"
  by code_simp

theorem accepted_location_wellformed_witness:
  "\<exists>l. resolveNodeLocationFields (Some sample_location_input) 7 = Some l \<and> l_source l = Some ''cloud_metadata''"
  using accepted_location_wellformed[OF sample_location] sample_location by (auto simp: location_fields_def)

end
