(* ===== verification/Nodes.thy ===== *)
theory Nodes
  imports Workspaces NodeLocation
begin

text \<open>
  The managed machines (\<open>src/modules/nodes/nodes.service.ts\<close>): registration, team assignment,
  maintenance, notification settings, root access grants with their synchronisation and expiry,
  agent tokens with rotation and revocation, and the online/offline state with the sweep of stale
  nodes. One definition per service method. The lemmas show an invariant of the node table that
  every operation keeps, the life of a root grant and of an agent token, and what the sweeps do.

  A node is returned with its transient \<open>teamName\<close>; its transient \<open>location\<close> is
  \<open>buildNodeLocationDto\<close> of the row.
\<close>

section \<open>Data\<close>

type_synonym node_view = "node \<times> string option"

datatype root_surface = OPERATIONAL | TASK | TERMINAL

fun root_surface_str :: "root_surface \<Rightarrow> string" where
  "root_surface_str OPERATIONAL = ''operational''"
| "root_surface_str TASK = ''task''"
| "root_surface_str TERMINAL = ''terminal''"

text \<open>A date in a report: its text, and the instant \<open>new Date\<close> reads from it, if it is a date.\<close>

datatype date_text = DateText (date_text: string) (date_value: "int option")

record root_access_report =
  rr_appliedProfile :: "string option"
  rr_lastAppliedAt :: "date_text option"
  rr_lastError :: "string option"

record create_node_dto =
  cn_name :: "string option"
  cn_description :: "string option"
  cn_hostname :: string
  cn_os :: string
  cn_arch :: string
  cn_teamId :: "string option"

record node_query =
  qn_status :: "node_status option"
  qn_search :: "string option"
  qn_teamId :: "string option"
  qn_maintenanceMode :: "bool option"
  qn_limit :: "nat option"
  qn_offset :: "nat option"

text \<open>What an agent says of itself when it enrols, registers or sends a heartbeat.\<close>

record agent_info =
  ag_agentVersion :: "string option"
  ag_platformVersion :: "string option"
  ag_kernelVersion :: "string option"
  ag_location :: "node_location_input option"

record node_notifications_dto =
  nn_emailEnabled :: "bool option"
  nn_emailLevels :: "severity list option"
  nn_telegramEnabled :: "bool option"
  nn_telegramLevels :: "severity list option"

record root_access_dto =
  ra_profile :: root_profile
  ra_durationMinutes :: "int option"
  ra_reason :: "string option"

definition DEFAULT_NODE_NOTIFICATION_LEVELS :: "severity list" where
  "DEFAULT_NODE_NOTIFICATION_LEVELS = [INFO, WARNING, CRITICAL]"

definition AGENT_TOKEN_ROTATION_PENDING_MS :: int where
  "AGENT_TOKEN_ROTATION_PENDING_MS = 5 * 60 * 1000"

definition ROOT_ACCESS_MIN_DURATION_MINUTES :: int where
  "ROOT_ACCESS_MIN_DURATION_MINUTES = 5"

definition ROOT_ACCESS_DEFAULT_MAX_DURATION_MINUTES :: int where
  "ROOT_ACCESS_DEFAULT_MAX_DURATION_MINUTES = 120"

section \<open>Helpers\<close>

definition hashAgentToken :: "env \<Rightarrow> string \<Rightarrow> string" where
  "hashAgentToken e agentToken = e_sha256 e agentToken"

definition agentTokenHashMatches :: "string \<Rightarrow> string \<Rightarrow> bool" where
  "agentTokenHashMatches providedHash storedHash \<longleftrightarrow>
     length providedHash = length storedHash \<and> providedHash = storedHash"

definition assertHostnameAvailable :: "string \<Rightarrow> unit op" where
  "assertHostnameAvailable hostname =
     bindE (readE (\<lambda>s. find_row (\<lambda>n. n_hostname n = hostname) (nodes s))) (\<lambda>existing.
     guardE (existing = None) (Conflict ''A node with this hostname already exists''))"

definition getNodeLabel :: "node \<Rightarrow> string" where
  "getNodeLabel n =
     (if n_name n = [] \<or> n_name n = n_hostname n then n_hostname n
      else n_name n @ '' ('' @ n_hostname n @ '')'')"

definition parseOptionalDate :: "date_text option \<Rightarrow> int option \<Rightarrow> int option" where
  "parseOptionalDate v fallback =
     (case v of None \<Rightarrow> fallback
      | Some d \<Rightarrow> if date_text d = [] then fallback
                  else (case date_value d of None \<Rightarrow> fallback | Some t \<Rightarrow> Some t))"

definition NODE_ROOT_ACCESS_PROFILES :: "root_profile list" where
  "NODE_ROOT_ACCESS_PROFILES =
     [RA_OFF, RA_OPERATIONAL, RA_TASK, RA_TERMINAL, RA_OPERATIONAL_TASK, RA_OPERATIONAL_TERMINAL,
      RA_TASK_TERMINAL, RA_ALL]"

definition normalizeRootAccessProfile :: "string option \<Rightarrow> root_profile \<Rightarrow> root_profile" where
  "normalizeRootAccessProfile v fallback =
     (case find_row (\<lambda>p. Some (root_profile_str p) = v) NODE_ROOT_ACCESS_PROFILES of
        None \<Rightarrow> fallback | Some p \<Rightarrow> p)"

definition resolveRootAccessSyncStatus :: "root_profile \<Rightarrow> root_profile \<Rightarrow> string option \<Rightarrow> sync_status" where
  "resolveRootAccessSyncStatus desired applied lastError =
     (if truthy lastError then SYNC_FAILED else if desired = applied then SYNC_APPLIED else SYNC_PENDING)"

definition shouldIgnoreRootAccessSyncError :: "root_profile \<Rightarrow> string option \<Rightarrow> bool" where
  "shouldIgnoreRootAccessSyncError desired reported \<longleftrightarrow> False"

definition isRootAccessGrantExpired :: "env \<Rightarrow> node \<Rightarrow> bool" where
  "isRootAccessGrantExpired e n \<longleftrightarrow>
     (case n_rootAccessExpiresAt n of None \<Rightarrow> False | Some t \<Rightarrow> t \<le> e_now e)"

definition isRootAccessGrantActive :: "env \<Rightarrow> node \<Rightarrow> bool" where
  "isRootAccessGrantActive e n \<longleftrightarrow> \<not> isRootAccessGrantExpired e n"

definition getRootAccessMaxDurationMinutes :: "env \<Rightarrow> int" where
  "getRootAccessMaxDurationMinutes e =
     max ROOT_ACCESS_MIN_DURATION_MINUTES
       (case e_rootAccessMaxDurationMinutes e of None \<Rightarrow> ROOT_ACCESS_DEFAULT_MAX_DURATION_MINUTES | Some m \<Rightarrow> m)"

fun profileAllowsSurface :: "root_profile \<Rightarrow> root_surface \<Rightarrow> bool" where
  "profileAllowsSurface p OPERATIONAL \<longleftrightarrow>
     p = RA_OPERATIONAL \<or> p = RA_OPERATIONAL_TASK \<or> p = RA_OPERATIONAL_TERMINAL \<or> p = RA_ALL"
| "profileAllowsSurface p TASK \<longleftrightarrow>
     p = RA_TASK \<or> p = RA_OPERATIONAL_TASK \<or> p = RA_TASK_TERMINAL \<or> p = RA_ALL"
| "profileAllowsSurface p TERMINAL \<longleftrightarrow>
     p = RA_TERMINAL \<or> p = RA_OPERATIONAL_TERMINAL \<or> p = RA_TASK_TERMINAL \<or> p = RA_ALL"

definition normalizeNotificationLevels :: "severity list option \<Rightarrow> severity list" where
  "normalizeNotificationLevels levels =
     (case levels of None \<Rightarrow> DEFAULT_NODE_NOTIFICATION_LEVELS
      | Some xs \<Rightarrow> filter (\<lambda>v. v \<in> set xs) DEFAULT_NODE_NOTIFICATION_LEVELS)"

definition populateTeamMetadata :: "node list \<Rightarrow> node_view list op" where
  "populateTeamMetadata ns =
     (let teamIds = uniq (filter (\<lambda>i. i \<noteq> []) (List.map_filter n_teamId ns))
      in if teamIds = [] then ret (map (\<lambda>n. (n, None)) ns)
         else
           bindE (forE (\<lambda>teamId.
                    (case find_row (\<lambda>n. n_teamId n = Some teamId) ns of
                       None \<Rightarrow> ret None
                     | Some n \<Rightarrow> bindE (findTeamOrFail (n_workspaceId n) teamId) (\<lambda>t. ret (Some t))))
                  teamIds) (\<lambda>found.
             let lookup = map_of (map (\<lambda>t. (tm_id t, tm_name t)) (rev (List.map_filter id found)))
             in ret (map (\<lambda>n. (n, if truthy (n_teamId n) then lookup (the (n_teamId n)) else None)) ns)))"

definition populateNode :: "node \<Rightarrow> node_view op" where
  "populateNode n = bindE (populateTeamMetadata [n]) (\<lambda>vs. ret (hd vs))"

definition resolveLocationPatch :: "node_location_input option \<Rightarrow> int \<Rightarrow> node_location \<Rightarrow> node_location" where
  "resolveLocationPatch location updatedAt old =
     (case resolveNodeLocationFields location updatedAt of None \<Rightarrow> old | Some l \<Rightarrow> l)"

definition applyLocationPatch :: "node_location_input option \<Rightarrow> int \<Rightarrow> node \<Rightarrow> node" where
  "applyLocationPatch location updatedAt n =
     (case resolveNodeLocationFields location updatedAt of None \<Rightarrow> n | Some l \<Rightarrow> n\<lparr>n_location := l\<rparr>)"

text \<open>The repository's \<open>save\<close> of a row that was read before: it writes nothing when nothing changed.\<close>

definition saveNode :: "env \<Rightarrow> node \<Rightarrow> node \<Rightarrow> node op" where
  "saveNode e old new =
     (let n = touched (\<lambda>t r. r\<lparr>n_updatedAt := t\<rparr>) (e_now e) old new
      in bindE (writeE (\<lambda>s. s\<lparr>nodes := save_row n_id n (nodes s)\<rparr>)) (\<lambda>_. ret n))"

definition node_audit ::
  "string \<Rightarrow> string \<Rightarrow> string \<Rightarrow> string option \<Rightarrow> json_object option \<Rightarrow> json_object option \<Rightarrow> audit_input" where
  "node_audit workspaceId action targetId label changes metadata =
     \<lparr>ai_scope = ''workspace'', ai_workspaceId = Some workspaceId, ai_action = action, ai_targetType = ''node'',
      ai_targetId = Some targetId, ai_targetLabel = label, ai_changes = changes, ai_metadata = metadata\<rparr>"

section \<open>Broadcasts\<close>

definition node_status_payload :: "env \<Rightarrow> node \<Rightarrow> json" where
  "node_status_payload e n =
     JObj [(''nodeId'', JStr (n_id n)), (''workspaceId'', JStr (n_workspaceId n)),
           (''hostname'', JStr (n_hostname n)), (''status'', JStr (node_status_str (n_status n))),
           (''lastSeenAt'', jtime_opt (n_lastSeenAt n)), (''agentVersion'', jstr_opt (n_agentVersion n)),
           (''lastVersionReportedAt'', jtime_opt (n_lastVersionReportedAt n)),
           (''location'', buildNodeLocationDto (n_location n)),
           (''sourceInstanceId'', JStr (e_instanceId e))]"

definition broadcastStatusUpdate :: "env \<Rightarrow> node \<Rightarrow> unit op" where
  "broadcastStatusUpdate e n =
     bindE (emit ''node.status.updated'' (node_status_payload e n)) (\<lambda>_.
     publish ''nodes.status.updated'' (node_status_payload e n))"

definition root_access_payload :: "env \<Rightarrow> node \<Rightarrow> json" where
  "root_access_payload e n =
     JObj [(''nodeId'', JStr (n_id n)), (''workspaceId'', JStr (n_workspaceId n)),
           (''rootAccessProfile'', JStr (root_profile_str (n_rootAccessProfile n))),
           (''rootAccessAppliedProfile'', JStr (root_profile_str (n_rootAccessAppliedProfile n))),
           (''rootAccessSyncStatus'', JStr (sync_status_str (n_rootAccessSyncStatus n))),
           (''rootAccessUpdatedAt'', jtime_opt (n_rootAccessUpdatedAt n)),
           (''rootAccessUpdatedByUserId'', jstr_opt (n_rootAccessUpdatedByUserId n)),
           (''rootAccessExpiresAt'', jtime_opt (n_rootAccessExpiresAt n)),
           (''rootAccessGrantId'', jstr_opt (n_rootAccessGrantId n)),
           (''rootAccessLastAppliedAt'', jtime_opt (n_rootAccessLastAppliedAt n)),
           (''rootAccessLastError'', jstr_opt (n_rootAccessLastError n)),
           (''sourceInstanceId'', JStr (e_instanceId e))]"

definition broadcastRootAccessUpdate :: "env \<Rightarrow> node \<Rightarrow> unit op" where
  "broadcastRootAccessUpdate e n =
     bindE (emit ''node.root-access.updated'' (root_access_payload e n)) (\<lambda>_.
     publish ''nodes.root-access.updated'' (root_access_payload e n))"

section \<open>Registration and look-up\<close>

definition blank_node ::
  "env \<Rightarrow> string \<Rightarrow> string \<Rightarrow> string \<Rightarrow> string option \<Rightarrow> string \<Rightarrow> string \<Rightarrow> string \<Rightarrow> string option \<Rightarrow> node" where
  "blank_node e i workspaceId name description hostname os arch teamId =
     \<lparr>n_id = i, n_workspaceId = workspaceId, n_name = name, n_description = description,
      n_hostname = hostname, n_os = os, n_arch = arch, n_status = OFFLINE, n_teamId = teamId,
      n_maintenanceMode = False, n_maintenanceReason = None, n_maintenanceStartedAt = None,
      n_maintenanceByUserId = None,
      n_notificationEmailEnabled = True, n_notificationEmailLevels = DEFAULT_NODE_NOTIFICATION_LEVELS,
      n_notificationTelegramEnabled = True, n_notificationTelegramLevels = DEFAULT_NODE_NOTIFICATION_LEVELS,
      n_rootAccessProfile = RA_OFF, n_rootAccessAppliedProfile = RA_OFF, n_rootAccessSyncStatus = SYNC_PENDING,
      n_rootAccessUpdatedAt = None, n_rootAccessUpdatedByUserId = None, n_rootAccessExpiresAt = None,
      n_rootAccessReason = None, n_rootAccessGrantedByUserId = None, n_rootAccessGrantId = None,
      n_rootAccessLastAppliedAt = None, n_rootAccessLastError = None,
      n_agentVersion = None, n_platformVersion = None, n_kernelVersion = None, n_lastVersionReportedAt = None,
      n_location = no_location, n_lastSeenAt = None, n_agentTokenHash = None, n_pendingAgentTokenHash = None,
      n_pendingAgentTokenExpiresAt = None, n_agentTokenRotatedAt = None, n_agentTokenRevokedAt = None,
      n_createdAt = e_now e, n_updatedAt = e_now e\<rparr>"

definition insertNode :: "node \<Rightarrow> node_view op" where
  "insertNode n = bindE (writeE (\<lambda>s. s\<lparr>nodes := nodes s @ [n]\<rparr>)) (\<lambda>_. populateNode n)"

definition requestedTeam :: "string \<Rightarrow> string option \<Rightarrow> string option op" where
  "requestedTeam workspaceId teamId =
     (if truthy teamId then bindE (findTeamOrFail workspaceId (the teamId)) (\<lambda>t. ret (Some (tm_id t))) else ret None)"

definition createNode :: "env \<Rightarrow> create_node_dto \<Rightarrow> string option \<Rightarrow> node_view op" where
  "createNode e dto workspaceId =
     bindE (assertHostnameAvailable (cn_hostname dto)) (\<lambda>_.
     bindE (if truthy workspaceId then assertWorkspaceWritable (the workspaceId)
            else bindE getDefaultWorkspaceOrFail (\<lambda>w. assertWorkspaceWritable (w_id w))) (\<lambda>w.
     bindE (requestedTeam (w_id w) (cn_teamId dto)) (\<lambda>teamId.
     bindE (fresh_id e) (\<lambda>i.
     insertNode (blank_node e i (w_id w) (orElse (cn_name dto) (cn_hostname dto)) (cn_description dto)
       (cn_hostname dto) (cn_os dto) (cn_arch dto) teamId)))))"

definition nodes_findAll :: "node_query \<Rightarrow> string option \<Rightarrow> node_view list op" where
  "nodes_findAll q workspaceId =
     bindE (readE (\<lambda>s. take (orElse (qn_limit q) 50) (drop (orElse (qn_offset q) 0)
       (sort_key (\<lambda>n. - n_createdAt n)
         (filter (\<lambda>n. if_given workspaceId (\<lambda>w. n_workspaceId n = w) \<and>
                      (case qn_status q of None \<Rightarrow> True | Some v \<Rightarrow> n_status n = v) \<and>
                      if_given (qn_teamId q) (\<lambda>t. n_teamId n = Some t) \<and>
                      (case qn_maintenanceMode q of None \<Rightarrow> True | Some m \<Rightarrow> n_maintenanceMode n = m) \<and>
                      if_given (qn_search q) (\<lambda>x. ilike_containing x (n_name n) \<or> ilike_containing x (n_hostname n)))
            (nodes s)))))) populateTeamMetadata"

definition nodes_findOneOrFail :: "string \<Rightarrow> string option \<Rightarrow> node_view op" where
  "nodes_findOneOrFail i workspaceId =
     bindE (findE nodes (\<lambda>n. n_id n = i \<and> if_given workspaceId (\<lambda>w. n_workspaceId n = w))
              (NotFound (''Node '' @ i @ '' was not found''))) populateNode"

text \<open>Removing a node takes its schedules with it (foreign key with \<open>ON DELETE CASCADE\<close>).\<close>

definition deleteNode :: "env \<Rightarrow> string \<Rightarrow> string option \<Rightarrow> audit_context option \<Rightarrow> string op" where
  "deleteNode e i workspaceId ctx =
     bindE (nodes_findOneOrFail i workspaceId) (\<lambda>(n, _).
     bindE (assertWorkspaceWritable (n_workspaceId n)) (\<lambda>_.
     bindE (writeE (\<lambda>s. s\<lparr>nodes := delete_rows (\<lambda>x. n_id x = n_id n) (nodes s),
                          scheduled_tasks := delete_rows (\<lambda>sch. st_nodeId sch = Some (n_id n)) (scheduled_tasks s)\<rparr>)) (\<lambda>_.
     bindE (recordAudit e (node_audit (n_workspaceId n) ''node.deleted'' i
              (Some (if n_name n = [] then n_hostname n else n_name n)) None None) ctx) (\<lambda>_.
     ret i))))"

definition reports_version :: "agent_info \<Rightarrow> bool" where
  "reports_version info \<longleftrightarrow>
     truthy (ag_agentVersion info) \<or> truthy (ag_platformVersion info) \<or> truthy (ag_kernelVersion info)"

definition createFromEnrollment ::
  "env \<Rightarrow> string \<Rightarrow> string option \<Rightarrow> string \<Rightarrow> string option \<Rightarrow> string \<Rightarrow> string \<Rightarrow> string \<Rightarrow> string \<Rightarrow>
     agent_info \<Rightarrow> node_view op" where
  "createFromEnrollment e workspaceId teamId name description hostname os arch agentTokenHash info =
     bindE (assertHostnameAvailable hostname) (\<lambda>_.
     bindE (assertWorkspaceWritable workspaceId) (\<lambda>_.
     bindE (requestedTeam workspaceId teamId) (\<lambda>team.
     bindE (fresh_id e) (\<lambda>i.
     insertNode ((blank_node e i workspaceId name description hostname os arch team)
       \<lparr>n_agentTokenHash := Some agentTokenHash, n_agentVersion := ag_agentVersion info,
        n_platformVersion := ag_platformVersion info, n_kernelVersion := ag_kernelVersion info,
        n_lastVersionReportedAt := (if reports_version info then Some (e_now e) else None),
        n_location := resolveLocationPatch (ag_location info) (e_now e) no_location\<rparr>)))))"

definition orKeep :: "'a option \<Rightarrow> 'a option \<Rightarrow> 'a option" where
  "orKeep new old = (case new of None \<Rightarrow> old | Some _ \<Rightarrow> new)"

definition reregister_node :: "env \<Rightarrow> string \<Rightarrow> string \<Rightarrow> string \<Rightarrow> agent_info \<Rightarrow> node \<Rightarrow> node" where
  "reregister_node e os arch agentTokenHash info n =
     applyLocationPatch (ag_location info) (e_now e)
       (n\<lparr>n_os := os, n_arch := arch, n_status := ONLINE, n_lastSeenAt := Some (e_now e),
          n_agentTokenHash := Some agentTokenHash, n_pendingAgentTokenHash := None,
          n_pendingAgentTokenExpiresAt := None, n_agentTokenRevokedAt := None,
          n_name := (if n_name n = [] then n_hostname n else n_name n),
          n_agentVersion := orKeep (ag_agentVersion info) (n_agentVersion n),
          n_platformVersion := orKeep (ag_platformVersion info) (n_platformVersion n),
          n_kernelVersion := orKeep (ag_kernelVersion info) (n_kernelVersion n),
          n_lastVersionReportedAt :=
            (if reports_version info then Some (e_now e) else n_lastVersionReportedAt n)\<rparr>)"

definition upsertFromAgentRegistration ::
  "env \<Rightarrow> string \<Rightarrow> string \<Rightarrow> string \<Rightarrow> string \<Rightarrow> agent_info \<Rightarrow> node_view op" where
  "upsertFromAgentRegistration e hostname os arch agentTokenHash info =
     bindE (readE (\<lambda>s. find_row (\<lambda>n. n_hostname n = hostname) (nodes s))) (\<lambda>existing.
       (case existing of
          Some n \<Rightarrow>
            bindE (saveNode e n (reregister_node e os arch agentTokenHash info n)) populateNode
        | None \<Rightarrow>
            bindE getDefaultWorkspaceOrFail (\<lambda>w.
            bindE (fresh_id e) (\<lambda>i.
            insertNode ((blank_node e i (w_id w) hostname None hostname os arch None)
              \<lparr>n_status := ONLINE, n_lastSeenAt := Some (e_now e), n_agentTokenHash := Some agentTokenHash,
               n_agentVersion := ag_agentVersion info, n_platformVersion := ag_platformVersion info,
               n_kernelVersion := ag_kernelVersion info,
               n_lastVersionReportedAt := (if reports_version info then Some (e_now e) else None),
               n_location := resolveLocationPatch (ag_location info) (e_now e) no_location\<rparr>)))))"

section \<open>Operator actions\<close>

text \<open>The node, once the actor is known to administer its workspace and the workspace is writable.\<close>

definition administeredNode :: "string \<Rightarrow> string option \<Rightarrow> actor \<Rightarrow> node op" where
  "administeredNode nodeId workspaceId u =
     bindE (nodes_findOneOrFail nodeId workspaceId) (\<lambda>(n, _).
     bindE (assertWorkspaceAdmin (n_workspaceId n) u) (\<lambda>_.
     bindE (assertWorkspaceWritable (n_workspaceId n)) (\<lambda>_.
     ret n)))"

definition updateTeamAssignment ::
  "env \<Rightarrow> string \<Rightarrow> string option \<Rightarrow> actor \<Rightarrow> string option \<Rightarrow> audit_context option \<Rightarrow> node_view op" where
  "updateTeamAssignment e nodeId workspaceId u teamId ctx =
     bindE (administeredNode nodeId workspaceId u) (\<lambda>n.
     bindE (requestedTeam (n_workspaceId n) teamId) (\<lambda>team.
     bindE (saveNode e n (n\<lparr>n_teamId := team\<rparr>)) (\<lambda>n'.
     bindE (populateNode n') (\<lambda>(saved, teamName).
     bindE (recordEvent e None (Some (n_id saved)) ''node.team.updated'' (Some INFO)
              (if truthy (n_teamId saved)
               then ''Node '' @ n_hostname saved @ '' assigned to team '' @ orElse teamName (the (n_teamId saved))
               else ''Node '' @ n_hostname saved @ '' team assignment cleared'')
              (Some [(''previousTeamId'', jstr_opt (n_teamId n)), (''nextTeamId'', jstr_opt (n_teamId saved)),
                     (''nextTeamName'', jstr_opt teamName)])) (\<lambda>_.
     bindE (recordAudit e (node_audit (n_workspaceId saved) ''node.team.updated'' (n_id saved) (Some (n_hostname saved))
              (Some [(''before'', JObj [(''teamId'', jstr_opt (n_teamId n))]),
                     (''after'', JObj [(''teamId'', jstr_opt (n_teamId saved)), (''teamName'', jstr_opt teamName)])])
              None) ctx) (\<lambda>_.
     ret (saved, teamName)))))))"

definition enableMaintenance ::
  "env \<Rightarrow> string \<Rightarrow> string option \<Rightarrow> actor \<Rightarrow> string option \<Rightarrow> audit_context option \<Rightarrow> node_view op" where
  "enableMaintenance e nodeId workspaceId u reason ctx =
     bindE (administeredNode nodeId workspaceId u) (\<lambda>n.
     bindE (saveNode e n (n\<lparr>n_maintenanceMode := True, n_maintenanceReason := trim_or_null reason,
              n_maintenanceStartedAt := Some (e_now e), n_maintenanceByUserId := Some (a_id u)\<rparr>)) (\<lambda>n'.
     bindE (populateNode n') (\<lambda>(saved, teamName).
     bindE (recordEvent e None (Some (n_id saved)) ''node.maintenance.enabled'' (Some WARNING)
              (''Node '' @ n_hostname saved @ '' entered maintenance mode'' @
                 (case n_maintenanceReason saved of None \<Rightarrow> [] | Some r \<Rightarrow> '': '' @ r))
              (Some [(''maintenanceReason'', jstr_opt (n_maintenanceReason saved))])) (\<lambda>_.
     bindE (recordAudit e (node_audit (n_workspaceId saved) ''node.maintenance.enabled'' (n_id saved)
              (Some (n_hostname saved)) None
              (Some [(''maintenanceReason'', jstr_opt (n_maintenanceReason saved))])) ctx) (\<lambda>_.
     ret (saved, teamName))))))"

definition disableMaintenance ::
  "env \<Rightarrow> string \<Rightarrow> string option \<Rightarrow> actor \<Rightarrow> audit_context option \<Rightarrow> node_view op" where
  "disableMaintenance e nodeId workspaceId u ctx =
     bindE (administeredNode nodeId workspaceId u) (\<lambda>n.
     bindE (saveNode e n (n\<lparr>n_maintenanceMode := False, n_maintenanceReason := None,
              n_maintenanceStartedAt := None, n_maintenanceByUserId := None\<rparr>)) (\<lambda>n'.
     bindE (populateNode n') (\<lambda>(saved, teamName).
     bindE (recordEvent e None (Some (n_id saved)) ''node.maintenance.disabled'' (Some INFO)
              (''Node '' @ n_hostname saved @ '' left maintenance mode'')
              (Some [(''previousReason'', jstr_opt (n_maintenanceReason n))])) (\<lambda>_.
     bindE (recordAudit e (node_audit (n_workspaceId saved) ''node.maintenance.disabled'' (n_id saved)
              (Some (n_hostname saved)) None
              (Some [(''previousReason'', jstr_opt (n_maintenanceReason n))])) ctx) (\<lambda>_.
     ret (saved, teamName))))))"

definition levels_json :: "severity list \<Rightarrow> json" where
  "levels_json xs = JArr (map (\<lambda>v. JStr (severity_str v)) xs)"

definition notification_settings :: "node \<Rightarrow> json" where
  "notification_settings n =
     JObj [(''notificationEmailEnabled'', JBool (n_notificationEmailEnabled n)),
           (''notificationEmailLevels'', levels_json (n_notificationEmailLevels n)),
           (''notificationTelegramEnabled'', JBool (n_notificationTelegramEnabled n)),
           (''notificationTelegramLevels'', levels_json (n_notificationTelegramLevels n))]"

definition updateNotificationSettings ::
  "env \<Rightarrow> string \<Rightarrow> string option \<Rightarrow> actor \<Rightarrow> node_notifications_dto \<Rightarrow> audit_context option \<Rightarrow> node op" where
  "updateNotificationSettings e nodeId workspaceId u dto ctx =
     bindE (administeredNode nodeId workspaceId u) (\<lambda>n.
       if nn_emailEnabled dto = None \<and> nn_emailLevels dto = None \<and> nn_telegramEnabled dto = None \<and>
          nn_telegramLevels dto = None
       then ret n
       else
         let before = n\<lparr>n_notificationEmailLevels := normalizeNotificationLevels (Some (n_notificationEmailLevels n)),
                        n_notificationTelegramLevels := normalizeNotificationLevels (Some (n_notificationTelegramLevels n))\<rparr>
         in
         bindE (saveNode e n
           (n\<lparr>n_notificationEmailEnabled := orElse (nn_emailEnabled dto) (n_notificationEmailEnabled n),
              n_notificationEmailLevels :=
                (case nn_emailLevels dto of None \<Rightarrow> n_notificationEmailLevels n | Some l \<Rightarrow> normalizeNotificationLevels (Some l)),
              n_notificationTelegramEnabled := orElse (nn_telegramEnabled dto) (n_notificationTelegramEnabled n),
              n_notificationTelegramLevels :=
                (case nn_telegramLevels dto of None \<Rightarrow> n_notificationTelegramLevels n
                 | Some l \<Rightarrow> normalizeNotificationLevels (Some l))\<rparr>)) (\<lambda>n'.
         bindE (populateNode n') (\<lambda>(saved, _).
         bindE (recordEvent e None (Some (n_id saved)) ''node.notifications.updated'' (Some INFO)
                  (''Node '' @ n_hostname saved @ '' notification delivery updated.'')
                  (Some [(''previousEmailEnabled'', JBool (n_notificationEmailEnabled before)),
                         (''nextEmailEnabled'', JBool (n_notificationEmailEnabled saved)),
                         (''previousEmailLevels'', levels_json (n_notificationEmailLevels before)),
                         (''nextEmailLevels'', levels_json (n_notificationEmailLevels saved)),
                         (''previousTelegramEnabled'', JBool (n_notificationTelegramEnabled before)),
                         (''nextTelegramEnabled'', JBool (n_notificationTelegramEnabled saved)),
                         (''previousTelegramLevels'', levels_json (n_notificationTelegramLevels before)),
                         (''nextTelegramLevels'', levels_json (n_notificationTelegramLevels saved))])) (\<lambda>_.
         bindE (recordAudit e (node_audit (n_workspaceId saved) ''node.notifications.updated'' (n_id saved)
                  (Some (n_hostname saved))
                  (Some [(''before'', notification_settings before), (''after'', notification_settings saved)])
                  None) ctx) (\<lambda>_.
         ret saved)))))"

section \<open>Root access\<close>

definition root_access_change :: "node \<Rightarrow> json_object" where
  "root_access_change n =
     [(''rootAccessProfile'', JStr (root_profile_str (n_rootAccessProfile n))),
      (''rootAccessSyncStatus'', JStr (sync_status_str (n_rootAccessSyncStatus n))),
      (''rootAccessLastError'', jstr_opt (n_rootAccessLastError n)),
      (''rootAccessExpiresAt'', jtime_opt (n_rootAccessExpiresAt n))]"

text \<open>The row with the new grant, or with the grant withdrawn.\<close>

definition grant_root :: "env \<Rightarrow> actor \<Rightarrow> root_profile \<Rightarrow> int \<Rightarrow> string \<Rightarrow> string \<Rightarrow> node \<Rightarrow> node" where
  "grant_root e u profile durationMinutes reason grantId n =
     n\<lparr>n_rootAccessProfile := profile, n_rootAccessSyncStatus := SYNC_PENDING,
       n_rootAccessUpdatedAt := Some (e_now e), n_rootAccessUpdatedByUserId := Some (a_id u),
       n_rootAccessLastError := None,
       n_rootAccessExpiresAt := Some (e_now e + durationMinutes * 60 * 1000),
       n_rootAccessReason := Some reason, n_rootAccessGrantedByUserId := Some (a_id u),
       n_rootAccessGrantId := Some grantId\<rparr>"

definition withdraw_root :: "env \<Rightarrow> string option \<Rightarrow> node \<Rightarrow> node" where
  "withdraw_root e by_user n =
     n\<lparr>n_rootAccessProfile := RA_OFF, n_rootAccessSyncStatus := SYNC_PENDING,
       n_rootAccessUpdatedAt := Some (e_now e), n_rootAccessUpdatedByUserId := by_user,
       n_rootAccessLastError := None, n_rootAccessExpiresAt := None, n_rootAccessReason := None,
       n_rootAccessGrantedByUserId := None, n_rootAccessGrantId := None\<rparr>"

definition reportRootAccessChange ::
  "env \<Rightarrow> bool \<Rightarrow> int \<Rightarrow> audit_context option \<Rightarrow> node \<Rightarrow> node \<Rightarrow> node op" where
  "reportRootAccessChange e isDisabling durationMinutes ctx n n' =
     bindE (populateNode n') (\<lambda>(saved, _).
     bindE (recordEvent e None (Some (n_id saved)) ''node.root-access.updated'' (Some WARNING)
              (if n_rootAccessProfile saved = RA_OFF
               then ''Node '' @ n_hostname saved @ '' root access profile was disabled.''
               else ''Node '' @ n_hostname saved @ '' root access profile set to '' @
                    root_profile_str (n_rootAccessProfile saved) @ ''.'')
              (Some [(''previousProfile'', JStr (root_profile_str (n_rootAccessProfile n))),
                     (''nextProfile'', JStr (root_profile_str (n_rootAccessProfile saved))),
                     (''syncStatus'', JStr (sync_status_str (n_rootAccessSyncStatus saved)))])) (\<lambda>_.
     bindE (recordAudit e (node_audit (n_workspaceId saved) ''node.root-access.updated'' (n_id saved)
              (Some (n_hostname saved))
              (Some [(''before'', JObj (root_access_change n @ [(''rootAccessGrantId'', jstr_opt (n_rootAccessGrantId n))])),
                     (''after'', JObj (root_access_change saved @
                        [(''rootAccessReason'', jstr_opt (n_rootAccessReason saved)),
                         (''rootAccessGrantId'', jstr_opt (n_rootAccessGrantId saved))]))])
              (Some [(''durationMinutes'', if isDisabling then JNull else JNum durationMinutes),
                     (''reason'', jstr_opt (n_rootAccessReason saved)),
                     (''expiresAt'', jtime_opt (n_rootAccessExpiresAt saved)),
                     (''grantId'', jstr_opt (n_rootAccessGrantId saved))])) ctx) (\<lambda>_.
     bindE (broadcastRootAccessUpdate e saved) (\<lambda>_.
     ret saved))))"

definition updateRootAccessProfile ::
  "env \<Rightarrow> string \<Rightarrow> string option \<Rightarrow> actor \<Rightarrow> root_access_dto \<Rightarrow> audit_context option \<Rightarrow> node op" where
  "updateRootAccessProfile e nodeId workspaceId u dto ctx =
     bindE (administeredNode nodeId workspaceId u) (\<lambda>n.
       let isDisabling = (ra_profile dto = RA_OFF);
           maxDurationMinutes = getRootAccessMaxDurationMinutes e;
           durationMinutes = orElse (ra_durationMinutes dto) 0;
           reason = (case ra_reason dto of None \<Rightarrow> [] | Some r \<Rightarrow> trim r)
       in
       bindE (guardE (isDisabling \<or> ROOT_ACCESS_MIN_DURATION_MINUTES \<le> durationMinutes \<and>
                durationMinutes \<le> maxDurationMinutes)
                (BadRequest (''Root access duration must be between '' @ show_int ROOT_ACCESS_MIN_DURATION_MINUTES @
                   '' and '' @ show_int maxDurationMinutes @ '' minutes.''))) (\<lambda>_.
       bindE (guardE (isDisabling \<or> 3 \<le> length reason)
                (BadRequest ''Root access reason is required when enabling a non-off profile.'')) (\<lambda>_.
       bindE (if isDisabling then ret (withdraw_root e (Some (a_id u)) n)
              else bindE (fresh_id e) (\<lambda>g. ret (grant_root e u (ra_profile dto) durationMinutes reason g n))) (\<lambda>changed.
       bindE (saveNode e n changed) (\<lambda>n'.
       reportRootAccessChange e isDisabling durationMinutes ctx n n')))))"

definition recordAgentRootAccessState :: "env \<Rightarrow> string \<Rightarrow> root_access_report option \<Rightarrow> node option op" where
  "recordAgentRootAccessState e nodeId report =
     (case report of
        None \<Rightarrow> ret None
      | Some rep \<Rightarrow>
          bindE (nodes_findOneOrFail nodeId None) (\<lambda>(n, _).
            let nextAppliedProfile = normalizeRootAccessProfile (rr_appliedProfile rep) (n_rootAccessAppliedProfile n);
                nextLastAppliedAt = parseOptionalDate (rr_lastAppliedAt rep) (n_rootAccessLastAppliedAt n);
                reportedLastError = trim_or_null (rr_lastError rep);
                nextLastError = (if shouldIgnoreRootAccessSyncError (n_rootAccessProfile n) reportedLastError
                                 then None else reportedLastError);
                nextSyncStatus = resolveRootAccessSyncStatus (n_rootAccessProfile n) nextAppliedProfile nextLastError
            in if n_rootAccessAppliedProfile n = nextAppliedProfile \<and> n_rootAccessLastError n = nextLastError \<and>
                  map_option toISOString (n_rootAccessLastAppliedAt n) = map_option toISOString nextLastAppliedAt \<and>
                  n_rootAccessSyncStatus n = nextSyncStatus
               then ret (Some n)
               else
                 bindE (saveNode e n (n\<lparr>n_rootAccessAppliedProfile := nextAppliedProfile,
                          n_rootAccessLastAppliedAt := nextLastAppliedAt, n_rootAccessLastError := nextLastError,
                          n_rootAccessSyncStatus := nextSyncStatus\<rparr>)) (\<lambda>n'.
                 bindE (populateNode n') (\<lambda>(saved, _).
                 bindE (broadcastRootAccessUpdate e saved) (\<lambda>_.
                 ret (Some saved))))))"

definition listTeamOwnedNodes :: "string \<Rightarrow> string \<Rightarrow> node_view list op" where
  "listTeamOwnedNodes workspaceId teamId =
     bindE (findTeamOrFail workspaceId teamId) (\<lambda>_.
     bindE (readE (\<lambda>s. sort_key n_createdAt
              (filter (\<lambda>n. n_workspaceId n = workspaceId \<and> n_teamId n = Some teamId) (nodes s)))) populateTeamMetadata)"

definition assertNodeAcceptingNewWork :: "node \<Rightarrow> unit op" where
  "assertNodeAcceptingNewWork n =
     guardE (\<not> n_maintenanceMode n)
       (BadRequest (''Node '' @ n_hostname n @ '' is in maintenance mode and cannot accept new work.''))"

definition canNodeUseOperationalRoot :: "env \<Rightarrow> node \<Rightarrow> bool" where
  "canNodeUseOperationalRoot e n \<longleftrightarrow>
     isRootAccessGrantActive e n \<and> profileAllowsSurface (n_rootAccessAppliedProfile n) OPERATIONAL"

definition canNodeUseTaskRoot :: "env \<Rightarrow> node \<Rightarrow> bool" where
  "canNodeUseTaskRoot e n \<longleftrightarrow>
     isRootAccessGrantActive e n \<and> profileAllowsSurface (n_rootAccessAppliedProfile n) TASK"

definition canNodeUseTerminalRoot :: "env \<Rightarrow> node \<Rightarrow> bool" where
  "canNodeUseTerminalRoot e n \<longleftrightarrow>
     isRootAccessGrantActive e n \<and> profileAllowsSurface (n_rootAccessAppliedProfile n) TERMINAL"

definition expired_message :: "node \<Rightarrow> string" where
  "expired_message n =
     ''Node '' @ n_hostname n @ '' root access grant expired at '' @
       (case n_rootAccessExpiresAt n of None \<Rightarrow> ''null'' | Some t \<Rightarrow> toISOString t) @ ''.''"

definition assertNodeAllowsOperationalRoot :: "env \<Rightarrow> node \<Rightarrow> unit op" where
  "assertNodeAllowsOperationalRoot e n =
     guardE (canNodeUseOperationalRoot e n)
       (BadRequest (if isRootAccessGrantExpired e n then expired_message n
          else ''Node '' @ n_hostname n @ '' does not currently allow operational root access. Applied profile is '' @
               root_profile_str (n_rootAccessAppliedProfile n) @ '', desired profile is '' @
               root_profile_str (n_rootAccessProfile n) @ '', and sync status is '' @
               sync_status_str (n_rootAccessSyncStatus n) @ ''.''))"

definition assertNodeAllowsRootSurface :: "env \<Rightarrow> node \<Rightarrow> root_surface \<Rightarrow> unit op" where
  "assertNodeAllowsRootSurface e n surface =
     bindE (guardE (isRootAccessGrantActive e n)
              (BadRequest (if isRootAccessGrantExpired e n then expired_message n
                 else ''Node '' @ n_hostname n @ '' does not have an active root access grant.''))) (\<lambda>_.
     guardE (profileAllowsSurface (n_rootAccessAppliedProfile n) surface)
       (BadRequest (''Node '' @ n_hostname n @ '' does not currently allow '' @ root_surface_str surface @
          '' root access. Applied profile is '' @ root_profile_str (n_rootAccessAppliedProfile n) @ ''.'')))"

definition assertNodeAllowsTaskRoot :: "env \<Rightarrow> node \<Rightarrow> unit op" where
  "assertNodeAllowsTaskRoot e n = assertNodeAllowsRootSurface e n TASK"

definition assertNodeAllowsTerminalRoot :: "env \<Rightarrow> node \<Rightarrow> unit op" where
  "assertNodeAllowsTerminalRoot e n = assertNodeAllowsRootSurface e n TERMINAL"

definition buildDesiredRootAccessSnapshot :: "node \<Rightarrow> json" where
  "buildDesiredRootAccessSnapshot n =
     JObj [(''profile'', JStr (root_profile_str (n_rootAccessProfile n))),
           (''updatedAt'', jtime_opt (n_rootAccessUpdatedAt n)),
           (''expiresAt'', jtime_opt (n_rootAccessExpiresAt n)),
           (''grantId'', jstr_opt (n_rootAccessGrantId n))]"

section \<open>Agent tokens\<close>

definition authenticateAgent :: "env \<Rightarrow> string \<Rightarrow> string \<Rightarrow> node op" where
  "authenticateAgent e nodeId agentToken =
     bindE (findE nodes (\<lambda>n. n_id n = nodeId) (NotFound (''Node '' @ nodeId @ '' was not found''))) (\<lambda>n.
     bindE (guardE (truthy (n_agentTokenHash n) \<or> truthy (n_pendingAgentTokenHash n))
              (Unauthorized ''Agent token is not configured for this node'')) (\<lambda>_.
       let providedHash = hashAgentToken e agentToken
       in if truthy (n_agentTokenHash n) \<and> agentTokenHashMatches providedHash (the (n_agentTokenHash n))
          then if (case n_pendingAgentTokenExpiresAt n of None \<Rightarrow> False | Some t \<Rightarrow> t \<le> e_now e)
               then saveNode e n (n\<lparr>n_pendingAgentTokenHash := None, n_pendingAgentTokenExpiresAt := None\<rparr>)
               else ret n
          else if truthy (n_pendingAgentTokenHash n) \<and>
                  (case n_pendingAgentTokenExpiresAt n of None \<Rightarrow> False | Some t \<Rightarrow> e_now e < t) \<and>
                  agentTokenHashMatches providedHash (the (n_pendingAgentTokenHash n))
          then saveNode e n (n\<lparr>n_agentTokenHash := n_pendingAgentTokenHash n, n_pendingAgentTokenHash := None,
                 n_pendingAgentTokenExpiresAt := None, n_agentTokenRotatedAt := Some (e_now e),
                 n_agentTokenRevokedAt := None\<rparr>)
          else throw (Unauthorized ''Invalid agent token'')))"

definition updateNodes :: "string \<Rightarrow> (node \<Rightarrow> node) \<Rightarrow> unit op" where
  "updateNodes nodeId f = writeE (\<lambda>s. s\<lparr>nodes := update_rows (\<lambda>n. n_id n = nodeId) f (nodes s)\<rparr>)"

definition stage_node :: "env \<Rightarrow> string \<Rightarrow> node \<Rightarrow> node" where
  "stage_node e tok r = r\<lparr>n_pendingAgentTokenHash := Some (hashAgentToken e tok),
     n_pendingAgentTokenExpiresAt := Some (e_now e + AGENT_TOKEN_ROTATION_PENDING_MS),
     n_agentTokenRevokedAt := None, n_updatedAt := e_now e\<rparr>"

definition stageAgentTokenRotation ::
  "env \<Rightarrow> string \<Rightarrow> string option \<Rightarrow> actor \<Rightarrow> audit_context option \<Rightarrow> (node \<times> string \<times> int) op" where
  "stageAgentTokenRotation e nodeId workspaceId u ctx =
     bindE (administeredNode nodeId workspaceId u) (\<lambda>n.
     bindE (guardE (n_status n = ONLINE)
              (BadRequest (''Node '' @ n_hostname n @ '' must be online before rotating its agent token.''))) (\<lambda>_.
     bindE (fresh_token e) (\<lambda>agentToken.
       let expiresAt = e_now e + AGENT_TOKEN_ROTATION_PENDING_MS
       in
       bindE (updateNodes (n_id n) (stage_node e agentToken)) (\<lambda>_.
       bindE (recordAudit e (node_audit (n_workspaceId n) ''node.agent-token.rotate.requested'' (n_id n)
                (Some (n_hostname n)) None
                (Some [(''nodeId'', JStr (n_id n)), (''pendingExpiresAt'', JStr (toISOString expiresAt))])) ctx) (\<lambda>_.
       bindE (nodes_findOneOrFail (n_id n) (Some (n_workspaceId n))) (\<lambda>(saved, _).
       ret (saved, agentToken, expiresAt)))))))"

definition clearPendingAgentTokenRotation :: "env \<Rightarrow> string \<Rightarrow> unit op" where
  "clearPendingAgentTokenRotation e nodeId =
     updateNodes nodeId (\<lambda>r. r\<lparr>n_pendingAgentTokenHash := None, n_pendingAgentTokenExpiresAt := None,
       n_updatedAt := e_now e\<rparr>)"

definition revoke_node :: "env \<Rightarrow> node \<Rightarrow> node" where
  "revoke_node e r = r\<lparr>n_agentTokenHash := None, n_pendingAgentTokenHash := None, n_pendingAgentTokenExpiresAt := None,
     n_agentTokenRevokedAt := Some (e_now e), n_status := OFFLINE, n_updatedAt := e_now e\<rparr>"

definition revokeAgentToken ::
  "env \<Rightarrow> string \<Rightarrow> string option \<Rightarrow> actor \<Rightarrow> audit_context option \<Rightarrow> node op" where
  "revokeAgentToken e nodeId workspaceId u ctx =
     bindE (administeredNode nodeId workspaceId u) (\<lambda>n.
     bindE (updateNodes (n_id n) (revoke_node e)) (\<lambda>_.
     bindE (nodes_findOneOrFail (n_id n) (Some (n_workspaceId n))) (\<lambda>(saved, _).
     bindE (recordAudit e (node_audit (n_workspaceId n) ''node.agent-token.revoked'' (n_id n) (Some (n_hostname n)) None
              (Some [(''nodeId'', JStr (n_id n)), (''revokedAt'', JStr (toISOString (e_now e)))])) ctx) (\<lambda>_.
     bindE (broadcastStatusUpdate e saved) (\<lambda>_.
     ret saved)))))"

section \<open>Online and offline\<close>

definition report_versions :: "env \<Rightarrow> agent_info option \<Rightarrow> node \<Rightarrow> node" where
  "report_versions e updates n =
     (case updates of None \<Rightarrow> n
      | Some info \<Rightarrow>
          (if reports_version info
           then n\<lparr>n_agentVersion := ag_agentVersion info, n_platformVersion := ag_platformVersion info,
                  n_kernelVersion := ag_kernelVersion info, n_lastVersionReportedAt := Some (e_now e)\<rparr>
           else n))"

definition orTruthy :: "string option \<Rightarrow> string option \<Rightarrow> string option" where
  "orTruthy new old = (if truthy new then new else old)"

text \<open>The row of a node that was offline, and of one that was online already.\<close>

definition awake_node :: "env \<Rightarrow> agent_info option \<Rightarrow> node \<Rightarrow> node" where
  "awake_node e updates n = applyLocationPatch (Option.bind updates ag_location) (e_now e)
     (report_versions e updates (n\<lparr>n_status := ONLINE, n_lastSeenAt := Some (e_now e), n_updatedAt := e_now e\<rparr>))"

definition refresh_online :: "env \<Rightarrow> agent_info option \<Rightarrow> node \<Rightarrow> node" where
  "refresh_online e updates n =
     (let n1 = n\<lparr>n_status := ONLINE, n_lastSeenAt := Some (e_now e)\<rparr>;
          n2 = (case updates of None \<Rightarrow> n1
                | Some info \<Rightarrow>
                    n1\<lparr>n_agentVersion := orTruthy (ag_agentVersion info) (n_agentVersion n1),
                       n_platformVersion := orTruthy (ag_platformVersion info) (n_platformVersion n1),
                       n_kernelVersion := orTruthy (ag_kernelVersion info) (n_kernelVersion n1)\<rparr>);
          n3 = applyLocationPatch (Option.bind updates ag_location) (e_now e) n2
      in case updates of None \<Rightarrow> n3
         | Some info \<Rightarrow> if reports_version info then n3\<lparr>n_lastVersionReportedAt := Some (e_now e)\<rparr> else n3)"

definition markOnline :: "env \<Rightarrow> string \<Rightarrow> agent_info option \<Rightarrow> (node_view \<times> bool) op" where
  "markOnline e nodeId updates =
     (let offline = (\<lambda>n. n_id n = nodeId \<and> n_status n = OFFLINE)
      in
      bindE (readE (\<lambda>s. count_rows offline (nodes s))) (\<lambda>affected.
      bindE (writeE (\<lambda>s. s\<lparr>nodes := update_rows offline
               (awake_node e updates) (nodes s)\<rparr>)) (\<lambda>_.
      if affected \<noteq> 0 then bindE (nodes_findOneOrFail nodeId None) (\<lambda>v. ret (v, True))
      else
        bindE (findE nodes (\<lambda>n. n_id n = nodeId) (NotFound (''Node '' @ nodeId @ '' was not found''))) (\<lambda>n.
          bindE (saveNode e n (refresh_online e updates n)) (\<lambda>n'. bindE (populateNode n') (\<lambda>v. ret (v, False)))))))"

definition touchOnline :: "env \<Rightarrow> string \<Rightarrow> node_view op" where
  "touchOnline e nodeId = bindE (markOnline e nodeId None) (\<lambda>(v, _). ret v)"

definition markOffline :: "env \<Rightarrow> string \<Rightarrow> (node_view \<times> bool) op" where
  "markOffline e nodeId =
     (let online = (\<lambda>n. n_id n = nodeId \<and> n_status n = ONLINE)
      in
      bindE (readE (\<lambda>s. count_rows online (nodes s))) (\<lambda>affected.
      bindE (writeE (\<lambda>s. s\<lparr>nodes := update_rows online
               (\<lambda>n. n\<lparr>n_status := OFFLINE, n_updatedAt := e_now e\<rparr>) (nodes s)\<rparr>)) (\<lambda>_.
      bindE (nodes_findOneOrFail nodeId None) (\<lambda>(n, teamName).
        if affected \<noteq> 0 then ret ((n, teamName), True)
        else if n_status n \<noteq> OFFLINE
        then bindE (saveNode e n (n\<lparr>n_status := OFFLINE, n_updatedAt := e_now e\<rparr>)) (\<lambda>n'. ret ((n', teamName), False))
        else ret ((n, teamName), False)))))"

definition stale :: "env \<Rightarrow> node \<Rightarrow> bool" where
  "stale e n \<longleftrightarrow>
     n_status n = ONLINE \<and>
     (case n_lastSeenAt n of None \<Rightarrow> False | Some t \<Rightarrow> t < e_now e - e_heartbeatTimeoutSeconds e * 1000)"

definition offline_node :: "env \<Rightarrow> node \<Rightarrow> node" where
  "offline_node e n = n\<lparr>n_status := OFFLINE, n_updatedAt := e_now e\<rparr>"

definition announce_offline :: "env \<Rightarrow> node \<Rightarrow> unit op" where
  "announce_offline e n =
     bindE (recordEvent e None (Some (n_id n)) ''node.offline'' (Some WARNING)
              (''Node '' @ getNodeLabel n @ '' was marked offline after missing heartbeats for more than '' @
                 show_int (e_heartbeatTimeoutSeconds e) @ '' seconds'')
              (Some [(''heartbeatTimeoutSeconds'', JNum (e_heartbeatTimeoutSeconds e)),
                     (''lastSeenAt'', jtime_opt (n_lastSeenAt n))])) (\<lambda>_.
     broadcastStatusUpdate e n)"

definition markStaleNodesOffline :: "env \<Rightarrow> nat op" where
  "markStaleNodesOffline e =
     bindE (readE (\<lambda>s. map (offline_node e) (filter (stale e) (nodes s)))) (\<lambda>offlineNodes.
     bindE (writeE (\<lambda>s. s\<lparr>nodes := update_rows (stale e) (offline_node e) (nodes s)\<rparr>)) (\<lambda>_.
     bindE (forE (announce_offline e) offlineNodes) (\<lambda>_.
     ret (length offlineNodes))))"

definition grant_due :: "env \<Rightarrow> node \<Rightarrow> bool" where
  "grant_due e n \<longleftrightarrow>
     n_rootAccessProfile n \<noteq> RA_OFF \<and>
     (case n_rootAccessExpiresAt n of None \<Rightarrow> False | Some t \<Rightarrow> t \<le> e_now e)"

definition system_context :: "audit_context option" where
  "system_context = Some \<lparr>ac_actorType = Some ''system'', ac_actorUserId = None, ac_actorEmailSnapshot = None,
     ac_ipAddress = None, ac_userAgent = None\<rparr>"

definition expire_one :: "env \<Rightarrow> node \<Rightarrow> unit op" where
  "expire_one e n =
     bindE (saveNode e n (withdraw_root e None n)) (\<lambda>saved.
     bindE (recordAudit e (node_audit (n_workspaceId saved) ''node.root-access.expired'' (n_id saved)
              (Some (n_hostname saved)) None
              (Some [(''nodeId'', JStr (n_id saved)),
                     (''previousProfile'', JStr (root_profile_str (n_rootAccessProfile n))),
                     (''previousGrantId'', jstr_opt (n_rootAccessGrantId n)),
                     (''expiredAt'', JStr (toISOString (e_now e)))])) system_context) (\<lambda>_.
     broadcastRootAccessUpdate e saved))"

definition expireRootAccessGrants :: "env \<Rightarrow> nat op" where
  "expireRootAccessGrants e =
     bindE (readE (\<lambda>s. filter (grant_due e) (nodes s))) (\<lambda>expiredNodes.
     bindE (forE (expire_one e) expiredNodes) (\<lambda>_.
     ret (length expiredNodes)))"

section \<open>Lemmas\<close>

subsection \<open>Reads and outputs\<close>

lemma populateTeamMetadata_quiet [quiet_rules, simp]: "quiet (populateTeamMetadata ns)"
  unfolding populateTeamMetadata_def Let_def by (intro quiet_rules)

lemma populateNode_quiet [quiet_rules, simp]: "quiet (populateNode n)"
  unfolding populateNode_def by (intro quiet_rules)

lemma nodes_findOneOrFail_quiet [quiet_rules, simp]: "quiet (nodes_findOneOrFail i w)"
  unfolding nodes_findOneOrFail_def by (intro quiet_rules)

lemma requestedTeam_quiet [quiet_rules, simp]: "quiet (requestedTeam w t)"
  unfolding requestedTeam_def by (intro quiet_rules)

lemma administeredNode_quiet [quiet_rules, simp]: "quiet (administeredNode i w u)"
  unfolding administeredNode_def by (intro quiet_rules)

lemma assertHostnameAvailable_quiet [quiet_rules, simp]: "quiet (assertHostnameAvailable h)"
  unfolding assertHostnameAvailable_def by (intro quiet_rules)

lemma getDefaultWorkspaceOrFail_quiet [quiet_rules, simp]: "quiet getDefaultWorkspaceOrFail"
  by (simp add: getDefaultWorkspaceOrFail_def quiet_def split: list.split)

lemma output_broadcasts [output_rules, simp]:
  "outputs (broadcastStatusUpdate e n)" "outputs (broadcastRootAccessUpdate e n)"
  unfolding broadcastStatusUpdate_def broadcastRootAccessUpdate_def by (intro output_rules)+

lemmas node_output [output_rules] = output_quiet[OF populateNode_quiet] output_quiet[OF nodes_findOneOrFail_quiet]

lemmas leads_node_reads [leads_rules] =
  leads_quiet[OF populateNode_quiet] leads_quiet[OF nodes_findOneOrFail_quiet]
  leads_after_quiet[OF populateNode_quiet] leads_after_quiet[OF requestedTeam_quiet]
  leads_after_quiet[OF getDefaultWorkspaceOrFail_quiet]
  leads_output[OF _ output_broadcasts(1)] leads_output[OF _ output_broadcasts(2)]
  leads_after_output[OF _ output_broadcasts(1)] leads_after_output[OF _ output_broadcasts(2)]

text \<open>A single node is shown with the name of its team, if it has one.\<close>

lemma populateNode_eq:
  "populateNode n s =
     (if truthy (n_teamId n)
      then case find_row (\<lambda>t. tm_id t = the (n_teamId n) \<and> tm_workspaceId t = n_workspaceId n) (teams s) of
             None \<Rightarrow> (Inl (NotFound (''Team '' @ the (n_teamId n) @ '' was not found'')), s)
           | Some t \<Rightarrow> (Inr (n, Some (tm_name t)), s)
      else (Inr (n, None), s))"
proof (cases "truthy (n_teamId n)")
  case True
  then obtain i where i: "n_teamId n = Some i" "i \<noteq> []" by (auto simp: truthy_def)
  have ids: "uniq [i] = [i]" by (simp add: uniq_def)
  have self: "find_row (\<lambda>n. n_teamId n = Some i) [n] = Some n" using i by (simp add: find_row_def)
  show ?thesis
    using i by (simp add: populateNode_def populateTeamMetadata_def ids self Let_def findTeamOrFail_def
        List.map_filter_simps split: option.split) (auto simp: bindE_def List.map_filter_simps dest: find_row_Some)
qed (auto simp: populateNode_def populateTeamMetadata_def truthy_def uniq_def List.map_filter_simps)

lemma populateNode_Inr: "outcome (populateNode n) s = Inr v \<Longrightarrow> fst v = n"
  by (auto simp: populateNode_eq split: if_splits option.splits)

lemma findOne_Inr:
  assumes "outcome (nodes_findOneOrFail i w) s = Inr v"
  shows "fst v \<in> set (nodes s)" "n_id (fst v) = i" "truthy w \<Longrightarrow> n_workspaceId (fst v) = the w"
  using assms
  by (auto simp: nodes_findOneOrFail_def if_given_def split: option.splits dest!: populateNode_Inr find_row_Some)

lemma administeredNode_Inr:
  assumes "outcome (administeredNode i w u) s = Inr n"
  shows "n \<in> set (nodes s)" "n_id n = i" "may_administer s u (n_workspaceId n)" "writable s (n_workspaceId n)"
proof -
  have q: "after (nodes_findOneOrFail i w) s = s" by simp
  obtain v where v: "nodes_findOneOrFail i w s = (Inr v, s)"
    using assms q by (cases "nodes_findOneOrFail i w s"; cases "outcome (nodes_findOneOrFail i w) s")
      (auto simp: administeredNode_def bindE_def)
  let ?w = "n_workspaceId (fst v)"
  have run: "administeredNode i w u s =
      bindE (assertWorkspaceAdmin ?w u) (\<lambda>_. bindE (assertWorkspaceWritable ?w) (\<lambda>_. ret (fst v))) s"
    unfolding administeredNode_def bindE_Inr[where m = "nodes_findOneOrFail i w" and s = s, OF v] by (cases v) simp
  have may: "may_administer s u ?w" using assms run by (auto split: if_splits)
  have wr: "writable s ?w"
    using assms run may assertWorkspaceWritable_run(2)[of s ?w "\<lambda>_. ret (fst v)"] by fastforce
  have "n = fst v" using assms run may wr by (simp add: assertWorkspaceWritable_run(1))
  then show "n \<in> set (nodes s)" "n_id n = i" "may_administer s u (n_workspaceId n)" "writable s (n_workspaceId n)"
    using v may wr findOne_Inr[of i w s v] by simp_all
qed

text \<open>Handlers that start by reading a node and go on from it.\<close>

lemma leads_findOne:
  assumes "\<And>s. P s \<Longrightarrow> Q s" "\<And>n t. leads (\<lambda>s. P s \<and> n \<in> set (nodes s)) (f n t) Q"
  shows "leads P (bindE (nodes_findOneOrFail i w) (case_prod f)) Q"
proof (rule leads_outcome)
  show "leads (\<lambda>s. P s \<and> outcome (nodes_findOneOrFail i w) s = Inr v) (case_prod f v) Q" for v
    by (cases v) (auto intro!: leads_weaken[OF assms(2)] dest: findOne_Inr(1))
qed (simp_all add: assms(1))

lemma leads_administered:
  assumes "\<And>s. P s \<Longrightarrow> Q s" "\<And>n. leads (\<lambda>s. P s \<and> n \<in> set (nodes s)) (f n) Q"
  shows "leads P (bindE (administeredNode i w u) f) Q"
proof (rule leads_outcome)
  show "leads (\<lambda>s. P s \<and> outcome (administeredNode i w u) s = Inr n) (f n) Q" for n
    by (rule leads_weaken[OF assms(2)[of n]]) (auto dest: administeredNode_Inr(1))
qed (simp_all add: assms(1))

subsection \<open>The invariant of the node table\<close>

text \<open>
  Identifiers were drawn and hostnames are unique. A node with a root profile has an expiry date, a
  reason and a grant; one without has none of them. A staged token has an expiry date. A node out
  of maintenance carries no maintenance data.
\<close>

definition grant_ok :: "node \<Rightarrow> bool" where
  "grant_ok n \<longleftrightarrow>
     (if n_rootAccessProfile n = RA_OFF
      then n_rootAccessExpiresAt n = None \<and> n_rootAccessReason n = None \<and> n_rootAccessGrantedByUserId n = None \<and>
           n_rootAccessGrantId n = None
      else n_rootAccessExpiresAt n \<noteq> None \<and> n_rootAccessReason n \<noteq> None \<and> n_rootAccessGrantedByUserId n \<noteq> None \<and>
           n_rootAccessGrantId n \<noteq> None)"

definition token_ok :: "node \<Rightarrow> bool" where
  "token_ok n \<longleftrightarrow> (n_pendingAgentTokenHash n = None) = (n_pendingAgentTokenExpiresAt n = None)"

definition maintenance_ok :: "node \<Rightarrow> bool" where
  "maintenance_ok n \<longleftrightarrow>
     (if n_maintenanceMode n then n_maintenanceStartedAt n \<noteq> None \<and> n_maintenanceByUserId n \<noteq> None
      else n_maintenanceReason n = None \<and> n_maintenanceStartedAt n = None \<and> n_maintenanceByUserId n = None)"

definition node_ok :: "node \<Rightarrow> bool" where
  "node_ok n \<longleftrightarrow> grant_ok n \<and> token_ok n \<and> maintenance_ok n"

lemmas node_ok_defs = node_ok_def grant_ok_def token_ok_def maintenance_ok_def

definition nodes_inv :: "(nat \<Rightarrow> string) \<Rightarrow> db \<Rightarrow> bool" where
  "nodes_inv u s \<longleftrightarrow> drawn_ids u (drawn s) (map n_id (nodes s)) \<and> distinct (map n_hostname (nodes s)) \<and>
     (\<forall>n \<in> set (nodes s). node_ok n)"

lemma nodes_inv_stable: "stable (nodes_inv u)"
  by (rule stableI) (metis nodes_inv_def core_eqD(6) drawn_ids_Suc)

lemma nodes_inv_reading: "stable (\<lambda>s. nodes_inv u s \<and> n \<in> set (nodes s))"
  by (intro stable_conj nodes_inv_stable stable_nodes)

lemma nodes_inv_rows:
  "nodes_inv u s \<Longrightarrow> map n_id ns = map n_id (nodes s) \<Longrightarrow> map n_hostname ns = map n_hostname (nodes s) \<Longrightarrow>
     (\<And>n. n \<in> set ns \<Longrightarrow> node_ok n) \<Longrightarrow> nodes_inv u (s\<lparr>nodes := ns\<rparr>)"
  by (simp add: nodes_inv_def)

lemma nodes_inv_update:
  assumes "nodes_inv u s" "\<And>n. n_id (f n) = n_id n \<and> n_hostname (f n) = n_hostname n"
    "\<And>n. node_ok n \<Longrightarrow> node_ok (f n)"
  shows "nodes_inv u (s\<lparr>nodes := update_rows p f (nodes s)\<rparr>)"
  using assms by (intro nodes_inv_rows) (auto simp: map_update_rows set_update_rows nodes_inv_def)

lemma nodes_inv_delete: "nodes_inv u s \<Longrightarrow> nodes_inv u (s\<lparr>nodes := delete_rows p (nodes s), scheduled_tasks := X\<rparr>)"
  by (auto simp: nodes_inv_def drawn_ids_filter)

lemma nodes_inv_save:
  assumes inv: "nodes_inv u s" "n \<in> set (nodes s)"
    and same: "n_id n' = n_id n" "n_hostname n' = n_hostname n" and ok: "node_ok n'"
  shows "nodes_inv u (s\<lparr>nodes := save_row n_id n' (nodes s)\<rparr>)"
proof (rule nodes_inv_rows)
  have d: "distinct (map n_id (nodes s))" using inv(1) by (simp add: nodes_inv_def drawn_ids_def)
  show "map n_id (save_row n_id n' (nodes s)) = map n_id (nodes s)"
    by (rule save_row_map[OF d inv(2)]) (simp_all add: same)
  show "map n_hostname (save_row n_id n' (nodes s)) = map n_hostname (nodes s)"
    by (rule save_row_map[OF d inv(2)]) (simp_all add: same)
  show "node_ok x" if "x \<in> set (save_row n_id n' (nodes s))" for x
    using that ok inv(1) by (auto simp: set_save_row nodes_inv_def)
qed (rule inv)

lemma node_ok_fields [simp]:
  "node_ok (n\<lparr>n_status := a\<rparr>) = node_ok n" "node_ok (n\<lparr>n_lastSeenAt := b\<rparr>) = node_ok n"
  "node_ok (n\<lparr>n_updatedAt := c\<rparr>) = node_ok n"
  by (simp_all add: node_ok_defs)

lemma node_ok_touched [simp]:
  "node_ok (touched (\<lambda>t r. r\<lparr>n_updatedAt := t\<rparr>) now old new) = node_ok new"
  "n_id (touched (\<lambda>t r. r\<lparr>n_updatedAt := t\<rparr>) now old new) = n_id new"
  "n_hostname (touched (\<lambda>t r. r\<lparr>n_updatedAt := t\<rparr>) now old new) = n_hostname new"
  by (simp_all add: touched_def node_ok_defs)

lemma touched_fields [simp]:
  "n_teamId (touched (\<lambda>t r. r\<lparr>n_updatedAt := t\<rparr>) now old new) = n_teamId new"
  "n_rootAccessProfile (touched (\<lambda>t r. r\<lparr>n_updatedAt := t\<rparr>) now old new) = n_rootAccessProfile new"
  "n_rootAccessAppliedProfile (touched (\<lambda>t r. r\<lparr>n_updatedAt := t\<rparr>) now old new) = n_rootAccessAppliedProfile new"
  "n_rootAccessExpiresAt (touched (\<lambda>t r. r\<lparr>n_updatedAt := t\<rparr>) now old new) = n_rootAccessExpiresAt new"
  "n_rootAccessReason (touched (\<lambda>t r. r\<lparr>n_updatedAt := t\<rparr>) now old new) = n_rootAccessReason new"
  "n_workspaceId (touched (\<lambda>t r. r\<lparr>n_updatedAt := t\<rparr>) now old new) = n_workspaceId new"
  "n_agentTokenHash (touched (\<lambda>t r. r\<lparr>n_updatedAt := t\<rparr>) now old new) = n_agentTokenHash new"
  "n_pendingAgentTokenHash (touched (\<lambda>t r. r\<lparr>n_updatedAt := t\<rparr>) now old new) = n_pendingAgentTokenHash new"
  "n_pendingAgentTokenExpiresAt (touched (\<lambda>t r. r\<lparr>n_updatedAt := t\<rparr>) now old new) = n_pendingAgentTokenExpiresAt new"
  "n_status (touched (\<lambda>t r. r\<lparr>n_updatedAt := t\<rparr>) now old new) = n_status new"
  "n_lastSeenAt (touched (\<lambda>t r. r\<lparr>n_updatedAt := t\<rparr>) now old new) = n_lastSeenAt new"
  by (simp_all add: touched_def)

lemma applyLocationPatch_simps [simp]:
  "node_ok (applyLocationPatch l t n) = node_ok n" "n_id (applyLocationPatch l t n) = n_id n"
  "n_hostname (applyLocationPatch l t n) = n_hostname n" "n_status (applyLocationPatch l t n) = n_status n"
  "n_lastSeenAt (applyLocationPatch l t n) = n_lastSeenAt n"
  by (simp_all add: applyLocationPatch_def node_ok_defs split: option.split)

lemma report_versions_simps [simp]:
  "node_ok (report_versions e x n) = node_ok n" "n_id (report_versions e x n) = n_id n"
  "n_hostname (report_versions e x n) = n_hostname n" "n_status (report_versions e x n) = n_status n"
  "n_lastSeenAt (report_versions e x n) = n_lastSeenAt n"
  by (simp_all add: report_versions_def node_ok_defs split: option.split)

lemma refresh_online_simps [simp]:
  "node_ok (refresh_online e x n) = node_ok n" "n_id (refresh_online e x n) = n_id n"
  "n_hostname (refresh_online e x n) = n_hostname n" "n_status (refresh_online e x n) = ONLINE"
  "n_lastSeenAt (refresh_online e x n) = Some (e_now e)"
  by (simp_all add: refresh_online_def Let_def applyLocationPatch_def node_ok_defs split: option.split)

lemma reregister_node_simps [simp]:
  "node_ok n \<Longrightarrow> node_ok (reregister_node e os arch hash info n)"
  "n_id (reregister_node e os arch hash info n) = n_id n"
  "n_hostname (reregister_node e os arch hash info n) = n_hostname n"
  unfolding reregister_node_def applyLocationPatch_simps by (simp_all add: node_ok_defs)

lemma blank_node_simps [simp]:
  "node_ok (blank_node e i w nm d h os a t)" "n_id (blank_node e i w nm d h os a t) = i"
  "n_hostname (blank_node e i w nm d h os a t) = h"
  by (simp_all add: blank_node_def node_ok_defs)

text \<open>Saving a changed row that was read before, and going on with output only.\<close>

lemma saveNode_leads:
  assumes "node_ok n \<Longrightarrow> node_ok n'" "n_id n' = n_id n" "n_hostname n' = n_hostname n"
  shows "leads (\<lambda>s. nodes_inv u s \<and> n \<in> set (nodes s)) (saveNode e n n') (nodes_inv u)"
proof -
  have "nodes_inv u (s\<lparr>nodes := save_row n_id (touched (\<lambda>t r. r\<lparr>n_updatedAt := t\<rparr>) (e_now e) n n') (nodes s)\<rparr>)"
    if s: "nodes_inv u s" "n \<in> set (nodes s)" for s
    using s assms by (intro nodes_inv_save) (auto simp: nodes_inv_def)
  then show ?thesis by (simp add: saveNode_def Let_def leads_def)
qed

lemma save_then_output:
  assumes "node_ok n \<Longrightarrow> node_ok n'" "n_id n' = n_id n" "n_hostname n' = n_hostname n" "\<And>x. outputs (f x)"
  shows "leads (\<lambda>s. nodes_inv u s \<and> n \<in> set (nodes s)) (bindE (saveNode e n n') f) (nodes_inv u)"
proof (rule leads_seq[where R = "nodes_inv u"])
  show "leads (\<lambda>s. nodes_inv u s \<and> n \<in> set (nodes s)) (saveNode e n n') (nodes_inv u)"
    by (rule saveNode_leads) (use assms in auto)
  show "leads (nodes_inv u) (f x) (nodes_inv u)" for x
    by (rule leads_output[OF nodes_inv_stable]) (simp_all add: assms(4))
qed

subsection \<open>Every operation keeps it\<close>

text \<open>A new node: the hostname was checked and the identifier is new.\<close>

lemma fresh_insert_leads:
  assumes inj: "inj u" and e: "e_uuid e = u"
    and mk: "\<And>i. node_ok (mk i)" "\<And>i. n_id (mk i) = i" "\<And>i. n_hostname (mk i) = h"
  shows "leads (\<lambda>s. nodes_inv u s \<and> h \<notin> n_hostname ` set (nodes s))
           (bindE (fresh_id e) (\<lambda>i. insertNode (mk i))) (nodes_inv u)"
  unfolding leads_def
proof (intro allI impI)
  fix s assume s: "nodes_inv u s \<and> h \<notin> n_hostname ` set (nodes s)"
  let ?n = "mk (u (drawn s))"
  have "nodes_inv u (s\<lparr>drawn := Suc (drawn s), nodes := nodes s @ [?n]\<rparr>)"
    using s mk drawn_ids_fresh(2)[of u "drawn s" "map n_id (nodes s)" "drawn s" "Suc (drawn s)"] inj
    by (auto simp: nodes_inv_def)
  moreover have "after (insertNode ?n) t = t\<lparr>nodes := nodes t @ [?n]\<rparr>" for t
    by (simp add: insertNode_def)
  ultimately show "nodes_inv u (after (bindE (fresh_id e) (\<lambda>i. insertNode (mk i))) s)"
    by (simp add: e)
qed

lemma leads_hostname:
  assumes "\<And>s. P s \<Longrightarrow> Q s" "leads (\<lambda>s. P s \<and> h \<notin> n_hostname ` set (nodes s)) (f ()) Q"
  shows "leads P (bindE (assertHostnameAvailable h) f) Q"
  using assms by (auto simp: leads_def assertHostnameAvailable_def find_row_None image_iff)

lemma leads_writable_of:
  "(\<And>s. P s \<Longrightarrow> Q s) \<Longrightarrow> (\<And>w. leads P (f w) Q) \<Longrightarrow>
     leads P (bindE (if c then assertWorkspaceWritable i
        else bindE getDefaultWorkspaceOrFail (\<lambda>w. assertWorkspaceWritable (w_id w))) f) Q"
  by (rule leads_after_quiet) (auto intro!: quiet_rules)

lemma createNode_inv: "inj u \<Longrightarrow> e_uuid e = u \<Longrightarrow> keeps (nodes_inv u) (createNode e dto w)"
  unfolding leads_keeps createNode_def
  by (intro leads_hostname leads_writable_of leads_node_reads fresh_insert_leads) simp_all

lemma createFromEnrollment_inv:
  "inj u \<Longrightarrow> e_uuid e = u \<Longrightarrow> keeps (nodes_inv u) (createFromEnrollment e w t nm d h os arch hash info)"
  unfolding leads_keeps createFromEnrollment_def
  by (intro leads_hostname leads_workspace_checks leads_node_reads fresh_insert_leads)
    (simp_all add: blank_node_def node_ok_defs)

lemma upsertFromAgentRegistration_inv:
  assumes "inj u" "e_uuid e = u"
  shows "keeps (nodes_inv u) (upsertFromAgentRegistration e h os arch hash info)"
  unfolding leads_keeps upsertFromAgentRegistration_def
proof (intro leads_after_read leads_case_option, goal_cases)
  case (1 x)
  have reg: "leads (\<lambda>s. nodes_inv u s \<and> h \<notin> n_hostname ` set (nodes s)) (bindE getDefaultWorkspaceOrFail (\<lambda>w.
      bindE (fresh_id e) (\<lambda>i. insertNode (mk w i)))) (nodes_inv u)"
    if "\<And>w i. node_ok (mk w i)" "\<And>w i. n_id (mk w i) = i" "\<And>w i. n_hostname (mk w i) = h" for mk
    by (intro leads_node_reads fresh_insert_leads[OF assms]) (simp_all add: that)
  show ?case
    by (rule leads_weaken[OF reg]) (use 1 in \<open>auto simp: blank_node_def node_ok_defs find_row_None eq_commute[of None]\<close>)
next
  case (2 x n)
  show ?case
    by (rule leads_weaken[OF save_then_output[where n = n]])
      (use 2 in \<open>auto intro: output_rules dest: find_row_Some[OF sym]\<close>)
qed

lemma deleteNode_inv: "keeps (nodes_inv u) (deleteNode e i w ctx)"
  unfolding leads_keeps deleteNode_def
  by (intro leads_findOne leads_workspace_checks leads_after_write[where R = "nodes_inv u"] leads_outputs leads_quiet_prims
      nodes_inv_stable) (simp_all add: nodes_inv_delete)

text \<open>The operator actions.\<close>

lemmas admin_leads = leads_administered leads_case_prod leads_if leads_node_reads save_then_output output_rules

lemma updateTeamAssignment_inv: "keeps (nodes_inv u) (updateTeamAssignment e i w a t ctx)"
  unfolding leads_keeps updateTeamAssignment_def
  by (intro admin_leads) (simp_all add: node_ok_defs)

lemma maintenance_inv:
  "keeps (nodes_inv u) (enableMaintenance e i w a r ctx)" "keeps (nodes_inv u) (disableMaintenance e i w a ctx)"
  unfolding leads_keeps enableMaintenance_def disableMaintenance_def
  by (intro admin_leads; simp add: node_ok_defs)+

lemma updateNotificationSettings_inv: "keeps (nodes_inv u) (updateNotificationSettings e i w a dto ctx)"
  unfolding leads_keeps updateNotificationSettings_def Let_def
  by (intro admin_leads leads_quiet_prims) (simp_all add: node_ok_defs)

lemma root_changes_ok [simp]:
  "node_ok n \<Longrightarrow> node_ok (withdraw_root e b n)" "n_id (withdraw_root e b n) = n_id n"
  "n_hostname (withdraw_root e b n) = n_hostname n"
  "node_ok n \<Longrightarrow> p \<noteq> RA_OFF \<Longrightarrow> node_ok (grant_root e a p d r g n)" "n_id (grant_root e a p d r g n) = n_id n"
  "n_hostname (grant_root e a p d r g n) = n_hostname n"
  "n_teamId (grant_root e a p d r g n) = n_teamId n" "n_workspaceId (grant_root e a p d r g n) = n_workspaceId n"
  by (simp_all add: withdraw_root_def grant_root_def node_ok_defs)

lemma leads_save_grant:
  assumes "\<And>x. outputs (f x)"
  shows "leads (\<lambda>s. nodes_inv u s \<and> n \<in> set (nodes s))
    (bindE (if p = RA_OFF then ret (withdraw_root e b n)
            else bindE (fresh_id e) (\<lambda>g. ret (grant_root e a p d r g n))) (\<lambda>changed. bindE (saveNode e n changed) f)) (nodes_inv u)"
  by (cases "p = RA_OFF")
    (simp_all, (intro leads_after_output[OF nodes_inv_reading] save_then_output assms output_rules; simp)+)

lemma output_reportRootAccessChange [output_rules, simp]: "outputs (reportRootAccessChange e d m ctx n n')"
  unfolding reportRootAccessChange_def by (intro output_rules)

lemma reportRootAccessChange_Inr: "reportRootAccessChange e d m ctx n n' s = (Inr r, t) \<Longrightarrow> r = n'"
  by (auto simp: reportRootAccessChange_def bindE_success dest: populateNode_Inr[of n' s, simplified fst_conv] split: prod.splits)
    (metis fst_conv populateNode_Inr)

lemma updateRootAccessProfile_inv: "keeps (nodes_inv u) (updateRootAccessProfile e i w a dto ctx)"
  unfolding leads_keeps updateRootAccessProfile_def Let_def
  by (intro leads_administered leads_quiet_prims leads_save_grant output_rules) simp_all

lemma recordAgentRootAccessState_inv: "keeps (nodes_inv u) (recordAgentRootAccessState e i rep)"
  unfolding leads_keeps recordAgentRootAccessState_def Let_def
  by (intro leads_rules leads_findOne save_then_output output_rules) (simp_all add: node_ok_defs)

lemma authenticateAgent_inv: "keeps (nodes_inv u) (authenticateAgent e i tok)"
  unfolding leads_keeps authenticateAgent_def Let_def
  by (intro leads_find leads_rules leads_weaken[OF saveNode_leads]) (auto simp: node_ok_defs)

lemma updateNodes_leads:
  assumes "\<And>n. n_id (f n) = n_id n \<and> n_hostname (f n) = n_hostname n" "\<And>n. node_ok n \<Longrightarrow> node_ok (f n)"
    and "\<And>s. P s \<Longrightarrow> nodes_inv u s"
  shows "leads P (updateNodes i f) (nodes_inv u)"
  using assms by (auto simp: leads_def updateNodes_def intro: nodes_inv_update)

lemma update_then_output:
  assumes "\<And>n. n_id (f n) = n_id n \<and> n_hostname (f n) = n_hostname n" "\<And>n. node_ok n \<Longrightarrow> node_ok (f n)"
    and "\<And>s. P s \<Longrightarrow> nodes_inv u s" "\<And>x. outputs (g x)"
  shows "leads P (bindE (updateNodes i f) g) (nodes_inv u)"
  by (rule leads_seq[where R = "nodes_inv u"], rule updateNodes_leads[OF assms(1,2,3)])
    (auto intro: leads_output[OF nodes_inv_stable] assms(4))

lemma token_inv:
  "keeps (nodes_inv u) (stageAgentTokenRotation e i w a ctx)"
  "keeps (nodes_inv u) (clearPendingAgentTokenRotation e i)"
  "keeps (nodes_inv u) (revokeAgentToken e i w a ctx)"
  unfolding leads_keeps stageAgentTokenRotation_def clearPendingAgentTokenRotation_def revokeAgentToken_def Let_def
  by (intro leads_administered leads_quiet_prims leads_after_output[OF nodes_inv_reading output_fresh_token]
      update_then_output updateNodes_leads output_rules; simp add: node_ok_defs stage_node_def revoke_node_def)+

text \<open>Heartbeats and the sweeps.\<close>

lemma leads_update_nodes:
  assumes "\<And>n. n_id (f n) = n_id n \<and> n_hostname (f n) = n_hostname n" "\<And>n. node_ok n \<Longrightarrow> node_ok (f n)"
    and "leads (nodes_inv u) (g ()) (nodes_inv u)" "\<And>s. P s \<Longrightarrow> nodes_inv u s"
  shows "leads P (bindE (writeE (\<lambda>s. s\<lparr>nodes := update_rows p f (nodes s)\<rparr>)) g) (nodes_inv u)"
  unfolding leads_def using leadsD[OF assms(3)] nodes_inv_update[OF assms(4) assms(1,2)] by simp

lemma awake_node_simps [simp]:
  "n_id (awake_node e x n) = n_id n" "n_hostname (awake_node e x n) = n_hostname n" "n_status (awake_node e x n) = ONLINE"
  "n_lastSeenAt (awake_node e x n) = Some (e_now e)" "node_ok (awake_node e x n) = node_ok n"
  by (simp_all add: awake_node_def)

lemma markOnline_inv: "keeps (nodes_inv u) (markOnline e i x)"
proof -
  have a: "leads (nodes_inv u) (bindE (nodes_findOneOrFail i None) (\<lambda>v. ret (v, True))) (nodes_inv u)"
    by (intro leads_after_quiet leads_quiet quiet_rules) simp_all
  have b: "leads (nodes_inv u) (bindE (findE nodes (\<lambda>n. n_id n = i) err) (\<lambda>n.
      bindE (saveNode e n (refresh_online e x n)) (\<lambda>n'. bindE (populateNode n') (\<lambda>v. ret (v, False))))) (nodes_inv u)" for err
    by (intro leads_find leads_weaken[OF save_then_output] output_rules) simp_all
  show ?thesis unfolding leads_keeps markOnline_def Let_def
    by (intro leads_after_read leads_update_nodes leads_if leads_weaken[OF a] leads_weaken[OF b]) simp_all
qed

lemma touchOnline_inv: "keeps (nodes_inv u) (touchOnline e i)"
  unfolding touchOnline_def by (intro keeps_rules markOnline_inv) (simp split: prod.split)

lemma markOffline_inv: "keeps (nodes_inv u) (markOffline e i)"
  unfolding leads_keeps markOffline_def Let_def
  by (intro leads_after_read leads_update_nodes leads_findOne leads_if leads_quiet_prims save_then_output output_rules)
    (simp_all add: node_ok_defs)

lemma sweep_ok [simp]:
  "n_id (offline_node e n) = n_id n" "n_hostname (offline_node e n) = n_hostname n"
  "node_ok (offline_node e n) = node_ok n"
  by (simp_all add: offline_node_def node_ok_defs)

lemma output_announce_offline [output_rules, simp]: "outputs (announce_offline e n)"
  unfolding announce_offline_def by (intro output_rules)

lemma markStaleNodesOffline_inv: "keeps (nodes_inv u) (markStaleNodesOffline e)"
  unfolding leads_keeps markStaleNodesOffline_def
  by (intro leads_after_read leads_update_nodes leads_output[OF nodes_inv_stable] output_rules) simp_all

text \<open>The sweep of expired grants saves one row after the other; the rows still to come are unchanged.\<close>

definition expired_node :: "env \<Rightarrow> node \<Rightarrow> node" where
  "expired_node e n = touched (\<lambda>t r. r\<lparr>n_updatedAt := t\<rparr>) (e_now e) n (withdraw_root e None n)"

lemma broadcast_run:
  "broadcastRootAccessUpdate e n s = (Inr (), after (broadcastRootAccessUpdate e n) s)"
  "broadcastStatusUpdate e n s = (Inr (), after (broadcastStatusUpdate e n) s)"
  by (simp_all add: broadcastRootAccessUpdate_def broadcastStatusUpdate_def publish_def)

lemma expire_one_run:
  "\<exists>t. expire_one e n s = (Inr (), t) \<and> nodes t = save_row n_id (expired_node e n) (nodes s) \<and>
     core (t\<lparr>nodes := X\<rparr>) = core (s\<lparr>nodes := X\<rparr>) \<and>
     length (audit_logs t) = Suc (length (audit_logs s)) \<and> length (emitted t) = Suc (length (emitted s))"
  by (simp add: expire_one_def saveNode_def Let_def expired_node_def broadcastRootAccessUpdate_def publish_def
      recordAudit_def core_def)

lemma expire_rows:
  assumes "distinct (map n_id ns)"
  shows "\<exists>r t. forE (expire_one e) ns s = (Inr r, t) \<and>
     nodes t = fold (\<lambda>n. save_row n_id (expired_node e n)) ns (nodes s) \<and>
     core (t\<lparr>nodes := X\<rparr>) = core (s\<lparr>nodes := X\<rparr>) \<and>
     length (audit_logs t) = length (audit_logs s) + length ns"
  using assms
proof (induction ns arbitrary: s)
  case (Cons n ns)
  obtain t where t: "expire_one e n s = (Inr (), t)" "nodes t = save_row n_id (expired_node e n) (nodes s)"
    "core (t\<lparr>nodes := X\<rparr>) = core (s\<lparr>nodes := X\<rparr>)" "length (audit_logs t) = Suc (length (audit_logs s))"
    using expire_one_run by metis
  obtain r t' where t': "forE (expire_one e) ns t = (Inr r, t')"
    "nodes t' = fold (\<lambda>n. save_row n_id (expired_node e n)) ns (nodes t)"
    "core (t'\<lparr>nodes := X\<rparr>) = core (t\<lparr>nodes := X\<rparr>)"
    "length (audit_logs t') = length (audit_logs t) + length ns"
    using Cons.IH[of t] Cons.prems by auto
  show ?case using t t' by (auto simp: bindE_def)
qed simp

lemma expired_node_simps [simp]: "n_id (expired_node e n) = n_id n" "n_hostname (expired_node e n) = n_hostname n"
  "node_ok n \<Longrightarrow> node_ok (expired_node e n)"
  by (simp_all add: expired_node_def)

lemma expireRootAccessGrants_run:
  assumes "distinct (map n_id (nodes s))"
  shows "\<exists>t. expireRootAccessGrants e s = (Inr (count_rows (grant_due e) (nodes s)), t) \<and>
     nodes t = update_rows (grant_due e) (expired_node e) (nodes s) \<and>
     core (t\<lparr>nodes := X\<rparr>) = core (s\<lparr>nodes := X\<rparr>) \<and>
     length (audit_logs t) = length (audit_logs s) + count_rows (grant_due e) (nodes s)"
proof -
  have "distinct (map n_id (filter (grant_due e) (nodes s)))" using assms by (rule distinct_map_filter)
  from expire_rows[OF this, of e s X] obtain r t where
    "forE (expire_one e) (filter (grant_due e) (nodes s)) s = (Inr r, t)"
    "nodes t = fold (\<lambda>n. save_row n_id (expired_node e n)) (filter (grant_due e) (nodes s)) (nodes s)"
    "core (t\<lparr>nodes := X\<rparr>) = core (s\<lparr>nodes := X\<rparr>)"
    "length (audit_logs t) = length (audit_logs s) + length (filter (grant_due e) (nodes s))" by blast
  then show ?thesis
    using fold_save_update[of n_id "[]" "nodes s" "expired_node e" "grant_due e"] assms
    by (simp add: expireRootAccessGrants_def bindE_def count_rows_def)
qed

lemma expire_drawn: "drawn s \<le> drawn (after (expireRootAccessGrants e) s)"
proof -
  have "keeps (\<lambda>t. drawn s \<le> drawn t) (expireRootAccessGrants e)"
    unfolding expireRootAccessGrants_def expire_one_def saveNode_def Let_def
    by (intro keeps_rules) (simp_all add: keeps_def recordAudit_def Let_def broadcastRootAccessUpdate_def publish_def)
  then show ?thesis by (rule keepsD) simp
qed

lemma expireRootAccessGrants_inv: "keeps (nodes_inv u) (expireRootAccessGrants e)"
proof (rule keepsI)
  fix s assume s: "nodes_inv u s"
  then have d: "distinct (map n_id (nodes s))" by (simp add: nodes_inv_def drawn_ids_def)
  let ?t = "after (expireRootAccessGrants e) s"
  have n: "nodes ?t = update_rows (grant_due e) (expired_node e) (nodes s)"
    using expireRootAccessGrants_run[OF d, of e "[]"] by (metis snd_conv)
  have "nodes_inv u (s\<lparr>nodes := nodes ?t\<rparr>)" unfolding n by (rule nodes_inv_update[OF s]) simp_all
  then show "nodes_inv u ?t" using expire_drawn[of s e] by (auto simp: nodes_inv_def)
qed

section \<open>The node table as a transition system\<close>

inductive node_step :: "(nat \<Rightarrow> string) \<Rightarrow> db \<Rightarrow> db \<Rightarrow> bool" for u where
  create: "e_uuid e = u \<Longrightarrow> node_step u s (after (createNode e dto w) s)"
| delete: "e_uuid e = u \<Longrightarrow> node_step u s (after (deleteNode e i w ctx) s)"
| enroll: "e_uuid e = u \<Longrightarrow> node_step u s (after (createFromEnrollment e wi t nm d h os arch hash info) s)"
| register: "e_uuid e = u \<Longrightarrow> node_step u s (after (upsertFromAgentRegistration e h os arch hash info) s)"
| assign_team: "e_uuid e = u \<Longrightarrow> node_step u s (after (updateTeamAssignment e i w a t ctx) s)"
| enable_maintenance: "e_uuid e = u \<Longrightarrow> node_step u s (after (enableMaintenance e i w a reason ctx) s)"
| disable_maintenance: "e_uuid e = u \<Longrightarrow> node_step u s (after (disableMaintenance e i w a ctx) s)"
| notifications: "e_uuid e = u \<Longrightarrow> node_step u s (after (updateNotificationSettings e i w a ndto ctx) s)"
| root_access: "e_uuid e = u \<Longrightarrow> node_step u s (after (updateRootAccessProfile e i w a rdto ctx) s)"
| root_report: "e_uuid e = u \<Longrightarrow> node_step u s (after (recordAgentRootAccessState e i report) s)"
| authenticate: "e_uuid e = u \<Longrightarrow> node_step u s (after (authenticateAgent e i token) s)"
| stage_token: "e_uuid e = u \<Longrightarrow> node_step u s (after (stageAgentTokenRotation e i w a ctx) s)"
| clear_token: "e_uuid e = u \<Longrightarrow> node_step u s (after (clearPendingAgentTokenRotation e i) s)"
| revoke_token: "e_uuid e = u \<Longrightarrow> node_step u s (after (revokeAgentToken e i w a ctx) s)"
| online: "e_uuid e = u \<Longrightarrow> node_step u s (after (markOnline e i updates) s)"
| offline: "e_uuid e = u \<Longrightarrow> node_step u s (after (markOffline e i) s)"
| stale_sweep: "e_uuid e = u \<Longrightarrow> node_step u s (after (markStaleNodesOffline e) s)"
| grant_sweep: "e_uuid e = u \<Longrightarrow> node_step u s (after (expireRootAccessGrants e) s)"

lemmas node_ops_inv = createNode_inv deleteNode_inv createFromEnrollment_inv upsertFromAgentRegistration_inv
  updateTeamAssignment_inv maintenance_inv updateNotificationSettings_inv updateRootAccessProfile_inv
  recordAgentRootAccessState_inv authenticateAgent_inv token_inv markOnline_inv markOffline_inv
  markStaleNodesOffline_inv expireRootAccessGrants_inv

interpretation node_system: transition_system "\<lambda>s. nodes s = []" "\<lambda>s t. inj u \<and> node_step u s t" "nodes_inv u" for u
proof
  show "nodes_inv u s" if "nodes s = []" for s using that by (simp add: nodes_inv_def drawn_ids_def)
  show "nodes_inv u t" if "inj u \<and> node_step u s t" "nodes_inv u s" for s t
  proof -
    from that(1) have "node_step u s t" "inj u" by simp_all
    then show ?thesis using that(2) by cases (auto intro: node_ops_inv[THEN keepsD])
  qed
qed

section \<open>Properties\<close>

text \<open>C12: Whatever operators, agents and the background sweeps do, in whatever order: no two nodes share
  an identifier or a hostname; a node has a root profile exactly when it has an expiry date, and
  exactly when it has a reason and a grant; a staged agent token always has an expiry date; and a
  node out of maintenance carries no maintenance data.\<close>

theorem node_table_sound:
  assumes "nodes s0 = []" "(\<lambda>s t. inj u \<and> node_step u s t)\<^sup>*\<^sup>* s0 s"
  shows "distinct (map n_id (nodes s)) \<and> distinct (map n_hostname (nodes s)) \<and>
    (\<forall>n \<in> set (nodes s).
       (n_rootAccessProfile n \<noteq> RA_OFF) = (n_rootAccessExpiresAt n \<noteq> None) \<and>
       (n_rootAccessProfile n \<noteq> RA_OFF) = (n_rootAccessReason n \<noteq> None) \<and>
       (n_rootAccessProfile n \<noteq> RA_OFF) = (n_rootAccessGrantId n \<noteq> None) \<and>
       (n_pendingAgentTokenHash n = None) = (n_pendingAgentTokenExpiresAt n = None) \<and>
       (n_maintenanceMode n \<or> n_maintenanceReason n = None \<and> n_maintenanceByUserId n = None) \<and>
       n_maintenanceMode n = (n_maintenanceStartedAt n \<noteq> None))"
proof -
  have "nodes_inv u s" using node_system.run_invar[OF assms(2)] node_system.initial_invar[OF assms(1)] by blast
  then show ?thesis by (auto simp: nodes_inv_def drawn_ids_def node_ok_defs split: if_splits)
qed

definition owned_workspace :: workspace where
  "owned_workspace = sample_workspace\<lparr>w_id := ''w'', w_isArchived := False, w_isDefault := True\<rparr>"

definition no_agent_info :: agent_info where
  "no_agent_info = \<lparr>ag_agentVersion = None, ag_platformVersion = None, ag_kernelVersion = None, ag_location = None\<rparr>"

theorem node_table_sound_witness:
  "distinct (map n_hostname (nodes (after (upsertFromAgentRegistration base_env ''srv'' ''linux'' ''amd64'' ''h'' no_agent_info)
     (empty_db\<lparr>workspaces := [owned_workspace]\<rparr>))))"
proof -
  have "(\<lambda>s t. inj show_nat \<and> node_step show_nat s t)\<^sup>*\<^sup>* (empty_db\<lparr>workspaces := [owned_workspace]\<rparr>)
      (after (upsertFromAgentRegistration base_env ''srv'' ''linux'' ''amd64'' ''h'' no_agent_info)
        (empty_db\<lparr>workspaces := [owned_workspace]\<rparr>))"
    using inj_show_nat by (intro r_into_rtranclp conjI node_step.register) (simp_all add: base_env_def)
  from node_table_sound[OF _ this] show ?thesis by (simp add: empty_db_def)
qed

lemma surfaces_eq:
  "{x. profileAllowsSurface p x} = S \<longleftrightarrow> (\<forall>x. profileAllowsSurface p x = (x \<in> S))"
  by auto

lemma all_surfaces: "(\<forall>x. P x) \<longleftrightarrow> P OPERATIONAL \<and> P TASK \<and> P TERMINAL"
  by (metis root_surface.exhaust)

text \<open>C16: Every set of root surfaces is granted by exactly one profile, and the three checks agree with
  the three questions: a check passes exactly when the surface may be used, and otherwise throws
  \<open>BadRequest\<close>, changing nothing.\<close>

theorem root_checks_exact:
  "(\<exists>!p. {x. profileAllowsSurface p x} = S) \<and>
   (\<exists>m. assertNodeAllowsOperationalRoot e n s =
      (if canNodeUseOperationalRoot e n then Inr () else Inl (BadRequest m), s)) \<and>
   (\<exists>m. assertNodeAllowsTaskRoot e n s = (if canNodeUseTaskRoot e n then Inr () else Inl (BadRequest m), s)) \<and>
   (\<exists>m. assertNodeAllowsTerminalRoot e n s =
      (if canNodeUseTerminalRoot e n then Inr () else Inl (BadRequest m), s))"
proof (intro conjI)
  define p where "p = (if OPERATIONAL \<in> S then if TASK \<in> S then if TERMINAL \<in> S then RA_ALL else RA_OPERATIONAL_TASK
      else if TERMINAL \<in> S then RA_OPERATIONAL_TERMINAL else RA_OPERATIONAL
    else if TASK \<in> S then if TERMINAL \<in> S then RA_TASK_TERMINAL else RA_TASK
      else if TERMINAL \<in> S then RA_TERMINAL else RA_OFF)"
  show "\<exists>!p. {x. profileAllowsSurface p x} = S"
    unfolding surfaces_eq all_surfaces
  proof
    show "profileAllowsSurface p OPERATIONAL = (OPERATIONAL \<in> S) \<and> profileAllowsSurface p TASK = (TASK \<in> S) \<and>
        profileAllowsSurface p TERMINAL = (TERMINAL \<in> S)"
      by (simp add: p_def)
    show "q = p" if "profileAllowsSurface q OPERATIONAL = (OPERATIONAL \<in> S) \<and> profileAllowsSurface q TASK = (TASK \<in> S) \<and>
        profileAllowsSurface q TERMINAL = (TERMINAL \<in> S)" for q
      using that by (cases q) (simp_all add: p_def)
  qed
qed (auto simp: assertNodeAllowsOperationalRoot_def assertNodeAllowsTaskRoot_def assertNodeAllowsTerminalRoot_def
    assertNodeAllowsRootSurface_def canNodeUseOperationalRoot_def canNodeUseTaskRoot_def canNodeUseTerminalRoot_def)

text \<open>C13: A root grant lives exactly as long as it was given. When an administrator grants a profile, the
  stored node has it, with an expiry date between five minutes and the configured maximum from
  now and a reason of at least three characters. The sweep leaves the grant alone before that
  date and has withdrawn it, whatever else it does, once the date is reached.\<close>

theorem root_grant_lifetime:
  assumes keyed: "distinct (map n_id (nodes s))"
    and run: "updateRootAccessProfile e i w a dto ctx s = (Inr n, s')" and "ra_profile dto \<noteq> RA_OFF"
  shows "\<exists>t r. n \<in> set (nodes s') \<and> n_id n = i \<and> n_rootAccessProfile n = ra_profile dto \<and>
    n_rootAccessExpiresAt n = Some t \<and> n_rootAccessReason n = Some r \<and> 3 \<le> length r \<and>
    e_now e + 5 * 60 * 1000 \<le> t \<and> t \<le> e_now e + getRootAccessMaxDurationMinutes e * 60 * 1000 \<and>
    may_administer s a (n_workspaceId n) \<and>
    (\<forall>e'. e_now e' < t \<longrightarrow> n \<in> set (nodes (after (expireRootAccessGrants e') s'))) \<and>
    (\<forall>e'. t \<le> e_now e' \<longrightarrow>
       (\<forall>n' \<in> set (nodes (after (expireRootAccessGrants e') s')). n_id n' = i \<longrightarrow> n_rootAccessProfile n' = RA_OFF))"
proof -
  obtain n0 where n0: "administeredNode i w a s = (Inr n0, s)"
    using run quiet_run[OF administeredNode_quiet, of i w a s]
    by (auto simp: updateRootAccessProfile_def bindE_success)
  note adm = administeredNode_Inr[of i w a s n0, unfolded n0, simplified]
  let ?d = "orElse (ra_durationMinutes dto) 0" and ?r = "case ra_reason dto of None \<Rightarrow> [] | Some r \<Rightarrow> trim r"
  let ?n = "touched (\<lambda>t r. r\<lparr>n_updatedAt := t\<rparr>) (e_now e) n0
              (grant_root e a (ra_profile dto) ?d ?r (e_uuid e (drawn s)) n0)"
  have "ROOT_ACCESS_MIN_DURATION_MINUTES \<le> ?d \<and> ?d \<le> getRootAccessMaxDurationMinutes e \<and> 3 \<le> length ?r \<and>
      n = ?n \<and> nodes s' = save_row n_id ?n (nodes s)"
    using run assms(3)
    by (auto simp: updateRootAccessProfile_def bindE_Inr[where m = "administeredNode i w a" and s = s, OF n0] Let_def
        saveNode_def split: if_splits dest: reportRootAccessChange_Inr output_run_nodes[OF output_reportRootAccessChange])
  then have facts: "5 \<le> ?d" "?d \<le> getRootAccessMaxDurationMinutes e" "3 \<le> length ?r" "n = ?n"
      "nodes s' = save_row n_id ?n (nodes s)"
    unfolding ROOT_ACCESS_MIN_DURATION_MINUTES_def by blast+
  have n: "n_id n = i" "n_rootAccessProfile n = ra_profile dto" "n_rootAccessReason n = Some ?r"
      "n_rootAccessExpiresAt n = Some (e_now e + ?d * 60 * 1000)" "n_workspaceId n = n_workspaceId n0"
    using adm facts(4) by (simp_all add: grant_root_def)
  have keyed': "distinct (map n_id (nodes s'))" unfolding facts(5) by (rule distinct_save_row[OF keyed])
  have sweep: "nodes (after (expireRootAccessGrants e') s') = update_rows (grant_due e') (expired_node e') (nodes s')" for e'
    using expireRootAccessGrants_run[OF keyed', of e' "[]"] by (metis snd_conv)
  have in_s': "n \<in> set (nodes s')" unfolding facts(5) by (simp add: set_save_row facts(4)[symmetric])
  have only: "x = n" if "x \<in> set (nodes s')" "n_id x = i" for x
    using that facts(4) n(1) unfolding facts(5) by (auto simp: set_save_row)
  have off: "n_rootAccessProfile (expired_node e' x) = RA_OFF" for e' x
    by (simp add: expired_node_def withdraw_root_def)
  have "n_rootAccessProfile n' = RA_OFF"
    if "e_now e + ?d * 60 * 1000 \<le> e_now e'" "n' \<in> set (nodes (after (expireRootAccessGrants e') s'))" "n_id n' = i" for e' n'
  proof -
    from that(2) obtain x where x: "x \<in> set (nodes s')" "n' = (if grant_due e' x then expired_node e' x else x)"
      unfolding sweep update_rows_def by auto
    then have "x = n" using only[of x] that(3) by (simp split: if_splits)
    moreover have "grant_due e' n" using n that(1) assms(3) by (simp add: grant_due_def)
    ultimately show ?thesis using x(2) off by simp
  qed
  moreover have "n \<in> set (nodes (after (expireRootAccessGrants e') s'))" if "e_now e' < e_now e + ?d * 60 * 1000" for e'
    using that in_s' n by (auto simp: sweep set_update_rows grant_due_def)
  moreover have "e_now e + 5 * 60 * 1000 \<le> e_now e + ?d * 60 * 1000"
      "e_now e + ?d * 60 * 1000 \<le> e_now e + getRootAccessMaxDurationMinutes e * 60 * 1000"
    using facts(1,2) by simp_all
  ultimately show ?thesis using n facts(3) in_s' adm(3) by auto
qed

definition sample_node :: node where
  "sample_node = (blank_node base_env ''n1'' ''w'' ''srv'' None ''srv'' ''linux'' ''amd64'' None)
     \<lparr>n_status := ONLINE, n_lastSeenAt := Some 900000, n_agentTokenHash := Some ''old''\<rparr>"

definition node_db :: db where
  "node_db = empty_db\<lparr>workspaces := [owned_workspace], nodes := [sample_node]\<rparr>"

lemma node_db_simps [simp]: "nodes node_db = [sample_node]" "workspaces node_db = [owned_workspace]" "teams node_db = []"
    "drawn node_db = 0" "n_id sample_node = ''n1''" "n_workspaceId sample_node = ''w''" "n_teamId sample_node = None"
    "n_hostname sample_node = ''srv''" "n_status sample_node = ONLINE"
  by (simp_all add: node_db_def empty_db_def sample_node_def blank_node_def)

lemma administered_sample: "administeredNode ''n1'' None sample_admin node_db = (Inr sample_node, node_db)"
  by (simp add: administeredNode_def nodes_findOneOrFail_def find_row_def if_given_def populateNode_def
      populateTeamMetadata_def uniq_def List.map_filter_simps may_administer_def sample_admin_def assertWorkspaceAdmin_def assertWorkspaceWritable_def
      owned_workspace_def)

definition sample_grant :: root_access_dto where
  "sample_grant = \<lparr>ra_profile = RA_TASK, ra_durationMinutes = Some 30, ra_reason = Some ''patch''\<rparr>"

lemma reportRootAccessChange_ok:
  assumes "n_teamId n' = None" "truthy (event_workspace None (Some (n_id n')) (nodes s))"
  shows "\<exists>t. reportRootAccessChange e d m ctx n n' s = (Inr n', t)"
  using assms by (simp add: reportRootAccessChange_def bindE_Inr[OF trans[OF populateNode_eq]]
      broadcastRootAccessUpdate_def publish_def)

lemma sample_grant_run:
  "\<exists>n s'. updateRootAccessProfile base_env ''n1'' None sample_admin sample_grant None node_db = (Inr n, s')"
proof -
  have "trim ''patch'' = ''patch''" by code_simp
  moreover have "5 \<le> getRootAccessMaxDurationMinutes base_env" "30 \<le> getRootAccessMaxDurationMinutes base_env"
    by (simp_all add: getRootAccessMaxDurationMinutes_def base_env_def ROOT_ACCESS_MIN_DURATION_MINUTES_def)
  moreover have "\<exists>n s'. reportRootAccessChange base_env False 30 None sample_node n' (node_db\<lparr>drawn := k, nodes := [n']\<rparr>) = (Inr n, s')"
    if "n_id n' = ''n1''" "n_workspaceId n' = ''w''" "n_teamId n' = None" for n' k
    using reportRootAccessChange_ok[of n' "node_db\<lparr>drawn := k, nodes := [n']\<rparr>" base_env False 30 None sample_node]
    by (auto simp: that event_workspace_def find_row_def)
  moreover have "save_row n_id n' [sample_node] = [n']" if "n_id n' = ''n1''" for n'
    using that by (simp add: save_row_def update_rows_def)
  ultimately show ?thesis
    by (simp add: updateRootAccessProfile_def bindE_Inr[where m = "administeredNode _ _ _" and s = node_db, OF administered_sample]
        sample_grant_def orElse_def ROOT_ACCESS_MIN_DURATION_MINUTES_def saveNode_def Let_def)
qed

theorem root_grant_lifetime_witness:
  "\<exists>n s' t. updateRootAccessProfile base_env ''n1'' None sample_admin sample_grant None node_db = (Inr n, s') \<and>
     n_rootAccessExpiresAt n = Some t \<and> t \<le> 1000000 + 120 * 60 * 1000"
proof -
  obtain n s' where run: "updateRootAccessProfile base_env ''n1'' None sample_admin sample_grant None node_db = (Inr n, s')"
    using sample_grant_run by blast
  have "getRootAccessMaxDurationMinutes base_env = 120" "e_now base_env = 1000000"
    by (simp_all add: getRootAccessMaxDurationMinutes_def base_env_def ROOT_ACCESS_MIN_DURATION_MINUTES_def)
  then show ?thesis using root_grant_lifetime[OF _ run] run by (auto simp: sample_grant_def)
qed

text \<open>C17: Withdrawing an expired grant re-opens it. Once its expiry date is reached, a grant no longer
  allows root tasks; but the sweep that withdraws it also clears the date, and a node without a
  date counts as having an active grant, so until the agent reports that it has applied the
  \<open>off\<close> profile, root tasks are allowed again, at any time.\<close>

theorem sweep_reopens_root:
  assumes keyed: "distinct (map n_id (nodes s))" and n: "n \<in> set (nodes s)" "grant_due e n"
    and applied: "profileAllowsSurface (n_rootAccessAppliedProfile n) TASK"
  shows "\<not> canNodeUseTaskRoot e n \<and>
    (\<exists>n' \<in> set (nodes (after (expireRootAccessGrants e) s)).
       n_id n' = n_id n \<and> n_rootAccessProfile n' = RA_OFF \<and> canNodeUseTaskRoot e' n')"
proof -
  have sweep: "nodes (after (expireRootAccessGrants e) s) = update_rows (grant_due e) (expired_node e) (nodes s)"
    using expireRootAccessGrants_run[OF keyed, of e "[]"] by (metis snd_conv)
  have "expired_node e n \<in> set (nodes (after (expireRootAccessGrants e) s))"
    using n by (auto simp: sweep set_update_rows)
  moreover have "canNodeUseTaskRoot e' (expired_node e n)" "n_rootAccessProfile (expired_node e n) = RA_OFF"
    using applied by (simp_all add: canNodeUseTaskRoot_def isRootAccessGrantActive_def isRootAccessGrantExpired_def
        expired_node_def withdraw_root_def)
  moreover have "\<not> canNodeUseTaskRoot e n"
    using n(2) by (auto simp: canNodeUseTaskRoot_def isRootAccessGrantActive_def isRootAccessGrantExpired_def
        grant_due_def split: option.splits)
  ultimately show ?thesis using expired_node_simps(1) by blast
qed

definition rooted_node :: node where
  "rooted_node = (grant_root (base_env\<lparr>e_now := 0\<rparr>) sample_admin RA_TASK 5 ''patch'' ''g'' sample_node)
     \<lparr>n_rootAccessAppliedProfile := RA_TASK\<rparr>"

theorem sweep_reopens_root_witness:
  "\<not> canNodeUseTaskRoot base_env rooted_node \<and>
   (\<exists>n' \<in> set (nodes (after (expireRootAccessGrants base_env) (node_db\<lparr>nodes := [rooted_node]\<rparr>))).
      canNodeUseTaskRoot base_env n')"
proof -
  have "grant_due base_env rooted_node" "profileAllowsSurface (n_rootAccessAppliedProfile rooted_node) TASK"
    by (simp_all add: grant_due_def rooted_node_def grant_root_def base_env_def)
  then show ?thesis
    using sweep_reopens_root[of "node_db\<lparr>nodes := [rooted_node]\<rparr>" rooted_node base_env base_env] by auto
qed

subsection \<open>Agent tokens\<close>

lemma administered_run:
  assumes "bindE (administeredNode i w a) f s = (Inr r, s')"
  obtains n where "n \<in> set (nodes s)" "n_id n = i" "may_administer s a (n_workspaceId n)" "f n s = (Inr r, s')"
proof -
  obtain n t where m: "administeredNode i w a s = (Inr n, t)" "f n t = (Inr r, s')"
    using assms unfolding bindE_success by blast
  have t: "t = s" by (rule quiet_run[OF administeredNode_quiet m(1)])
  have o: "outcome (administeredNode i w a) s = Inr n" by (simp only: m(1) fst_conv)
  show thesis by (rule that[OF administeredNode_Inr(1-3)[OF o]]) (rule m(2)[unfolded t])
qed

lemma stage_run:
  assumes "stageAgentTokenRotation e i w a ctx s = (Inr (n, tok, t), s')"
  shows "nodes s' = update_rows (\<lambda>n. n_id n = i) (stage_node e tok) (nodes s)"
    "t = e_now e + AGENT_TOKEN_ROTATION_PENDING_MS" "\<exists>n0 \<in> set (nodes s). n_id n0 = i"
proof -
  have "nodes s' = update_rows (\<lambda>n. n_id n = i) (stage_node e tok) (nodes s) \<and>
     t = e_now e + AGENT_TOKEN_ROTATION_PENDING_MS \<and> (\<exists>n0 \<in> set (nodes s). n_id n0 = i)"
    using assms unfolding stageAgentTokenRotation_def Let_def
  proof (rule administered_run, goal_cases)
    case (1 n0)
    then obtain v s1 where "nodes_findOneOrFail (n_id n0) (Some (n_workspaceId n0)) s1 = (Inr v, s')"
        "nodes s1 = update_rows (\<lambda>n. n_id n = i) (stage_node e tok) (nodes s)" "t = e_now e + AGENT_TOKEN_ROTATION_PENDING_MS"
      by (auto simp: updateNodes_def bindE_success split: if_splits prod.splits)
    then show ?case using quiet_run[OF nodes_findOneOrFail_quiet] 1 by metis
  qed
  then show "nodes s' = update_rows (\<lambda>n. n_id n = i) (stage_node e tok) (nodes s)"
    "t = e_now e + AGENT_TOKEN_ROTATION_PENDING_MS" "\<exists>n0 \<in> set (nodes s). n_id n0 = i" by blast+
qed

lemma revoke_run:
  assumes "revokeAgentToken e i w a ctx s = (Inr n, s')"
  shows "nodes s' = update_rows (\<lambda>n. n_id n = i) (revoke_node e) (nodes s)" "\<exists>n0 \<in> set (nodes s). n_id n0 = i"
proof -
  have "nodes s' = update_rows (\<lambda>n. n_id n = i) (revoke_node e) (nodes s) \<and> (\<exists>n0 \<in> set (nodes s). n_id n0 = i)"
    using assms unfolding revokeAgentToken_def
  proof (rule administered_run, goal_cases)
    case (1 n0)
    let ?s = "s\<lparr>nodes := update_rows (\<lambda>n. n_id n = i) (revoke_node e) (nodes s)\<rparr>"
    have "outputs (bindE (nodes_findOneOrFail (n_id n0) (Some (n_workspaceId n0))) (\<lambda>(saved, _).
      bindE (recordAudit e (node_audit (n_workspaceId n0) ''node.agent-token.revoked'' (n_id n0) (Some (n_hostname n0)) None
              (Some [(''nodeId'', JStr (n_id n0)), (''revokedAt'', JStr (toISOString (e_now e)))])) ctx) (\<lambda>_.
      bindE (broadcastStatusUpdate e saved) (\<lambda>_. ret saved))))" by (intro output_rules)
    from output_run_nodes[OF this, of ?s] 1 show ?case by (auto simp: updateNodes_def)
  qed
  then show "nodes s' = update_rows (\<lambda>n. n_id n = i) (revoke_node e) (nodes s)" "\<exists>n0 \<in> set (nodes s). n_id n0 = i"
    by blast+
qed

text \<open>C14: Token rotation is a round trip. The token a rotation hands out is accepted for five minutes;
  its first use makes it the node's only token: from then on it is accepted and every token with
  another hash is refused. (The node's old token must not happen to have the same hash.)\<close>

theorem token_rotation_roundtrip:
  assumes keyed: "distinct (map n_id (nodes s))"
    and stage: "stageAgentTokenRotation e i w a ctx s = (Inr (n, tok, t), s1)"
    and "e_sha256 e' = e_sha256 e" "e_now e' < t" "e_sha256 e tok \<noteq> []"
    and old: "\<forall>x \<in> set (nodes s). n_agentTokenHash x \<noteq> Some (e_sha256 e tok)"
  shows "t = e_now e + 5 * 60 * 1000 \<and>
    (\<exists>n' s2. authenticateAgent e' i tok s1 = (Inr n', s2) \<and> n_id n' = i \<and>
       (\<forall>e'' tok'. e_sha256 e'' = e_sha256 e \<longrightarrow>
          authenticateAgent e'' i tok' s2 =
            (if e_sha256 e tok' = e_sha256 e tok then Inr n' else Inl (Unauthorized ''Invalid agent token''), s2)))"
proof -
  obtain n0 where n0: "find_row (\<lambda>n. n_id n = i) (nodes s) = Some n0"
    using stage_run(3)[OF stage] find_row_exists[of _ "nodes s" "\<lambda>n. n_id n = i"] by blast
  then have n0': "n0 \<in> set (nodes s)" "n_id n0 = i" by (auto dest: find_row_Some)
  let ?n1 = "stage_node e tok n0"
  have f1: "find_row (\<lambda>n. n_id n = i) (nodes s1) = Some ?n1"
    unfolding stage_run(1)[OF stage] using n0 by (simp add: find_row_update stage_node_def)
  define n2 where "n2 = touched (\<lambda>t r. r\<lparr>n_updatedAt := t\<rparr>) (e_now e') ?n1 (?n1\<lparr>n_agentTokenHash := n_pendingAgentTokenHash ?n1,
      n_pendingAgentTokenHash := None, n_pendingAgentTokenExpiresAt := None, n_agentTokenRotatedAt := Some (e_now e'),
      n_agentTokenRevokedAt := None\<rparr>)"
  define s2 where "s2 = s1\<lparr>nodes := save_row n_id n2 (nodes s1)\<rparr>"
  have hash: "n_agentTokenHash n0 \<noteq> Some (e_sha256 e tok)" using old n0'(1) by blast
  have auth: "authenticateAgent e' i tok s1 = (Inr n2, s2)"
    using assms(3-5) hash stage_run(2)[OF stage]
    by (auto simp: authenticateAgent_def f1 stage_node_def hashAgentToken_def agentTokenHashMatches_def saveNode_def
        Let_def n2_def s2_def truthy_def)
  have "node_repo.keyed s1" unfolding node_repo.keyed_def stage_run(1)[OF stage]
    using keyed by (simp add: map_update_rows stage_node_def)
  from node_repo.find_after_save[OF this, of n2] have f2: "find_row (\<lambda>n. n_id n = i) (nodes s2) = Some n2"
    using n0'(2) by (simp add: s2_def n2_def stage_node_def)
  have n2: "n_agentTokenHash n2 = Some (e_sha256 e tok)" "n_pendingAgentTokenHash n2 = None"
      "n_pendingAgentTokenExpiresAt n2 = None" "n_id n2 = i"
    using n0'(2) by (simp_all add: n2_def stage_node_def hashAgentToken_def)
  have "authenticateAgent e'' i tok' s2 =
      (if e_sha256 e tok' = e_sha256 e tok then Inr n2 else Inl (Unauthorized ''Invalid agent token''), s2)"
    if "e_sha256 e'' = e_sha256 e" for e'' tok'
    using that n2 assms(5)
    by (auto simp: authenticateAgent_def f2 hashAgentToken_def agentTokenHashMatches_def Let_def truthy_def)
  with auth n2(4) show ?thesis using stage_run(2)[OF stage] by (auto simp: AGENT_TOKEN_ROTATION_PENDING_MS_def)
qed

lemma findOne_single:
  assumes "nodes s = [n]" "n_id n = i" "n_teamId n = None" "truthy w \<Longrightarrow> n_workspaceId n = the w"
  shows "bindE (nodes_findOneOrFail i w) f s = f (n, None) s"
proof -
  have "nodes_findOneOrFail i w s = (Inr (n, None), s)"
    using assms by (simp add: nodes_findOneOrFail_def find_row_def if_given_def populateNode_eq)
  then show ?thesis by (simp add: bindE_def)
qed

lemma administered_sample_bind: "bindE (administeredNode ''n1'' None sample_admin) f node_db = f sample_node node_db"
  using administered_sample by (simp add: bindE_def)

lemma sample_stage:
  "\<exists>n t s1. stageAgentTokenRotation base_env ''n1'' None sample_admin None node_db = (Inr (n, ''0'', t), s1)"
proof -
  have "show_nat 0 = ''0''" by code_simp
  then have "e_token base_env 0 = ''0''" by (simp add: base_env_def)
  moreover have "n_teamId (stage_node base_env tok sample_node) = None" "n_id (stage_node base_env tok sample_node) = ''n1''"
      "n_workspaceId (stage_node base_env tok sample_node) = ''w''" for tok
    by (simp_all add: stage_node_def)
  ultimately show ?thesis
    by (simp add: stageAgentTokenRotation_def administered_sample_bind updateNodes_def update_rows_def Let_def
        findOne_single[where n = "stage_node base_env ''0'' sample_node"])
qed

theorem token_rotation_roundtrip_witness:
  "\<exists>n t s1 n' s2. stageAgentTokenRotation base_env ''n1'' None sample_admin None node_db = (Inr (n, ''0'', t), s1) \<and>
     authenticateAgent base_env ''n1'' ''0'' s1 = (Inr n', s2)"
proof -
  obtain n t s1 where run: "stageAgentTokenRotation base_env ''n1'' None sample_admin None node_db = (Inr (n, ''0'', t), s1)"
    using sample_stage by blast
  have "e_now base_env < t" using stage_run(2)[OF run] by (simp add: AGENT_TOKEN_ROTATION_PENDING_MS_def)
  moreover have "\<forall>x \<in> set (nodes node_db). n_agentTokenHash x \<noteq> Some (e_sha256 base_env ''0'')" "e_sha256 base_env ''0'' \<noteq> []"
    by (simp_all add: sample_node_def base_env_def)
  ultimately show ?thesis using token_rotation_roundtrip[OF _ run, of base_env] run by auto
qed

text \<open>After a revocation no token at all authenticates the node, in particular not one staged
  before it, until a new one is issued; and the node is offline.\<close>

theorem revoked_agent_locked_out:
  assumes "revokeAgentToken e i w a ctx s = (Inr n, s')"
  shows "(\<forall>e' tok. authenticateAgent e' i tok s' =
      (Inl (Unauthorized ''Agent token is not configured for this node''), s')) \<and>
    (\<forall>x \<in> set (nodes s'). n_id x = i \<longrightarrow> n_status x = OFFLINE \<and> n_pendingAgentTokenHash x = None)"
proof -
  obtain n0 where "find_row (\<lambda>n. n_id n = i) (nodes s) = Some n0"
    using revoke_run(2)[OF assms] find_row_exists[of _ "nodes s" "\<lambda>n. n_id n = i"] by blast
  then have f: "find_row (\<lambda>n. n_id n = i) (nodes s') = Some (revoke_node e n0)"
    unfolding revoke_run(1)[OF assms] by (simp add: find_row_update revoke_node_def)
  moreover have "n_status x = OFFLINE \<and> n_pendingAgentTokenHash x = None" if x: "x \<in> set (nodes s')" "n_id x = i" for x
  proof -
    obtain y where "x = (if n_id y = i then revoke_node e y else y)"
      using x(1) unfolding revoke_run(1)[OF assms] update_rows_def set_map by (rule imageE)
    then show ?thesis using x(2) by (cases "n_id y = i") (simp_all add: revoke_node_def)
  qed
  ultimately show ?thesis by (simp add: authenticateAgent_def revoke_node_def)
qed

theorem revoked_agent_locked_out_witness:
  "\<exists>n s'. revokeAgentToken base_env ''n1'' None sample_admin None node_db = (Inr n, s') \<and>
     authenticateAgent base_env ''n1'' ''old'' s' = (Inl (Unauthorized ''Agent token is not configured for this node''), s')"
proof -
  have "n_teamId (revoke_node base_env sample_node) = None" "n_id (revoke_node base_env sample_node) = ''n1''"
      "n_workspaceId (revoke_node base_env sample_node) = ''w''"
    by (simp_all add: revoke_node_def)
  then have "\<exists>n s'. revokeAgentToken base_env ''n1'' None sample_admin None node_db = (Inr n, s')"
    by (simp add: revokeAgentToken_def administered_sample_bind updateNodes_def update_rows_def
        findOne_single[where n = "revoke_node base_env sample_node"] broadcastStatusUpdate_def publish_def)
  then obtain n s' where run: "revokeAgentToken base_env ''n1'' None sample_admin None node_db = (Inr n, s')" by blast
  from revoked_agent_locked_out[OF this] run show ?thesis by blast
qed

subsection \<open>Heartbeats\<close>

lemma recordEvent_run:
  assumes "truthy (event_workspace w n (nodes s))"
  shows "\<exists>ev t. recordEvent e w n type sev msg md s = (Inr ev, t) \<and> events t = events s @ [ev] \<and> ev_nodeId ev = n \<and>
     ev_type ev = type \<and> core t = core s"
  using assms by (auto simp: recordEvent_def Let_def enqueue_def bindE_def core_def publish_def)

lemma announce_run:
  assumes "truthy (event_workspace None (Some (n_id n)) (nodes s))"
  shows "\<exists>ev t. announce_offline e n s = (Inr (), t) \<and> events t = events s @ [ev] \<and> ev_nodeId ev = Some (n_id n) \<and>
     ev_type ev = ''node.offline'' \<and> nodes t = nodes s"
proof -
  obtain ev t where r: "recordEvent e None (Some (n_id n)) ''node.offline'' (Some WARNING)
      (''Node '' @ getNodeLabel n @ '' was marked offline after missing heartbeats for more than '' @
         show_int (e_heartbeatTimeoutSeconds e) @ '' seconds'')
      (Some [(''heartbeatTimeoutSeconds'', JNum (e_heartbeatTimeoutSeconds e)),
             (''lastSeenAt'', jtime_opt (n_lastSeenAt n))]) s = (Inr ev, t)"
    "events t = events s @ [ev]" "ev_nodeId ev = Some (n_id n)" "ev_type ev = ''node.offline''" "core t = core s"
    using recordEvent_run[OF assms] by metis
  from core_eqD(6)[OF r(5)] r show ?thesis
    by (simp add: announce_offline_def bindE_def broadcastStatusUpdate_def publish_def)
qed

lemma announce_all:
  assumes "\<And>n. n \<in> set ns \<Longrightarrow> truthy (event_workspace None (Some (n_id n)) (nodes s))"
  shows "\<exists>r t evs. forE (announce_offline e) ns s = (Inr r, t) \<and> events t = events s @ evs \<and>
     map ev_nodeId evs = map (\<lambda>n. Some (n_id n)) ns \<and> (\<forall>ev \<in> set evs. ev_type ev = ''node.offline'') \<and> nodes t = nodes s"
  using assms
proof (induction ns arbitrary: s)
  case (Cons n ns)
  obtain ev t where t: "announce_offline e n s = (Inr (), t)" "events t = events s @ [ev]" "ev_nodeId ev = Some (n_id n)"
     "ev_type ev = ''node.offline''" "nodes t = nodes s"
    using announce_run[of n s e] Cons.prems by auto
  obtain r t' evs where t': "forE (announce_offline e) ns t = (Inr r, t')" "events t' = events t @ evs"
     "map ev_nodeId evs = map (\<lambda>n. Some (n_id n)) ns" "\<forall>ev \<in> set evs. ev_type ev = ''node.offline''" "nodes t' = nodes t"
    using Cons.IH[of t] Cons.prems t(5) by auto
  have "forE (announce_offline e) (n # ns) s = (Inr (() # r), t')" using t t' by (simp add: bindE_def)
  then show ?case using t t' by (intro exI[of _ "() # r"] exI[of _ t'] exI[of _ "ev # evs"]) auto
qed simp

text \<open>C15: The heartbeat sweep marks exactly the stale nodes offline: those that are online but were not
  seen for longer than the timeout. The other rows are untouched, each node that went offline
  leaves exactly one event, in order, their number is returned, and no stale node is left.\<close>

theorem stale_sweep_exact:
  assumes "\<forall>n \<in> set (nodes s). n_id n \<noteq> [] \<and> n_workspaceId n \<noteq> []"
  shows "\<exists>s' evs. markStaleNodesOffline e s = (Inr (count_rows (stale e) (nodes s)), s') \<and>
    nodes s' = map (\<lambda>n. if n_status n = ONLINE \<and>
        (\<exists>t. n_lastSeenAt n = Some t \<and> t + e_heartbeatTimeoutSeconds e * 1000 < e_now e)
      then n\<lparr>n_status := OFFLINE, n_updatedAt := e_now e\<rparr> else n) (nodes s) \<and>
    events s' = events s @ evs \<and> map ev_nodeId evs = map (\<lambda>n. Some (n_id n)) (filter (stale e) (nodes s)) \<and>
    (\<forall>ev \<in> set evs. ev_type ev = ''node.offline'') \<and> (\<forall>n \<in> set (nodes s'). \<not> stale e n)"
proof -
  let ?s = "s\<lparr>nodes := update_rows (stale e) (offline_node e) (nodes s)\<rparr>"
  let ?ns = "map (offline_node e) (filter (stale e) (nodes s))"
  have "truthy (event_workspace None (Some (n_id n)) (nodes ?s))" if n: "n \<in> set ?ns" for n
  proof -
    from n obtain x where x: "x \<in> set (nodes s)" "stale e x" "n = offline_node e x" by auto
    then have "n \<in> set (nodes ?s)" "n_id n \<noteq> []" using assms by (auto simp: set_update_rows)
    moreover have "n_workspaceId y \<noteq> []" if "y \<in> set (nodes ?s)" for y
      using that assms by (auto simp: set_update_rows offline_node_def)
    ultimately show ?thesis
      using find_row_exists[of n "nodes ?s" "\<lambda>y. n_id y = n_id n"]
      by (auto simp: event_workspace_def) (meson find_row_Some)
  qed
  from announce_all[OF this] obtain r t evs where t: "forE (announce_offline e) ?ns ?s = (Inr r, t)"
    "events t = events ?s @ evs" "map ev_nodeId evs = map (\<lambda>n. Some (n_id n)) ?ns"
    "\<forall>ev \<in> set evs. ev_type ev = ''node.offline''" "nodes t = nodes ?s" by blast
  have stale: "stale e n = (n_status n = ONLINE \<and> (\<exists>t. n_lastSeenAt n = Some t \<and> t + e_heartbeatTimeoutSeconds e * 1000 < e_now e))" for n
    by (auto simp: stale_def split: option.splits)
  have "markStaleNodesOffline e s = (Inr (count_rows (stale e) (nodes s)), t)"
    using t(1) by (simp add: markStaleNodesOffline_def bindE_def count_rows_def)
  moreover have "nodes t = map (\<lambda>n. if n_status n = ONLINE \<and>
        (\<exists>t. n_lastSeenAt n = Some t \<and> t + e_heartbeatTimeoutSeconds e * 1000 < e_now e)
      then n\<lparr>n_status := OFFLINE, n_updatedAt := e_now e\<rparr> else n) (nodes s)"
    using t(5) by (auto simp: update_rows_def stale offline_node_def)
  moreover have "\<not> stale e n" if "n \<in> set (nodes t)" for n
    using that t(5) by (auto simp: set_update_rows offline_node_def stale_def)
  moreover have "map ev_nodeId evs = map (\<lambda>n. Some (n_id n)) (filter (stale e) (nodes s))"
    using t(3) by (simp add: offline_node_def)
  ultimately show ?thesis using t(2,4) by auto
qed

theorem stale_sweep_exact_witness:
  "\<exists>s'. markStaleNodesOffline base_env node_db = (Inr (count_rows (stale base_env) (nodes node_db)), s') \<and>
     (\<exists>n. nodes s' = [n] \<and> n_status n = OFFLINE)"
proof -
  have "\<forall>n \<in> set (nodes node_db). n_id n \<noteq> [] \<and> n_workspaceId n \<noteq> []" by simp
  moreover have "n_lastSeenAt sample_node = Some 900000" "e_now base_env = 1000000" "e_heartbeatTimeoutSeconds base_env = 60"
    by (simp_all add: sample_node_def base_env_def)
  ultimately show ?thesis using stale_sweep_exact[of node_db base_env] by auto
qed

lemma markOnline_run:
  assumes "markOnline e i x s = (Inr (v, flag), s')"
  shows "flag \<and> count_rows (\<lambda>n. n_id n = i \<and> n_status n = OFFLINE) (nodes s) \<noteq> 0 \<and>
       nodes s' = update_rows (\<lambda>n. n_id n = i \<and> n_status n = OFFLINE) (awake_node e x) (nodes s) \<or>
     \<not> flag \<and> count_rows (\<lambda>n. n_id n = i \<and> n_status n = OFFLINE) (nodes s) = 0 \<and>
       (\<exists>n0. find_row (\<lambda>n. n_id n = i) (nodes s) = Some n0 \<and>
          nodes s' = save_row n_id (touched (\<lambda>t r. r\<lparr>n_updatedAt := t\<rparr>) (e_now e) n0 (refresh_online e x n0)) (nodes s))"
proof (cases "count_rows (\<lambda>n. n_id n = i \<and> n_status n = OFFLINE) (nodes s) = 0")
  case True
  then show ?thesis using assms
    by (auto simp: markOnline_def Let_def update_rows_none bindE_success saveNode_def split: option.splits
        dest!: quiet_run[OF populateNode_quiet])
next
  case False
  then show ?thesis using assms
    by (auto simp: markOnline_def Let_def bindE_success dest!: quiet_run[OF nodes_findOneOrFail_quiet])
qed

lemma fresh_not_stale:
  "n_lastSeenAt n = Some t \<Longrightarrow> e_now e' \<le> t + e_heartbeatTimeoutSeconds e' * 1000 \<Longrightarrow> \<not> stale e' n"
  by (simp add: stale_def)

text \<open>A heartbeat keeps its node online. It reports a transition exactly when the node was offline;
  afterwards the node is online, seen now, and no sweep within the timeout takes it offline; no
  other node changes.\<close>

theorem heartbeat_keeps_online:
  assumes keyed: "distinct (map n_id (nodes s))" and run: "markOnline e i x s = (Inr (v, flag), s')"
  shows "(\<exists>n0 \<in> set (nodes s). n_id n0 = i \<and> flag = (n_status n0 = OFFLINE)) \<and>
    (\<exists>n \<in> set (nodes s'). n_id n = i \<and> n_status n = ONLINE \<and> n_lastSeenAt n = Some (e_now e) \<and>
       (\<forall>e'. e_now e' \<le> e_now e + e_heartbeatTimeoutSeconds e' * 1000 \<longrightarrow> \<not> stale e' n)) \<and>
    (\<forall>n. n_id n \<noteq> i \<longrightarrow> (n \<in> set (nodes s') \<longleftrightarrow> n \<in> set (nodes s)))"
  using markOnline_run[OF run]
proof (elim disjE conjE exE)
  assume flag: "flag" and n: "count_rows (\<lambda>n. n_id n = i \<and> n_status n = OFFLINE) (nodes s) \<noteq> 0"
    and s': "nodes s' = update_rows (\<lambda>n. n_id n = i \<and> n_status n = OFFLINE) (awake_node e x) (nodes s)"
  from n obtain n0 where n0: "n0 \<in> set (nodes s)" "n_id n0 = i" "n_status n0 = OFFLINE" by (auto simp: count_rows_zero)
  have "awake_node e x n0 \<in> set (nodes s')" using n0 by (auto simp: s' set_update_rows)
  moreover have "n \<in> set (nodes s') \<longleftrightarrow> n \<in> set (nodes s)" if "n_id n \<noteq> i" for n
    using that by (auto simp: s' set_update_rows)
  ultimately show ?thesis using flag n0 awake_node_simps[of e x n0] fresh_not_stale[of "awake_node e x n0" "e_now e"] by blast
next
  fix n0 assume flag: "\<not> flag" and n: "count_rows (\<lambda>n. n_id n = i \<and> n_status n = OFFLINE) (nodes s) = 0"
    and n0: "find_row (\<lambda>n. n_id n = i) (nodes s) = Some n0"
    and s': "nodes s' = save_row n_id (touched (\<lambda>t r. r\<lparr>n_updatedAt := t\<rparr>) (e_now e) n0 (refresh_online e x n0)) (nodes s)"
      (is "_ = save_row n_id ?n (nodes s)")
  have n0': "n0 \<in> set (nodes s)" "n_id n0 = i" using n0 by (auto dest: find_row_Some)
  then have "n_status n0 \<noteq> OFFLINE" using n by (auto simp: count_rows_zero)
  moreover have "?n \<in> set (nodes s')" by (simp add: s' set_save_row)
  moreover have "m \<in> set (nodes s') \<longleftrightarrow> m \<in> set (nodes s)" if "n_id m \<noteq> i" for m
    using that n0'(2) by (auto simp: s' set_save_row)
  moreover have "n_id ?n = i" "n_status ?n = ONLINE" "n_lastSeenAt ?n = Some (e_now e)" using n0'(2) by simp_all
  ultimately show ?thesis using flag n0' fresh_not_stale[of ?n "e_now e"] by blast
qed

theorem heartbeat_keeps_online_witness:
  "\<exists>v s'. markOnline base_env ''n1'' None node_db = (Inr (v, False), s') \<and> (\<exists>n \<in> set (nodes s'). n_status n = ONLINE)"
proof -
  have "\<exists>v flag s'. markOnline base_env ''n1'' None node_db = (Inr (v, flag), s')"
    by (simp add: markOnline_def Let_def count_rows_def update_rows_def find_row_def saveNode_def bindE_success populateNode_eq
        refresh_online_def applyLocationPatch_def)
      (simp add: resolveNodeLocationFields_def normalizeProvider_def normalizeToken_def, blast)
  then obtain v flag s' where run: "markOnline base_env ''n1'' None node_db = (Inr (v, flag), s')" by blast
  from heartbeat_keeps_online[OF _ this] run show ?thesis by auto
qed

end
