(* ===== verification/Tasks.thy ===== *)
theory Tasks
  imports Nodes
begin

text \<open>
  Work for the nodes (\<open>src/modules/tasks/tasks.service.ts\<close>): queueing with the root access policy,
  batches and team runs, claiming with leases, the life cycle reported by agents (over the claim
  interface and the older one that authenticates every call), cancellation, the sweep of stale tasks
  and the reading of package results. One definition per service method. The lemmas show the state
  machine of a task and what claims, cancellations and completions do.

  Log lines for operators are left out; the counters they come with are kept.
\<close>

section \<open>Data\<close>

definition TERMINAL_TASK_STATUSES :: "task_status set" where
  "TERMINAL_TASK_STATUSES = {SUCCESS, FAILED, CANCELLED}"

definition CLAIM_POLL_INTERVAL_MS :: int where
  "CLAIM_POLL_INTERVAL_MS = 500"

definition ROOT_SCOPE_TASK :: string where
  "ROOT_SCOPE_TASK = ''task''"

definition ROOT_SCOPE_OPERATIONAL :: string where
  "ROOT_SCOPE_OPERATIONAL = ''operational''"

definition HTTP_TASK_OUTPUT_MAX_LENGTH :: nat where
  "HTTP_TASK_OUTPUT_MAX_LENGTH = 8000"

definition PACKAGE_READ_TASK_TYPES :: "string list" where
  "PACKAGE_READ_TASK_TYPES = [''packageList'', ''packageSearch'']"

definition PACKAGE_MUTATION_TASK_TYPES :: "string list" where
  "PACKAGE_MUTATION_TASK_TYPES = [''packageInstall'', ''packageRemove'', ''packagePurge'']"

definition isPackageTaskType :: "string \<Rightarrow> bool" where
  "isPackageTaskType v \<longleftrightarrow> v \<in> set (PACKAGE_READ_TASK_TYPES @ PACKAGE_MUTATION_TASK_TYPES)"

record task_query =
  qt_nodeId :: "string option"
  qt_status :: "task_status option"
  qt_includeInternal :: "bool option"
  qt_limit :: "nat option"
  qt_offset :: "nat option"

record queue_input =
  qi_nodeId :: string
  qi_type :: string
  qi_payload :: json_object
  qi_workspaceId :: "string option"
  qi_targetTeamId :: "string option"
  qi_templateId :: "string option"
  qi_templateName :: "string option"
  qi_isInternal :: bool

text \<open>What an agent sends when it has finished: \<open>completedAt\<close> of the older interface, \<open>timestamp\<close> of
  the claim interface.\<close>

record completion_dto =
  cp_taskId :: "string option"
  cp_status :: string
  cp_result :: "json_object option"
  cp_output :: "string option"
  cp_exitCode :: "int option"
  cp_error :: "string option"
  cp_completedAt :: "timestamp option"
  cp_durationMs :: "int option"

record log_entry =
  le_stream :: string
  le_line :: string
  le_timestamp :: "timestamp option"

section \<open>Helpers\<close>

definition isTerminalStatus :: "task_status \<Rightarrow> bool" where
  "isTerminalStatus st \<longleftrightarrow> st \<in> TERMINAL_TASK_STATUSES"

definition incrementCounter :: "string \<Rightarrow> nat \<Rightarrow> unit op" where
  "incrementCounter name k = writeE (\<lambda>s. s\<lparr>counters := (counters s)(name := counters s name + k)\<rparr>)"

fun getTaskCompletionEventType :: "task_status \<Rightarrow> http_error + string" where
  "getTaskCompletionEventType SUCCESS = Inr ''task.completed''"
| "getTaskCompletionEventType FAILED = Inr ''task.failed''"
| "getTaskCompletionEventType CANCELLED = Inr ''task.cancelled''"
| "getTaskCompletionEventType st = Inl (Conflict (''Task status '' @ task_status_str st @ '' is not terminal''))"

fun getTaskCompletionSeverity :: "task_status \<Rightarrow> http_error + severity" where
  "getTaskCompletionSeverity SUCCESS = Inr INFO"
| "getTaskCompletionSeverity FAILED = Inr WARNING"
| "getTaskCompletionSeverity CANCELLED = Inr WARNING"
| "getTaskCompletionSeverity st = Inl (Conflict (''Task status '' @ task_status_str st @ '' is not terminal''))"

definition getTaskCompletionMessage :: "task \<Rightarrow> node \<Rightarrow> http_error + string" where
  "getTaskCompletionMessage t n =
     (case t_status t of
        SUCCESS \<Rightarrow> Inr (''Task '' @ t_type t @ '' completed successfully on node '' @ n_hostname n)
      | FAILED \<Rightarrow> Inr (''Task '' @ t_type t @ '' failed on node '' @ n_hostname n)
      | CANCELLED \<Rightarrow> Inr (''Task '' @ t_type t @ '' was cancelled on node '' @ n_hostname n)
      | st \<Rightarrow> Inl (Conflict (''Task status '' @ task_status_str st @ '' is not terminal'')))"

definition buildTaskEventMetadata :: "task \<Rightarrow> json_object" where
  "buildTaskEventMetadata t =
     [(''taskId'', JStr (t_id t)), (''taskType'', JStr (t_type t)), (''taskStatus'', JStr (task_status_str (t_status t)))]"

definition str_field :: "json_object \<Rightarrow> string \<Rightarrow> string option" where
  "str_field ob k = (case jget ob k of Some (JStr v) \<Rightarrow> Some v | _ \<Rightarrow> None)"

definition is_true :: "json_object \<Rightarrow> string \<Rightarrow> bool" where
  "is_true ob k \<longleftrightarrow> jget ob k = Some (JBool True)"

definition buildTaskAuditMetadata :: "env \<Rightarrow> task \<Rightarrow> node option \<Rightarrow> json_object" where
  "buildTaskAuditMetadata e t n =
     (let command = str_field (t_payload t) ''command'';
          given = (if truthy command then command else None)
      in [(''taskId'', JStr (t_id t)), (''taskType'', JStr (t_type t)),
          (''taskStatus'', JStr (task_status_str (t_status t))), (''nodeId'', JStr (t_nodeId t)),
          (''hostname'', jstr_opt (map_option n_hostname n)),
          (''runAsRoot'', JBool (is_true (t_payload t) ''runAsRoot'')),
          (''rootScope'', jstr_opt (str_field (t_payload t) ''rootScope'')),
          (''command'', jstr_opt command), (''commandSha256'', jstr_opt (map_option (e_sha256 e) given)),
          (''commandLength'', (case given of None \<Rightarrow> JNull | Some c \<Rightarrow> JNum (int (length c)))),
          (''commandTruncated'', JBool False), (''templateId'', jstr_opt (t_templateId t)),
          (''targetTeamId'', jstr_opt (t_targetTeamId t))])"

definition isPackageMutationTaskType :: "string \<Rightarrow> bool" where
  "isPackageMutationTaskType v \<longleftrightarrow> v = ''packageInstall'' \<or> v = ''packageRemove'' \<or> v = ''packagePurge''"

definition shouldBroadcastTask :: "task \<Rightarrow> bool" where
  "shouldBroadcastTask t \<longleftrightarrow> \<not> t_isInternal t"

definition handleTaskPostCompletion :: "task \<Rightarrow> unit op" where
  "handleTaskPostCompletion t = ret ()"

definition assertTaskIdMatchesRoute :: "string \<Rightarrow> string option \<Rightarrow> unit op" where
  "assertTaskIdMatchesRoute routeTaskId bodyTaskId =
     guardE (\<not> truthy bodyTaskId \<or> bodyTaskId = Some routeTaskId)
       (BadRequest ''taskId in request body must match route parameter'')"

definition resolveTaskLogLevel :: "string \<Rightarrow> task_log_level" where
  "resolveTaskLogLevel stream =
     (if stream = ''stdout'' then LOG_STDOUT else if stream = ''stderr'' then LOG_STDERR else LOG_INFO)"

definition normalizeCompletionStatus :: "string \<Rightarrow> http_error + task_status" where
  "normalizeCompletionStatus st =
     (if st = ''success'' then Inr SUCCESS
      else if st = ''cancelled'' \<or> st = ''canceled'' then Inr CANCELLED
      else if st = ''timeout'' \<or> st = ''failed'' then Inr FAILED
      else Inl (Conflict (''Task status '' @ st @ '' is not terminal'')))"

definition given :: "string \<Rightarrow> ('a \<Rightarrow> json) \<Rightarrow> 'a option \<Rightarrow> json_object" where
  "given k f x = (case x of None \<Rightarrow> [] | Some v \<Rightarrow> [(k, f v)])"

definition buildCompletionResult :: "completion_dto \<Rightarrow> json_object option" where
  "buildCompletionResult dto =
     (let result = given ''exitCode'' JNum (cp_exitCode dto) @ given ''durationMs'' JNum (cp_durationMs dto) @
            given ''completedAt'' (\<lambda>t. JStr (ts_text t)) (cp_completedAt dto) @ given ''error'' JStr (cp_error dto) @
            (if cp_status dto = ''timeout'' then [(''reason'', JStr ''timeout'')] else [])
      in if result = [] then None else Some result)"

definition normalizeCompletionOutput :: "string option \<Rightarrow> string option \<times> bool" where
  "normalizeCompletionOutput out =
     (case out of
        None \<Rightarrow> (None, False)
      | Some xs \<Rightarrow> if length xs \<le> HTTP_TASK_OUTPUT_MAX_LENGTH then (Some xs, False)
                   else (Some (take HTTP_TASK_OUTPUT_MAX_LENGTH xs), True))"

definition getClaimLeaseSeconds :: "env \<Rightarrow> int" where
  "getClaimLeaseSeconds e = max (e_taskClaimLeaseSeconds e) 15"

definition isAgentClaimPath :: "string \<Rightarrow> string \<Rightarrow> bool" where
  "isAgentClaimPath path method \<longleftrightarrow>
     toUpperCase (trim method) = ''POST'' \<and>
     (let p = toLowerCase (trim path) in p = ''/agent/tasks/claim'' \<or> endsWith p ''/agent/tasks/claim'')"

definition resolveTemplateOrFail :: "string \<Rightarrow> string \<Rightarrow> task_template op" where
  "resolveTemplateOrFail templateId workspaceId =
     findE task_templates (\<lambda>t. tt_id t = templateId \<and> tt_workspaceId t = workspaceId)
       (NotFound (''Task template '' @ templateId @ '' was not found''))"

definition tasks_findOneOrFail :: "string \<Rightarrow> string option \<Rightarrow> task op" where
  "tasks_findOneOrFail i workspaceId =
     findE tasks (\<lambda>t. t_id t = i \<and> if_given workspaceId (\<lambda>w. t_workspaceId t = w))
       (NotFound (''Task '' @ i @ '' was not found''))"

definition findTaskForNodeOrFail :: "string \<Rightarrow> string \<Rightarrow> task op" where
  "findTaskForNodeOrFail taskId nodeId =
     findE tasks (\<lambda>t. t_id t = taskId \<and> t_nodeId t = nodeId)
       (NotFound (''Task '' @ taskId @ '' was not found for node '' @ nodeId))"

text \<open>The repository's \<open>save\<close> of a task that was read before.\<close>

definition saveTask :: "env \<Rightarrow> task \<Rightarrow> task \<Rightarrow> task op" where
  "saveTask e old new =
     (let t = touched (\<lambda>d r. r\<lparr>t_updatedAt := d\<rparr>) (e_now e) old new
      in bindE (writeE (\<lambda>s. s\<lparr>tasks := save_row t_id t (tasks s)\<rparr>)) (\<lambda>_. ret t))"

definition insertTaskLog :: "env \<Rightarrow> string \<Rightarrow> task_log_level \<Rightarrow> string \<Rightarrow> int \<Rightarrow> task_log op" where
  "insertTaskLog e taskId level message at_time =
     bindE (fresh_id e) (\<lambda>i.
       let l = \<lparr>tl_id = i, tl_taskId = taskId, tl_level = level, tl_message = message,
                tl_timestamp = Some at_time, tl_createdAt = e_now e\<rparr>
       in bindE (writeE (\<lambda>s. s\<lparr>task_logs := task_logs s @ [l]\<rparr>)) (\<lambda>_. ret l))"

definition createTaskLog :: "env \<Rightarrow> string \<Rightarrow> task_log_level \<Rightarrow> string \<Rightarrow> task_log op" where
  "createTaskLog e taskId level message = insertTaskLog e taskId level message (e_now e)"

definition task_json :: "env \<Rightarrow> task \<Rightarrow> json" where
  "task_json e t =
     JObj [(''id'', JStr (t_id t)), (''workspaceId'', JStr (t_workspaceId t)), (''nodeId'', JStr (t_nodeId t)),
           (''targetTeamId'', jstr_opt (t_targetTeamId t)), (''templateId'', jstr_opt (t_templateId t)),
           (''templateName'', jstr_opt (t_templateName t)), (''type'', JStr (t_type t)),
           (''isInternal'', JBool (t_isInternal t)), (''payload'', JObj (t_payload t)),
           (''status'', JStr (task_status_str (t_status t))), (''result'', opt_json (t_result t)),
           (''output'', jstr_opt (t_output t)),
           (''outputTruncated'', (case t_outputTruncated t of None \<Rightarrow> JNull | Some b \<Rightarrow> JBool b)),
           (''leaseUntil'', jtime_opt (t_leaseUntil t)), (''claimedBy'', jstr_opt (t_claimedBy t)),
           (''claimToken'', jstr_opt (t_claimToken t)), (''startedAt'', jtime_opt (t_startedAt t)),
           (''finishedAt'', jtime_opt (t_finishedAt t)), (''cancelRequestedAt'', jtime_opt (t_cancelRequestedAt t)),
           (''cancelReason'', jstr_opt (t_cancelReason t)), (''createdAt'', jtime_opt (Some (t_createdAt t))),
           (''updatedAt'', jtime_opt (Some (t_updatedAt t))), (''sourceInstanceId'', JStr (e_instanceId e))]"

definition publishTaskUpdated :: "env \<Rightarrow> task \<Rightarrow> unit op" where
  "publishTaskUpdated e t =
     (if \<not> shouldBroadcastTask t then ret ()
      else if e_outbox e
      then bindE (enqueue e ''task.updated'' [(''task'', task_json e t)] None None) (\<lambda>_. ret ())
      else bindE (emit ''task.updated'' (task_json e t)) (\<lambda>_. publish ''tasks.updated'' (task_json e t)))"

section \<open>The root access policy\<close>

text \<open>The command, and the scope when root is asked for.\<close>

definition readShellExecRootRequest :: "json_object \<Rightarrow> http_error + (string option \<times> string option)" where
  "readShellExecRootRequest payload =
     (let command = map_option trim (str_field payload ''command'')
      in if \<not> is_true payload ''runAsRoot'' then Inr (command, None)
         else
           let rootScope = map_option trim (str_field payload ''rootScope'')
           in if rootScope \<noteq> Some ROOT_SCOPE_TASK \<and> rootScope \<noteq> Some ROOT_SCOPE_OPERATIONAL
              then Inl (BadRequest ''rootScope must be \"task\" or \"operational\" when runAsRoot is enabled.'')
              else Inr (command, rootScope))"

definition OPERATIONAL_ROOT_COMMANDS :: "string list" where
  "OPERATIONAL_ROOT_COMMANDS = [''reboot'', ''systemctl restart noderax-agent'', ''apt-get update'']"

definition assertOperationalRootShellPayloadAllowed :: "string option \<Rightarrow> unit op" where
  "assertOperationalRootShellPayloadAllowed command =
     guardE ((case command of None \<Rightarrow> [] | Some c \<Rightarrow> trim (collapse_ws c)) \<in> set OPERATIONAL_ROOT_COMMANDS)
       (BadRequest ''Operational root access is limited to reboot, restarting noderax-agent, and apt-get update.'')"

definition assertRequestedRootAccessAllowed :: "env \<Rightarrow> node \<Rightarrow> string \<Rightarrow> json_object \<Rightarrow> unit op" where
  "assertRequestedRootAccessAllowed e n taskType payload =
     (if isPackageMutationTaskType taskType then assertNodeAllowsOperationalRoot e n
      else if taskType = ''log.scan'' then
        if \<not> is_true payload ''runAsRoot'' then ret ()
        else
          bindE (guardE (map_option trim (str_field payload ''rootScope'') = Some ROOT_SCOPE_OPERATIONAL)
                   (BadRequest ''log.scan root execution requires rootScope to be \"operational\".'')) (\<lambda>_.
          assertNodeAllowsOperationalRoot e n)
      else if taskType \<noteq> ''shell.exec'' then ret ()
      else
        bindE (liftE (readShellExecRootRequest payload)) (\<lambda>(command, rootScope).
          if \<not> is_true payload ''runAsRoot'' then ret ()
          else if rootScope = Some ROOT_SCOPE_TASK then assertNodeAllowsTaskRoot e n
          else
            bindE (assertOperationalRootShellPayloadAllowed command) (\<lambda>_.
            assertNodeAllowsOperationalRoot e n)))"

section \<open>Queueing\<close>

definition new_task :: "env \<Rightarrow> node \<Rightarrow> queue_input \<Rightarrow> task_template option \<Rightarrow> string \<Rightarrow> task" where
  "new_task e n inp template i =
     \<lparr>t_id = i, t_workspaceId = n_workspaceId n, t_nodeId = qi_nodeId inp, t_targetTeamId = qi_targetTeamId inp,
      t_templateId = orKeep (qi_templateId inp) (map_option tt_id template),
      t_templateName = orKeep (qi_templateName inp) (map_option tt_name template),
      t_type = qi_type inp, t_isInternal = qi_isInternal inp, t_payload = qi_payload inp, t_status = QUEUED,
      t_result = None, t_output = None, t_outputTruncated = Some False, t_leaseUntil = None, t_claimedBy = None,
      t_claimToken = None, t_startedAt = None, t_finishedAt = None, t_cancelRequestedAt = None, t_cancelReason = None,
      t_createdAt = e_now e, t_updatedAt = e_now e\<rparr>"

definition announceTask :: "env \<Rightarrow> node \<Rightarrow> task \<Rightarrow> unit op" where
  "announceTask e n t =
     whenE (shouldBroadcastTask t)
       (bindE (recordEvent e None (Some (t_nodeId t)) ''task.queued'' (Some INFO)
                 (''Task '' @ t_type t @ '' queued for node '' @ n_hostname n)
                 (Some [(''taskId'', JStr (t_id t)), (''taskType'', JStr (t_type t))])) (\<lambda>_.
        if e_outbox e
        then bindE (enqueue e ''task.created'' [(''task'', task_json e t)] None None) (\<lambda>_. ret ())
        else bindE (emit ''task.created'' (task_json e t)) (\<lambda>_. publish ''tasks.created'' (task_json e t))))"

text \<open>The realtime dispatch to a connected agent: only that it is attempted is modelled.\<close>

definition dispatchTaskToNode :: "task \<Rightarrow> unit op" where
  "dispatchTaskToNode t = writeE (\<lambda>s. s\<lparr>dispatched := dispatched s @ [t_id t]\<rparr>)"

definition queueTask :: "env \<Rightarrow> queue_input \<Rightarrow> node option \<Rightarrow> audit_context option \<Rightarrow> task op" where
  "queueTask e inp nodeOverride ctx =
     bindE (case nodeOverride of Some n \<Rightarrow> ret n
            | None \<Rightarrow> bindE (nodes_findOneOrFail (qi_nodeId inp) (qi_workspaceId inp)) (\<lambda>(n, _). ret n)) (\<lambda>n.
     bindE (assertWorkspaceWritable (n_workspaceId n)) (\<lambda>_.
     bindE (assertNodeAcceptingNewWork n) (\<lambda>_.
     bindE (assertRequestedRootAccessAllowed e n (qi_type inp) (qi_payload inp)) (\<lambda>_.
     bindE (if truthy (qi_templateId inp) \<and> \<not> truthy (qi_templateName inp)
            then bindE (resolveTemplateOrFail (the (qi_templateId inp)) (n_workspaceId n)) (\<lambda>t. ret (Some t))
            else ret None) (\<lambda>template.
     bindE (fresh_id e) (\<lambda>i.
       let t = new_task e n inp template i
       in
       bindE (writeE (\<lambda>s. s\<lparr>tasks := tasks s @ [t]\<rparr>)) (\<lambda>_.
       bindE (announceTask e n t) (\<lambda>_.
       bindE (whenE (e_enableRealtimeTaskDispatch e) (dispatchTaskToNode t)) (\<lambda>_.
       bindE (whenE (ctx \<noteq> None \<and> shouldBroadcastTask t)
                (bindE (recordAudit e \<lparr>ai_scope = ''workspace'', ai_workspaceId = Some (n_workspaceId n),
                          ai_action = ''task.created'', ai_targetType = ''task'', ai_targetId = Some (t_id t),
                          ai_targetLabel = Some (t_type t), ai_changes = None,
                          ai_metadata = Some (buildTaskAuditMetadata e t (Some n))\<rparr> ctx) (\<lambda>_. ret ()))) (\<lambda>_.
       ret t))))))))))"

definition createTask ::
  "env \<Rightarrow> string \<Rightarrow> string \<Rightarrow> json_object option \<Rightarrow> string option \<Rightarrow> string option \<Rightarrow> audit_context option \<Rightarrow>
     bool \<Rightarrow> task op" where
  "createTask e nodeId type payload templateId workspaceId ctx isInternal =
     queueTask e \<lparr>qi_nodeId = nodeId, qi_type = type, qi_payload = orElse payload [], qi_workspaceId = workspaceId,
                  qi_targetTeamId = None, qi_templateId = templateId, qi_templateName = None,
                  qi_isInternal = isInternal\<rparr> None ctx"

definition normalizeNodeIds :: "string list \<Rightarrow> http_error + string list" where
  "normalizeNodeIds nodeIds =
     (let ids = uniq (filter (\<lambda>i. i \<noteq> []) (map trim nodeIds))
      in if ids = [] then Inl (BadRequest ''Select at least one node.'') else Inr ids)"

definition loadNodeLookup :: "string list \<Rightarrow> string option \<Rightarrow> (string \<times> node) list op" where
  "loadNodeLookup nodeIds workspaceId =
     forE (\<lambda>i. bindE (nodes_findOneOrFail i workspaceId) (\<lambda>(n, _). ret (n_id n, n))) nodeIds"

definition createBatch ::
  "env \<Rightarrow> string list \<Rightarrow> string \<Rightarrow> json_object option \<Rightarrow> string option \<Rightarrow> string option \<Rightarrow> audit_context option \<Rightarrow>
     task list op" where
  "createBatch e nodeIds type payload templateId workspaceId ctx =
     bindE (liftE (normalizeNodeIds nodeIds)) (\<lambda>ids.
     bindE (loadNodeLookup ids workspaceId) (\<lambda>lookup.
     forE (\<lambda>i.
       bindE (someE (map_of lookup i) (NotFound (''Node '' @ i @ '' was not found''))) (\<lambda>n.
       queueTask e \<lparr>qi_nodeId = i, qi_type = type, qi_payload = orElse payload [], qi_workspaceId = workspaceId,
                    qi_targetTeamId = None, qi_templateId = templateId, qi_templateName = None,
                    qi_isInternal = False\<rparr> (Some n) ctx)) ids))"

definition createScheduledShellTask ::
  "env \<Rightarrow> string \<Rightarrow> scheduled_task \<Rightarrow> task op" where
  "createScheduledShellTask e nodeId sch =
     queueTask e \<lparr>qi_nodeId = nodeId, qi_type = ''shell.exec'',
       qi_payload = [(''title'', JStr (st_name sch)), (''command'', JStr (st_command sch)),
         (''runAsRoot'', JBool (st_runAsRoot sch))] @
         (if st_runAsRoot sch then [(''rootScope'', JStr ''task'')] else []) @
         [(''scheduleId'', JStr (st_id sch)), (''scheduleName'', JStr (st_name sch))],
       qi_workspaceId = Some (st_workspaceId sch), qi_targetTeamId = st_targetTeamId sch,
       qi_templateId = st_templateId sch, qi_templateName = st_templateName sch, qi_isInternal = False\<rparr> None None"

definition createForTeam ::
  "env \<Rightarrow> string \<Rightarrow> string \<Rightarrow> string \<Rightarrow> json_object \<Rightarrow> string option \<Rightarrow> audit_context option \<Rightarrow> task list op" where
  "createForTeam e workspaceId teamId type payload templateId ctx =
     bindE (assertWorkspaceWritable workspaceId) (\<lambda>w.
     bindE (findTeamOrFail (w_id w) teamId) (\<lambda>team.
     bindE (if truthy templateId
            then bindE (resolveTemplateOrFail (the templateId) (w_id w)) (\<lambda>t. ret (Some t)) else ret None) (\<lambda>template.
     bindE (listTeamOwnedNodes (w_id w) (tm_id team)) (\<lambda>views.
       let eligible = filter (\<lambda>n. \<not> n_maintenanceMode n) (map fst views)
       in
       bindE (guardE (eligible \<noteq> [])
                (BadRequest (''Team '' @ tm_name team @ '' does not currently have any eligible nodes.''))) (\<lambda>_.
         let payload' = (if payload \<noteq> [] then payload
                         else case template of None \<Rightarrow> [] | Some t \<Rightarrow> tt_payloadTemplate t);
             type' = (if trim type \<noteq> [] then trim type
                      else case template of None \<Rightarrow> [] | Some t \<Rightarrow> tt_taskType t)
         in
         bindE (guardE (type' \<noteq> []) (BadRequest ''Task type is required.'')) (\<lambda>_.
         bindE (forE (\<lambda>n. queueTask e \<lparr>qi_nodeId = n_id n, qi_type = type', qi_payload = payload',
                  qi_workspaceId = Some (w_id w), qi_targetTeamId = Some (tm_id team),
                  qi_templateId = map_option tt_id template, qi_templateName = map_option tt_name template,
                  qi_isInternal = False\<rparr> (Some n) ctx) eligible) (\<lambda>queued.
         bindE (recordAudit e \<lparr>ai_scope = ''workspace'', ai_workspaceId = Some (w_id w),
                  ai_action = ''task.team-run.created'', ai_targetType = ''team'', ai_targetId = Some (tm_id team),
                  ai_targetLabel = Some (tm_name team), ai_changes = None,
                  ai_metadata = Some [(''taskType'', JStr type'), (''taskCount'', JNum (int (length queued))),
                    (''taskIds'', JArr (map (\<lambda>t. JStr (t_id t)) queued))]\<rparr> ctx) (\<lambda>_.
         ret queued))))))))"

section \<open>Reading\<close>

definition tasks_findAll :: "task_query \<Rightarrow> string option \<Rightarrow> task list op" where
  "tasks_findAll q workspaceId =
     readE (\<lambda>s. take (orElse (qt_limit q) 50) (drop (orElse (qt_offset q) 0)
       (sort_key (\<lambda>t. - t_createdAt t)
         (filter (\<lambda>t. if_given workspaceId (\<lambda>w. t_workspaceId t = w) \<and>
                      if_given (qt_nodeId q) (\<lambda>n. t_nodeId t = n) \<and>
                      (case qt_status q of None \<Rightarrow> True | Some st \<Rightarrow> t_status t = st) \<and>
                      (qt_includeInternal q = Some True \<or> \<not> t_isInternal t))
            (tasks s)))))"

definition findLogs :: "string \<Rightarrow> nat option \<Rightarrow> string option \<Rightarrow> task_log list op" where
  "findLogs taskId limit workspaceId =
     bindE (tasks_findOneOrFail taskId workspaceId) (\<lambda>_.
     readE (\<lambda>s. order_limit tl_createdAt (orElse limit 100) (filter (\<lambda>l. tl_taskId l = taskId) (task_logs s))))"

definition pullQueuedForAgent :: "env \<Rightarrow> string \<Rightarrow> string \<Rightarrow> nat option \<Rightarrow> task list op" where
  "pullQueuedForAgent e nodeId agentToken limit =
     bindE (authenticateAgent e nodeId agentToken) (\<lambda>_.
     readE (\<lambda>s. order_limit t_createdAt (orElse limit 10)
       (filter (\<lambda>t. t_nodeId t = nodeId \<and> t_status t = QUEUED) (tasks s))))"

definition findQueuedForNode :: "string \<Rightarrow> nat \<Rightarrow> task list op" where
  "findQueuedForNode nodeId limit =
     readE (\<lambda>s. order_limit t_createdAt (max 1 (min limit 200))
       (filter (\<lambda>t. t_nodeId t = nodeId \<and> t_status t = QUEUED) (tasks s)))"

definition getQueueSnapshot :: "(nat \<times> nat) op" where
  "getQueueSnapshot =
     readE (\<lambda>s. (count_rows (\<lambda>t. t_status t = QUEUED) (tasks s), count_rows (\<lambda>t. t_status t = RUNNING) (tasks s)))"

definition recordClaimUnauthorizedAttempt :: "string \<Rightarrow> string \<Rightarrow> unit op" where
  "recordClaimUnauthorizedAttempt path method =
     whenE (isAgentClaimPath path method) (incrementCounter ''claim_unauthorized_total'' 1)"

definition getClaimStatsSnapshot :: "(string \<times> nat) list op" where
  "getClaimStatsSnapshot =
     readE (\<lambda>s. map (\<lambda>k. (k, counters s k)) [''claim_request_total'', ''claim_success_total'', ''claim_empty_total'',
       ''claim_unauthorized_total'', ''claim_error_total''])"

definition getLastClaimAtIso :: "string option op" where
  "getLastClaimAtIso = readE (\<lambda>s. map_option toISOString (lastClaimAt s))"

definition getTaskControlForAgent ::
  "string \<Rightarrow> string \<Rightarrow> (string \<times> task_status \<times> bool \<times> string option \<times> string option) op" where
  "getTaskControlForAgent taskId nodeId =
     bindE (findTaskForNodeOrFail taskId nodeId) (\<lambda>t.
     ret (t_id t, t_status t, t_status t = RUNNING \<and> t_cancelRequestedAt t \<noteq> None,
          map_option toISOString (t_cancelRequestedAt t), t_cancelReason t))"

text \<open>Waiting for the end of a task. A round is the clock after the delay and what everyone else did to
  the database meanwhile; \<open>None\<close> on the outside means that the rounds given were not enough.\<close>

type_synonym rounds = "(env \<times> (db \<Rightarrow> db)) list"

fun wait_poll :: "int \<Rightarrow> string \<Rightarrow> string option \<Rightarrow> env \<Rightarrow> rounds \<Rightarrow> task option option op" where
  "wait_poll deadline taskId workspaceId e rs =
     (if e_now e < deadline then
        (case rs of
           [] \<Rightarrow> ret None
         | (e', others) # rs' \<Rightarrow>
             bindE (writeE others) (\<lambda>_.
             bindE (tasks_findOneOrFail taskId workspaceId) (\<lambda>t.
               if isTerminalStatus (t_status t) then ret (Some (Some t))
               else wait_poll deadline taskId workspaceId e' rs')))
      else ret (Some None))"

declare wait_poll.simps [simp del]

definition waitForTerminalState :: "env \<Rightarrow> string \<Rightarrow> int \<Rightarrow> string option \<Rightarrow> rounds \<Rightarrow> task option option op" where
  "waitForTerminalState e taskId timeoutMs workspaceId rs =
     bindE (tasks_findOneOrFail taskId workspaceId) (\<lambda>t.
       if isTerminalStatus (t_status t) then ret (Some (Some t))
       else wait_poll (e_now e + max timeoutMs 0) taskId workspaceId e rs)"

section \<open>Claims\<close>

text \<open>\<open>INNER JOIN nodes n ON n.id = t.nodeId \<dots> AND n.maintenanceMode = false\<close>\<close>

definition node_serving :: "node list \<Rightarrow> string \<Rightarrow> bool" where
  "node_serving ns i \<longleftrightarrow> (\<exists>n \<in> set ns. n_id n = i \<and> \<not> n_maintenanceMode n)"

definition lease_expired :: "int \<Rightarrow> task \<Rightarrow> bool" where
  "lease_expired now t \<longleftrightarrow>
     t_status t \<in> {ACCEPTED, CLAIMED} \<and> (case t_leaseUntil t of None \<Rightarrow> False | Some l \<Rightarrow> l \<le> now)"

definition claimable :: "int \<Rightarrow> string \<Rightarrow> node list \<Rightarrow> task \<Rightarrow> bool" where
  "claimable now nodeId ns t \<longleftrightarrow>
     t_nodeId t = nodeId \<and> t_cancelRequestedAt t = None \<and> node_serving ns nodeId \<and>
     (t_status t = QUEUED \<or> lease_expired now t)"

definition claim_task :: "env \<Rightarrow> string \<Rightarrow> string \<Rightarrow> task \<Rightarrow> task" where
  "claim_task e nodeId claimToken t =
     t\<lparr>t_status := ACCEPTED, t_claimedBy := Some nodeId, t_claimToken := Some claimToken,
       t_leaseUntil := Some (e_now e + getClaimLeaseSeconds e * 1000), t_updatedAt := e_now e\<rparr>"

definition claimNextTaskOnce :: "env \<Rightarrow> string \<Rightarrow> task option op" where
  "claimNextTaskOnce e nodeId =
     bindE (fresh_id e) (\<lambda>claimToken.
     bindE (readE (\<lambda>s. order_limit t_createdAt 1 (filter (claimable (e_now e) nodeId (nodes s)) (tasks s)))) (\<lambda>candidates.
       (case candidates of
          [] \<Rightarrow> ret None
        | t # _ \<Rightarrow>
            bindE (writeE (\<lambda>s. s\<lparr>tasks := update_rows (\<lambda>x. t_id x = t_id t) (claim_task e nodeId claimToken) (tasks s)\<rparr>)) (\<lambda>_.
            ret (Some (claim_task e nodeId claimToken t))))))"

definition loadDesiredRootAccessSnapshot :: "string \<Rightarrow> json op" where
  "loadDesiredRootAccessSnapshot nodeId =
     bindE (nodes_findOneOrFail nodeId None) (\<lambda>(n, _). ret (buildDesiredRootAccessSnapshot n))"

record claim_response =
  cr_task :: "task option"
  cr_outputTruncated :: bool
  cr_rootAccess :: json

text \<open>The polling loop of a claim, with rounds as above.\<close>

fun claim_poll :: "int \<Rightarrow> string \<Rightarrow> env \<Rightarrow> rounds \<Rightarrow> claim_response option op" where
  "claim_poll deadline nodeId e rs =
     bindE (claimNextTaskOnce e nodeId) (\<lambda>claimed.
       (case claimed of
          Some t \<Rightarrow>
            bindE (incrementCounter ''claim_success_total'' 1) (\<lambda>_.
            bindE (loadDesiredRootAccessSnapshot nodeId) (\<lambda>ra.
            ret (Some \<lparr>cr_task = Some t, cr_outputTruncated = (t_outputTruncated t = Some True), cr_rootAccess = ra\<rparr>)))
        | None \<Rightarrow>
            if deadline \<le> e_now e then
              bindE (incrementCounter ''claim_empty_total'' 1) (\<lambda>_.
              bindE (loadDesiredRootAccessSnapshot nodeId) (\<lambda>ra.
              ret (Some \<lparr>cr_task = None, cr_outputTruncated = False, cr_rootAccess = ra\<rparr>)))
            else
              (case rs of
                 [] \<Rightarrow> ret None
               | (e', others) # rs' \<Rightarrow> bindE (writeE others) (\<lambda>_. claim_poll deadline nodeId e' rs'))))"

declare claim_poll.simps [simp del]

definition claimForAgent ::
  "env \<Rightarrow> string \<Rightarrow> int option \<Rightarrow> root_access_report option \<Rightarrow> rounds \<Rightarrow> claim_response option op" where
  "claimForAgent e nodeId waitMs rootAccess rs =
     bindE (nodes_findOneOrFail nodeId None) (\<lambda>_.
     bindE (recordAgentRootAccessState e nodeId rootAccess) (\<lambda>_.
     bindE (writeE (\<lambda>s. s\<lparr>lastClaimAt := Some (e_now e)\<rparr>)) (\<lambda>_.
     bindE (incrementCounter ''claim_request_total'' 1) (\<lambda>_.
     catchE (claim_poll (e_now e + max (orElse waitMs 15000) 0) nodeId e rs)
       (\<lambda>err. bindE (incrementCounter ''claim_error_total'' 1) (\<lambda>_. throw err))))))"

definition requeue_task :: "env \<Rightarrow> task \<Rightarrow> task" where
  "requeue_task e t = t\<lparr>t_status := QUEUED, t_leaseUntil := None, t_claimToken := None, t_claimedBy := None,
     t_updatedAt := e_now e\<rparr>"

definition requeueExpiredLeases :: "env \<Rightarrow> nat op" where
  "requeueExpiredLeases e =
     bindE (readE nodes) (\<lambda>ns.
       let gone = (\<lambda>t. lease_expired (e_now e) t \<and> node_serving ns (t_nodeId t))
       in
       bindE (readE (\<lambda>s. count_rows gone (tasks s))) (\<lambda>requeuedCount.
       bindE (writeE (\<lambda>s. s\<lparr>tasks := update_rows gone (requeue_task e) (tasks s)\<rparr>)) (\<lambda>_.
       bindE (whenE (0 < requeuedCount) (incrementCounter ''task_stale_requeue_total'' requeuedCount)) (\<lambda>_.
       ret requeuedCount))))"

definition assertClaimOwnership :: "env \<Rightarrow> task \<Rightarrow> string \<Rightarrow> string \<Rightarrow> unit op" where
  "assertClaimOwnership e t nodeId transition =
     (if t_claimedBy t \<noteq> Some nodeId then
        bindE (incrementCounter ''lifecycle_rejected_total.claim-owner-mismatch'' 1) (\<lambda>_.
        throw (Conflict (''Task '' @ t_id t @ '' is claimed by a different node and cannot transition to '' @ transition)))
      else if (case t_leaseUntil t of None \<Rightarrow> True | Some l \<Rightarrow> l \<le> e_now e) then
        bindE (incrementCounter ''lifecycle_rejected_total.lease-expired'' 1) (\<lambda>_.
        throw (Conflict (''Task '' @ t_id t @ '' lease expired before '' @ transition @ '' transition'')))
      else ret ())"

section \<open>The life cycle over the claim interface\<close>

definition rejectTransition :: "string \<Rightarrow> 'a op" where
  "rejectTransition message =
     bindE (incrementCounter ''lifecycle_rejected_total.invalid-transition'' 1) (\<lambda>_. throw (Conflict message))"

text \<open>\<open>None\<close> is the answer \<open>{ ok: true, duplicate: true }\<close>.\<close>

definition acceptClaimedTaskForAgent ::
  "env \<Rightarrow> string \<Rightarrow> string \<Rightarrow> string option \<Rightarrow> timestamp option \<Rightarrow> task_log option op" where
  "acceptClaimedTaskForAgent e taskId nodeId bodyTaskId timestamp =
     bindE (assertTaskIdMatchesRoute taskId bodyTaskId) (\<lambda>_.
     bindE (findTaskForNodeOrFail taskId nodeId) (\<lambda>t.
       if isTerminalStatus (t_status t) then
         bindE (incrementCounter ''duplicate_transition_total'' 1) (\<lambda>_. ret None)
       else if t_status t \<noteq> ACCEPTED \<and> t_status t \<noteq> CLAIMED \<and> t_status t \<noteq> RUNNING then
         rejectTransition (''Task '' @ t_id t @ '' is in '' @ task_status_str (t_status t) @ '' state and cannot be accepted'')
       else if t_status t = ACCEPTED \<or> t_status t = RUNNING then
         bindE (incrementCounter ''duplicate_transition_total'' 1) (\<lambda>_. ret None)
       else
         bindE (assertClaimOwnership e t nodeId ''accepted'') (\<lambda>_.
         bindE (insertTaskLog e taskId LOG_INFO ''Task accepted by agent'' (instant_or timestamp (e_now e))) (\<lambda>l.
         ret (Some l)))))"

definition start_task :: "env \<Rightarrow> timestamp option \<Rightarrow> task \<Rightarrow> task" where
  "start_task e timestamp t =
     t\<lparr>t_status := RUNNING, t_startedAt := Some (instant_or timestamp (e_now e)), t_leaseUntil := None,
       t_claimToken := None, t_claimedBy := None, t_updatedAt := e_now e\<rparr>"

definition startClaimedTaskForAgent ::
  "env \<Rightarrow> string \<Rightarrow> string \<Rightarrow> string option \<Rightarrow> timestamp option \<Rightarrow> task op" where
  "startClaimedTaskForAgent e taskId nodeId bodyTaskId timestamp =
     bindE (assertTaskIdMatchesRoute taskId bodyTaskId) (\<lambda>_.
     bindE (findTaskForNodeOrFail taskId nodeId) (\<lambda>t.
       if t_status t = RUNNING then
         bindE (incrementCounter ''duplicate_transition_total'' 1) (\<lambda>_. ret t)
       else if isTerminalStatus (t_status t) then
         rejectTransition (''Task '' @ t_id t @ '' is already '' @ task_status_str (t_status t) @ '' and cannot be started'')
       else if t_status t \<noteq> ACCEPTED \<and> t_status t \<noteq> CLAIMED then
         rejectTransition (''Task '' @ t_id t @ '' must be accepted before it can be started'')
       else
         bindE (assertClaimOwnership e t nodeId ''started'') (\<lambda>_.
           let mine = (\<lambda>x. t_id x = taskId \<and> t_nodeId x = nodeId \<and> t_status x \<in> {ACCEPTED, CLAIMED} \<and>
                           t_claimedBy x = Some nodeId)
           in
           bindE (readE (\<lambda>s. count_rows mine (tasks s))) (\<lambda>affected.
           bindE (writeE (\<lambda>s. s\<lparr>tasks := update_rows mine (start_task e timestamp) (tasks s)\<rparr>)) (\<lambda>_.
             if affected = 0 then
               bindE (incrementCounter ''lifecycle_rejected_total.claim-lost'' 1) (\<lambda>_.
               throw (Conflict (''Task '' @ t_id t @ '' claim ownership was lost before start'')))
             else
               bindE (findE tasks (\<lambda>x. t_id x = taskId) (NotFound ''EntityNotFoundError'')) (\<lambda>saved.
               bindE (publishTaskUpdated e saved) (\<lambda>_.
               ret saved)))))))"

definition appendClaimedTaskLogForAgent ::
  "env \<Rightarrow> string \<Rightarrow> string \<Rightarrow> string option \<Rightarrow> log_entry \<Rightarrow> task_log op" where
  "appendClaimedTaskLogForAgent e taskId nodeId bodyTaskId entry =
     bindE (assertTaskIdMatchesRoute taskId bodyTaskId) (\<lambda>_.
     bindE (findTaskForNodeOrFail taskId nodeId) (\<lambda>t.
       if t_status t \<noteq> RUNNING then
         rejectTransition (''Task '' @ t_id t @ '' is in '' @ task_status_str (t_status t) @ '' state and cannot accept logs'')
       else
         bindE (saveTask e t (t\<lparr>t_output := Some (le_line entry)\<rparr>)) (\<lambda>_.
         insertTaskLog e taskId (resolveTaskLogLevel (le_stream entry)) (le_line entry)
           (instant_or (le_timestamp entry) (e_now e)))))"

definition complete_task :: "env \<Rightarrow> task_status \<Rightarrow> completion_dto \<Rightarrow> task \<Rightarrow> task" where
  "complete_task e st dto t =
     (let (out, truncated) = normalizeCompletionOutput (orKeep (cp_output dto) (cp_error dto))
      in t\<lparr>t_status := st, t_startedAt := orKeep (t_startedAt t) (Some (e_now e)),
           t_finishedAt := Some (instant_or (cp_completedAt dto) (e_now e)),
           t_result := orKeep (cp_result dto) (buildCompletionResult dto),
           t_output := orKeep out (t_output t), t_outputTruncated := Some truncated,
           t_leaseUntil := None, t_claimedBy := None, t_claimToken := None\<rparr>)"

definition completeClaimedTaskForAgent :: "env \<Rightarrow> string \<Rightarrow> string \<Rightarrow> completion_dto \<Rightarrow> task op" where
  "completeClaimedTaskForAgent e taskId nodeId dto =
     bindE (assertTaskIdMatchesRoute taskId (cp_taskId dto)) (\<lambda>_.
     bindE (liftE (normalizeCompletionStatus (cp_status dto))) (\<lambda>st.
     bindE (findTaskForNodeOrFail taskId nodeId) (\<lambda>t.
       if isTerminalStatus (t_status t) then
         if t_status t = st then bindE (incrementCounter ''duplicate_transition_total'' 1) (\<lambda>_. ret t)
         else rejectTransition (''Task '' @ t_id t @ '' is already '' @ task_status_str (t_status t) @
                '' and cannot transition to '' @ cp_status dto)
       else if t_status t \<noteq> CLAIMED \<and> t_status t \<noteq> RUNNING then
         rejectTransition (''Task '' @ t_id t @ '' is in '' @ task_status_str (t_status t) @ '' state and cannot be completed'')
       else
         bindE (if t_status t = CLAIMED then assertClaimOwnership e t nodeId ''completed'' else ret ()) (\<lambda>_.
         bindE (saveTask e t (complete_task e st dto t)) (\<lambda>saved.
         bindE (handleTaskPostCompletion saved) (\<lambda>_.
         bindE (publishTaskUpdated e saved) (\<lambda>_.
         ret saved)))))))"

section \<open>The life cycle over the older interface\<close>

definition acknowledgeForAgent :: "env \<Rightarrow> string \<Rightarrow> string \<Rightarrow> string \<Rightarrow> timestamp option \<Rightarrow> task_log op" where
  "acknowledgeForAgent e taskId nodeId agentToken timestamp =
     bindE (authenticateAgent e nodeId agentToken) (\<lambda>_.
     bindE (findTaskForNodeOrFail taskId nodeId) (\<lambda>_.
     insertTaskLog e taskId LOG_INFO ''Task accepted by agent'' (instant_or timestamp (e_now e))))"

definition start_queued_task :: "env \<Rightarrow> timestamp option \<Rightarrow> task \<Rightarrow> task" where
  "start_queued_task e startedAt t =
     t\<lparr>t_status := RUNNING, t_startedAt := Some (instant_or startedAt (e_now e)), t_finishedAt := None,
       t_updatedAt := e_now e\<rparr>"

definition startForAgent ::
  "env \<Rightarrow> string \<Rightarrow> string \<Rightarrow> string \<Rightarrow> string option \<Rightarrow> timestamp option \<Rightarrow> task op" where
  "startForAgent e taskId nodeId agentToken bodyTaskId startedAt =
     bindE (assertTaskIdMatchesRoute taskId bodyTaskId) (\<lambda>_.
     bindE (authenticateAgent e nodeId agentToken) (\<lambda>n.
       let waiting = (\<lambda>x. t_id x = taskId \<and> t_nodeId x = n_id n \<and> t_status x = QUEUED)
       in
       bindE (readE (\<lambda>s. count_rows waiting (tasks s))) (\<lambda>affected.
       bindE (writeE (\<lambda>s. s\<lparr>tasks := update_rows waiting (start_queued_task e startedAt) (tasks s)\<rparr>)) (\<lambda>_.
         if affected = 0 then
           bindE (readE (\<lambda>s. find_row (\<lambda>x. t_id x = taskId) (tasks s))) (\<lambda>found.
             (case found of
                None \<Rightarrow> throw (NotFound (''Task '' @ taskId @ '' was not found for this node''))
              | Some t \<Rightarrow>
                  if t_nodeId t \<noteq> n_id n then throw (NotFound (''Task '' @ taskId @ '' was not found for this node''))
                  else if t_status t = RUNNING then ret t
                  else throw (Conflict (''Task '' @ taskId @ '' is in '' @ task_status_str (t_status t) @
                         '' state and cannot be started''))))
         else
           bindE (findE tasks (\<lambda>x. t_id x = taskId) (NotFound ''EntityNotFoundError'')) (\<lambda>saved.
           bindE (whenE (shouldBroadcastTask saved)
                    (bindE (recordEvent e None (Some (t_nodeId saved)) ''task.started'' (Some INFO)
                       (''Task '' @ t_type saved @ '' started on node '' @ n_hostname n)
                       (Some (buildTaskEventMetadata saved))) (\<lambda>_. ret ()))) (\<lambda>_.
           bindE (publishTaskUpdated e saved) (\<lambda>_.
           ret saved)))))))"

definition appendLogForAgent ::
  "env \<Rightarrow> string \<Rightarrow> string \<Rightarrow> string \<Rightarrow> string option \<Rightarrow> string option \<Rightarrow> task_log_level option \<Rightarrow>
     log_entry list option \<Rightarrow> task_log list op" where
  "appendLogForAgent e taskId nodeId agentToken bodyTaskId message level entries =
     bindE (assertTaskIdMatchesRoute taskId bodyTaskId) (\<lambda>_.
     bindE (authenticateAgent e nodeId agentToken) (\<lambda>n.
     bindE (findTaskForNodeOrFail taskId (n_id n)) (\<lambda>t.
     bindE (guardE (t_status t \<noteq> QUEUED) (Conflict ''Task must be started before logs can be appended'')) (\<lambda>_.
     bindE (guardE (\<not> isTerminalStatus (t_status t))
              (Conflict (''Task '' @ t_id t @ '' is already '' @ task_status_str (t_status t) @
                 '' and cannot accept more logs''))) (\<lambda>_.
       if orElse entries [] \<noteq> [] then
         let lines = filter (\<lambda>x. trim (le_line x) \<noteq> []) (orElse entries [])
         in
         bindE (guardE (lines \<noteq> []) (BadRequest ''entries must contain at least one log line'')) (\<lambda>_.
         bindE (saveTask e t (t\<lparr>t_output := Some (le_line (last lines))\<rparr>)) (\<lambda>_.
         forE (\<lambda>x. insertTaskLog e (t_id t) (resolveTaskLogLevel (le_stream x)) (le_line x)
                     (instant_or (le_timestamp x) (e_now e))) lines))
       else
         bindE (guardE (truthy message) (BadRequest ''message is required'')) (\<lambda>_.
         bindE (saveTask e t (t\<lparr>t_output := message\<rparr>)) (\<lambda>_.
         bindE (insertTaskLog e (t_id t) (orElse level LOG_INFO) (the message) (e_now e)) (\<lambda>l.
         ret [l]))))))))"

definition finish_task :: "env \<Rightarrow> task_status \<Rightarrow> completion_dto \<Rightarrow> task \<Rightarrow> task" where
  "finish_task e st dto t =
     t\<lparr>t_status := st, t_startedAt := orKeep (t_startedAt t) (Some (e_now e)),
       t_finishedAt := Some (instant_or (cp_completedAt dto) (e_now e)),
       t_result := orKeep (cp_result dto) (buildCompletionResult dto),
       t_output := orKeep (orKeep (cp_output dto) (cp_error dto)) (t_output t)\<rparr>"

definition completeForAgent :: "env \<Rightarrow> string \<Rightarrow> string \<Rightarrow> string \<Rightarrow> completion_dto \<Rightarrow> task op" where
  "completeForAgent e taskId nodeId agentToken dto =
     bindE (assertTaskIdMatchesRoute taskId (cp_taskId dto)) (\<lambda>_.
     bindE (liftE (normalizeCompletionStatus (cp_status dto))) (\<lambda>st.
     bindE (authenticateAgent e nodeId agentToken) (\<lambda>n.
     bindE (findTaskForNodeOrFail taskId (n_id n)) (\<lambda>t.
       if isTerminalStatus (t_status t) then
         if t_status t = st then ret t
         else throw (Conflict (''Task '' @ t_id t @ '' is already '' @ task_status_str (t_status t) @
                '' and cannot transition to '' @ cp_status dto))
       else
         bindE (saveTask e t (finish_task e st dto t)) (\<lambda>saved.
         bindE (handleTaskPostCompletion saved) (\<lambda>_.
         bindE (whenE (truthy (orKeep (cp_output dto) (cp_error dto)))
                  (bindE (createTaskLog e (t_id saved) (if t_status saved = FAILED then LOG_ERROR else LOG_INFO)
                     (the (orKeep (cp_output dto) (cp_error dto)))) (\<lambda>_. ret ()))) (\<lambda>_.
         bindE (whenE (shouldBroadcastTask saved)
                  (bindE (liftE (getTaskCompletionEventType (t_status saved))) (\<lambda>type.
                   bindE (liftE (getTaskCompletionSeverity (t_status saved))) (\<lambda>sev.
                   bindE (liftE (getTaskCompletionMessage saved n)) (\<lambda>message.
                   bindE (recordEvent e None (Some (t_nodeId saved)) type (Some sev) message
                     (Some (buildTaskEventMetadata saved @ [(''result'', opt_json (t_result saved))]))) (\<lambda>_. ret ())))))) (\<lambda>_.
         bindE (publishTaskUpdated e saved) (\<lambda>_.
         ret saved)))))))))"

section \<open>Cancellation\<close>

definition cancel_task :: "env \<Rightarrow> string option \<Rightarrow> task \<Rightarrow> task" where
  "cancel_task e reason t =
     (let t1 = t\<lparr>t_cancelRequestedAt := Some (e_now e), t_cancelReason := reason\<rparr>
      in if t_status t \<in> {QUEUED, ACCEPTED, CLAIMED}
         then t1\<lparr>t_status := CANCELLED, t_finishedAt := Some (e_now e), t_leaseUntil := None, t_claimToken := None,
                 t_claimedBy := None,
                 t_result := Some (jmerge (orElse (t_result t) [])
                   [(''reason'', JStr ''cancel-requested-before-run''), (''cancelledAt'', JStr (toISOString (e_now e))),
                    (''cancelReason'', jstr_opt reason)]),
                 t_output := (if truthy (t_output t) then t_output t
                   else Some (case reason of None \<Rightarrow> ''Task cancelled before running by operator''
                              | Some r \<Rightarrow> ''Task cancelled before running: '' @ r))\<rparr>
         else t1)"

definition reportCancellation :: "env \<Rightarrow> string option \<Rightarrow> task \<Rightarrow> audit_context option \<Rightarrow> task \<Rightarrow> task op" where
  "reportCancellation e reason t ctx saved =
     bindE (publishTaskUpdated e saved) (\<lambda>_.
     bindE (whenE (t_status saved = CANCELLED \<or> t_status saved = RUNNING)
              (bindE (createTaskLog e (t_id saved) LOG_INFO
                 (case reason of None \<Rightarrow> ''Cancellation requested by operator''
                  | Some r \<Rightarrow> ''Cancellation requested: '' @ r)) (\<lambda>_. ret ()))) (\<lambda>_.
     bindE (whenE (t_status saved = CANCELLED)
              (bindE (nodes_findOneOrFail (t_nodeId saved) (Some (t_workspaceId saved))) (\<lambda>(n, _).
               bindE (liftE (getTaskCompletionMessage saved n)) (\<lambda>message.
               bindE (recordEvent e None (Some (t_nodeId saved)) ''task.cancelled'' (Some WARNING) message
                 (Some (buildTaskEventMetadata saved @ [(''result'', opt_json (t_result saved))]))) (\<lambda>_. ret ()))))) (\<lambda>_.
     bindE (recordAudit e \<lparr>ai_scope = ''workspace'', ai_workspaceId = Some (t_workspaceId saved),
              ai_action = ''task.cancel.requested'', ai_targetType = ''task'', ai_targetId = Some (t_id saved),
              ai_targetLabel = Some (t_type saved),
              ai_changes = Some [(''before'', JObj [(''status'', JStr (task_status_str (t_status t)))]),
                (''after'', JObj [(''status'', JStr (task_status_str (t_status saved))),
                   (''cancelRequestedAt'', jtime_opt (t_cancelRequestedAt saved)),
                   (''cancelReason'', jstr_opt (t_cancelReason saved))])],
              ai_metadata = Some (buildTaskAuditMetadata e saved None @ [(''reason'', jstr_opt reason)])\<rparr> ctx) (\<lambda>_.
     ret saved))))"

definition requestTaskCancellation ::
  "env \<Rightarrow> string \<Rightarrow> string option \<Rightarrow> string option \<Rightarrow> audit_context option \<Rightarrow> task op" where
  "requestTaskCancellation e taskId reason workspaceId ctx =
     bindE (tasks_findOneOrFail taskId workspaceId) (\<lambda>t.
     bindE (assertWorkspaceWritable (t_workspaceId t)) (\<lambda>_.
       let normalizedReason = trim_or_null reason
       in if isTerminalStatus (t_status t) then ret t
          else
            bindE (saveTask e t (cancel_task e normalizedReason t)) (\<lambda>saved.
            reportCancellation e normalizedReason t ctx saved)))"

section \<open>The sweep of stale tasks\<close>

definition stale_task :: "env \<Rightarrow> int \<Rightarrow> int \<Rightarrow> node list \<Rightarrow> task \<Rightarrow> bool" where
  "stale_task e queuedTimeoutSeconds runningTimeoutSeconds ns t \<longleftrightarrow>
     t_status t = QUEUED \<and> t_createdAt t \<le> e_now e - max queuedTimeoutSeconds 5 * 1000 \<and> node_serving ns (t_nodeId t) \<or>
     t_status t = RUNNING \<and> t_nodeId t \<in> n_id ` set ns \<and>
       (case t_startedAt t of None \<Rightarrow> False | Some x \<Rightarrow> x \<le> e_now e - max runningTimeoutSeconds 10 * 1000)"

definition fail_stale_task :: "env \<Rightarrow> task \<Rightarrow> task" where
  "fail_stale_task e t =
     t\<lparr>t_status := FAILED, t_finishedAt := Some (e_now e), t_leaseUntil := None, t_claimedBy := None,
       t_claimToken := None,
       t_result := Some (jmerge (orElse (t_result t) [])
         [(''reason'', JStr ''stale-timeout''), (''previousStatus'', JStr (task_status_str (t_status t)))]),
       t_output := (if trim (orElse (t_output t) []) \<noteq> [] then t_output t
         else Some (if t_status t = QUEUED then ''Task timed out in queue before being started by an agent.''
                    else ''Task timed out while running on agent.''))\<rparr>"

definition fail_one :: "env \<Rightarrow> task \<Rightarrow> unit op" where
  "fail_one e t =
     bindE (saveTask e t (fail_stale_task e t)) (\<lambda>saved.
     bindE (handleTaskPostCompletion saved) (\<lambda>_.
     publishTaskUpdated e saved))"

definition failStaleTasks :: "env \<Rightarrow> int \<Rightarrow> int \<Rightarrow> nat op" where
  "failStaleTasks e queuedTimeoutSeconds runningTimeoutSeconds =
     bindE (requeueExpiredLeases e) (\<lambda>requeuedClaimedCount.
     bindE (readE (\<lambda>s. filter (stale_task e queuedTimeoutSeconds runningTimeoutSeconds (nodes s)) (tasks s))) (\<lambda>staleTasks.
     bindE (forE (fail_one e) staleTasks) (\<lambda>_.
     ret (length staleTasks + requeuedClaimedCount))))"

end
