(* ===== verification/TaskLifecycle.thy ===== *)
theory TaskLifecycle
  imports Tasks
begin

text \<open>
  The state machine of a task: the invariant of the task table, how far one operation can move a
  task, and that every operation of the tasks service stays within these bounds. The properties
  then say what claims, leases, cancellations, completions and the sweep of stale tasks do.
\<close>

section \<open>The state of one task\<close>

text \<open>Which fields go with which status. \<open>CLAIMED\<close> is a status of earlier versions that nothing sets.\<close>

fun task_ok :: "task \<Rightarrow> bool" where
  "task_ok t \<longleftrightarrow>
     (case t_status t of
        QUEUED \<Rightarrow> t_leaseUntil t = None \<and> t_claimedBy t = None \<and> t_claimToken t = None \<and> t_startedAt t = None \<and>
                  t_finishedAt t = None \<and> t_cancelRequestedAt t = None
      | ACCEPTED \<Rightarrow> t_leaseUntil t \<noteq> None \<and> t_claimedBy t = Some (t_nodeId t) \<and> t_claimToken t \<noteq> None \<and>
                  t_startedAt t = None \<and> t_finishedAt t = None \<and> t_cancelRequestedAt t = None
      | CLAIMED \<Rightarrow> False
      | RUNNING \<Rightarrow> t_leaseUntil t = None \<and> t_claimedBy t = None \<and> t_claimToken t = None \<and> t_startedAt t \<noteq> None \<and>
                  t_finishedAt t = None
      | _ \<Rightarrow> t_finishedAt t \<noteq> None)"

declare task_ok.simps [simp del]

text \<open>How far along a task is, and what one task row may become.\<close>

fun rank :: "task_status \<Rightarrow> nat" where
  "rank QUEUED = 0"
| "rank CLAIMED = 0"
| "rank ACCEPTED = 0"
| "rank RUNNING = 1"
| "rank _ = 2"

definition advances :: "task \<Rightarrow> task \<Rightarrow> bool" where
  "advances t t' \<longleftrightarrow>
     t_id t' = t_id t \<and> t_workspaceId t' = t_workspaceId t \<and> t_nodeId t' = t_nodeId t \<and> t_type t' = t_type t \<and>
     t_payload t' = t_payload t \<and> t_createdAt t' = t_createdAt t \<and>
     rank (t_status t) \<le> rank (t_status t') \<and>
     (t_startedAt t \<noteq> None \<longrightarrow> t_startedAt t' = t_startedAt t) \<and>
     (t_cancelRequestedAt t \<noteq> None \<longrightarrow> t_cancelRequestedAt t' \<noteq> None) \<and>
     (isTerminalStatus (t_status t) \<longrightarrow> t' = t)"

lemma advances_refl [simp]: "advances t t"
  by (simp add: advances_def)

lemma rank_terminal: "rank st = 2 \<longleftrightarrow> isTerminalStatus st" "rank st \<le> 2"
  by (cases st; simp add: isTerminalStatus_def TERMINAL_TASK_STATUSES_def)+

lemma advances_trans: "advances t t' \<Longrightarrow> advances t' t'' \<Longrightarrow> advances t t''"
  by (auto simp: advances_def)

text \<open>The row changes of the service, one by one.\<close>

lemma terminal_simps [simp]:
  "\<not> isTerminalStatus QUEUED" "\<not> isTerminalStatus CLAIMED" "\<not> isTerminalStatus ACCEPTED" "\<not> isTerminalStatus RUNNING"
  "isTerminalStatus SUCCESS" "isTerminalStatus FAILED" "isTerminalStatus CANCELLED"
  by (simp_all add: isTerminalStatus_def TERMINAL_TASK_STATUSES_def)

lemma advances_open:
  "\<not> isTerminalStatus (t_status t) \<Longrightarrow> advances t t' \<longleftrightarrow>
     t_id t' = t_id t \<and> t_workspaceId t' = t_workspaceId t \<and> t_nodeId t' = t_nodeId t \<and> t_type t' = t_type t \<and>
     t_payload t' = t_payload t \<and> t_createdAt t' = t_createdAt t \<and>
     rank (t_status t) \<le> rank (t_status t') \<and>
     (t_startedAt t \<noteq> None \<longrightarrow> t_startedAt t' = t_startedAt t) \<and>
     (t_cancelRequestedAt t \<noteq> None \<longrightarrow> t_cancelRequestedAt t' \<noteq> None)"
  by (simp add: advances_def)

lemmas task_rows = task_ok.simps advances_open

lemma touched_task [simp]:
  "task_ok (touched (\<lambda>d r. r\<lparr>t_updatedAt := d\<rparr>) now old new) = task_ok new"
  "t_id (touched (\<lambda>d r. r\<lparr>t_updatedAt := d\<rparr>) now old new) = t_id new"
  "t_status (touched (\<lambda>d r. r\<lparr>t_updatedAt := d\<rparr>) now old new) = t_status new"
  "t_nodeId (touched (\<lambda>d r. r\<lparr>t_updatedAt := d\<rparr>) now old new) = t_nodeId new"
  by (simp_all add: touched_def task_ok.simps split: task_status.split)

lemma advances_touched [simp]:
  "\<not> isTerminalStatus (t_status old) \<Longrightarrow>
     advances old (touched (\<lambda>d r. r\<lparr>t_updatedAt := d\<rparr>) now old new) \<longleftrightarrow> advances old new"
  by (auto simp: touched_def advances_def)

lemma claim_row:
  assumes "task_ok t" "claimable now nodeId ns t"
  shows "task_ok (claim_task e nodeId tok t)" "advances t (claim_task e nodeId tok t)"
  using assms by (cases "t_status t"; simp add: task_rows claim_task_def claimable_def lease_expired_def)+

lemma requeue_row:
  assumes "task_ok t" "lease_expired now t"
  shows "task_ok (requeue_task e t)" "advances t (requeue_task e t)"
  using assms by (cases "t_status t"; simp add: task_rows requeue_task_def lease_expired_def)+

lemma start_row:
  assumes "task_ok t" "t_status t \<in> {ACCEPTED, CLAIMED}"
  shows "task_ok (start_task e d t)" "advances t (start_task e d t)"
  using assms by (cases "t_status t"; simp add: task_rows start_task_def)+

lemma start_queued_row:
  assumes "task_ok t" "t_status t = QUEUED"
  shows "task_ok (start_queued_task e d t)" "advances t (start_queued_task e d t)"
  using assms by (cases "t_status t"; simp add: task_rows start_queued_task_def)+

lemma orKeep_simps [simp]: "orKeep (Some x) y = Some x" "orKeep None y = y"
  by (simp_all add: orKeep_def)

lemma complete_fields [simp]:
  "t_status (complete_task e st dto t) = st" "t_id (complete_task e st dto t) = t_id t" "t_workspaceId (complete_task e st dto t) = t_workspaceId t"
  "t_nodeId (complete_task e st dto t) = t_nodeId t" "t_type (complete_task e st dto t) = t_type t" "t_payload (complete_task e st dto t) = t_payload t"
  "t_createdAt (complete_task e st dto t) = t_createdAt t" "t_cancelRequestedAt (complete_task e st dto t) = t_cancelRequestedAt t"
  "t_startedAt (complete_task e st dto t) = orKeep (t_startedAt t) (Some (e_now e))"
  "t_finishedAt (complete_task e st dto t) = Some (instant_or (cp_completedAt dto) (e_now e))"
  by (simp_all add: complete_task_def Let_def split: prod.split)

lemma finish_fields [simp]:
  "t_status (finish_task e st dto t) = st" "t_id (finish_task e st dto t) = t_id t" "t_workspaceId (finish_task e st dto t) = t_workspaceId t"
  "t_nodeId (finish_task e st dto t) = t_nodeId t" "t_type (finish_task e st dto t) = t_type t" "t_payload (finish_task e st dto t) = t_payload t"
  "t_createdAt (finish_task e st dto t) = t_createdAt t" "t_cancelRequestedAt (finish_task e st dto t) = t_cancelRequestedAt t"
  "t_startedAt (finish_task e st dto t) = orKeep (t_startedAt t) (Some (e_now e))"
  "t_finishedAt (finish_task e st dto t) = Some (instant_or (cp_completedAt dto) (e_now e))"
  by (simp_all add: finish_task_def )

lemma complete_row:
  assumes "task_ok t" "t_status t = RUNNING" "isTerminalStatus st"
  shows "task_ok (complete_task e st dto t)" "advances t (complete_task e st dto t)"
  using assms(2,3) by (cases st; auto simp: task_ok.simps advances_open)+

lemma finish_row:
  assumes "task_ok t" "\<not> isTerminalStatus (t_status t)" "isTerminalStatus st"
  shows "task_ok (finish_task e st dto t)" "advances t (finish_task e st dto t)"
  using assms(2,3) by (cases st; cases "t_status t"; auto simp: task_ok.simps advances_open)+

lemma cancel_row:
  assumes "task_ok t" "\<not> isTerminalStatus (t_status t)"
  shows "task_ok (cancel_task e r t)" "advances t (cancel_task e r t)"
  using assms by (cases "t_status t"; simp add: task_rows cancel_task_def Let_def)+

lemma fail_row:
  assumes "task_ok t" "\<not> isTerminalStatus (t_status t)"
  shows "task_ok (fail_stale_task e t)" "advances t (fail_stale_task e t)"
  using assms by (cases "t_status t"; simp add: task_rows fail_stale_task_def)+

lemma output_row:
  assumes "task_ok t" "\<not> isTerminalStatus (t_status t)"
  shows "task_ok (t\<lparr>t_output := x\<rparr>)" "advances t (t\<lparr>t_output := x\<rparr>)"
  using assms by (cases "t_status t"; simp add: task_rows )+

lemma normalizeCompletionStatus_terminal: "normalizeCompletionStatus x = Inr st \<Longrightarrow> isTerminalStatus st"
  by (auto simp: normalizeCompletionStatus_def split: if_splits)

section \<open>The task table\<close>

definition tasks_inv :: "(nat \<Rightarrow> string) \<Rightarrow> db \<Rightarrow> bool" where
  "tasks_inv u s \<longleftrightarrow> drawn_ids u (drawn s) (map t_id (tasks s)) \<and> (\<forall>t \<in> set (tasks s). task_ok t)"

text \<open>Every task of the earlier state is still there, at most advanced.\<close>

definition progress :: "db \<Rightarrow> db \<Rightarrow> bool" where
  "progress s s' \<longleftrightarrow> (\<forall>t \<in> set (tasks s). \<exists>t' \<in> set (tasks s'). advances t t')"

lemma progress_refl [simp]: "progress s s"
  unfolding progress_def by (meson advances_refl)

lemma progress_trans: "progress s s' \<Longrightarrow> progress s' s'' \<Longrightarrow> progress s s''"
  unfolding progress_def by (meson advances_trans)

text \<open>Both bounds together, from a fixed earlier state on.\<close>

definition orderly :: "(nat \<Rightarrow> string) \<Rightarrow> db \<Rightarrow> db \<Rightarrow> bool" where
  "orderly u s0 s \<longleftrightarrow> tasks_inv u s \<and> progress s0 s"

lemma orderly_later:
  assumes "orderly u s0 s" "tasks t = tasks s" "drawn s \<le> drawn t"
  shows "orderly u s0 t"
  using assms by (auto simp: orderly_def tasks_inv_def progress_def)

lemma orderly_save:
  assumes "orderly u s0 s" "t \<in> set (tasks s)" "task_ok t'" "advances t t'"
  shows "orderly u s0 (s\<lparr>tasks := save_row t_id t' (tasks s)\<rparr>)"
proof -
  have id: "t_id t' = t_id t" using assms(4) by (simp add: advances_def)
  have keyed: "distinct (map t_id (tasks s))"
    using assms(1) by (simp add: orderly_def tasks_inv_def drawn_ids_def)
  have "map t_id (save_row t_id t' (tasks s)) = map t_id (tasks s)"
    using assms(2) id by (auto simp: map_key_save_row image_iff)
  then have inv: "tasks_inv u (s\<lparr>tasks := save_row t_id t' (tasks s)\<rparr>)"
    using assms(1,3) by (auto simp: orderly_def tasks_inv_def set_save_row)
  have "r = t" if "r \<in> set (tasks s)" "t_id r = t_id t" for r
    using keyed that assms(2) by (auto simp: distinct_map inj_on_def)
  then have "progress s (s\<lparr>tasks := save_row t_id t' (tasks s)\<rparr>)"
    using assms(4) id unfolding progress_def by (auto simp: set_save_row) (metis advances_refl)
  with inv show ?thesis using assms(1) by (auto simp: orderly_def intro: progress_trans)
qed

lemma orderly_update:
  assumes "orderly u s0 s"
    and "\<And>t. t \<in> set (tasks s) \<Longrightarrow> p t \<Longrightarrow> task_ok t \<Longrightarrow> task_ok (f t) \<and> advances t (f t)"
  shows "orderly u s0 (s\<lparr>tasks := update_rows p f (tasks s)\<rparr>)"
proof -
  have ok: "\<forall>t \<in> set (tasks s). task_ok t" using assms(1) by (simp add: orderly_def tasks_inv_def)
  with assms(2) have f: "task_ok (f t) \<and> advances t (f t)" if "t \<in> set (tasks s)" "p t" for t using that by blast
  then have "map t_id (update_rows p f (tasks s)) = map t_id (tasks s)"
    by (intro map_update_rows) (auto simp: advances_def)
  then have "tasks_inv u (s\<lparr>tasks := update_rows p f (tasks s)\<rparr>)"
    using assms(1) f ok by (auto simp: orderly_def tasks_inv_def set_update_rows)
  moreover have "progress s (s\<lparr>tasks := update_rows p f (tasks s)\<rparr>)"
    unfolding progress_def
  proof
    fix t assume t: "t \<in> set (tasks s)"
    then have "(if p t then f t else t) \<in> set (update_rows p f (tasks s))" by (simp add: set_update_rows)
    moreover have "advances t (if p t then f t else t)" using f[OF t] by simp
    ultimately show "\<exists>t' \<in> set (tasks (s\<lparr>tasks := update_rows p f (tasks s)\<rparr>)). advances t t'" by auto
  qed
  ultimately show ?thesis using assms(1) by (auto simp: orderly_def intro: progress_trans)
qed

lemma orderly_insert:
  assumes "orderly u s0 s" "inj u" "task_ok t" "t_id t = u (drawn s)"
  shows "orderly u s0 (s\<lparr>drawn := Suc (drawn s), tasks := tasks s @ [t]\<rparr>)"
  using assms drawn_ids_fresh(2)[of u "drawn s" "map t_id (tasks s)" "drawn s" "Suc (drawn s)"]
  by (auto simp: orderly_def tasks_inv_def progress_def)

section \<open>Handlers that write no task\<close>

definition spares :: "db \<Rightarrow> db \<Rightarrow> bool" where
  "spares s t \<longleftrightarrow> tasks t = tasks s \<and> drawn s \<le> drawn t"

interpretation sparing: effect_order spares
  by unfold_locales (auto simp: spares_def)

lemma sparing_output: "outputs m \<Longrightarrow> sparing.confined m"
  by (auto simp: outputs_def sparing.confined_def spares_def dest: core_eqD(7))

lemma sparing_frame: "frames (\<lambda>s. (tasks s, drawn s)) m \<Longrightarrow> sparing.confined m"
  by (simp add: sparing.confined_def spares_def frames_def)

lemma sparing_leads: "sparing.confined m \<Longrightarrow> (\<And>s. orderly u s0 s \<and> P (tasks s) \<Longrightarrow> Q s) \<Longrightarrow>
    leads (\<lambda>s. orderly u s0 s \<and> P (tasks s)) m Q"
  unfolding leads_def sparing.confined_def spares_def by (metis orderly_later)

lemma sparing_keeps: "sparing.confined m \<Longrightarrow> leads (orderly u s0) m (orderly u s0)"
  unfolding leads_def sparing.confined_def spares_def by (metis orderly_later)

lemma sparing_insertTaskLog [simp]: "sparing.confined (insertTaskLog e i lv m d)"
  by (simp add: sparing.confined_def spares_def insertTaskLog_def Let_def)

lemma sparing_createTaskLog [simp]: "sparing.confined (createTaskLog e i lv m)"
  by (simp add: createTaskLog_def)

lemma sparing_counter [simp]: "sparing.confined (incrementCounter c k)"
  by (simp add: incrementCounter_def sparing.confined_writeE spares_def)

lemma sparing_publishTaskUpdated [simp]: "sparing.confined (publishTaskUpdated e t)"
  unfolding publishTaskUpdated_def by (rule sparing_output) (intro output_rules)

lemma sparing_then:
  assumes "sparing.confined m" "\<And>x. leads (orderly u s0) (f x) (orderly u s0)"
  shows "leads (orderly u s0) (bindE m f) (orderly u s0)"
  by (rule leads_seq[where R = "orderly u s0"]) (auto simp: assms sparing_keeps)

lemma sparing_rejectTransition [simp]: "sparing.confined (rejectTransition msg)"
  unfolding rejectTransition_def by (intro sparing.confined_rules) simp

lemma sparing_handleTaskPostCompletion [simp]: "sparing.confined (handleTaskPostCompletion t)"
  by (simp add: handleTaskPostCompletion_def)

lemma sparing_assertClaimOwnership [simp]: "sparing.confined (assertClaimOwnership e t i tr)"
  unfolding assertClaimOwnership_def by (intro sparing.confined_rules) simp_all

lemma sparing_dispatch [simp]: "sparing.confined (dispatchTaskToNode t)"
  by (simp add: dispatchTaskToNode_def sparing.confined_writeE spares_def)

lemma sparing_saveNode [simp]: "sparing.confined (saveNode e n n')"
  by (simp add: saveNode_def Let_def sparing.confined_def spares_def)

lemma sparing_findNode [simp]: "sparing.confined (nodes_findOneOrFail i w)"
  by (simp add: sparing.confined_quiet)

lemma sparing_authenticateAgent [simp]: "sparing.confined (authenticateAgent e i tok)"
  unfolding authenticateAgent_def Let_def by (intro sparing.confined_rules) simp_all

lemma sparing_recordAgentRootAccessState [simp]: "sparing.confined (recordAgentRootAccessState e i rep)"
  unfolding recordAgentRootAccessState_def Let_def
  by (intro sparing.confined_rules) (simp_all add: sparing_output output_rules)

lemma sparing_announceTask [simp]: "sparing.confined (announceTask e n t)"
  unfolding announceTask_def by (rule sparing_output) (intro output_rules)

lemma sparing_recordEvent [simp]: "sparing.confined (recordEvent e w n type sev msg md)"
  and sparing_recordAudit [simp]: "sparing.confined (recordAudit e inp ctx)"
  by (simp_all add: sparing_output)

text \<open>Saving a task that was read before.\<close>

lemma saveTask_leads:
  assumes "\<not> isTerminalStatus (t_status t)" "task_ok t \<Longrightarrow> task_ok t'" "task_ok t \<Longrightarrow> advances t t'"
  shows "leads (\<lambda>s. orderly u s0 s \<and> t \<in> set (tasks s)) (saveTask e t t') (orderly u s0)"
  unfolding leads_def
proof (intro allI impI)
  fix s assume s: "orderly u s0 s \<and> t \<in> set (tasks s)"
  then have ok: "task_ok t" by (simp add: orderly_def tasks_inv_def)
  have "orderly u s0 (s\<lparr>tasks := save_row t_id (touched (\<lambda>d r. r\<lparr>t_updatedAt := d\<rparr>) (e_now e) t t') (tasks s)\<rparr>)"
    by (rule orderly_save) (use s ok assms in auto)
  then show "orderly u s0 (after (saveTask e t t') s)" by (simp add: saveTask_def Let_def)
qed

lemma save_then:
  assumes "\<not> isTerminalStatus (t_status t)" "task_ok t \<Longrightarrow> task_ok t'" "task_ok t \<Longrightarrow> advances t t'"
    and "\<And>x. sparing.confined (f x)"
  shows "leads (\<lambda>s. orderly u s0 s \<and> t \<in> set (tasks s)) (bindE (saveTask e t t') f) (orderly u s0)"
  by (rule leads_seq[where R = "orderly u s0"]) (use assms in \<open>auto intro: saveTask_leads sparing_keeps\<close>)

lemma leads_task:
  assumes "\<And>t. t_id t = i \<Longrightarrow> t_nodeId t = n \<Longrightarrow>
    leads (\<lambda>s. orderly u s0 s \<and> t \<in> set (tasks s)) (f t) (orderly u s0)"
  shows "leads (orderly u s0) (bindE (findTaskForNodeOrFail i n) f) (orderly u s0)"
  unfolding findTaskForNodeOrFail_def
proof (rule leads_find)
  show "leads (\<lambda>s. orderly u s0 s \<and> t \<in> set (tasks s) \<and> t_id t = i \<and> t_nodeId t = n) (f t) (orderly u s0)" for t
    using assms[of t] by (cases "t_id t = i \<and> t_nodeId t = n") (auto simp: leads_def)
qed

text \<open>While a task is held, nothing else changes the table.\<close>

lemma held_then:
  assumes "sparing.confined m" "\<And>x. leads (\<lambda>s. orderly u s0 s \<and> t \<in> set (tasks s)) (f x) (orderly u s0)"
  shows "leads (\<lambda>s. orderly u s0 s \<and> t \<in> set (tasks s)) (bindE m f) (orderly u s0)"
  by (rule leads_seq[where R = "\<lambda>s. orderly u s0 s \<and> t \<in> set (tasks s)"])
     (use assms in \<open>auto intro: sparing_leads[where P = "\<lambda>ts. t \<in> set ts"]\<close>)

lemma held_sparing: "sparing.confined m \<Longrightarrow> leads (\<lambda>s. orderly u s0 s \<and> t \<in> set (tasks s)) m (orderly u s0)"
  by (rule sparing_leads[where P = "\<lambda>ts. t \<in> set ts"]) auto

section \<open>Every operation keeps the task table in order\<close>

subsection \<open>Queueing\<close>

lemma new_task_ok [simp]: "task_ok (new_task e n inp tpl i)" "t_id (new_task e n inp tpl i) = i"
    "t_status (new_task e n inp tpl i) = QUEUED" "t_isInternal (new_task e n inp tpl i) = qi_isInternal inp"
    "t_nodeId (new_task e n inp tpl i) = qi_nodeId inp" "t_payload (new_task e n inp tpl i) = qi_payload inp"
  by (simp_all add: new_task_def task_ok.simps)

lemma insert_then:
  assumes "inj u" "e_uuid e = u" "\<And>i. task_ok (mk i)" "\<And>i. t_id (mk i) = i" "\<And>i. sparing.confined (f i)"
  shows "leads (orderly u s0)
    (bindE (fresh_id e) (\<lambda>i. bindE (writeE (\<lambda>s. s\<lparr>tasks := tasks s @ [mk i]\<rparr>)) (\<lambda>_. f i))) (orderly u s0)"
  unfolding leads_def
proof (intro allI impI)
  fix s assume s: "orderly u s0 s"
  let ?i = "u (drawn s)"
  have "orderly u s0 (s\<lparr>drawn := Suc (drawn s), tasks := tasks s @ [mk ?i]\<rparr>)"
    using s assms by (intro orderly_insert) auto
  then have "orderly u s0 (after (f ?i) (s\<lparr>drawn := Suc (drawn s), tasks := tasks s @ [mk ?i]\<rparr>))"
    using sparing_keeps[OF assms(5)] by (simp add: leads_def)
  then show "orderly u s0 (after (bindE (fresh_id e) (\<lambda>i. bindE (writeE (\<lambda>s. s\<lparr>tasks := tasks s @ [mk i]\<rparr>)) (\<lambda>_. f i))) s)"
    by (simp add: assms(2))
qed

lemma sparing_assertWorkspaceWritable [simp]: "sparing.confined (assertWorkspaceWritable w)"
  and sparing_assertNodeAcceptingNewWork [simp]: "sparing.confined (assertNodeAcceptingNewWork n)"
  by (auto intro!: sparing.confined_quiet simp: assertNodeAcceptingNewWork_def)

lemma sparing_rootSurface [simp]:
  "sparing.confined (assertNodeAllowsOperationalRoot e n)" "sparing.confined (assertNodeAllowsTaskRoot e n)"
  unfolding assertNodeAllowsOperationalRoot_def assertNodeAllowsTaskRoot_def assertNodeAllowsRootSurface_def Let_def
  by (intro sparing.confined_rules)+

lemma sparing_rootPolicy [simp]: "sparing.confined (assertRequestedRootAccessAllowed e n ty p)"
  unfolding assertRequestedRootAccessAllowed_def assertOperationalRootShellPayloadAllowed_def
  by (intro sparing.confined_rules) simp_all

lemma sparing_resolveTemplate [simp]: "sparing.confined (resolveTemplateOrFail i w)"
  by (simp add: resolveTemplateOrFail_def)

lemma queueTask_orderly:
  assumes "inj u" "e_uuid e = u"
  shows "leads (orderly u s0) (queueTask e inp nd ctx) (orderly u s0)"
  unfolding queueTask_def Let_def
  by (intro sparing_then insert_then[OF assms])
     (auto intro!: sparing.confined_rules split: option.split)

lemma createTask_orderly:
  "inj u \<Longrightarrow> e_uuid e = u \<Longrightarrow> leads (orderly u s0) (createTask e i ty p tpl w ctx internal) (orderly u s0)"
  by (simp add: createTask_def queueTask_orderly)

lemma createScheduledShellTask_orderly:
  "inj u \<Longrightarrow> e_uuid e = u \<Longrightarrow> leads (orderly u s0) (createScheduledShellTask e i sch) (orderly u s0)"
  by (simp add: createScheduledShellTask_def queueTask_orderly)

lemma createBatch_orderly:
  assumes "inj u" "e_uuid e = u"
  shows "leads (orderly u s0) (createBatch e ids ty p tpl w ctx) (orderly u s0)"
  unfolding createBatch_def loadNodeLookup_def
  by (intro sparing_then leads_for queueTask_orderly[OF assms] sparing.confined_rules sparing_findNode)

lemma createForTeam_orderly:
  assumes "inj u" "e_uuid e = u"
  shows "leads (orderly u s0) (createForTeam e w tm ty p tpl ctx) (orderly u s0)"
proof -
  have tail: "leads (orderly u s0) (bindE (forE (\<lambda>n. queueTask e (inp n) (Some n) ctx) xs)
      (\<lambda>q. bindE (recordAudit e (a q) ctx) (\<lambda>_. ret q))) (orderly u s0)" for inp xs a
  proof (rule leads_seq[where R = "orderly u s0"])
    show "leads (orderly u s0) (forE (\<lambda>n. queueTask e (inp n) (Some n) ctx) xs) (orderly u s0)"
      by (rule leads_for) (simp_all add: queueTask_orderly[OF assms])
    show "leads (orderly u s0) (bindE (recordAudit e (a q) ctx) (\<lambda>_. ret q)) (orderly u s0)" for q
      by (intro sparing_keeps sparing.confined_rules sparing_recordAudit)
  qed
  have template: "sparing.confined (if c then bindE (resolveTemplateOrFail i w) (\<lambda>t. ret (Some t)) else ret None)"
    for c i w by (intro sparing.confined_rules) simp
  have quiets: "sparing.confined (findTeamOrFail w i)" "sparing.confined (listTeamOwnedNodes w i)" for w i
    unfolding listTeamOwnedNodes_def by (intro sparing.confined_quiet quiet_rules)+
  show ?thesis
    unfolding createForTeam_def Let_def
    by (intro tail template quiets sparing_assertWorkspaceWritable sparing.confined_prims
          sparing_then[OF sparing_assertWorkspaceWritable] sparing_then[OF template] sparing_then[OF quiets(1)]
          sparing_then[OF quiets(2)] sparing_then[OF sparing.confined_prims(5)])
qed

subsection \<open>Claims\<close>

lemma claimNextTaskOnce_orderly: "leads (orderly u s0) (claimNextTaskOnce e i) (orderly u s0)"
  unfolding leads_def
proof (intro allI impI)
  fix s assume s: "orderly u s0 s"
  let ?s = "s\<lparr>drawn := Suc (drawn s)\<rparr>" and ?tok = "e_uuid e (drawn s)"
  let ?rows = "filter (claimable (e_now e) i (nodes s)) (tasks s)"
  have s': "orderly u s0 ?s" using s by (rule orderly_later) auto
  show "orderly u s0 (after (claimNextTaskOnce e i) s)"
  proof (cases "order_limit t_createdAt 1 ?rows")
    case Nil
    then show ?thesis using s' by (simp add: claimNextTaskOnce_def)
  next
    case (Cons t rest)
    then have t: "t \<in> set (tasks s)" "claimable (e_now e) i (nodes s) t"
      using order_limit_head[of t_createdAt ?rows t rest] by auto
    have "x = t" if "x \<in> set (tasks s)" "t_id x = t_id t" for x
      using s that t(1) by (auto simp: orderly_def tasks_inv_def drawn_ids_def distinct_map inj_on_def)
    then have "orderly u s0 (?s\<lparr>tasks := update_rows (\<lambda>x. t_id x = t_id t) (claim_task e i ?tok) (tasks ?s)\<rparr>)"
      using t by (intro orderly_update[OF s']) (auto intro: claim_row)
    then show ?thesis using Cons by (simp add: claimNextTaskOnce_def)
  qed
qed

text \<open>What the others do between two rounds of a polling loop keeps the table in order as well.\<close>

definition orderly_rounds :: "(nat \<Rightarrow> string) \<Rightarrow> rounds \<Rightarrow> bool" where
  "orderly_rounds u rs \<longleftrightarrow> (\<forall>(e, others) \<in> set rs. e_uuid e = u \<and> (\<forall>s. tasks_inv u s \<longrightarrow> orderly u s (others s)))"

lemma others_orderly:
  assumes "orderly_rounds u ((e, others) # rs)"
  shows "leads (orderly u s0) (writeE others) (orderly u s0)"
  unfolding leads_def
proof (intro allI impI)
  fix s assume s: "orderly u s0 s"
  then have "orderly u s (others s)" using assms by (auto simp: orderly_rounds_def orderly_def)
  then show "orderly u s0 (after (writeE others) s)" using s by (auto simp: orderly_def intro: progress_trans)
qed

lemma sparing_loadDesired [simp]: "sparing.confined (loadDesiredRootAccessSnapshot i)"
  unfolding loadDesiredRootAccessSnapshot_def by (intro sparing.confined_rules) simp_all

lemma claim_poll_orderly:
  "orderly_rounds u rs \<Longrightarrow> leads (orderly u s0) (claim_poll d i e rs) (orderly u s0)"
proof (induction rs arbitrary: e)
  case Nil
  show ?case
    unfolding claim_poll.simps[of d i e]
    by (rule leads_seq[OF claimNextTaskOnce_orderly])
       (auto intro!: leads_if sparing_keeps sparing.confined_rules split: option.split)
next
  case (Cons r rs)
  obtain e' others where r: "r = (e', others)" by (cases r)
  have rest: "orderly_rounds u rs" using Cons.prems by (simp add: orderly_rounds_def)
  have next_round: "leads (orderly u s0) (bindE (writeE others) (\<lambda>_. claim_poll d i e' rs)) (orderly u s0)"
    using Cons.prems Cons.IH[OF rest] r
    by (auto intro!: leads_seq[where R = "orderly u s0"] others_orderly)
  show ?case
    unfolding claim_poll.simps[of d i e] r
    by (rule leads_seq[OF claimNextTaskOnce_orderly])
       (auto intro!: leads_if next_round sparing_keeps sparing.confined_rules split: option.split)
qed

lemma claimForAgent_orderly:
  assumes "orderly_rounds u rs"
  shows "leads (orderly u s0) (claimForAgent e i w ra rs) (orderly u s0)"
proof -
  have "sparing.confined (writeE (\<lambda>s. s\<lparr>lastClaimAt := x\<rparr>))" for x
    by (simp add: sparing.confined_writeE spares_def)
  moreover have "leads (orderly u s0) (catchE (claim_poll d i e rs)
      (\<lambda>err. bindE (incrementCounter c k) (\<lambda>_. throw err))) (orderly u s0)" for d c k
    by (rule leads_catch[OF claim_poll_orderly[OF assms]])
       (auto intro!: sparing_keeps sparing.confined_rules)
  ultimately show ?thesis
    unfolding claimForAgent_def by (intro sparing_then) simp_all
qed

lemma requeueExpiredLeases_orderly: "leads (orderly u s0) (requeueExpiredLeases e) (orderly u s0)"
proof -
  have upd: "leads (orderly u s0)
      (writeE (\<lambda>s. s\<lparr>tasks := update_rows (\<lambda>t. lease_expired (e_now e) t \<and> P t) (requeue_task e) (tasks s)\<rparr>))
      (orderly u s0)" for P
    by (rule leads_write) (auto intro!: orderly_update requeue_row)
  show ?thesis
    unfolding requeueExpiredLeases_def Let_def
    by (intro sparing_then leads_seq[OF upd] sparing_keeps sparing.confined_rules) simp_all
qed

subsection \<open>The life cycle reported by agents\<close>

lemma sparing_assertTaskIdMatchesRoute [simp]: "sparing.confined (assertTaskIdMatchesRoute i b)"
  by (simp add: assertTaskIdMatchesRoute_def)

lemma sparing_acceptClaimedTaskForAgent: "sparing.confined (acceptClaimedTaskForAgent e i n b d)"
  unfolding acceptClaimedTaskForAgent_def findTaskForNodeOrFail_def by (intro sparing.confined_rules) simp_all

lemma update_then:
  assumes "\<And>t. task_ok t \<Longrightarrow> p t \<Longrightarrow> task_ok (g t) \<and> advances t (g t)" "sparing.confined (f ())"
  shows "leads (orderly u s0) (bindE (writeE (\<lambda>s. s\<lparr>tasks := update_rows p g (tasks s)\<rparr>)) f) (orderly u s0)"
  by (rule leads_after_write[where R = "orderly u s0"]) (auto intro!: orderly_update assms sparing_keeps)

lemma startClaimedTaskForAgent_orderly:
  "leads (orderly u s0) (startClaimedTaskForAgent e i n b d) (orderly u s0)"
proof -
  have find: "sparing.confined (findTaskForNodeOrFail i n)" by (simp add: findTaskForNodeOrFail_def)
  have reread: "sparing.confined (bindE (findE tasks (\<lambda>x. t_id x = i) err) (\<lambda>saved.
      bindE (publishTaskUpdated e saved) (\<lambda>_. ret saved)))" for err
    by (intro sparing.confined_rules) simp_all
  have lost: "sparing.confined (bindE (incrementCounter c k) (\<lambda>_. throw err :: task op))" for c k err
    by (intro sparing.confined_rules) simp_all
  have dup: "sparing.confined (bindE (incrementCounter c k) (\<lambda>_. ret x))" for c k and x :: task
    by (intro sparing.confined_rules) simp_all
  show ?thesis
    unfolding startClaimedTaskForAgent_def Let_def
    by (rule sparing_then[OF sparing_assertTaskIdMatchesRoute] sparing_then[OF find] leads_if
          sparing_keeps[OF dup] sparing_keeps[OF sparing_rejectTransition]
          sparing_then[OF sparing_assertClaimOwnership] sparing_then[OF sparing.confined_prims(3)] update_then
          sparing.confined_if lost reread conjI start_row | assumption | blast | simp)+
qed

lemma appendClaimedTaskLogForAgent_orderly:
  "leads (orderly u s0) (appendClaimedTaskLogForAgent e i n b en) (orderly u s0)"
  unfolding appendClaimedTaskLogForAgent_def
  by (intro sparing_then[OF sparing_assertTaskIdMatchesRoute] leads_task leads_if held_sparing sparing_rejectTransition
        save_then output_row sparing_insertTaskLog) auto

lemma completeClaimedTaskForAgent_orderly:
  "leads (orderly u s0) (completeClaimedTaskForAgent e i n dto) (orderly u s0)"
proof -
  have dup: "sparing.confined (bindE (incrementCounter c k) (\<lambda>_. ret x))" for c k and x :: task
    by (intro sparing.confined_rules) simp_all
  have report: "sparing.confined (bindE (handleTaskPostCompletion t) (\<lambda>_. bindE (publishTaskUpdated e t) (\<lambda>_. ret t)))" for t
    by (intro sparing.confined_rules) simp_all
  have own: "sparing.confined (if c then assertClaimOwnership e t n x else ret ())" for c t x
    by (intro sparing.confined_rules) simp
  have save: "leads (\<lambda>s. orderly u s0 s \<and> t \<in> set (tasks s)) (bindE (saveTask e t (complete_task e st dto t)) (\<lambda>saved.
      bindE (handleTaskPostCompletion saved) (\<lambda>_. bindE (publishTaskUpdated e saved) (\<lambda>_. ret saved)))) (orderly u s0)"
    if "t_status t = CLAIMED \<or> t_status t = RUNNING" "isTerminalStatus st" for t st
    by (rule save_then) (use that complete_row[of t st e dto] report in \<open>auto simp: task_ok.simps\<close>)
  show ?thesis
  proof (cases "normalizeCompletionStatus (cp_status dto)")
    case (Inr st)
    then have "isTerminalStatus st" by (rule normalizeCompletionStatus_terminal)
    then show ?thesis
      unfolding completeClaimedTaskForAgent_def Inr bindE_liftE_Inr
      by (intro sparing_then[OF sparing_assertTaskIdMatchesRoute] leads_task leads_if held_sparing[OF dup]
            held_sparing[OF sparing_rejectTransition] held_then[OF own] save) auto
  qed (simp add: completeClaimedTaskForAgent_def sparing_then sparing_keeps)
qed

lemma sparing_acknowledgeForAgent: "sparing.confined (acknowledgeForAgent e i n tok d)"
  unfolding acknowledgeForAgent_def findTaskForNodeOrFail_def by (intro sparing.confined_rules) simp_all

lemma startForAgent_orderly: "leads (orderly u s0) (startForAgent e i n tok b d) (orderly u s0)"
proof -
  have told: "sparing.confined (bindE (findE tasks q err) (\<lambda>saved.
      bindE (whenE (c saved) (bindE (recordEvent e None (nid saved) ty sev (msg saved) (md saved)) (\<lambda>_. ret ()))) (\<lambda>_.
      bindE (publishTaskUpdated e saved) (\<lambda>_. ret saved))))" for q err c nid ty sev msg md
    by (intro sparing.confined_rules) simp_all
  have refused: "sparing.confined (bindE (readE (\<lambda>s. find_row q (tasks s))) (\<lambda>found.
      case found of None \<Rightarrow> throw x | Some t \<Rightarrow> if c1 t then throw x else if c2 t then ret t else throw (y t)))"
    for q x c1 c2 and y :: "task \<Rightarrow> http_error"
    by (intro sparing.confined_rules)
  show ?thesis
    unfolding startForAgent_def Let_def
    by (intro sparing_then[OF sparing_assertTaskIdMatchesRoute] sparing_then[OF sparing_authenticateAgent]
          sparing_then[OF sparing.confined_prims(3)] update_then sparing.confined_if told refused conjI)
       (auto intro: start_queued_row)
qed

lemma appendLogForAgent_orderly: "leads (orderly u s0) (appendLogForAgent e i n tok b msg lv en) (orderly u s0)"
proof -
  have one: "sparing.confined (bindE (insertTaskLog e x y z d) (\<lambda>l. ret [l]))" for x y z d
    by (intro sparing.confined_rules) simp_all
  have many: "sparing.confined (forE (\<lambda>x. insertTaskLog e k (g x) (le_line x) (h x)) xs)" for g h k xs
    by (intro sparing.confined_rules) simp_all
  have save: "leads (\<lambda>s. orderly u s0 s \<and> t \<in> set (tasks s)) (bindE (guardE c x1) (\<lambda>_. bindE (guardE (\<not> isTerminalStatus (t_status t)) x2) (\<lambda>_. m)))
      (orderly u s0)"
    if "\<not> isTerminalStatus (t_status t) \<Longrightarrow> leads (\<lambda>s. orderly u s0 s \<and> t \<in> set (tasks s)) m (orderly u s0)"
    for t c x1 x2 and m :: "task_log list op"
    using that by (cases "isTerminalStatus (t_status t)") (auto simp: leads_def guardE_def)
  show ?thesis
    unfolding appendLogForAgent_def Let_def
    by (intro sparing_then[OF sparing_assertTaskIdMatchesRoute] sparing_then[OF sparing_authenticateAgent] leads_task
          save leads_if held_then[OF sparing.confined_prims(5)] save_then output_row one many)
qed

lemma sparing_liftE_then: "(\<And>x. r = Inr x \<Longrightarrow> sparing.confined (f x)) \<Longrightarrow> sparing.confined (bindE (liftE r) f)"
  by (cases r) auto

lemma completeForAgent_orderly: "leads (orderly u s0) (completeForAgent e i n tok dto) (orderly u s0)"
proof -
  have save: "leads (\<lambda>s. orderly u s0 s \<and> t \<in> set (tasks s)) (bindE (saveTask e t (finish_task e st dto t)) f) (orderly u s0)"
    if "\<not> isTerminalStatus (t_status t)" "isTerminalStatus st" "\<And>x. sparing.confined (f x)" for t st and f :: "task \<Rightarrow> task op"
    by (rule save_then) (use that finish_row[of t st e dto] in auto)
  show ?thesis
  proof (cases "normalizeCompletionStatus (cp_status dto)")
    case (Inr st)
    then have "isTerminalStatus st" by (rule normalizeCompletionStatus_terminal)
    then show ?thesis
      unfolding completeForAgent_def Inr bindE_liftE_Inr
      by (intro sparing_then[OF sparing_assertTaskIdMatchesRoute] sparing_then[OF sparing_authenticateAgent] leads_task
            leads_if held_sparing[OF sparing.confined_prims(1)] held_sparing[OF sparing.confined_prims(2)] save
            sparing.confined_rules) simp_all
  qed (simp add: completeForAgent_def sparing_then sparing_keeps)
qed

subsection \<open>Cancellation and the sweep\<close>

lemma sparing_reportCancellation [simp]: "sparing.confined (reportCancellation e r t ctx saved)"
  unfolding reportCancellation_def by (intro sparing.confined_rules) simp_all

lemma requestTaskCancellation_orderly:
  "leads (orderly u s0) (requestTaskCancellation e i r w ctx) (orderly u s0)"
  unfolding requestTaskCancellation_def tasks_findOneOrFail_def Let_def
proof (rule leads_find)
  fix t
  have "leads (\<lambda>s. orderly u s0 s \<and> t \<in> set (tasks s))
    (bindE (assertWorkspaceWritable (t_workspaceId t)) (\<lambda>_. if isTerminalStatus (t_status t) then ret t
       else bindE (saveTask e t (cancel_task e (trim_or_null r) t)) (\<lambda>saved.
            reportCancellation e (trim_or_null r) t ctx saved))) (orderly u s0)"
    by (intro held_then leads_if held_sparing save_then cancel_row) simp_all
  then show "leads (\<lambda>s. orderly u s0 s \<and> t \<in> set (tasks s) \<and> t_id t = i \<and> if_given w (\<lambda>w. t_workspaceId t = w))
    (bindE (assertWorkspaceWritable (t_workspaceId t)) (\<lambda>_. if isTerminalStatus (t_status t) then ret t
       else bindE (saveTask e t (cancel_task e (trim_or_null r) t)) (\<lambda>saved.
            reportCancellation e (trim_or_null r) t ctx saved))) (orderly u s0)"
    by (rule leads_weaken) simp
qed

lemma publishTaskUpdated_run:
  "\<exists>t. publishTaskUpdated e x s = (Inr (), t) \<and> core t = core s \<and> drawn s \<le> drawn t"
  by (simp add: publishTaskUpdated_def enqueue_def publish_def core_def Let_def)

text \<open>One stale task after the other is failed.\<close>

definition failed_task :: "env \<Rightarrow> task \<Rightarrow> task" where
  "failed_task e t = touched (\<lambda>d r. r\<lparr>t_updatedAt := d\<rparr>) (e_now e) t (fail_stale_task e t)"

lemma fail_one_run:
  "\<exists>x t'. fail_one e t s = (Inr x, t') \<and> tasks t' = save_row t_id (failed_task e t) (tasks s) \<and>
     (drawn s \<le> drawn t' \<and> nodes t' = nodes s)"
proof -
  let ?s = "s\<lparr>tasks := save_row t_id (failed_task e t) (tasks s)\<rparr>"
  obtain t' where "publishTaskUpdated e (failed_task e t) ?s = (Inr (), t')" "core t' = core ?s" "drawn ?s \<le> drawn t'"
    using publishTaskUpdated_run by blast
  moreover from this have "tasks t' = tasks ?s" "nodes t' = nodes ?s" by (auto dest: core_eqD)
  ultimately show ?thesis
    by (auto simp: fail_one_def saveTask_def Let_def failed_task_def handleTaskPostCompletion_def)
qed

lemma failed_row:
  assumes "task_ok t" "\<not> isTerminalStatus (t_status t)"
  shows "task_ok (failed_task e t)" "advances t (failed_task e t)"
  using fail_row[OF assms] assms(2) by (simp_all add: failed_task_def)

lemma failed_id [simp]: "t_id (failed_task e t) = t_id t"
  by (simp add: failed_task_def fail_stale_task_def)

definition requeued :: "env \<Rightarrow> node list \<Rightarrow> task list \<Rightarrow> task list" where
  "requeued e ns ts = update_rows (\<lambda>t. lease_expired (e_now e) t \<and> node_serving ns (t_nodeId t)) (requeue_task e) ts"

lemma requeue_ids [simp]: "map t_id (requeued e ns ts) = map t_id ts"
  by (simp add: requeued_def map_update_rows requeue_task_def)

lemma requeueExpiredLeases_run:
  "\<exists>t. requeueExpiredLeases e s =
       (Inr (count_rows (\<lambda>t. lease_expired (e_now e) t \<and> node_serving (nodes s) (t_nodeId t)) (tasks s)), t) \<and>
     tasks t = requeued e (nodes s) (tasks s) \<and> nodes t = nodes s \<and> drawn t = drawn s"
  by (simp add: requeueExpiredLeases_def Let_def requeued_def incrementCounter_def)

lemma failStaleTasks_run:
  assumes "distinct (map t_id (tasks s))"
  shows "\<exists>t. failStaleTasks e q r s =
       (Inr (count_rows (stale_task e q r (nodes s)) (requeued e (nodes s) (tasks s)) +
             count_rows (\<lambda>t. lease_expired (e_now e) t \<and> node_serving (nodes s) (t_nodeId t)) (tasks s)), t) \<and>
     tasks t = update_rows (stale_task e q r (nodes s)) (failed_task e) (requeued e (nodes s) (tasks s)) \<and>
     drawn s \<le> drawn t"
proof -
  let ?p = "stale_task e q r (nodes s)"
  obtain k s1 where r: "requeueExpiredLeases e s = (Inr k, s1)" "tasks s1 = requeued e (nodes s) (tasks s)"
      "nodes s1 = nodes s" "drawn s1 = drawn s"
      "k = count_rows (\<lambda>t. lease_expired (e_now e) t \<and> node_serving (nodes s) (t_nodeId t)) (tasks s)"
    using requeueExpiredLeases_run by blast
  have "task_repo.keyed s1" using assms r(2) by (simp add: task_repo.keyed_def)
  then obtain xs t where t: "forE (fail_one e) (filter ?p (tasks s1)) s1 = (Inr xs, t)"
      "tasks t = update_rows ?p (failed_task e) (tasks s1)" "drawn s1 \<le> drawn t"
    using task_repo.save_sweep[where m = "fail_one e" and R = "\<lambda>s t. drawn s \<le> drawn t \<and> nodes t = nodes s"
        and f = "failed_task e" and s = s1 and p = ?p, OF fail_one_run]
    by (auto simp: reflp_def transp_def)
  have "failStaleTasks e q r s = (Inr (length (filter ?p (tasks s1)) + k), t)"
    unfolding failStaleTasks_def bindE_Inr[where m = "requeueExpiredLeases e" and s = s, OF r(1)]
    using t(1) r(3) by (simp add: bindE_def)
  then show ?thesis using t r by (auto simp: count_rows_def)
qed

lemma stale_open: "stale_task e q r ns t \<Longrightarrow> \<not> isTerminalStatus (t_status t)"
  by (auto simp: stale_task_def)

lemma failStaleTasks_orderly: "leads (orderly u s0) (failStaleTasks e q r) (orderly u s0)"
  unfolding leads_def
proof (intro allI impI)
  fix s assume s: "orderly u s0 s"
  then have "distinct (map t_id (tasks s))" by (simp add: orderly_def tasks_inv_def drawn_ids_def)
  from failStaleTasks_run[OF this, of e q r]
  obtain t where t: "after (failStaleTasks e q r) s = t" "drawn s \<le> drawn t"
    "tasks t = update_rows (stale_task e q r (nodes s)) (failed_task e) (requeued e (nodes s) (tasks s))"
    by fastforce
  have "orderly u s0 (s\<lparr>tasks := requeued e (nodes s) (tasks s)\<rparr>)"
    unfolding requeued_def by (rule orderly_update[OF s]) (auto intro: requeue_row)
  then have "orderly u s0 (s\<lparr>tasks := tasks t\<rparr>)"
    using orderly_update[of u s0 "s\<lparr>tasks := requeued e (nodes s) (tasks s)\<rparr>" "stale_task e q r (nodes s)" "failed_task e"]
    by (simp add: t(3) failed_row stale_open)
  then show "orderly u s0 (after (failStaleTasks e q r) s)" unfolding t(1) by (rule orderly_later) (auto simp: t(2))
qed

section \<open>The task table as a transition system\<close>

text \<open>The operations of the service, and whatever the rest of the program does without writing a task.\<close>

inductive task_step :: "(nat \<Rightarrow> string) \<Rightarrow> db \<Rightarrow> db \<Rightarrow> bool" for u where
  create: "e_uuid e = u \<Longrightarrow> task_step u s (after (createTask e i ty p tpl w ctx internal) s)"
| batch: "e_uuid e = u \<Longrightarrow> task_step u s (after (createBatch e ids ty p tpl w ctx) s)"
| team: "e_uuid e = u \<Longrightarrow> task_step u s (after (createForTeam e wi tm ty pl tpl ctx) s)"
| scheduled: "e_uuid e = u \<Longrightarrow> task_step u s (after (createScheduledShellTask e i sch) s)"
| claim: "orderly_rounds u rs \<Longrightarrow> task_step u s (after (claimForAgent e i wait ra rs) s)"
| accept: "task_step u s (after (acceptClaimedTaskForAgent e i n b d) s)"
| start: "task_step u s (after (startClaimedTaskForAgent e i n b d) s)"
| append: "task_step u s (after (appendClaimedTaskLogForAgent e i n b en) s)"
| complete: "task_step u s (after (completeClaimedTaskForAgent e i n dto) s)"
| acknowledge: "task_step u s (after (acknowledgeForAgent e i n tok d) s)"
| start_old: "task_step u s (after (startForAgent e i n tok b d) s)"
| append_old: "task_step u s (after (appendLogForAgent e i n tok b msg lv ens) s)"
| complete_old: "task_step u s (after (completeForAgent e i n tok dto) s)"
| cancel: "task_step u s (after (requestTaskCancellation e i r w ctx) s)"
| sweep: "task_step u s (after (failStaleTasks e q r') s)"
| elsewhere: "spares s t \<Longrightarrow> task_step u s t"

lemmas task_ops_orderly = createTask_orderly createBatch_orderly createForTeam_orderly
  createScheduledShellTask_orderly claimForAgent_orderly startClaimedTaskForAgent_orderly
  appendClaimedTaskLogForAgent_orderly completeClaimedTaskForAgent_orderly startForAgent_orderly
  appendLogForAgent_orderly completeForAgent_orderly requestTaskCancellation_orderly failStaleTasks_orderly
  sparing_keeps[OF sparing_acceptClaimedTaskForAgent] sparing_keeps[OF sparing_acknowledgeForAgent]

lemma task_step_orderly:
  assumes "inj u" "task_step u s t" "tasks_inv u s"
  shows "orderly u s t"
proof -
  have s: "orderly u s s" using assms(3) by (simp add: orderly_def)
  from assms(2) show ?thesis
  proof cases
    case elsewhere
    then show ?thesis using s by (auto simp: spares_def intro: orderly_later)
  qed (erule ssubst, rule leadsD[where P = "orderly u s" and Q = "orderly u s", OF _ s], rule task_ops_orderly, ((rule assms(1) | assumption)+)?)+
qed

interpretation task_system: transition_system "\<lambda>s. tasks s = []" "\<lambda>s t. inj u \<and> task_step u s t" "tasks_inv u" for u
proof
  show "tasks_inv u s" if "tasks s = []" for s using that by (simp add: tasks_inv_def drawn_ids_def)
  show "tasks_inv u t" if "inj u \<and> task_step u s t" "tasks_inv u s" for s t
    using that task_step_orderly[of u s t] by (simp add: orderly_def)
qed

lemma task_run_progress:
  assumes "inj u" "(\<lambda>s t. inj u \<and> task_step u s t)\<^sup>*\<^sup>* s t" "tasks_inv u s"
  shows "progress s t"
  using assms(2)
proof (induction rule: rtranclp_induct)
  case (step t t')
  have "tasks_inv u t" using step.hyps(1) assms(3) by (rule task_system.run_invar)
  then have "progress t t'" using step.hyps(2) task_step_orderly[of u t t'] by (simp add: orderly_def)
  then show ?case using step.IH by (rule progress_trans[rotated])
qed simp

section \<open>Properties\<close>

subsection \<open>The table in the long run\<close>


definition sample_task :: task where
  "sample_task = (new_task base_env sample_node \<lparr>qi_nodeId = ''n1'', qi_type = ''shell.exec'',
     qi_payload = [(''command'', JStr ''ls'')], qi_workspaceId = None, qi_targetTeamId = None, qi_templateId = None,
     qi_templateName = None, qi_isInternal = True\<rparr> None ''t1'')"

definition task_db :: db where
  "task_db = node_db\<lparr>tasks := [sample_task]\<rparr>"

lemma sample_task_simps [simp]: "t_id sample_task = ''t1''" "t_nodeId sample_task = ''n1''" "t_status sample_task = QUEUED"
    "t_cancelRequestedAt sample_task = None" "t_workspaceId sample_task = ''w''" "t_isInternal sample_task"
    "t_createdAt sample_task = 1000000" "t_leaseUntil sample_task = None" "t_result sample_task = None" "t_output sample_task = None"
  by (simp_all add: sample_task_def new_task_def base_env_def)

lemma task_db_simps [simp]: "tasks task_db = [sample_task]" "nodes task_db = [sample_node]" "drawn task_db = 0"
    "workspaces task_db = [owned_workspace]" "teams task_db = []"
  by (simp_all add: task_db_def)

lemma base_env_simps [simp]: "e_now base_env = 1000000" "e_uuid base_env = show_nat" "e_token base_env = show_nat" "e_outbox base_env"
    "\<not> e_enableRealtimeTaskDispatch base_env" "e_taskClaimLeaseSeconds base_env = 60"
  by (simp_all add: base_env_def)

lemma find_sample_node_then [simp]:
  "nodes s = [sample_node] \<Longrightarrow> bindE (nodes_findOneOrFail ''n1'' None) f s = f (sample_node, None) s"
  by (rule findOne_single) simp_all

lemma sample_serving [simp]: "\<not> n_maintenanceMode sample_node" "node_serving [sample_node] ''n1''"
  by (simp_all add: node_serving_def) (simp_all add: sample_node_def blank_node_def)

lemma owned_workspace_simps [simp]: "w_id owned_workspace = ''w''" "\<not> w_isArchived owned_workspace"
  by (simp_all add: owned_workspace_def)

lemma node_db_tasks [simp]: "tasks node_db = []"
  by (simp add: node_db_def empty_db_def)

lemma plain_shell_allowed: "bindE (assertRequestedRootAccessAllowed e n ''shell.exec'' []) f = f ()"
  by (simp add: assertRequestedRootAccessAllowed_def isPackageMutationTaskType_def readShellExecRootRequest_def
      is_true_def str_field_def fun_eq_iff)

lemma created_task:
  "\<exists>r s. createTask base_env ''n1'' ''shell.exec'' None None None None True node_db = (Inr r, s) \<and> tasks s = [r] \<and>
     t_status r = QUEUED \<and> t_nodeId r = ''n1''"
  by (simp add: createTask_def queueTask_def Let_def assertWorkspaceWritable_def find_row_def
      assertNodeAcceptingNewWork_def plain_shell_allowed orElse_def announceTask_def shouldBroadcastTask_def)

lemma created_by_step: "(\<lambda>s t. inj show_nat \<and> task_step show_nat s t)\<^sup>*\<^sup>* node_db
    (after (createTask base_env ''n1'' ''shell.exec'' None None None None True) node_db)"
  by (intro r_into_rtranclp conjI task_step.create) (simp_all add: inj_show_nat)




subsection \<open>Claims\<close>

lemma claim_task_id [simp]: "t_id (claim_task e i tok t) = t_id t"
  by (simp add: claim_task_def)

lemma claim_none_run:
  assumes "\<forall>t \<in> set (tasks s). \<not> claimable (e_now e) i (nodes s) t"
  shows "claimNextTaskOnce e i s = (Inr None, s\<lparr>drawn := Suc (drawn s)\<rparr>)"
proof -
  have "filter (claimable (e_now e) i (nodes s)) (tasks s) = []" using assms by (simp add: filter_empty_conv)
  then show ?thesis by (simp add: claimNextTaskOnce_def order_limit_def)
qed

lemma claim_some_run:
  assumes "distinct (map t_id (tasks s))" "\<exists>t \<in> set (tasks s). claimable (e_now e) i (nodes s) t"
  obtains t where "t \<in> set (tasks s)" "claimable (e_now e) i (nodes s) t"
    "\<forall>r \<in> set (tasks s). claimable (e_now e) i (nodes s) r \<longrightarrow> t_createdAt t \<le> t_createdAt r"
    "claimNextTaskOnce e i s = (Inr (Some (claim_task e i (e_uuid e (drawn s)) t)),
       s\<lparr>drawn := Suc (drawn s), tasks := map (\<lambda>r. if r = t then claim_task e i (e_uuid e (drawn s)) t else r) (tasks s)\<rparr>)"
proof -
  let ?rows = "filter (claimable (e_now e) i (nodes s)) (tasks s)"
  have "?rows \<noteq> []" using assms(2) by (auto simp: filter_empty_conv)
  then obtain t rest where Cons: "order_limit t_createdAt 1 ?rows = t # rest"
    using order_limit_Nil[of 1 t_createdAt ?rows] by (cases "order_limit t_createdAt 1 ?rows") auto
  then have t: "t \<in> set (tasks s)" "claimable (e_now e) i (nodes s) t"
    "\<forall>r \<in> set (tasks s). claimable (e_now e) i (nodes s) r \<longrightarrow> t_createdAt t \<le> t_createdAt r"
    using order_limit_head[of t_createdAt ?rows t rest] by auto
  have "(t_id r = t_id t) = (r = t)" if "r \<in> set (tasks s)" for r
    using assms(1) that t(1) by (auto simp: distinct_map inj_on_def)
  then have "update_rows (\<lambda>r. t_id r = t_id t) (claim_task e i x) (tasks s) =
      map (\<lambda>r. if r = t then claim_task e i x t else r) (tasks s)" for x
    by (simp add: update_rows_def)
  then show ?thesis using that[OF t] Cons by (simp add: claimNextTaskOnce_def)
qed

text \<open>C20: A claim answers with a task exactly when the node has one to run (queued, or accepted with a
  lease that ran out, not cancelled, and the node out of maintenance); it is a
  longest-waiting one; the claim marks it accepted by this node, with a fresh token and a lease of the
  configured length, but at least 15 seconds; and no other task changes.\<close>

theorem claim_next_spec:
  assumes "distinct (map t_id (tasks s))"
  shows "case outcome (claimNextTaskOnce e i) s of
      Inr None \<Rightarrow> after (claimNextTaskOnce e i) s = s\<lparr>drawn := Suc (drawn s)\<rparr> \<and>
        (\<forall>t \<in> set (tasks s). \<not> claimable (e_now e) i (nodes s) t)
    | Inr (Some t') \<Rightarrow> \<exists>t \<in> set (tasks s). claimable (e_now e) i (nodes s) t \<and>
        (\<forall>r \<in> set (tasks s). claimable (e_now e) i (nodes s) r \<longrightarrow> t_createdAt t \<le> t_createdAt r) \<and>
        t' = claim_task e i (e_uuid e (drawn s)) t \<and>
        t_leaseUntil t' = Some (e_now e + 1000 * max (e_taskClaimLeaseSeconds e) 15) \<and>
        tasks (after (claimNextTaskOnce e i) s) = map (\<lambda>r. if r = t then t' else r) (tasks s)
    | Inl _ \<Rightarrow> False"
proof (cases "\<exists>t \<in> set (tasks s). claimable (e_now e) i (nodes s) t")
  case True
  from claim_some_run[OF assms this] obtain t where "t \<in> set (tasks s)" "claimable (e_now e) i (nodes s) t"
    "\<forall>r \<in> set (tasks s). claimable (e_now e) i (nodes s) r \<longrightarrow> t_createdAt t \<le> t_createdAt r"
    "claimNextTaskOnce e i s = (Inr (Some (claim_task e i (e_uuid e (drawn s)) t)),
       s\<lparr>drawn := Suc (drawn s), tasks := map (\<lambda>r. if r = t then claim_task e i (e_uuid e (drawn s)) t else r) (tasks s)\<rparr>)"
    by blast
  then show ?thesis by (auto simp: claim_task_def getClaimLeaseSeconds_def intro!: bexI[of _ t])
qed (simp add: claim_none_run)

lemma claimable_sample: "claimable 1000000 ''n1'' [sample_node] sample_task"
  by (simp add: claimable_def)

theorem claim_next_spec_witness:
  "outcome (claimNextTaskOnce base_env ''n1'') task_db = Inr (Some (claim_task base_env ''n1'' (show_nat 0) sample_task))"
  using claim_next_spec[of task_db base_env "''n1''"] claimable_sample
  by (auto split: sum.splits option.splits)


lemma claim_sample_run:
  "\<exists>s1. claimNextTaskOnce base_env ''n1'' task_db = (Inr (Some (claim_task base_env ''n1'' (show_nat 0) sample_task)), s1)"
  by (rule claim_some_run[of task_db base_env "''n1''"]) (simp_all add: claimable_sample)


text \<open>The clock between the rounds of a polling loop.\<close>

fun paced :: "int \<Rightarrow> rounds \<Rightarrow> bool" where
  "paced now [] \<longleftrightarrow> True"
| "paced now ((e, _) # rs) \<longleftrightarrow> now + CLAIM_POLL_INTERVAL_MS \<le> e_now e \<and> paced (e_now e) rs"

lemma claim_poll_ends:
  "paced (e_now e) rs \<Longrightarrow> d \<le> e_now e + CLAIM_POLL_INTERVAL_MS * int (length rs) \<Longrightarrow>
     outcome (claim_poll d i e rs) s \<noteq> Inr None"
proof (induction rs arbitrary: e s)
  case Nil
  have found: "outcome (bindE (incrementCounter c k) (\<lambda>_. bindE (loadDesiredRootAccessSnapshot i) (\<lambda>ra. ret (Some (g ra))))) s'
      \<noteq> Inr None" for c k s' and g :: "json \<Rightarrow> claim_response"
    by (auto simp: bindE_def split: prod.split sum.split)
  show ?case
    using Nil found by (auto simp: claim_poll.simps[of d i e] bindE_def[of "claimNextTaskOnce e i"]
        split: prod.split sum.split option.split)
next
  case (Cons r rs)
  obtain e' others where r: "r = (e', others)" by (cases r)
  have found: "outcome (bindE (incrementCounter c k) (\<lambda>_. bindE (loadDesiredRootAccessSnapshot i) (\<lambda>ra. ret (Some (g ra))))) s'
      \<noteq> Inr None" for c k s' and g :: "json \<Rightarrow> claim_response"
    by (auto simp: bindE_def split: prod.split sum.split)
  have "paced (e_now e') rs" "d \<le> e_now e' + CLAIM_POLL_INTERVAL_MS * int (length rs)"
    using Cons.prems r by (auto simp: algebra_simps)
  from Cons.IH[OF this] show ?case
    using found r by (auto simp: claim_poll.simps[of d i e] bindE_def[of "claimNextTaskOnce e i"]
        split: prod.split sum.split option.split)
qed

lemma bindE_not: "(\<And>x s'. outcome (f x) s' \<noteq> Inr v) \<Longrightarrow> outcome (bindE m f) s \<noteq> Inr v"
  by (auto simp: bindE_def split: prod.split sum.split)

lemma catchE_not:
  assumes "\<And>s'. outcome m s' \<noteq> Inr v" "\<And>x s'. outcome (h x) s' \<noteq> Inr v"
  shows "outcome (catchE m h) s \<noteq> Inr v"
  using assms(1)[of s] assms(2) by (auto simp: catchE_def split: prod.split sum.split)

text \<open>The long-polling claim ends: when every wait between two attempts lasts at least the poll
  interval of half a second, as many rounds as there are intervals in the requested
  waiting time (by default 15 seconds) are enough for an answer, with a task or without, or an error.\<close>

theorem claim_request_ends:
  assumes "paced (e_now e) rs" "max (orElse waitMs 15000) 0 \<le> 500 * int (length rs)"
  shows "outcome (claimForAgent e i waitMs ra rs) s \<noteq> Inr None"
  unfolding claimForAgent_def
proof (intro bindE_not catchE_not)
  show "outcome (claim_poll (e_now e + max (orElse waitMs 15000) 0) i e rs) s' \<noteq> Inr None" for s'
    using assms by (intro claim_poll_ends) (simp_all add: CLAIM_POLL_INTERVAL_MS_def)
qed simp

theorem claim_request_ends_witness:
  "outcome (claimForAgent base_env ''n1'' (Some 900) None
     [(base_env\<lparr>e_now := 1000500\<rparr>, id), (base_env\<lparr>e_now := 1001001\<rparr>, id)]) node_db \<noteq> Inr None"
  by (rule claim_request_ends) (simp_all add: CLAIM_POLL_INTERVAL_MS_def orElse_def)

subsection \<open>The root access policy\<close>

lemma task_root_checks [simp]:
  "assertNodeAllowsTaskRoot e n s = (Inr x, s') \<longleftrightarrow> canNodeUseTaskRoot e n \<and> s' = s"
  "assertNodeAllowsOperationalRoot e n s = (Inr x, s') \<longleftrightarrow> canNodeUseOperationalRoot e n \<and> s' = s"
  by (auto simp: assertNodeAllowsTaskRoot_def assertNodeAllowsRootSurface_def canNodeUseTaskRoot_def
      assertNodeAllowsOperationalRoot_def)

text \<open>What has to hold for root work of a type and payload.\<close>

definition root_cleared :: "env \<Rightarrow> node \<Rightarrow> string \<Rightarrow> json_object \<Rightarrow> bool" where
  "root_cleared e n ty payload \<longleftrightarrow>
     (let scope = map_option trim (str_field payload ''rootScope'');
          command = map_option trim (str_field payload ''command'') in
     (isPackageMutationTaskType ty \<longrightarrow> canNodeUseOperationalRoot e n) \<and>
     (ty = ''log.scan'' \<and> is_true payload ''runAsRoot'' \<longrightarrow>
        scope = Some ''operational'' \<and> canNodeUseOperationalRoot e n) \<and>
     (ty = ''shell.exec'' \<and> is_true payload ''runAsRoot'' \<longrightarrow>
        scope = Some ''task'' \<and> canNodeUseTaskRoot e n \<or>
        scope = Some ''operational'' \<and> canNodeUseOperationalRoot e n \<and>
        (\<exists>c. command = Some c \<and> trim (collapse_ws c) \<in> set OPERATIONAL_ROOT_COMMANDS)))"

lemma no_empty_root_command: "[] \<notin> set OPERATIONAL_ROOT_COMMANDS"
  by (simp add: OPERATIONAL_ROOT_COMMANDS_def)

lemma bindE_quiet_success:
  "quiet m \<Longrightarrow> bindE m f s = (Inr y, s') \<Longrightarrow> \<exists>x. m s = (Inr x, s) \<and> f x s = (Inr y, s')"
  unfolding bindE_success by (metis quiet_run)

lemma bindE_quietE:
  assumes "quiet m" "bindE m f s = (Inr y, s')"
  obtains x where "m s = (Inr x, s)" "f x s = (Inr y, s')"
  using bindE_quiet_success[OF assms] by blast

lemma root_policy_quiet: "quiet (assertRequestedRootAccessAllowed e n ty p)"
  unfolding assertRequestedRootAccessAllowed_def assertNodeAllowsOperationalRoot_def
    assertNodeAllowsTaskRoot_def assertNodeAllowsRootSurface_def assertOperationalRootShellPayloadAllowed_def
  by (intro quiet_rules)

text \<open>What is left of queueing once the checks have passed writes exactly the new task.\<close>

lemma insert_new_task:
  assumes "bindE (fresh_id e) (\<lambda>i. bindE (writeE (\<lambda>s. s\<lparr>tasks := tasks s @ [mk i]\<rparr>)) (\<lambda>_.
       bindE (announceTask e n (mk i)) (\<lambda>_. bindE (whenE c (dispatchTaskToNode (mk i))) (\<lambda>_.
       bindE (whenE (d (mk i)) (bindE (recordAudit e (a (mk i)) ctx) (\<lambda>_. ret ()))) (\<lambda>_. ret (mk i)))))) s = (Inr t, s')"
  shows "t = mk (e_uuid e (drawn s)) \<and> tasks s' = tasks s @ [t]"
proof -
  let ?t = "mk (e_uuid e (drawn s))" and ?s = "s\<lparr>drawn := Suc (drawn s), tasks := tasks s @ [mk (e_uuid e (drawn s))]\<rparr>"
  let ?m = "bindE (announceTask e n ?t) (\<lambda>_. bindE (whenE c (dispatchTaskToNode ?t)) (\<lambda>_.
       bindE (whenE (d ?t) (bindE (recordAudit e (a ?t) ctx) (\<lambda>_. ret ()))) (\<lambda>_. ret ?t)))"
  have run: "?m ?s = (Inr t, s')" using assms by simp
  have "sparing.confined ?m" by (intro sparing.confined_rules) simp_all
  then have "tasks (after ?m ?s) = tasks ?s" unfolding sparing.confined_def spares_def by blast
  moreover have "t = ?t" using run by (auto simp: bindE_success simp del: bindE_whenE)
  ultimately show ?thesis using run by simp
qed

lemma root_policy_cleared:
  assumes "assertRequestedRootAccessAllowed e n ty payload s = (Inr x, s')"
  shows "root_cleared e n ty payload"
proof -
  consider "isPackageMutationTaskType ty" | "ty = ''log.scan''" | "ty = ''shell.exec''"
    | "\<not> isPackageMutationTaskType ty" "ty \<noteq> ''log.scan''" "ty \<noteq> ''shell.exec''" by blast
  then show ?thesis
  proof cases
    case 1
    moreover from 1 have "ty \<noteq> ''log.scan''" "ty \<noteq> ''shell.exec''" by (auto simp: isPackageMutationTaskType_def)
    ultimately show ?thesis using assms by (simp add: assertRequestedRootAccessAllowed_def root_cleared_def Let_def)
  next
    case 2
    then show ?thesis using assms
      by (simp add: assertRequestedRootAccessAllowed_def root_cleared_def Let_def isPackageMutationTaskType_def
          ROOT_SCOPE_OPERATIONAL_def split: if_splits)
  next
    case 3
    then show ?thesis using assms
      by (auto simp: assertRequestedRootAccessAllowed_def root_cleared_def Let_def isPackageMutationTaskType_def
          readShellExecRootRequest_def assertOperationalRootShellPayloadAllowed_def no_empty_root_command
          ROOT_SCOPE_OPERATIONAL_def ROOT_SCOPE_TASK_def split: if_splits option.splits)
  qed (simp add: root_cleared_def Let_def)
qed

lemma queueTask_Inr:
  assumes "queueTask e inp None ctx s = (Inr t, s')"
  shows "\<exists>n tpl. n \<in> set (nodes s) \<and> n_id n = qi_nodeId inp \<and> \<not> n_maintenanceMode n \<and>
    (\<exists>w \<in> set (workspaces s). w_id w = n_workspaceId n \<and> \<not> w_isArchived w) \<and>
    root_cleared e n (qi_type inp) (qi_payload inp) \<and>
    t = new_task e n inp tpl (e_uuid e (drawn s)) \<and> tasks s' = tasks s @ [t]"
proof -
  have template: "quiet (if c then bindE (resolveTemplateOrFail i w) (\<lambda>t. ret (Some t)) else ret None)" for c i w
    unfolding resolveTemplateOrFail_def by (intro quiet_rules)
  have lookup: "quiet (bindE (nodes_findOneOrFail i w) (\<lambda>(n, _). ret n))" for i w
    by (intro quiet_rules quiet_case_prod)
  have accepting: "quiet (assertNodeAcceptingNewWork n)" for n by (simp add: assertNodeAcceptingNewWork_def)
  note run = assms[unfolded queueTask_def option.case Let_def]
  obtain n w tpl where
    n: "bindE (nodes_findOneOrFail (qi_nodeId inp) (qi_workspaceId inp)) (\<lambda>(n, _). ret n) s = (Inr n, s)"
    and w: "assertWorkspaceWritable (n_workspaceId n) s = (Inr w, s)"
    and acc: "assertNodeAcceptingNewWork n s = (Inr (), s)"
    and root: "assertRequestedRootAccessAllowed e n (qi_type inp) (qi_payload inp) s = (Inr (), s)"
    and new: "t = new_task e n inp tpl (e_uuid e (drawn s)) \<and> tasks s' = tasks s @ [t]"
    using run
    by (elim bindE_quietE[OF lookup] bindE_quietE[OF assertWorkspaceWritable_quiet] bindE_quietE[OF accepting]
          bindE_quietE[OF root_policy_quiet] bindE_quietE[OF template]) (drule insert_new_task, simp)
  from n obtain x where "outcome (nodes_findOneOrFail (qi_nodeId inp) (qi_workspaceId inp)) s = Inr (n, x)"
    by (auto simp: bindE_success)
  from findOne_Inr(1,2)[OF this] have "n \<in> set (nodes s)" "n_id n = qi_nodeId inp" by simp_all
  moreover have "w \<in> set (workspaces s)" "w_id w = n_workspaceId n" "\<not> w_isArchived w"
    using w by (auto simp: assertWorkspaceWritable_def findWorkspaceOrFail_def bindE_success
        split: option.splits if_splits dest: find_row_Some)
  moreover have "\<not> n_maintenanceMode n" using acc by (simp add: assertNodeAcceptingNewWork_def split: if_splits)
  ultimately show ?thesis using root_policy_cleared[OF root] new by blast
qed


definition sample_queue_input :: queue_input where
  "sample_queue_input = \<lparr>qi_nodeId = ''n1'', qi_type = ''shell.exec'', qi_payload = [], qi_workspaceId = None,
     qi_targetTeamId = None, qi_templateId = None, qi_templateName = None, qi_isInternal = True\<rparr>"


subsection \<open>Cancellation\<close>

lemma cancel_status:
  "t_status (cancel_task e r t) = (if t_status t \<in> {QUEUED, ACCEPTED, CLAIMED} then CANCELLED else t_status t)"
  "t_cancelRequestedAt (cancel_task e r t) = Some (e_now e)" "t_id (cancel_task e r t) = t_id t"
  "t_nodeId (cancel_task e r t) = t_nodeId t" "t_cancelReason (cancel_task e r t) = r"
  "t_status t \<in> {QUEUED, ACCEPTED, CLAIMED} \<Longrightarrow> t_finishedAt (cancel_task e r t) = Some (e_now e)"
  by (simp_all add: cancel_task_def Let_def)

lemma touched_task_more [simp]:
  "t_cancelRequestedAt (touched (\<lambda>d r. r\<lparr>t_updatedAt := d\<rparr>) now old new) = t_cancelRequestedAt new"
  "t_cancelReason (touched (\<lambda>d r. r\<lparr>t_updatedAt := d\<rparr>) now old new) = t_cancelReason new"
  "t_finishedAt (touched (\<lambda>d r. r\<lparr>t_updatedAt := d\<rparr>) now old new) = t_finishedAt new"
  "t_isInternal (touched (\<lambda>d r. r\<lparr>t_updatedAt := d\<rparr>) now old new) = t_isInternal new"
  "t_workspaceId (touched (\<lambda>d r. r\<lparr>t_updatedAt := d\<rparr>) now old new) = t_workspaceId new"
  by (simp_all add: touched_def)

definition cancelled :: "env \<Rightarrow> string option \<Rightarrow> task \<Rightarrow> task" where
  "cancelled e r t = touched (\<lambda>d r. r\<lparr>t_updatedAt := d\<rparr>) (e_now e) t (cancel_task e (trim_or_null r) t)"

lemmas cancelled_simps = cancelled_def cancel_status

lemma reportCancellation_Inr: "reportCancellation e r t ctx x s = (Inr y, s') \<Longrightarrow> y = x"
  by (auto simp: reportCancellation_def bindE_success simp del: bindE_whenE)

lemma requestTaskCancellation_success:
  assumes "requestTaskCancellation e i r w ctx s = (Inr t', s')"
  obtains t where "t \<in> set (tasks s)" "t_id t = i"
    "if isTerminalStatus (t_status t) then t' = t \<and> s' = s
     else t' = cancelled e r t \<and> tasks s' = save_row t_id t' (tasks s)"
proof -
  from assms obtain t where t: "find_row (\<lambda>t. t_id t = i \<and> if_given w (\<lambda>w. t_workspaceId t = w)) (tasks s) = Some t"
    and rest: "bindE (assertWorkspaceWritable (t_workspaceId t)) (\<lambda>_. if isTerminalStatus (t_status t) then ret t
         else bindE (saveTask e t (cancel_task e (trim_or_null r) t)) (\<lambda>saved.
              reportCancellation e (trim_or_null r) t ctx saved)) s = (Inr t', s')"
    by (auto simp: requestTaskCancellation_def tasks_findOneOrFail_def Let_def split: option.splits)
  have mem: "t \<in> set (tasks s)" "t_id t = i" using find_row_Some[OF t] by auto
  obtain x where run: "(if isTerminalStatus (t_status t) then ret t
      else bindE (saveTask e t (cancel_task e (trim_or_null r) t)) (\<lambda>saved.
           reportCancellation e (trim_or_null r) t ctx saved)) s = (Inr t', s')"
    using rest by (rule bindE_quietE[OF assertWorkspaceWritable_quiet])
  show ?thesis
  proof (cases "isTerminalStatus (t_status t)")
    case True
    with run show ?thesis using that[OF mem] by simp
  next
    case False
    let ?s = "s\<lparr>tasks := save_row t_id (cancelled e r t) (tasks s)\<rparr>"
    have rep: "reportCancellation e (trim_or_null r) t ctx (cancelled e r t) ?s = (Inr t', s')"
      using run False by (simp add: saveTask_def Let_def cancelled_def)
    then have "t' = cancelled e r t" by (rule reportCancellation_Inr)
    moreover have "tasks s' = tasks ?s"
      using sparing_reportCancellation rep unfolding sparing.confined_def spares_def by (metis snd_conv)
    ultimately show ?thesis using that[OF mem] False by simp
  qed
qed

text \<open>C23: What an operator's cancellation does depends on how far the task has come. A finished task is
  answered as it is and nothing is written. A task nobody has started is cancelled at once, and no
  claim of any node will be answered with it. A running task keeps running, with the
  time of the request recorded, and its agent, asking for the task's control state, is told to stop.\<close>

theorem cancellation_by_status:
  assumes "requestTaskCancellation e i r w ctx s = (Inr t', s')" "distinct (map t_id (tasks s))"
  shows "\<exists>t \<in> set (tasks s). t_id t = i \<and>
    (case t_status t of
       RUNNING \<Rightarrow> t_status t' = RUNNING \<and> t_cancelRequestedAt t' = Some (e_now e) \<and>
         getTaskControlForAgent i (t_nodeId t) s' =
           (Inr (i, RUNNING, True, Some (toISOString (e_now e)), trim_or_null r), s')
     | st \<Rightarrow> if isTerminalStatus st then t' = t \<and> s' = s
             else t_status t' = CANCELLED \<and> t_finishedAt t' = Some (e_now e) \<and> t' \<in> set (tasks s') \<and>
               (\<forall>now n ns. \<not> claimable now n ns t'))"
proof -
  from assms(1) obtain t where t: "t \<in> set (tasks s)" "t_id t = i"
    "if isTerminalStatus (t_status t) then t' = t \<and> s' = s
     else t' = cancelled e r t \<and> tasks s' = save_row t_id t' (tasks s)"
    by (rule requestTaskCancellation_success)
  have control: "getTaskControlForAgent i (t_nodeId t) s' =
      (Inr (i, RUNNING, True, Some (toISOString (e_now e)), trim_or_null r), s')" if "t_status t = RUNNING"
  proof -
    have s': "t' = cancelled e r t" "tasks s' = save_row t_id t' (tasks s)" "t_id t' = i" "t_nodeId t' = t_nodeId t"
      using t that by (auto simp: cancelled_simps)
    have "distinct (map t_id (tasks s'))" using assms(2) s' by (simp add: distinct_save_row)
    moreover have "t' \<in> set (tasks s')" using s' by (simp add: set_save_row)
    ultimately have only: "x = t'" if "x \<in> set (tasks s')" "t_id x = i" for x
      using that s'(3) by (auto simp: distinct_map inj_on_def)
    obtain y where y: "find_row (\<lambda>x. t_id x = i \<and> t_nodeId x = t_nodeId t) (tasks s') = Some y"
      using find_row_exists[OF \<open>t' \<in> set (tasks s')\<close>, of "\<lambda>x. t_id x = i \<and> t_nodeId x = t_nodeId t"] s'(3,4) by auto
    then have "y = t'" using find_row_Some[OF y] only by blast
    with y have "find_row (\<lambda>x. t_id x = i \<and> t_nodeId x = t_nodeId t) (tasks s') = Some t'" by simp
    then show ?thesis using s' that
      by (simp add: getTaskControlForAgent_def findTaskForNodeOrFail_def cancelled_simps)
  qed
  show ?thesis
    by (rule bexI[OF _ t(1)]) (use t control in \<open>cases "t_status t"; simp add: cancelled_simps claimable_def set_save_row\<close>)
qed

definition running_db :: db where
  "running_db = node_db\<lparr>tasks := [sample_task\<lparr>t_status := RUNNING, t_startedAt := Some 1000000\<rparr>]\<rparr>"

lemma running_db_simps [simp]: "workspaces running_db = [owned_workspace]"
    "tasks running_db = [sample_task\<lparr>t_status := RUNNING, t_startedAt := Some 1000000\<rparr>]"
  by (simp_all add: running_db_def)

lemma cancel_running_run:
  "\<exists>t' s'. requestTaskCancellation base_env ''t1'' None None None running_db = (Inr t', s')"
proof -
  have "\<exists>x s'. reportCancellation base_env r t None t2 s = (Inr x, s')" if "t_status t2 = RUNNING" "t_isInternal t2" for r t t2 s
    using that by (simp add: reportCancellation_def publishTaskUpdated_def shouldBroadcastTask_def createTaskLog_def insertTaskLog_def
        Let_def recordAudit_def)
  then show ?thesis
    by (simp add: requestTaskCancellation_def tasks_findOneOrFail_def find_row_def if_given_def
        assertWorkspaceWritable_def findWorkspaceOrFail_def saveTask_def Let_def cancel_task_def)
qed

theorem cancellation_by_status_witness:
  "\<exists>t' s'. requestTaskCancellation base_env ''t1'' None None None running_db = (Inr t', s') \<and> t_status t' = RUNNING"
proof -
  obtain t' s' where run: "requestTaskCancellation base_env ''t1'' None None None running_db = (Inr t', s')"
    using cancel_running_run by blast
  from cancellation_by_status[OF run] have "t_status t' = RUNNING" by simp
  with run show ?thesis by blast
qed

text \<open>When the node of a waiting task has been removed, its cancellation is written and
  then answered with an error; neither the event nor the audit record of it exists.\<close>

lemma cancellation_without_node:
  assumes "find_row (\<lambda>x. t_id x = i) (tasks s) = Some t" "t_status t = QUEUED" "t_isInternal t"
    and "assertWorkspaceWritable (t_workspaceId t) s = (Inr ws, s)" "\<forall>n \<in> set (nodes s). n_id n \<noteq> t_nodeId t"
  shows "\<exists>err s'. requestTaskCancellation e i r None ctx s = (Inl (NotFound err), s') \<and>
    tasks s' = save_row t_id (cancelled e r t) (tasks s) \<and> audit_logs s' = audit_logs s \<and> events s' = events s"
proof -
  have none: "find_row (\<lambda>x. n_id x = k \<and> P x) ns = None" if "\<forall>n \<in> set ns. n_id n \<noteq> k" for k P ns
    using that by (auto simp: find_row_None)
  have gone: "bindE (nodes_findOneOrFail (t_nodeId t) (Some w)) f s1 = (Inl (NotFound (''Node '' @ t_nodeId t @ '' was not found'')), s1)"
    if "nodes s1 = nodes s" for w s1 and f :: "node_view \<Rightarrow> 'b op"
    using assms(5) that by (simp add: nodes_findOneOrFail_def if_given_def none)
  let ?c = "cancelled e r t"
  have c: "t_status ?c = CANCELLED" "t_isInternal ?c" "t_nodeId ?c = t_nodeId t"
    using assms(2,3) by (simp_all add: cancelled_simps) (simp add: cancel_task_def Let_def)
  have "\<exists>err s'. reportCancellation e (trim_or_null r) t ctx ?c s1 = (Inl (NotFound err), s') \<and>
      tasks s' = tasks s1 \<and> audit_logs s' = audit_logs s1 \<and> events s' = events s1" if "nodes s1 = nodes s" for s1
    using that c by (simp add: reportCancellation_def publishTaskUpdated_def shouldBroadcastTask_def createTaskLog_def
        insertTaskLog_def Let_def gone)
  from this[of "s\<lparr>tasks := save_row t_id ?c (tasks s)\<rparr>"] show ?thesis
    using assms(1,2,4) by (simp add: requestTaskCancellation_def tasks_findOneOrFail_def if_given_def bindE_def[of "assertWorkspaceWritable x" for x]
        saveTask_def Let_def cancelled_def)
qed

subsection \<open>The sweep of stale tasks\<close>

text \<open>C24: One run of the background sweep puts every task whose lease ran out, on a node in service,
  back into the queue; then it fails the tasks that are too long in the queue or too long running,
  those just put back among them, so that such a task is never offered again; it changes
  no other task; and it reports the number of tasks put back plus the number of tasks failed, so that a
  task to which both happens is counted twice.\<close>

theorem stale_task_sweep_exact:
  assumes "distinct (map t_id (tasks s))"
  shows "\<exists>t. failStaleTasks e q r s =
       (Inr (count_rows (\<lambda>x. lease_expired (e_now e) x \<and> node_serving (nodes s) (t_nodeId x)) (tasks s) +
             count_rows (\<lambda>x. stale_task e q r (nodes s)
               (if lease_expired (e_now e) x \<and> node_serving (nodes s) (t_nodeId x) then requeue_task e x else x)) (tasks s)), t) \<and>
     tasks t = map (\<lambda>x. let x' = (if lease_expired (e_now e) x \<and> node_serving (nodes s) (t_nodeId x)
                                  then requeue_task e x else x)
                        in if stale_task e q r (nodes s) x' then failed_task e x' else x') (tasks s)"
proof -
  have count: "count_rows p (map f xs) = count_rows (\<lambda>x. p (f x)) xs" for p xs and f :: "task \<Rightarrow> task"
    by (induction xs) (simp_all add: count_rows_def)
  show ?thesis
    using failStaleTasks_run[OF assms, of e q r]
    by (auto simp: requeued_def update_rows_def count Let_def add.commute)
qed

definition expired_db :: db where
  "expired_db = node_db\<lparr>tasks := [sample_task\<lparr>t_status := ACCEPTED, t_leaseUntil := Some 1060000, t_claimedBy := Some ''n1'',
     t_claimToken := Some ''c''\<rparr>]\<rparr>"

theorem stale_task_sweep_exact_witness:
  "outcome (failStaleTasks (base_env\<lparr>e_now := 2000000\<rparr>) 5 10) expired_db = Inr 2 \<and> length (tasks expired_db) = 1"
proof -
  have "distinct (map t_id (tasks expired_db))" by (simp add: expired_db_def)
  from stale_task_sweep_exact[OF this, of "base_env\<lparr>e_now := 2000000\<rparr>" 5 10] show ?thesis
    by (auto simp: expired_db_def count_rows_def lease_expired_def requeue_task_def stale_task_def)
qed

section \<open>Completion\<close>

definition completed :: "env \<Rightarrow> task_status \<Rightarrow> completion_dto \<Rightarrow> task \<Rightarrow> task" where
  "completed e st dto t = touched (\<lambda>d r. r\<lparr>t_updatedAt := d\<rparr>) (e_now e) t (complete_task e st dto t)"

lemma complete_output:
  "cp_output dto = Some out \<Longrightarrow> t_output (complete_task e st dto t) = Some (take 8000 out) \<and>
     t_outputTruncated (complete_task e st dto t) = Some (8000 < length out)"
  by (simp add: complete_task_def Let_def normalizeCompletionOutput_def HTTP_TASK_OUTPUT_MAX_LENGTH_def)

lemma touched_output [simp]:
  "t_output (touched (\<lambda>d r. r\<lparr>t_updatedAt := d\<rparr>) now old new) = t_output new"
  "t_outputTruncated (touched (\<lambda>d r. r\<lparr>t_updatedAt := d\<rparr>) now old new) = t_outputTruncated new"
  by (simp_all add: touched_def)

lemma bind_find_task: "find_row (\<lambda>t. t_id t = i \<and> t_nodeId t = n) (tasks s) = Some t \<Longrightarrow>
    bindE (findTaskForNodeOrFail i n) f s = f t s"
  by (simp add: findTaskForNodeOrFail_def)

lemma complete_running_success:
  assumes "completeClaimedTaskForAgent e i n dto s = (Inr t, s1)" "\<forall>x \<in> set (tasks s). t_status x \<noteq> CLAIMED"
  obtains t0 st where "find_row (\<lambda>t. t_id t = i \<and> t_nodeId t = n) (tasks s) = Some t0"
    "normalizeCompletionStatus (cp_status dto) = Inr st" "\<not> truthy (cp_taskId dto) \<or> cp_taskId dto = Some i"
    "t_status t0 = RUNNING \<and> t = completed e st dto t0 \<and> tasks s1 = save_row t_id t (tasks s) \<or>
     t_status t0 = st \<and> t = t0 \<and> tasks s1 = tasks s"
proof -
  have route: "\<not> truthy (cp_taskId dto) \<or> cp_taskId dto = Some i"
    using assms(1) by (auto simp: completeClaimedTaskForAgent_def assertTaskIdMatchesRoute_def split: if_splits)
  obtain st where st: "normalizeCompletionStatus (cp_status dto) = Inr st"
    using assms(1) route by (cases "normalizeCompletionStatus (cp_status dto)")
      (auto simp: completeClaimedTaskForAgent_def assertTaskIdMatchesRoute_def)
  obtain t0 where t0: "find_row (\<lambda>t. t_id t = i \<and> t_nodeId t = n) (tasks s) = Some t0"
    using assms(1) route st by (cases "find_row (\<lambda>t. t_id t = i \<and> t_nodeId t = n) (tasks s)")
      (auto simp: completeClaimedTaskForAgent_def assertTaskIdMatchesRoute_def findTaskForNodeOrFail_def)
  have unclaimed: "t_status t0 \<noteq> CLAIMED" using assms(2) find_row_Some[OF t0] by blast
  have core: "t_status t0 = RUNNING \<and> t = completed e st dto t0 \<and> tasks s1 = save_row t_id t (tasks s) \<or>
     t_status t0 = st \<and> t = t0 \<and> tasks s1 = tasks s"
  proof (cases "isTerminalStatus (t_status t0)")
    case True
    then show ?thesis
      using assms(1) route st
      by (auto simp: bind_find_task[OF t0] completeClaimedTaskForAgent_def assertTaskIdMatchesRoute_def incrementCounter_def rejectTransition_def
          split: if_splits)
  next
    case open_task: False
    show ?thesis
    proof (cases "t_status t0 = RUNNING")
      case True
      obtain s2 where "publishTaskUpdated e (completed e st dto t0) (s\<lparr>tasks := save_row t_id (completed e st dto t0) (tasks s)\<rparr>)
          = (Inr (), s2)" "core s2 = core (s\<lparr>tasks := save_row t_id (completed e st dto t0) (tasks s)\<rparr>)"
        using publishTaskUpdated_run by blast
      moreover from core_eqD(7)[OF this(2)] have "tasks s2 = save_row t_id (completed e st dto t0) (tasks s)" by simp
      ultimately show ?thesis
        using assms(1) route st True
        by (auto simp: bind_find_task[OF t0] completeClaimedTaskForAgent_def assertTaskIdMatchesRoute_def saveTask_def Let_def
            handleTaskPostCompletion_def completed_def bindE_def[of "publishTaskUpdated x y" for x y])
    next
      case False
      then show ?thesis
        using assms(1) route st unclaimed open_task
        by (auto simp: bind_find_task[OF t0] completeClaimedTaskForAgent_def assertTaskIdMatchesRoute_def incrementCounter_def rejectTransition_def)
    qed
  qed
  show ?thesis by (rule that[OF t0 st route core])
qed

text \<open>Reporting a result over the claim interface is idempotent. A report for a running task
  ends it with the reported status and stores the first 8000 characters of the output, flagged when
  cut; repeating the report afterwards leaves the task table alone and answers with the stored task;
  a report with another final status is refused and changes nothing either.\<close>

theorem completion_idempotent:
  assumes "completeClaimedTaskForAgent e i n dto s = (Inr t, s1)" "distinct (map t_id (tasks s))"
    and "\<forall>x \<in> set (tasks s). t_status x \<noteq> CLAIMED"
  shows "normalizeCompletionStatus (cp_status dto) = Inr (t_status t) \<and> t \<in> set (tasks s1) \<and>
    (\<forall>t0 \<in> set (tasks s). \<forall>out. t_id t0 = i \<and> t_status t0 = RUNNING \<and> cp_output dto = Some out \<longrightarrow>
       t_output t = Some (take 8000 out) \<and> t_outputTruncated t = Some (8000 < length out)) \<and>
    (\<exists>s2. completeClaimedTaskForAgent e2 i n (dto\<lparr>cp_output := out'\<rparr>) s1 = (Inr t, s2) \<and> tasks s2 = tasks s1) \<and>
    (\<forall>dto' st'. cp_taskId dto' = cp_taskId dto \<and> normalizeCompletionStatus (cp_status dto') = Inr st' \<and> st' \<noteq> t_status t \<longrightarrow>
       (\<exists>err s2. completeClaimedTaskForAgent e2 i n dto' s1 = (Inl (Conflict err), s2) \<and> tasks s2 = tasks s1))"
proof -
  obtain t0 st where t0: "find_row (\<lambda>t. t_id t = i \<and> t_nodeId t = n) (tasks s) = Some t0"
    and st: "normalizeCompletionStatus (cp_status dto) = Inr st"
    and route: "\<not> truthy (cp_taskId dto) \<or> cp_taskId dto = Some i"
    and result: "t_status t0 = RUNNING \<and> t = completed e st dto t0 \<and> tasks s1 = save_row t_id t (tasks s) \<or>
       t_status t0 = st \<and> t = t0 \<and> tasks s1 = tasks s"
    by (rule complete_running_success[OF assms(1,3)])
  note mem = find_row_Some[OF t0]
  have final: "isTerminalStatus st" using st by (rule normalizeCompletionStatus_terminal)
  have t: "t_status t = st" "t_id t = i" "t_nodeId t = n" "t \<in> set (tasks s1)" "distinct (map t_id (tasks s1))"
    using result mem assms(2) by (auto simp: completed_def set_save_row distinct_save_row)
  have "find_row (\<lambda>x. t_id x = i \<and> t_nodeId x = n) (tasks s1) = Some t"
  proof -
    obtain y where y: "find_row (\<lambda>x. t_id x = i \<and> t_nodeId x = n) (tasks s1) = Some y"
      using find_row_exists[OF t(4), of "\<lambda>x. t_id x = i \<and> t_nodeId x = n"] t(2,3) by auto
    with find_row_Some[OF y] t have "y = t" by (auto simp: distinct_map inj_on_def)
    with y show ?thesis by simp
  qed
  note again = bind_find_task[OF this]
  have "\<exists>s2. completeClaimedTaskForAgent e2 i n (dto\<lparr>cp_output := out'\<rparr>) s1 = (Inr t, s2) \<and> tasks s2 = tasks s1"
    using route st t(1) final
    by (auto simp: again completeClaimedTaskForAgent_def assertTaskIdMatchesRoute_def incrementCounter_def)
  moreover have "\<exists>err s2. completeClaimedTaskForAgent e2 i n dto' s1 = (Inl (Conflict err), s2) \<and> tasks s2 = tasks s1"
    if "cp_taskId dto' = cp_taskId dto" "normalizeCompletionStatus (cp_status dto') = Inr st'" "st' \<noteq> t_status t" for dto' st'
    using route t(1) final that
    by (auto simp: again completeClaimedTaskForAgent_def assertTaskIdMatchesRoute_def incrementCounter_def rejectTransition_def)
  moreover have "t_output t = Some (take 8000 out) \<and> t_outputTruncated t = Some (8000 < length out)"
    if "x \<in> set (tasks s)" "t_id x = i" "t_status x = RUNNING" "cp_output dto = Some out" for x out
  proof -
    have "x = t0" using that mem assms(2) by (auto simp: distinct_map inj_on_def)
    then have "t = completed e st dto t0" using result that(3) final by auto
    then show ?thesis using complete_output[OF that(4), of e st t0] by (simp add: completed_def)
  qed
  ultimately show ?thesis using st t(1,4) by blast
qed

definition sample_completion :: completion_dto where
  "sample_completion = \<lparr>cp_taskId = None, cp_status = ''success'', cp_result = None, cp_output = Some ''ok'',
     cp_exitCode = None, cp_error = None, cp_completedAt = None, cp_durationMs = None\<rparr>"

lemma complete_running_run:
  "\<exists>t s1. completeClaimedTaskForAgent base_env ''t1'' ''n1'' sample_completion running_db = (Inr t, s1)"
proof -
  have "find_row (\<lambda>t. t_id t = ''t1'' \<and> t_nodeId t = ''n1'') (tasks running_db) =
      Some (sample_task\<lparr>t_status := RUNNING, t_startedAt := Some 1000000\<rparr>)" by (simp add: find_row_def)
  then show ?thesis
    by (simp add: completeClaimedTaskForAgent_def bind_find_task assertTaskIdMatchesRoute_def sample_completion_def
        normalizeCompletionStatus_def saveTask_def Let_def handleTaskPostCompletion_def publishTaskUpdated_def
        shouldBroadcastTask_def complete_task_def split: prod.split)
qed

theorem completion_idempotent_witness:
  "\<exists>t s1. completeClaimedTaskForAgent base_env ''t1'' ''n1'' sample_completion running_db = (Inr t, s1) \<and>
     t_status t = SUCCESS \<and> t_output t = Some ''ok'' \<and>
     (\<exists>s2. completeClaimedTaskForAgent (base_env\<lparr>e_now := 5\<rparr>) ''t1'' ''n1'' (sample_completion\<lparr>cp_output := None\<rparr>) s1 = (Inr t, s2))"
proof -
  obtain t s1 where run: "completeClaimedTaskForAgent base_env ''t1'' ''n1'' sample_completion running_db = (Inr t, s1)"
    using complete_running_run by blast
  have "distinct (map t_id (tasks running_db))" "\<forall>x \<in> set (tasks running_db). t_status x \<noteq> CLAIMED" by simp_all
  from completion_idempotent[OF run this, of "base_env\<lparr>e_now := 5\<rparr>" None] run show ?thesis
    by (auto simp: sample_completion_def normalizeCompletionStatus_def)
qed

end
