(* ===== verification/ScheduledTasks.thy ===== *)
theory ScheduledTasks
  imports TaskLifecycle
begin

text \<open>
  Recurring work (\<open>src/modules/tasks/scheduled-tasks.service.ts\<close>): creating, listing, switching and
  deleting schedules, the claim of the next due schedule with its thirty-second lease, and the run of a
  claimed schedule; and the task templates (\<open>task-templates.service.ts\<close>). The lemmas show when a
  claim is exclusive, what a run does on each outcome, and where a failing schedule leaves the others.
\<close>

section \<open>Data\<close>

record schedule_dto =
  sd_nodeId :: "string option"
  sd_teamId :: "string option"
  sd_name :: string
  sd_command :: string
  sd_templateId :: "string option"
  sd_cadence :: string
  sd_minute :: int
  sd_hour :: "int option"
  sd_dayOfWeek :: "int option"
  sd_intervalMinutes :: "int option"
  sd_runAsRoot :: "bool option"

record normalized_schedule =
  ns_name :: string
  ns_command :: string
  ns_runAsRoot :: bool
  ns_cadence :: string
  ns_minute :: int
  ns_hour :: "int option"
  ns_dayOfWeek :: "int option"
  ns_intervalMinutes :: "int option"

text \<open>A schedule with its transient \<open>ownerName\<close> and \<open>isLegacy\<close>.\<close>

type_synonym schedule_view = "scheduled_task \<times> string option \<times> bool"

definition SCHEDULED_TASK_RUNNER_LEASE_MS :: int where
  "SCHEDULED_TASK_RUNNER_LEASE_MS = 30000"

section \<open>Helpers\<close>

definition normalizeScheduleInput :: "schedule_dto \<Rightarrow> http_error + normalized_schedule" where
  "normalizeScheduleInput inp =
     (let name = trim (sd_name inp);
          command = trim (sd_command inp);
          result = (\<lambda>minute hour day interval.
            \<lparr>ns_name = name, ns_command = command, ns_runAsRoot = (sd_runAsRoot inp = Some True),
             ns_cadence = sd_cadence inp, ns_minute = minute, ns_hour = hour, ns_dayOfWeek = day,
             ns_intervalMinutes = interval\<rparr>)
      in if length name < 2 then Inl (BadRequest ''Schedule name must be at least 2 characters.'')
         else if command = [] then Inl (BadRequest ''Command must not be empty.'')
         else if sd_cadence inp = ''minutely'' then
           if sd_hour inp \<noteq> None \<or> sd_dayOfWeek inp \<noteq> None \<or> sd_intervalMinutes inp \<noteq> None
           then Inl (BadRequest ''Minutely schedules do not accept hour, dayOfWeek, or intervalMinutes values.'')
           else Inr (result 0 None None None)
         else if sd_cadence inp = ''custom'' then
           if sd_intervalMinutes inp = None
           then Inl (BadRequest ''Custom schedules require an intervalMinutes value.'')
           else if sd_hour inp \<noteq> None \<or> sd_dayOfWeek inp \<noteq> None
           then Inl (BadRequest ''Custom schedules do not accept hour or dayOfWeek values.'')
           else Inr (result 0 None None (sd_intervalMinutes inp))
         else if sd_cadence inp = ''hourly'' then
           if sd_hour inp \<noteq> None \<or> sd_dayOfWeek inp \<noteq> None \<or> sd_intervalMinutes inp \<noteq> None
           then Inl (BadRequest ''Hourly schedules accept only the minute field.'')
           else Inr (result (sd_minute inp) None None None)
         else if sd_cadence inp = ''daily'' then
           if sd_hour inp = None then Inl (BadRequest ''Daily schedules require an hour value.'')
           else if sd_dayOfWeek inp \<noteq> None \<or> sd_intervalMinutes inp \<noteq> None
           then Inl (BadRequest ''Daily schedules do not accept dayOfWeek or intervalMinutes values.'')
           else Inr (result (sd_minute inp) (sd_hour inp) None None)
         else if sd_hour inp = None \<or> sd_dayOfWeek inp = None
         then Inl (BadRequest ''Weekly schedules require both hour and dayOfWeek values.'')
         else if sd_intervalMinutes inp \<noteq> None
         then Inl (BadRequest ''Weekly schedules do not accept an intervalMinutes value.'')
         else Inr (result (sd_minute inp) (sd_hour inp) (sd_dayOfWeek inp) None))"

definition findOwnerOrFail :: "string \<Rightarrow> user op" where
  "findOwnerOrFail ownerUserId =
     findE users (\<lambda>u. u_id u = ownerUserId) (NotFound (''User '' @ ownerUserId @ '' was not found''))"

definition resolveWorkspace :: "string option \<Rightarrow> user \<Rightarrow> workspace op" where
  "resolveWorkspace workspaceId owner =
     (if truthy workspaceId then assertWorkspaceWritable (the workspaceId)
      else
        bindE getDefaultWorkspaceOrFail (\<lambda>w.
        bindE (assertWorkspaceWritable (w_id w)) (\<lambda>_.
          if u_role owner = PLATFORM_ADMIN then ret w
          else
            bindE (findMembershipForUser (w_id w) (u_id owner)) (\<lambda>m.
            bindE (guardE (m \<noteq> None)
                     (NotFound (''User '' @ u_id owner @ '' is not a member of the default workspace.''))) (\<lambda>_.
            ret w)))))"

definition populateScheduleMetadata :: "scheduled_task list \<Rightarrow> schedule_view list op" where
  "populateScheduleMetadata schedules =
     readE (\<lambda>s. map (\<lambda>sch.
       (sch,
        (if truthy (st_ownerUserId sch)
         then map_option u_name (find_row (\<lambda>u. u_id u = the (st_ownerUserId sch)) (users s)) else None),
        st_timezoneSource sch = ''legacy_fixed'')) schedules)"

definition buildScheduledTaskAuditMetadata :: "env \<Rightarrow> scheduled_task \<Rightarrow> string option \<Rightarrow> json_object" where
  "buildScheduledTaskAuditMetadata e sch targetTeamName =
     [(''scheduleId'', JStr (st_id sch)), (''scheduleName'', JStr (st_name sch)),
      (''nodeId'', jstr_opt (st_nodeId sch)), (''targetTeamId'', jstr_opt (st_targetTeamId sch)),
      (''targetTeamName'', jstr_opt targetTeamName), (''templateId'', jstr_opt (st_templateId sch)),
      (''runAsRoot'', JBool (st_runAsRoot sch)), (''command'', JStr (st_command sch)),
      (''commandSha256'', JStr (e_sha256 e (st_command sch))),
      (''commandLength'', JNum (int (length (st_command sch)))), (''commandTruncated'', JBool False),
      (''cadence'', JStr (st_cadence sch)), (''timezone'', JStr (st_timezone sch))]"

definition schedule_audit ::
  "scheduled_task \<Rightarrow> string \<Rightarrow> json_object option \<Rightarrow> json_object \<Rightarrow> audit_input" where
  "schedule_audit sch action changes metadata =
     \<lparr>ai_scope = ''workspace'', ai_workspaceId = Some (st_workspaceId sch), ai_action = action,
      ai_targetType = ''scheduled-task'', ai_targetId = Some (st_id sch), ai_targetLabel = Some (st_name sch),
      ai_changes = changes, ai_metadata = Some metadata\<rparr>"

section \<open>Creating\<close>

text \<open>The row to insert; its timing decides \<open>nextRunAt\<close>.\<close>

definition new_schedule ::
  "env \<Rightarrow> user \<Rightarrow> workspace \<Rightarrow> normalized_schedule \<Rightarrow> string option \<Rightarrow> string option \<Rightarrow> task_template option \<Rightarrow>
     int option \<Rightarrow> string \<Rightarrow> scheduled_task" where
  "new_schedule e owner w n nodeId teamId template nextRunAt i =
     \<lparr>st_id = i, st_workspaceId = w_id w, st_nodeId = nodeId, st_targetTeamId = teamId,
      st_templateId = map_option tt_id template, st_templateName = map_option tt_name template,
      st_ownerUserId = Some (u_id owner), st_name = ns_name n, st_command = ns_command n,
      st_runAsRoot = ns_runAsRoot n, st_cadence = ns_cadence n, st_minute = ns_minute n, st_hour = ns_hour n,
      st_dayOfWeek = ns_dayOfWeek n, st_intervalMinutes = ns_intervalMinutes n,
      st_timezone = w_defaultTimezone w, st_timezoneSource = ''workspace'', st_enabled = True,
      st_nextRunAt = nextRunAt, st_lastRunAt = None, st_lastRunTaskId = None, st_lastError = None,
      st_leaseUntil = None, st_claimedBy = None, st_claimToken = None, st_createdAt = e_now e, st_updatedAt = e_now e\<rparr>"

definition firstRunAt :: "env \<Rightarrow> user \<Rightarrow> workspace \<Rightarrow> normalized_schedule \<Rightarrow> http_error + int" where
  "firstRunAt e owner w n = computeNextScheduledRun e (new_schedule e owner w n None None None None []) (e_now e)"

definition saveNewSchedule :: "env \<Rightarrow> (string \<Rightarrow> scheduled_task) \<Rightarrow> scheduled_task op" where
  "saveNewSchedule e row =
     bindE (fresh_id e) (\<lambda>i.
     bindE (writeE (\<lambda>s. s\<lparr>scheduled_tasks := scheduled_tasks s @ [row i]\<rparr>)) (\<lambda>_. ret (row i)))"

definition optionalTemplate :: "string option \<Rightarrow> string \<Rightarrow> task_template option op" where
  "optionalTemplate templateId workspaceId =
     (if truthy templateId
      then bindE (resolveTemplateOrFail (the templateId) workspaceId) (\<lambda>t. ret (Some t)) else ret None)"

definition createScheduleForNode ::
  "env \<Rightarrow> user \<Rightarrow> workspace \<Rightarrow> normalized_schedule \<Rightarrow> task_template option \<Rightarrow> int \<Rightarrow> audit_context option \<Rightarrow>
     string \<Rightarrow> schedule_view op" where
  "createScheduleForNode e owner w n template nextRunAt ctx nodeId =
     bindE (saveNewSchedule e (new_schedule e owner w n (Some nodeId) None template (Some nextRunAt))) (\<lambda>saved.
     bindE (recordEvent e None (st_nodeId saved) ''task.schedule.created'' (Some INFO)
              (''Scheduled task '' @ st_name saved @ '' created. '' @ describeScheduledTask saved)
              (Some [(''scheduleId'', JStr (st_id saved)), (''scheduleName'', JStr (st_name saved)),
                 (''cadence'', JStr (st_cadence saved)), (''ownerUserId'', jstr_opt (st_ownerUserId saved)),
                 (''ownerName'', JStr (u_name owner)), (''workspaceId'', JStr (st_workspaceId saved)),
                 (''timezone'', JStr (st_timezone saved)), (''nextRunAt'', jtime_opt (st_nextRunAt saved)),
                 (''templateId'', jstr_opt (st_templateId saved))])) (\<lambda>_.
     bindE (recordAudit e (schedule_audit saved ''task-schedule.created'' None
              (buildScheduledTaskAuditMetadata e saved None @ [(''templateId'', jstr_opt (st_templateId saved))])) ctx) (\<lambda>_.
     ret (saved, Some (u_name owner), False))))"

text \<open>The nodes are looked up at the same time; all of these are reads, so the order shows only in
  which of several failures is reported.\<close>

definition createSchedulesForNodes ::
  "env \<Rightarrow> user \<Rightarrow> workspace \<Rightarrow> string list \<Rightarrow> normalized_schedule \<Rightarrow> string option \<Rightarrow> audit_context option \<Rightarrow>
     schedule_view list op" where
  "createSchedulesForNodes e owner w rawNodeIds n templateId ctx =
     bindE (liftE (normalizeNodeIds rawNodeIds)) (\<lambda>nodeIds.
     bindE (optionalTemplate templateId (w_id w)) (\<lambda>template.
     bindE (forE (\<lambda>i. bindE (nodes_findOneOrFail i (Some (w_id w))) (\<lambda>(node, _).
              if ns_runAsRoot n then assertNodeAllowsTaskRoot e node else ret ())) nodeIds) (\<lambda>_.
     bindE (liftE (firstRunAt e owner w n)) (\<lambda>nextRunAt.
     forE (createScheduleForNode e owner w n template nextRunAt ctx) nodeIds))))"

definition createSchedulesForTeam ::
  "env \<Rightarrow> user \<Rightarrow> workspace \<Rightarrow> string \<Rightarrow> normalized_schedule \<Rightarrow> string option \<Rightarrow> audit_context option \<Rightarrow>
     schedule_view list op" where
  "createSchedulesForTeam e owner w teamId n templateId ctx =
     bindE (findTeamOrFail (w_id w) teamId) (\<lambda>team.
     bindE (if ns_runAsRoot n
            then bindE (listTeamOwnedNodes (w_id w) (tm_id team)) (\<lambda>views.
                 bindE (forE (\<lambda>(node, _). assertNodeAllowsTaskRoot e node) views) (\<lambda>_. ret ()))
            else ret ()) (\<lambda>_.
     bindE (optionalTemplate templateId (w_id w)) (\<lambda>template.
     bindE (liftE (firstRunAt e owner w n)) (\<lambda>nextRunAt.
     bindE (saveNewSchedule e (new_schedule e owner w n None (Some (tm_id team)) template (Some nextRunAt))) (\<lambda>saved.
     bindE (recordEvent e (Some (st_workspaceId saved)) None ''task.schedule.created'' (Some INFO)
              (''Scheduled task '' @ st_name saved @ '' created for team '' @ tm_name team @ ''. '' @
                 describeScheduledTask saved)
              (Some [(''scheduleId'', JStr (st_id saved)), (''scheduleName'', JStr (st_name saved)),
                 (''targetTeamId'', JStr (tm_id team)), (''targetTeamName'', JStr (tm_name team)),
                 (''templateId'', jstr_opt (st_templateId saved))])) (\<lambda>_.
     bindE (recordAudit e (schedule_audit saved ''task-schedule.team-created'' None
              (buildScheduledTaskAuditMetadata e saved (Some (tm_name team)) @
               [(''teamId'', JStr (tm_id team)), (''teamName'', JStr (tm_name team))])) ctx) (\<lambda>_.
     ret [(saved, Some (u_name owner), False)])))))))"

definition schedules_create ::
  "env \<Rightarrow> string \<Rightarrow> string option \<Rightarrow> schedule_dto \<Rightarrow> audit_context option \<Rightarrow> schedule_view op" where
  "schedules_create e ownerUserId workspaceId dto ctx =
     bindE (findOwnerOrFail ownerUserId) (\<lambda>owner.
     bindE (resolveWorkspace workspaceId owner) (\<lambda>w.
     bindE (liftE (normalizeScheduleInput dto)) (\<lambda>n.
     bindE (if truthy (sd_teamId dto)
            then createSchedulesForTeam e owner w (the (sd_teamId dto)) n (sd_templateId dto) ctx
            else
              bindE (someE (sd_nodeId dto) (InternalError ''TypeError'')) (\<lambda>nodeId.
              createSchedulesForNodes e owner w [nodeId] n (sd_templateId dto) ctx)) (\<lambda>saved.
     ret (hd saved)))))"

definition schedules_createBatch ::
  "env \<Rightarrow> string \<Rightarrow> string option \<Rightarrow> string list \<Rightarrow> schedule_dto \<Rightarrow> audit_context option \<Rightarrow> schedule_view list op" where
  "schedules_createBatch e ownerUserId workspaceId nodeIds dto ctx =
     bindE (findOwnerOrFail ownerUserId) (\<lambda>owner.
     bindE (resolveWorkspace workspaceId owner) (\<lambda>w.
     bindE (liftE (normalizeScheduleInput dto)) (\<lambda>n.
     createSchedulesForNodes e owner w nodeIds n (sd_templateId dto) ctx)))"

section \<open>Reading, switching, deleting\<close>

text \<open>\<open>ORDER BY enabled DESC, nextRunAt ASC NULLS LAST, createdAt ASC\<close>\<close>

definition schedules_findAll :: "string option \<Rightarrow> schedule_view list op" where
  "schedules_findAll workspaceId =
     bindE (readE (\<lambda>s.
       sort_key (\<lambda>sch. (\<not> st_enabled sch, st_nextRunAt sch = None, orElse (st_nextRunAt sch) 0, st_createdAt sch))
         (filter (\<lambda>sch. if_given workspaceId (\<lambda>w. st_workspaceId sch = w)) (scheduled_tasks s)))) populateScheduleMetadata"

definition schedules_findOneOrFail :: "string \<Rightarrow> string option \<Rightarrow> schedule_view op" where
  "schedules_findOneOrFail i workspaceId =
     bindE (findE scheduled_tasks (\<lambda>sch. st_id sch = i \<and> if_given workspaceId (\<lambda>w. st_workspaceId sch = w))
              (NotFound (''Scheduled task '' @ i @ '' was not found''))) (\<lambda>sch.
     bindE (populateScheduleMetadata [sch]) (\<lambda>views. ret (hd views)))"

definition saveSchedule :: "env \<Rightarrow> scheduled_task \<Rightarrow> scheduled_task \<Rightarrow> scheduled_task op" where
  "saveSchedule e old new =
     (let r = touched (\<lambda>d x. x\<lparr>st_updatedAt := d\<rparr>) (e_now e) old new
      in bindE (writeE (\<lambda>s. s\<lparr>scheduled_tasks := save_row st_id r (scheduled_tasks s)\<rparr>)) (\<lambda>_. ret r))"

definition switched :: "bool \<Rightarrow> int option \<Rightarrow> scheduled_task \<Rightarrow> scheduled_task" where
  "switched enabled nextRunAt sch =
     sch\<lparr>st_enabled := enabled, st_claimToken := None, st_claimedBy := None, st_leaseUntil := None,
         st_nextRunAt := nextRunAt\<rparr>"

definition updateEnabled ::
  "env \<Rightarrow> string \<Rightarrow> bool \<Rightarrow> string option \<Rightarrow> audit_context option \<Rightarrow> schedule_view op" where
  "updateEnabled e i enabled workspaceId ctx =
     bindE (schedules_findOneOrFail i workspaceId) (\<lambda>(sch, ownerName, _).
     bindE (assertWorkspaceWritable (st_workspaceId sch)) (\<lambda>_.
     bindE (if enabled
            then bindE (liftE (computeNextScheduledRun e sch (e_now e))) (\<lambda>t. ret (Some t)) else ret None) (\<lambda>nextRunAt.
     bindE (saveSchedule e sch (switched enabled nextRunAt sch)) (\<lambda>saved.
     bindE (recordEvent e None (st_nodeId saved) ''task.schedule.updated'' (Some INFO)
              (if enabled then ''Scheduled task '' @ st_name saved @ '' enabled. '' @ describeScheduledTask saved
               else ''Scheduled task '' @ st_name saved @ '' disabled.'')
              (Some [(''scheduleId'', JStr (st_id saved)), (''scheduleName'', JStr (st_name saved)),
                 (''enabled'', JBool (st_enabled saved)), (''ownerUserId'', jstr_opt (st_ownerUserId saved)),
                 (''timezone'', JStr (st_timezone saved)), (''nextRunAt'', jtime_opt (st_nextRunAt saved)),
                 (''targetTeamId'', jstr_opt (st_targetTeamId saved))])) (\<lambda>_.
     bindE (recordAudit e (schedule_audit saved ''task-schedule.updated''
              (Some [(''before'', JObj [(''enabled'', JBool (\<not> st_enabled saved))]),
                 (''after'', JObj [(''enabled'', JBool (st_enabled saved)), (''nextRunAt'', jtime_opt (st_nextRunAt saved))])])
              (buildScheduledTaskAuditMetadata e saved None)) ctx) (\<lambda>_.
     ret (saved, ownerName, st_timezoneSource saved = ''legacy_fixed'')))))))"

definition schedules_delete :: "env \<Rightarrow> string \<Rightarrow> string option \<Rightarrow> audit_context option \<Rightarrow> string op" where
  "schedules_delete e i workspaceId ctx =
     bindE (schedules_findOneOrFail i workspaceId) (\<lambda>(sch, _).
     bindE (assertWorkspaceWritable (st_workspaceId sch)) (\<lambda>_.
     bindE (writeE (\<lambda>s. s\<lparr>scheduled_tasks := delete_rows (\<lambda>x. st_id x = st_id sch) (scheduled_tasks s)\<rparr>)) (\<lambda>_.
     bindE (recordEvent e None (st_nodeId sch) ''task.schedule.deleted'' (Some WARNING)
              (''Scheduled task '' @ st_name sch @ '' deleted.'')
              (Some [(''scheduleId'', JStr (st_id sch)), (''scheduleName'', JStr (st_name sch)),
                 (''targetTeamId'', jstr_opt (st_targetTeamId sch))])) (\<lambda>_.
     bindE (recordAudit e (schedule_audit sch ''task-schedule.deleted'' None
              (buildScheduledTaskAuditMetadata e sch None)) ctx) (\<lambda>_.
     ret i)))))"

section \<open>Claiming\<close>

text \<open>What the select asks of a schedule, and what the conditional update asks again.\<close>

definition schedule_ready :: "int \<Rightarrow> scheduled_task \<Rightarrow> bool" where
  "schedule_ready now sch \<longleftrightarrow>
     st_enabled sch \<and> (case st_nextRunAt sch of None \<Rightarrow> False | Some t \<Rightarrow> t \<le> now) \<and>
     (case st_leaseUntil sch of None \<Rightarrow> True | Some l \<Rightarrow> l \<le> now)"

definition workspace_open :: "workspace list \<Rightarrow> string \<Rightarrow> bool" where
  "workspace_open ws i \<longleftrightarrow> (\<exists>w \<in> set ws. w_id w = i \<and> \<not> w_isArchived w)"

definition due_schedule :: "int \<Rightarrow> db \<Rightarrow> scheduled_task option" where
  "due_schedule now s =
     (case order_limit (\<lambda>sch. (orElse (st_nextRunAt sch) 0, st_createdAt sch)) 1
             (filter (\<lambda>sch. schedule_ready now sch \<and> workspace_open (workspaces s) (st_workspaceId sch))
                (scheduled_tasks s)) of
        [] \<Rightarrow> None | sch # _ \<Rightarrow> Some sch)"

definition claim_schedule :: "int \<Rightarrow> string \<Rightarrow> string \<Rightarrow> scheduled_task \<Rightarrow> scheduled_task" where
  "claim_schedule now claimedBy claimToken sch =
     sch\<lparr>st_claimedBy := Some claimedBy, st_claimToken := Some claimToken,
         st_leaseUntil := Some (now + SCHEDULED_TASK_RUNNER_LEASE_MS), st_updatedAt := now\<rparr>"

text \<open>The loop retries when the conditional update touches no row. Between the select and the update
  others may change the database: each round is given what they do there, and \<open>None\<close> on the outside
  means that the rounds given were not enough. The clock is read once, before the loop.\<close>

fun claimNextDueSchedule :: "env \<Rightarrow> string \<Rightarrow> (db \<Rightarrow> db) list \<Rightarrow> scheduled_task option option op" where
  "claimNextDueSchedule e claimedBy rs =
     bindE (readE (due_schedule (e_now e))) (\<lambda>candidate.
       (case candidate of
          None \<Rightarrow> ret (Some None)
        | Some c \<Rightarrow>
            bindE (fresh_id e) (\<lambda>claimToken.
              (case rs of
                 [] \<Rightarrow> ret None
               | others # rs' \<Rightarrow>
                   bindE (writeE others) (\<lambda>_.
                     let mine = (\<lambda>x. st_id x = st_id c \<and> schedule_ready (e_now e) x);
                         claim = claim_schedule (e_now e) claimedBy claimToken
                     in
                     bindE (readE (\<lambda>s. find_row mine (scheduled_tasks s))) (\<lambda>row.
                     bindE (writeE (\<lambda>s. s\<lparr>scheduled_tasks := update_rows mine claim (scheduled_tasks s)\<rparr>)) (\<lambda>_.
                       (case row of
                          None \<Rightarrow> claimNextDueSchedule e claimedBy rs'
                        | Some r \<Rightarrow> ret (Some (Some (claim r)))))))))))"

declare claimNextDueSchedule.simps [simp del]

section \<open>Running a claimed schedule\<close>

definition schedule_targets :: "scheduled_task \<Rightarrow> node list op" where
  "schedule_targets sch =
     (if truthy (st_targetTeamId sch) then
        bindE (listTeamOwnedNodes (st_workspaceId sch) (the (st_targetTeamId sch))) (\<lambda>views.
        ret (filter (\<lambda>n. \<not> n_maintenanceMode n) (map fst views)))
      else if truthy (st_nodeId sch) then
        bindE (nodes_findOneOrFail (the (st_nodeId sch)) (Some (st_workspaceId sch))) (\<lambda>(n, _). ret [n])
      else ret [])"

text \<open>\<open>update({ id, claimToken }, \<dots>)\<close>: only the row still held under the token of the claim.\<close>

definition updateHeld ::
  "env \<Rightarrow> scheduled_task \<Rightarrow> (scheduled_task \<Rightarrow> scheduled_task) \<Rightarrow> unit op" where
  "updateHeld e sch f =
     writeE (\<lambda>s. s\<lparr>scheduled_tasks :=
       update_rows (\<lambda>x. st_id x = st_id sch \<and> st_claimToken sch \<noteq> None \<and> st_claimToken x = st_claimToken sch)
         (\<lambda>x. (f x)\<lparr>st_claimToken := None, st_claimedBy := None, st_leaseUntil := None, st_updatedAt := e_now e\<rparr>)
         (scheduled_tasks s)\<rparr>)"

definition nextRunOf :: "env \<Rightarrow> scheduled_task \<Rightarrow> http_error + int" where
  "nextRunOf e sch = computeNextScheduledRun e sch (orElse (st_nextRunAt sch) (e_now e))"

definition runScheduleOn :: "env \<Rightarrow> scheduled_task \<Rightarrow> node \<Rightarrow> string op" where
  "runScheduleOn e sch n =
     bindE (if st_runAsRoot sch then assertNodeAllowsTaskRoot e n else ret ()) (\<lambda>_.
     bindE (createScheduledShellTask e (n_id n) sch) (\<lambda>t. ret (t_id t)))"

definition finishRun :: "env \<Rightarrow> scheduled_task \<Rightarrow> string list \<Rightarrow> unit op" where
  "finishRun e sch taskIds =
     bindE (liftE (nextRunOf e sch)) (\<lambda>nextRunAt.
     bindE (updateHeld e sch (\<lambda>x. x\<lparr>st_lastRunAt := Some (e_now e), st_lastRunTaskId := Some (hd taskIds),
              st_lastError := None, st_nextRunAt := Some nextRunAt\<rparr>)) (\<lambda>_.
     bindE (recordEvent e (Some (st_workspaceId sch)) (st_nodeId sch) ''task.schedule.triggered'' (Some INFO)
              (''Scheduled task '' @ st_name sch @ '' queued a shell.exec run.'')
              (Some [(''scheduleId'', JStr (st_id sch)), (''scheduleName'', JStr (st_name sch)),
                 (''taskIds'', JArr (map JStr taskIds)), (''timezone'', JStr (st_timezone sch)),
                 (''nextRunAt'', JStr (toISOString nextRunAt)),
                 (''targetTeamId'', jstr_opt (st_targetTeamId sch))])) (\<lambda>_.
     ret ())))"

definition runSchedule :: "env \<Rightarrow> scheduled_task \<Rightarrow> unit op" where
  "runSchedule e sch =
     bindE (schedule_targets sch) (\<lambda>targets.
       if targets = [] then
         bindE (liftE (nextRunOf e sch)) (\<lambda>nextRunAt.
         updateHeld e sch (\<lambda>x. x\<lparr>st_nextRunAt := Some nextRunAt,
           st_lastError := Some ''No eligible nodes matched the scheduled task target at execution time.''\<rparr>))
       else
         bindE (forE (runScheduleOn e sch) targets) (finishRun e sch))"

text \<open>\<open>None\<close> is \<open>{ ok: true }\<close>, \<open>Some m\<close> is \<open>{ ok: false, error: m }\<close>.\<close>

definition failSchedule :: "env \<Rightarrow> scheduled_task \<Rightarrow> string \<Rightarrow> string option op" where
  "failSchedule e sch message =
     bindE (updateHeld e sch (\<lambda>x. x\<lparr>st_lastError := Some message\<rparr>)) (\<lambda>_.
     bindE (recordEvent e (Some (st_workspaceId sch)) (st_nodeId sch) ''task.schedule.failed'' (Some WARNING)
              (''Scheduled task '' @ st_name sch @ '' failed to queue a run: '' @ message)
              (Some [(''scheduleId'', JStr (st_id sch)), (''scheduleName'', JStr (st_name sch)),
                 (''error'', JStr message), (''targetTeamId'', jstr_opt (st_targetTeamId sch))])) (\<lambda>_.
     ret (Some message)))"

definition triggerClaimedSchedule :: "env \<Rightarrow> scheduled_task \<Rightarrow> string option op" where
  "triggerClaimedSchedule e sch =
     catchE (bindE (runSchedule e sch) (\<lambda>_. ret None)) (\<lambda>err. failSchedule e sch (error_message err))"

text \<open>The loop of the runner: claim and run until nothing is due or a run fails. A round is the clock
  and what others do between the selects and updates of its claim; \<open>False\<close> means that the rounds given
  were not enough.\<close>

fun runner_loop :: "string \<Rightarrow> (env \<times> (db \<Rightarrow> db) list) list \<Rightarrow> bool op" where
  "runner_loop instanceId [] = ret False"
| "runner_loop instanceId ((e, others) # rounds) =
     bindE (claimNextDueSchedule e instanceId others) (\<lambda>claimed.
       (case claimed of
          None \<Rightarrow> ret False
        | Some None \<Rightarrow> ret True
        | Some (Some sch) \<Rightarrow>
            bindE (triggerClaimedSchedule e sch) (\<lambda>result.
              if result \<noteq> None then ret True else runner_loop instanceId rounds)))"

section \<open>Task templates\<close>

record template_dto =
  td_name :: string
  td_description :: "string option"
  td_taskType :: string
  td_payloadTemplate :: json_object

text \<open>An update leaves out what it does not change; \<open>description\<close> may also be set to \<open>null\<close>.\<close>

record template_update =
  tu_name :: "string option"
  tu_description :: "string option option"
  tu_taskType :: "string option"
  tu_payloadTemplate :: "json_object option"

text \<open>\<open>ORDER BY archivedAt ASC\<close> (nulls last) and \<open>createdAt DESC\<close>\<close>

definition templates_findAll :: "string \<Rightarrow> task_template list op" where
  "templates_findAll workspaceId =
     bindE (findWorkspaceOrFail workspaceId) (\<lambda>_.
     readE (\<lambda>s. sort_key (\<lambda>t. (tt_archivedAt t = None, orElse (tt_archivedAt t) 0, - tt_createdAt t))
       (filter (\<lambda>t. tt_workspaceId t = workspaceId) (task_templates s))))"

definition template_audit ::
  "string \<Rightarrow> string \<Rightarrow> task_template \<Rightarrow> json_object option \<Rightarrow> json_object option \<Rightarrow> audit_input" where
  "template_audit workspaceId action t changes metadata =
     \<lparr>ai_scope = ''workspace'', ai_workspaceId = Some workspaceId, ai_action = action,
      ai_targetType = ''task-template'', ai_targetId = Some (tt_id t), ai_targetLabel = Some (tt_name t),
      ai_changes = changes, ai_metadata = metadata\<rparr>"

definition templates_create ::
  "env \<Rightarrow> string \<Rightarrow> actor \<Rightarrow> template_dto \<Rightarrow> audit_context option \<Rightarrow> task_template op" where
  "templates_create e workspaceId u dto ctx =
     bindE (assertWorkspaceWritable workspaceId) (\<lambda>_.
     bindE (fresh_id e) (\<lambda>i.
       let t = \<lparr>tt_id = i, tt_workspaceId = workspaceId, tt_name = trim (td_name dto),
                tt_description = trim_or_null (td_description dto), tt_taskType = trim (td_taskType dto),
                tt_payloadTemplate = td_payloadTemplate dto, tt_createdByUserId = a_id u,
                tt_updatedByUserId = a_id u, tt_archivedAt = None, tt_createdAt = e_now e, tt_updatedAt = e_now e\<rparr>
       in
       bindE (writeE (\<lambda>s. s\<lparr>task_templates := task_templates s @ [t]\<rparr>)) (\<lambda>_.
       bindE (recordAudit e (template_audit workspaceId ''task-template.created'' t None
                (Some [(''taskType'', JStr (tt_taskType t))])) ctx) (\<lambda>_.
       ret t))))"

definition template_json :: "task_template \<Rightarrow> json" where
  "template_json t =
     JObj [(''name'', JStr (tt_name t)), (''description'', jstr_opt (tt_description t)),
           (''taskType'', JStr (tt_taskType t)), (''payloadTemplate'', JObj (tt_payloadTemplate t)),
           (''archivedAt'', jtime_opt (tt_archivedAt t))]"

definition apply_template_update :: "actor \<Rightarrow> template_update \<Rightarrow> task_template \<Rightarrow> task_template" where
  "apply_template_update u dto t =
     t\<lparr>tt_name := (case tu_name dto of None \<Rightarrow> tt_name t | Some v \<Rightarrow> trim v),
       tt_description := (case tu_description dto of None \<Rightarrow> tt_description t | Some v \<Rightarrow> trim_or_null v),
       tt_taskType := (case tu_taskType dto of None \<Rightarrow> tt_taskType t | Some v \<Rightarrow> trim v),
       tt_payloadTemplate := orElse (tu_payloadTemplate dto) (tt_payloadTemplate t),
       tt_updatedByUserId := a_id u\<rparr>"

definition templates_update ::
  "env \<Rightarrow> string \<Rightarrow> string \<Rightarrow> actor \<Rightarrow> template_update \<Rightarrow> audit_context option \<Rightarrow> task_template op" where
  "templates_update e workspaceId i u dto ctx =
     bindE (assertWorkspaceWritable workspaceId) (\<lambda>_.
     bindE (resolveTemplateOrFail i workspaceId) (\<lambda>t.
       let saved = touched (\<lambda>d r. r\<lparr>tt_updatedAt := d\<rparr>) (e_now e) t (apply_template_update u dto t)
       in
       bindE (writeE (\<lambda>s. s\<lparr>task_templates := save_row tt_id saved (task_templates s)\<rparr>)) (\<lambda>_.
       bindE (recordAudit e (template_audit workspaceId ''task-template.updated'' saved
                (Some [(''before'', template_json t), (''after'', template_json saved)]) None) ctx) (\<lambda>_.
       ret saved))))"

definition templates_delete :: "env \<Rightarrow> string \<Rightarrow> string \<Rightarrow> audit_context option \<Rightarrow> string op" where
  "templates_delete e workspaceId i ctx =
     bindE (assertWorkspaceWritable workspaceId) (\<lambda>_.
     bindE (resolveTemplateOrFail i workspaceId) (\<lambda>t.
     bindE (writeE (\<lambda>s. s\<lparr>task_templates := delete_rows (\<lambda>x. tt_id x = tt_id t) (task_templates s)\<rparr>)) (\<lambda>_.
     bindE (recordAudit e (template_audit workspaceId ''task-template.deleted'' t None None) ctx) (\<lambda>_.
     ret i))))"

section \<open>Claims\<close>

lemma order_limit_one: "order_limit k (Suc 0) rows = (case sort_key k rows of [] \<Rightarrow> [] | x # _ \<Rightarrow> [x])"
  by (simp add: order_limit_def split: list.split)

text \<open>The head of a stable sort is the first row among those with the least key.\<close>

lemma hd_sort_key:
  assumes "sort_key k rows = x # xs"
  shows "x = hd (filter (\<lambda>y. k y = k x) rows)" "x \<in> set rows" "\<And>y. y \<in> set rows \<Longrightarrow> k x \<le> k y"
proof -
  have "filter (\<lambda>y. k y = k x) rows = filter (\<lambda>y. k y = k x) (sort_key k rows)"
    by (simp add: sort_key_stable)
  then show "x = hd (filter (\<lambda>y. k y = k x) rows)" using assms by simp
  have "set (sort_key k rows) = set rows" by simp
  then show "x \<in> set rows" using assms by auto
  have "sorted (map k (sort_key k rows))" by simp
  then show "k x \<le> k y" if "y \<in> set rows" for y
    using that assms \<open>set (sort_key k rows) = set rows\<close> by auto
qed

lemma hd_sort_keyI:
  assumes x: "x \<in> set rows" and least: "\<And>y. y \<in> set rows \<Longrightarrow> k x \<le> k y" and first: "x = hd (filter (\<lambda>y. k y = k x) rows)"
  shows "\<exists>xs. sort_key k rows = x # xs"
proof -
  have "sort_key k rows \<noteq> []" using x by (metis length_pos_if_in_set length_sort list.size(3) less_numeral_extra(3))
  then obtain z zs where s: "sort_key k rows = z # zs" by (cases "sort_key k rows") auto
  have "k z = k x" using hd_sort_key(2,3)[OF s] x least by (meson antisym)
  then have "z = x" using hd_sort_key(1)[OF s] first by simp
  then show ?thesis using s by simp
qed

definition run_order :: "scheduled_task \<Rightarrow> int \<times> int" where
  "run_order sch = (orElse (st_nextRunAt sch) 0, st_createdAt sch)"

definition candidates :: "int \<Rightarrow> db \<Rightarrow> scheduled_task list" where
  "candidates now s =
     filter (\<lambda>sch. schedule_ready now sch \<and> workspace_open (workspaces s) (st_workspaceId sch)) (scheduled_tasks s)"

lemma due_schedule_None: "due_schedule now s = None \<longleftrightarrow> candidates now s = []"
  by (cases "sort_key run_order (candidates now s)") (use length_sort[of run_order "candidates now s"] in \<open>auto simp: due_schedule_def candidates_def[symmetric] run_order_def[symmetric] order_limit_one
      simp del: length_sort\<close>)

lemma due_schedule_Some:
  "due_schedule now s = Some c \<longleftrightarrow>
     c \<in> set (candidates now s) \<and> (\<forall>x \<in> set (candidates now s). run_order c \<le> run_order x) \<and>
     c = hd (filter (\<lambda>x. run_order x = run_order c) (candidates now s))" (is "?due \<longleftrightarrow> ?first")
proof -
  have "?due \<longleftrightarrow> (\<exists>xs. sort_key run_order (candidates now s) = c # xs)"
    by (auto simp: due_schedule_def candidates_def[symmetric] run_order_def[symmetric] order_limit_one split: list.split)
  also have "\<dots> \<longleftrightarrow> ?first" using hd_sort_key[of run_order] hd_sort_keyI[of c _ run_order] by blast
  finally show ?thesis .
qed

lemma due_scheduleD:
  assumes "due_schedule now s = Some c"
  shows "c \<in> set (scheduled_tasks s)" "schedule_ready now c" "workspace_open (workspaces s) (st_workspaceId c)"
  using assms by (auto simp: due_schedule_Some candidates_def)

lemma claim_none: "due_schedule (e_now e) s = None \<Longrightarrow> claimNextDueSchedule e who rs s = (Inr (Some None), s)"
  by (simp add: claimNextDueSchedule.simps)

lemma claim_alone:
  assumes keys: "distinct (map st_id (scheduled_tasks s))" and c: "due_schedule (e_now e) s = Some c"
  shows "claimNextDueSchedule e who (id # rs) s =
    (Inr (Some (Some (claim_schedule (e_now e) who (e_uuid e (drawn s)) c))),
     s\<lparr>drawn := Suc (drawn s), scheduled_tasks := update_rows (\<lambda>x. st_id x = st_id c)
         (claim_schedule (e_now e) who (e_uuid e (drawn s))) (scheduled_tasks s)\<rparr>)"
proof -
  note in_table = due_scheduleD[OF c]
  have same: "st_id x = st_id c \<and> schedule_ready (e_now e) x \<longleftrightarrow> st_id x = st_id c" if "x \<in> set (scheduled_tasks s)" for x
    using that in_table keys by (auto simp: distinct_map inj_on_def)
  then have "update_rows (\<lambda>x. st_id x = st_id c \<and> schedule_ready (e_now e) x) f (scheduled_tasks s) =
      update_rows (\<lambda>x. st_id x = st_id c) f (scheduled_tasks s)" for f
    by (auto simp: update_rows_def)
  moreover have "find_row (\<lambda>x. st_id x = st_id c \<and> schedule_ready (e_now e) x) (scheduled_tasks s) =
      find_row (\<lambda>x. st_id x = st_id c) (scheduled_tasks s)"
    using same unfolding find_row_def by (intro find_cong) auto
  ultimately show ?thesis using c find_row_key[OF keys in_table(1)]
    by (simp add: claimNextDueSchedule.simps Let_def)
qed

text \<open>Whatever others do meanwhile, a claim ends with a locked row that was ready when it was updated.
  \<open>P\<close> is anything about the schedules that others keep.\<close>

lemma claim_Inr:
  assumes "claimNextDueSchedule e who rs s = (Inr (Some (Some r)), s')" "P (scheduled_tasks s)"
    and "\<And>f t. f \<in> set rs \<Longrightarrow> P (scheduled_tasks t) \<Longrightarrow> P (scheduled_tasks (f t))"
  shows "\<exists>rows r0 token. P rows \<and> r0 \<in> set rows \<and> schedule_ready (e_now e) r0 \<and>
    r = claim_schedule (e_now e) who token r0 \<and>
    scheduled_tasks s' = update_rows (\<lambda>x. st_id x = st_id r0 \<and> schedule_ready (e_now e) x)
      (claim_schedule (e_now e) who token) rows"
  using assms
proof (induction rs arbitrary: s)
  case Nil
  then show ?case by (simp add: claimNextDueSchedule.simps split: option.splits)
next
  case (Cons f rs)
  let ?now = "e_now e" and ?tok = "e_uuid e (drawn s)" and ?t = "f (s\<lparr>drawn := Suc (drawn s)\<rparr>)"
  obtain c where c: "due_schedule ?now s = Some c"
    using Cons.prems(1) by (auto simp: claimNextDueSchedule.simps split: option.splits)
  let ?mine = "\<lambda>x. st_id x = st_id c \<and> schedule_ready ?now x" and ?claim = "claim_schedule ?now who ?tok"
  let ?u = "?t\<lparr>scheduled_tasks := update_rows ?mine ?claim (scheduled_tasks ?t)\<rparr>"
  have P: "P (scheduled_tasks ?t)" using Cons.prems(2,3) by simp
  show ?case
  proof (cases "find_row ?mine (scheduled_tasks ?t)")
    case None
    then have "update_rows ?mine ?claim (scheduled_tasks ?t) = scheduled_tasks ?t"
      by (intro update_rows_none) (simp add: find_row_None count_rows_zero)
    moreover have "claimNextDueSchedule e who rs ?u = (Inr (Some (Some r)), s')"
      using Cons.prems(1) None c by (simp add: claimNextDueSchedule.simps[of e who "f # rs"] Let_def)
    ultimately show ?thesis using Cons.IH[of ?u] P Cons.prems(3) by (auto simp: list.set_intros)
  next
    case (Some r0)
    then have "r0 \<in> set (scheduled_tasks ?t)" "?mine r0" by (auto dest: find_row_Some)
    moreover have "r = ?claim r0 \<and> s' = ?u"
      using Cons.prems(1) Some c by (simp add: claimNextDueSchedule.simps[of e who "f # rs"] Let_def)
    ultimately show ?thesis using P
      by (intro exI[of _ "scheduled_tasks ?t"] exI[of _ r0] exI[of _ ?tok]) simp
  qed
qed

definition leased_as :: "scheduled_task \<Rightarrow> scheduled_task list \<Rightarrow> bool" where
  "leased_as r rows \<longleftrightarrow> (\<forall>x \<in> set rows. st_id x = st_id r \<longrightarrow> st_leaseUntil x = st_leaseUntil r)"


section \<open>A run that fails\<close>

lemma updateHeld_apply [simp]:
  "updateHeld e sch f s = (Inr (), s\<lparr>scheduled_tasks :=
     update_rows (\<lambda>x. st_id x = st_id sch \<and> st_claimToken sch \<noteq> None \<and> st_claimToken x = st_claimToken sch)
       (\<lambda>x. (f x)\<lparr>st_claimToken := None, st_claimedBy := None, st_leaseUntil := None, st_updatedAt := e_now e\<rparr>)
       (scheduled_tasks s)\<rparr>)"
  by (simp add: updateHeld_def)

text \<open>The target is gone: a team that was deleted, or a node that was deleted or is in maintenance.\<close>

definition unreachable :: "db \<Rightarrow> scheduled_task \<Rightarrow> bool" where
  "unreachable s sch \<longleftrightarrow> st_workspaceId sch \<noteq> [] \<and>
     (if truthy (st_targetTeamId sch)
      then find_row (\<lambda>t. tm_id t = the (st_targetTeamId sch) \<and> tm_workspaceId t = st_workspaceId sch) (teams s) = None
      else truthy (st_nodeId sch) \<and>
        (case find_row (\<lambda>n. n_id n = the (st_nodeId sch) \<and> n_workspaceId n = st_workspaceId sch) (nodes s) of
           None \<Rightarrow> True | Some n \<Rightarrow> n_maintenanceMode n))"

text \<open>Handlers that end with an error and leave everything as it was.\<close>

definition rejects :: "('s, 'a) handler \<Rightarrow> 's \<Rightarrow> bool" where
  "rejects m s \<longleftrightarrow> (\<exists>err. m s = (Inl err, s))"

lemma rejects_first: "rejects m s \<Longrightarrow> rejects (bindE m f) s"
  by (auto simp: rejects_def bindE_def)

lemma rejects_later: "quiet m \<Longrightarrow> (\<And>x. m s = (Inr x, s) \<Longrightarrow> rejects (f x) s) \<Longrightarrow> rejects (bindE m f) s"
  by (cases m s rule: handler_cases) (auto simp: rejects_def bindE_def dest: quiet_run)

lemma rejects_guard: "\<not> c \<Longrightarrow> rejects (guardE c err) s"
  by (simp add: rejects_def)

lemma rejects_find: "find_row p (sel s) = None \<Longrightarrow> rejects (findE sel p err) s"
  by (simp add: rejects_def)

lemma found_node:
  assumes "nodes_findOneOrFail i (Some w) s = (Inr v, s)" "w \<noteq> []"
    and "case find_row (\<lambda>n. n_id n = i \<and> n_workspaceId n = w) (nodes s) of None \<Rightarrow> True | Some n \<Rightarrow> n_maintenanceMode n"
  shows "n_maintenanceMode (fst v)" "n_id (fst v) = i"
proof -
  obtain n where n: "find_row (\<lambda>n. n_id n = i \<and> n_workspaceId n = w) (nodes s) = Some n" "populateNode n s = (Inr v, s)"
    using assms(1,2) by (auto simp: nodes_findOneOrFail_def if_given_def split: option.splits)
  then have "fst v = n" using populateNode_Inr[of n s v] by simp
  then show "n_maintenanceMode (fst v)" "n_id (fst v) = i"
    using assms(3) n(1) by (auto dest: find_row_Some)
qed

lemma queueTask_refused:
  assumes "\<And>v. nodes_findOneOrFail (qi_nodeId inp) (qi_workspaceId inp) s = (Inr v, s) \<Longrightarrow> n_maintenanceMode (fst v)"
  shows "rejects (queueTask e inp None ctx) s"
proof -
  let ?find = "bindE (nodes_findOneOrFail (qi_nodeId inp) (qi_workspaceId inp)) (\<lambda>(n, _). ret n)"
  have refused: "rejects (bindE (assertWorkspaceWritable (n_workspaceId n)) (\<lambda>_. bindE (assertNodeAcceptingNewWork n) k)) s"
    if found: "?find s = (Inr n, s)" for n and k :: "unit \<Rightarrow> task op"
  proof -
    obtain b where "nodes_findOneOrFail (qi_nodeId inp) (qi_workspaceId inp) s = (Inr (n, b), s)"
      using bindE_quiet_success[OF nodes_findOneOrFail_quiet found] by auto
    then have "n_maintenanceMode n" using assms by fastforce
    then show ?thesis
      by (intro rejects_later rejects_first) (simp_all add: assertNodeAcceptingNewWork_def rejects_guard)
  qed
  have "quiet ?find" by (intro quiet_rules)
  then show ?thesis unfolding queueTask_def option.case by (rule rejects_later) (rule refused)
qed

lemma unreachable_rejects:
  assumes "unreachable s sch"
  shows "rejects (runSchedule e sch) s"
proof (cases "truthy (st_targetTeamId sch)")
  case True
  then show ?thesis using assms
    by (auto simp: unreachable_def runSchedule_def schedule_targets_def listTeamOwnedNodes_def findTeamOrFail_def
        intro!: rejects_first rejects_find)
next
  case False
  let ?i = "the (st_nodeId sch)" and ?w = "st_workspaceId sch"
  have node: "truthy (st_nodeId sch)" "?w \<noteq> []"
    and gone: "case find_row (\<lambda>n. n_id n = ?i \<and> n_workspaceId n = ?w) (nodes s) of
      None \<Rightarrow> True | Some n \<Rightarrow> n_maintenanceMode n"
    using assms False by (simp_all add: unreachable_def)
  have queue: "rejects (createScheduledShellTask e ?i sch) s"
    unfolding createScheduledShellTask_def by (rule queueTask_refused) (simp add: found_node(1)[OF _ node(2) gone])
  have root: "quiet (if st_runAsRoot sch then assertNodeAllowsTaskRoot e n else ret ())" for n
    unfolding assertNodeAllowsTaskRoot_def assertNodeAllowsRootSurface_def by (intro quiet_rules)
  have "rejects (runScheduleOn e sch n) s" if "n_id n = ?i" for n
    unfolding runScheduleOn_def that by (rule rejects_later[OF root]) (rule rejects_first[OF queue])
  then have "rejects (bindE (forE (runScheduleOn e sch) [n]) k) s" if "n_id n = ?i" for n and k :: "string list \<Rightarrow> unit op"
    using that by (auto intro!: rejects_first)
  then have one: "rejects (if targets = [] then m else bindE (forE (runScheduleOn e sch) targets) k) s"
    if "\<exists>n. targets = [n] \<and> n_id n = ?i" for targets m and k :: "string list \<Rightarrow> unit op"
    using that by auto
  have targets: "\<exists>n. targets = [n] \<and> n_id n = ?i" if "schedule_targets sch s = (Inr targets, s)" for targets
    using that False node
    by (auto simp: schedule_targets_def bindE_success dest!: found_node(2)[OF _ node(2) gone]
        dest: quiet_run[OF nodes_findOneOrFail_quiet])
  have "quiet (schedule_targets sch)"
    unfolding schedule_targets_def listTeamOwnedNodes_def findTeamOrFail_def by (intro quiet_rules)
  then show ?thesis unfolding runSchedule_def by (rule rejects_later) (rule one[OF targets])
qed

text \<open>What a failed run leaves on the row: the error, no lease, and the old \<open>nextRunAt\<close>.\<close>

definition failed_run :: "env \<Rightarrow> string \<Rightarrow> scheduled_task \<Rightarrow> scheduled_task" where
  "failed_run e m sch = sch\<lparr>st_lastError := Some m, st_claimToken := None, st_claimedBy := None, st_leaseUntil := None,
     st_updatedAt := e_now e\<rparr>"

lemma updateHeld_failed:
  "updateHeld e sch (\<lambda>x. x\<lparr>st_lastError := Some m\<rparr>) s = (Inr (), s\<lparr>scheduled_tasks :=
     update_rows (\<lambda>x. st_id x = st_id sch \<and> st_claimToken sch \<noteq> None \<and> st_claimToken x = st_claimToken sch)
       (failed_run e m) (scheduled_tasks s)\<rparr>)"
  by (simp add: failed_run_def[abs_def])

lemma trigger_unreachable:
  assumes "unreachable s sch"
  shows "\<exists>m s'. triggerClaimedSchedule e sch s = (Inr (Some m), s') \<and>
    core s' = core (s\<lparr>scheduled_tasks := update_rows (\<lambda>x. st_id x = st_id sch \<and> st_claimToken sch \<noteq> None \<and>
      st_claimToken x = st_claimToken sch) (failed_run e m) (scheduled_tasks s)\<rparr>) \<and> drawn s \<le> drawn s'"
proof -
  let ?held = "\<lambda>x. st_id x = st_id sch \<and> st_claimToken sch \<noteq> None \<and> st_claimToken x = st_claimToken sch"
  obtain err where err: "runSchedule e sch s = (Inl err, s)"
    using unreachable_rejects[OF assms] by (auto simp: rejects_def)
  let ?m = "error_message err"
  let ?s = "s\<lparr>scheduled_tasks := update_rows ?held (failed_run e ?m) (scheduled_tasks s)\<rparr>"
  have w: "truthy (event_workspace (Some (st_workspaceId sch)) (st_nodeId sch) (nodes ?s))"
    using assms by (simp add: unreachable_def)
  define ev :: "event op" where "ev = recordEvent e (Some (st_workspaceId sch)) (st_nodeId sch) ''task.schedule.failed'' (Some WARNING)
              (''Scheduled task '' @ st_name sch @ '' failed to queue a run: '' @ ?m)
              (Some [(''scheduleId'', JStr (st_id sch)), (''scheduleName'', JStr (st_name sch)),
                 (''error'', JStr ?m), (''targetTeamId'', jstr_opt (st_targetTeamId sch))])"
  obtain r where "outcome ev ?s = Inr r" using recordEvent_Inr[OF w] unfolding ev_def by blast
  then obtain s' where ev: "ev ?s = (Inr r, s')" by (cases "ev ?s") simp
  have "outputs ev" by (simp add: ev_def)
  then have "core s' = core ?s" "drawn ?s \<le> drawn s'"
    using ev by (auto simp: outputs_def dest!: spec[of _ ?s])
  moreover have "failSchedule e sch ?m s = (Inr (Some ?m), s')"
  proof -
    have "failSchedule e sch ?m s = bindE ev (\<lambda>_. ret (Some ?m)) ?s"
      unfolding failSchedule_def ev_def by (rule bindE_Inr[OF updateHeld_failed])
    also have "\<dots> = (Inr (Some ?m), s')" unfolding bindE_Inr[where m = ev, OF ev] by (rule ret_apply)
    finally show ?thesis .
  qed
  then have "triggerClaimedSchedule e sch s = (Inr (Some ?m), s')"
    unfolding triggerClaimedSchedule_def catchE_def bindE_Inl[where m = "runSchedule e sch", OF err] by simp
  ultimately show ?thesis by auto
qed

text \<open>The schedule that is next is unreachable and nothing is leased.\<close>

definition blocked :: "int \<Rightarrow> string \<Rightarrow> db \<Rightarrow> bool" where
  "blocked now i s \<longleftrightarrow>
     distinct (map st_id (scheduled_tasks s)) \<and> (\<forall>x \<in> set (scheduled_tasks s). st_leaseUntil x = None) \<and>
     (\<exists>c. due_schedule now s = Some c \<and> st_id c = i \<and> unreachable s c)"

lemma candidates_unleased:
  assumes "\<forall>x \<in> set (scheduled_tasks s). st_leaseUntil x = None"
  shows "candidates now s = filter (\<lambda>x. st_enabled x \<and> (case st_nextRunAt x of None \<Rightarrow> False | Some t \<Rightarrow> t \<le> now) \<and>
    workspace_open (workspaces s) (st_workspaceId x)) (scheduled_tasks s)"
  using assms unfolding candidates_def by (intro filter_cong) (auto simp: schedule_ready_def)

lemma blocked_later:
  assumes "blocked now i s" "now \<le> now'"
  shows "blocked now' i s"
proof -
  obtain c where free: "\<forall>x \<in> set (scheduled_tasks s). st_leaseUntil x = None"
    and c: "due_schedule now s = Some c" "st_id c = i" "unreachable s c"
    using assms(1) by (auto simp: blocked_def)
  note cand = candidates_unleased[OF free]
  have first: "c \<in> set (candidates now s)" "\<forall>x \<in> set (candidates now s). run_order c \<le> run_order x"
    "c = hd (filter (\<lambda>x. run_order x = run_order c) (candidates now s))"
    using c(1) by (simp_all add: due_schedule_Some)
  then obtain t where t: "st_nextRunAt c = Some t" "t \<le> now" by (auto simp: cand split: option.splits)
  have more: "x \<in> set (candidates now s)" if "x \<in> set (candidates now' s)" "run_order x \<le> run_order c" for x
    using that t by (auto simp: cand run_order_def orElse_def split: option.splits)
  have sub: "x \<in> set (candidates now' s)" if "x \<in> set (candidates now s)" for x
    using that assms(2) by (auto simp: cand split: option.splits)
  have "filter (\<lambda>x. run_order x = run_order c) (candidates now' s) =
      filter (\<lambda>x. run_order x = run_order c) (candidates now s)"
    using t assms(2) unfolding cand filter_filter
    by (intro filter_cong) (auto simp: run_order_def orElse_def split: option.splits)
  moreover have "run_order c \<le> run_order x" if "x \<in> set (candidates now' s)" for x
    using more[OF that] first(2) by (metis linear)
  ultimately have "due_schedule now' s = Some c" using first sub by (simp add: due_schedule_Some)
  then show ?thesis using assms(1) c by (auto simp: blocked_def)
qed

lemma due_schedule_map:
  assumes c: "due_schedule now s = Some c"
    and t: "scheduled_tasks t = map g (scheduled_tasks s)" "workspaces t = workspaces s"
    and g: "\<And>x. x \<in> set (scheduled_tasks s) \<Longrightarrow> schedule_ready now (g x) = schedule_ready now x \<and>
      st_workspaceId (g x) = st_workspaceId x \<and> run_order (g x) = run_order x"
  shows "due_schedule now t = Some (g c)"
proof -
  have cand: "candidates now t = map g (candidates now s)"
    unfolding candidates_def t filter_map using g by (intro arg_cong[where f = "map g"] filter_cong) auto
  have sub: "x \<in> set (scheduled_tasks s)" if "x \<in> set (candidates now s)" for x
    using that by (simp add: candidates_def)
  have first: "c \<in> set (candidates now s)" "\<forall>x \<in> set (candidates now s). run_order c \<le> run_order x"
    "c = hd (filter (\<lambda>x. run_order x = run_order c) (candidates now s))"
    using c by (simp_all add: due_schedule_Some)
  have order: "run_order (g x) = run_order x" if "x \<in> set (candidates now s)" for x using g sub that by blast
  have "filter (\<lambda>x. run_order x = run_order (g c)) (candidates now t) =
      map g (filter (\<lambda>x. run_order x = run_order c) (candidates now s))"
    unfolding cand filter_map using order first(1) by (intro arg_cong[where f = "map g"] filter_cong) auto
  moreover have "filter (\<lambda>x. run_order x = run_order c) (candidates now s) \<noteq> []"
    using first(1) by (auto simp: filter_empty_conv)
  ultimately have "hd (filter (\<lambda>x. run_order x = run_order (g c)) (candidates now t)) = g c"
    using first(3) by (simp add: hd_map)
  then show ?thesis using first(1,2) order by (auto simp: due_schedule_Some cand)
qed

lemma update_rows_twice:
  "(\<And>x. p x \<Longrightarrow> q (f x)) \<Longrightarrow> (\<And>x. \<not> p x \<Longrightarrow> \<not> q x) \<Longrightarrow>
    update_rows q h (update_rows p f rows) = update_rows p (h \<circ> f) rows"
  by (simp add: update_rows_def)

lemma unreachable_cong:
  assumes "teams t = teams s" "nodes t = nodes s" "st_workspaceId d = st_workspaceId c"
    "st_targetTeamId d = st_targetTeamId c" "st_nodeId d = st_nodeId c"
  shows "unreachable t d = unreachable s c"
  using assms by (simp add: unreachable_def)

lemma tick_blocked:
  assumes "blocked (e_now e) i s"
  shows "\<exists>s'. runner_loop inst [(e, [id])] s = (Inr True, s') \<and> blocked (e_now e) i s' \<and> tasks s' = tasks s \<and>
    delete_rows (\<lambda>x. st_id x = i) (scheduled_tasks s') = delete_rows (\<lambda>x. st_id x = i) (scheduled_tasks s)"
proof -
  let ?now = "e_now e"
  let ?claim = "claim_schedule ?now inst (e_uuid e (drawn s))"
  obtain c where keys: "distinct (map st_id (scheduled_tasks s))" and free: "\<forall>x \<in> set (scheduled_tasks s). st_leaseUntil x = None"
    and c: "due_schedule ?now s = Some c" "st_id c = i" "unreachable s c"
    using assms by (auto simp: blocked_def)
  define s1 where "s1 = s\<lparr>drawn := Suc (drawn s), scheduled_tasks := update_rows (\<lambda>x. st_id x = i) ?claim (scheduled_tasks s)\<rparr>"
  have claim: "claimNextDueSchedule e inst [id] s = (Inr (Some (Some (?claim c))), s1)"
    using claim_alone[OF keys c(1)] c(2) by (simp add: s1_def)
  have "unreachable s1 (?claim c)"
    using c(3) unreachable_cong[of s1 s "?claim c" c] by (simp add: s1_def claim_schedule_def)
  then obtain m s' where run: "triggerClaimedSchedule e (?claim c) s1 = (Inr (Some m), s')"
    and core: "core s' = core (s1\<lparr>scheduled_tasks := update_rows (\<lambda>x. st_id x = st_id (?claim c) \<and>
      st_claimToken (?claim c) \<noteq> None \<and> st_claimToken x = st_claimToken (?claim c)) (failed_run e m) (scheduled_tasks s1)\<rparr>)"
    using trigger_unreachable by blast
  define g where "g x = (if st_id x = i then failed_run e m (?claim x) else x)" for x
  have rows: "scheduled_tasks s' = map g (scheduled_tasks s)"
  proof -
    have "scheduled_tasks s' = update_rows (\<lambda>x. st_id x = i \<and> st_claimToken x = Some (e_uuid e (drawn s)))
        (failed_run e m) (update_rows (\<lambda>x. st_id x = i) ?claim (scheduled_tasks s))"
      using c(2) by (simp add: core_eqD(10)[OF core] s1_def claim_schedule_def)
    also have "\<dots> = update_rows (\<lambda>x. st_id x = i) (failed_run e m \<circ> ?claim) (scheduled_tasks s)"
      by (rule update_rows_twice) (simp_all add: claim_schedule_def)
    finally show ?thesis by (simp add: update_rows_def g_def)
  qed
  have g: "st_id (g x) = st_id x" "st_workspaceId (g x) = st_workspaceId x" "run_order (g x) = run_order x"
    "st_targetTeamId (g x) = st_targetTeamId x" "st_nodeId (g x) = st_nodeId x"
    "st_leaseUntil x = None \<Longrightarrow> st_leaseUntil (g x) = None \<and> schedule_ready ?now (g x) = schedule_ready ?now x" for x
    by (simp_all add: g_def failed_run_def claim_schedule_def run_order_def schedule_ready_def)
  have other: "st_id x \<noteq> i \<Longrightarrow> g x = x" for x by (simp add: g_def)
  have same: "workspaces s' = workspaces s" "teams s' = teams s" "nodes s' = nodes s" "tasks s' = tasks s"
    using core_eqD[OF core] by (simp_all add: s1_def)
  have "due_schedule ?now s' = Some (g c)"
    by (rule due_schedule_map[OF c(1) rows same(1)]) (use g free in simp)
  moreover have "unreachable s' (g c)" using c(3) unreachable_cong[of s' s "g c" c] same g by simp
  moreover have "distinct (map st_id (scheduled_tasks s'))" using keys by (simp add: rows o_def g)
  ultimately have "blocked ?now i s'" using free g c(2) by (auto simp: blocked_def rows)
  moreover have "delete_rows (\<lambda>x. st_id x = i) (map g rs) = delete_rows (\<lambda>x. st_id x = i) rs" for rs
    by (induction rs) (auto simp: delete_rows_def g(1) other)
  moreover have "runner_loop inst [(e, [id])] s = (Inr True, s')"
    by (simp add: bindE_Inr[where m = "claimNextDueSchedule e inst [id]", OF claim]
        bindE_Inr[where m = "triggerClaimedSchedule e (?claim c)", OF run])
  ultimately show ?thesis using same rows by simp
qed


section \<open>A run that succeeds\<close>

lemma output_keeps_schedules: "outputs m \<Longrightarrow> frames scheduled_tasks m"
  by (auto simp: outputs_def frames_def dest: core_eqD(10))

lemma output_announceTask: "outputs (announceTask e n t)"
  unfolding announceTask_def by (intro output_rules)

lemma queueTask_keeps_schedules: "frames scheduled_tasks (queueTask e inp nd ctx)"
  unfolding queueTask_def Let_def
proof (intro frame_rules output_keeps_schedules[OF output_announceTask] output_keeps_schedules[OF output_recordAudit]
      output_keeps_schedules[OF output_fresh_id] quiet_frames[OF nodes_findOneOrFail_quiet]
      quiet_frames[OF assertWorkspaceWritable_quiet] quiet_frames[OF root_policy_quiet])
qed (simp_all add: assertNodeAcceptingNewWork_def resolveTemplateOrFail_def dispatchTaskToNode_def frames_writeE
    split: prod.split)

lemma runScheduleOn_Inr:
  assumes "runScheduleOn e sch n s = (Inr i, s')"
  shows "\<exists>t. tasks s' = tasks s @ [t] \<and> scheduled_tasks s' = scheduled_tasks s \<and> i = t_id t \<and> t_nodeId t = n_id n \<and>
    t_status t = QUEUED \<and> t_type t = ''shell.exec'' \<and> jget (t_payload t) ''command'' = Some (JStr (st_command sch)) \<and>
    (\<exists>m \<in> set (nodes s). n_id m = n_id n \<and> \<not> n_maintenanceMode m)"
proof -
  have root: "quiet (if st_runAsRoot sch then assertNodeAllowsTaskRoot e n else ret ())"
    unfolding assertNodeAllowsTaskRoot_def assertNodeAllowsRootSurface_def by (intro quiet_rules)
  obtain t where t: "createScheduledShellTask e (n_id n) sch s = (Inr t, s')" "i = t_id t"
    using bindE_quiet_success[OF root assms[unfolded runScheduleOn_def]] by (auto simp: bindE_success)
  note queued = t(1)[unfolded createScheduledShellTask_def]
  show ?thesis
    using queueTask_Inr[OF queued] frames_run[OF queueTask_keeps_schedules queued] t(2)
    by (auto simp: new_task_def)
qed

lemma runs_Inr:
  assumes "forE (runScheduleOn e sch) ns s = (Inr ids, s')"
  shows "\<exists>ts. tasks s' = tasks s @ ts \<and> scheduled_tasks s' = scheduled_tasks s \<and> ids = map t_id ts \<and>
    map t_nodeId ts = map n_id ns \<and> (\<forall>t \<in> set ts. t_status t = QUEUED \<and> t_type t = ''shell.exec'' \<and>
      jget (t_payload t) ''command'' = Some (JStr (st_command sch)))"
  using assms
proof (induction ns arbitrary: s ids)
  case (Cons n ns)
  obtain i s1 js where run: "runScheduleOn e sch n s = (Inr i, s1)" "forE (runScheduleOn e sch) ns s1 = (Inr js, s')" "ids = i # js"
    using Cons.prems by (auto simp: bindE_success)
  obtain t where t: "tasks s1 = tasks s @ [t] \<and> scheduled_tasks s1 = scheduled_tasks s \<and> i = t_id t \<and> t_nodeId t = n_id n \<and>
    t_status t = QUEUED \<and> t_type t = ''shell.exec'' \<and> jget (t_payload t) ''command'' = Some (JStr (st_command sch))"
    using runScheduleOn_Inr[OF run(1)] by blast
  obtain ts where "tasks s' = tasks s1 @ ts \<and> scheduled_tasks s' = scheduled_tasks s1 \<and> js = map t_id ts \<and>
    map t_nodeId ts = map n_id ns \<and> (\<forall>t \<in> set ts. t_status t = QUEUED \<and> t_type t = ''shell.exec'' \<and>
      jget (t_payload t) ''command'' = Some (JStr (st_command sch)))"
    using Cons.IH[OF run(2)] by blast
  then show ?case using t run(3) by (intro exI[of _ "t # ts"]) simp
qed simp

text \<open>What a finished run writes to the held row.\<close>

definition finished_run :: "env \<Rightarrow> int \<Rightarrow> string list \<Rightarrow> scheduled_task \<Rightarrow> scheduled_task" where
  "finished_run e nextRunAt taskIds sch =
     (if taskIds = []
      then sch\<lparr>st_nextRunAt := Some nextRunAt,
             st_lastError := Some ''No eligible nodes matched the scheduled task target at execution time.''\<rparr>
      else sch\<lparr>st_lastRunAt := Some (e_now e), st_lastRunTaskId := Some (hd taskIds), st_lastError := None,
             st_nextRunAt := Some nextRunAt\<rparr>)
     \<lparr>st_claimToken := None, st_claimedBy := None, st_leaseUntil := None, st_updatedAt := e_now e\<rparr>"

lemma finishRun_Inr:
  assumes "finishRun e sch ids s = (Inr (), s')" "ids \<noteq> []"
  shows "\<exists>nextRunAt. nextRunOf e sch = Inr nextRunAt \<and> tasks s' = tasks s \<and> scheduled_tasks s' =
    update_rows (\<lambda>x. st_id x = st_id sch \<and> st_claimToken sch \<noteq> None \<and> st_claimToken x = st_claimToken sch)
      (finished_run e nextRunAt ids) (scheduled_tasks s)"
proof -
  obtain nextRunAt where n: "nextRunOf e sch = Inr nextRunAt"
    using assms(1) by (cases "nextRunOf e sch") (auto simp: finishRun_def)
  let ?s = "s\<lparr>scheduled_tasks := update_rows (\<lambda>x. st_id x = st_id sch \<and> st_claimToken sch \<noteq> None \<and>
    st_claimToken x = st_claimToken sch) (finished_run e nextRunAt ids) (scheduled_tasks s)\<rparr>"
  obtain r where "recordEvent e (Some (st_workspaceId sch)) (st_nodeId sch) ''task.schedule.triggered'' (Some INFO)
              (''Scheduled task '' @ st_name sch @ '' queued a shell.exec run.'')
              (Some [(''scheduleId'', JStr (st_id sch)), (''scheduleName'', JStr (st_name sch)),
                 (''taskIds'', JArr (map JStr ids)), (''timezone'', JStr (st_timezone sch)),
                 (''nextRunAt'', JStr (toISOString nextRunAt)),
                 (''targetTeamId'', jstr_opt (st_targetTeamId sch))]) ?s = (Inr r, s')"
    using assms n by (auto simp: finishRun_def bindE_success finished_run_def[abs_def] simp del: bindE_recordEvent)
  then have "core s' = core ?s" using frames_run[OF recordEvent_frames] by blast
  from core_eqD(7,10)[OF this] n show ?thesis by simp
qed

text \<open>C27: A run that reports success has queued exactly one shell task with the schedule's command for each node
  of the target, in order, and has released the row it holds with the next run computed from the
  planned time of this one (so runs missed while the service was down are made up for one by one); the
  other schedules are untouched.\<close>

theorem schedule_run_spec:
  assumes "triggerClaimedSchedule e sch s = (Inr None, s')"
  shows "\<exists>ns ts nextRunAt. outcome (schedule_targets sch) s = Inr ns \<and> nextRunOf e sch = Inr nextRunAt \<and>
    tasks s' = tasks s @ ts \<and> map t_nodeId ts = map n_id ns \<and>
    (\<forall>t \<in> set ts. t_status t = QUEUED \<and> t_type t = ''shell.exec'' \<and>
      jget (t_payload t) ''command'' = Some (JStr (st_command sch))) \<and>
    scheduled_tasks s' = update_rows (\<lambda>x. st_id x = st_id sch \<and> st_claimToken sch \<noteq> None \<and>
      st_claimToken x = st_claimToken sch) (finished_run e nextRunAt (map t_id ts)) (scheduled_tasks s)"
proof -
  have run: "runSchedule e sch s = (Inr (), s')"
    using assms by (cases "runSchedule e sch s"; cases "outcome (runSchedule e sch) s")
      (auto simp: triggerClaimedSchedule_def catchE_def bindE_def failSchedule_def split: sum.splits prod.splits)
  have quiet: "quiet (schedule_targets sch)"
    unfolding schedule_targets_def listTeamOwnedNodes_def findTeamOrFail_def by (intro quiet_rules)
  obtain ns where ns: "schedule_targets sch s = (Inr ns, s)"
    and tail: "(if ns = [] then bindE (liftE (nextRunOf e sch)) (\<lambda>nextRunAt.
         updateHeld e sch (\<lambda>x. x\<lparr>st_nextRunAt := Some nextRunAt,
           st_lastError := Some ''No eligible nodes matched the scheduled task target at execution time.''\<rparr>))
       else bindE (forE (runScheduleOn e sch) ns) (finishRun e sch)) s = (Inr (), s')"
    using bindE_quiet_success[OF quiet run[unfolded runSchedule_def]] by blast
  show ?thesis
  proof (cases "ns = []")
    case True
    then show ?thesis using tail ns
      by (auto simp: finished_run_def[abs_def] split: sum.splits)
  next
    case False
    obtain ids s1 where runs: "forE (runScheduleOn e sch) ns s = (Inr ids, s1)" and fin: "finishRun e sch ids s1 = (Inr (), s')"
      using tail False by (auto simp: bindE_success)
    obtain ts where ts: "tasks s1 = tasks s @ ts" "scheduled_tasks s1 = scheduled_tasks s" "ids = map t_id ts"
        "map t_nodeId ts = map n_id ns" "\<forall>t \<in> set ts. t_status t = QUEUED \<and> t_type t = ''shell.exec'' \<and>
          jget (t_payload t) ''command'' = Some (JStr (st_command sch))"
      using runs_Inr[OF runs] by blast
    have "ids \<noteq> []" using ts(3,4) False by auto
    then have "\<exists>nextRunAt. nextRunOf e sch = Inr nextRunAt \<and> tasks s' = tasks s1 \<and> scheduled_tasks s' =
        update_rows (\<lambda>x. st_id x = st_id sch \<and> st_claimToken sch \<noteq> None \<and> st_claimToken x = st_claimToken sch)
          (finished_run e nextRunAt ids) (scheduled_tasks s1)"
      by (rule finishRun_Inr[OF fin])
    then show ?thesis using ns ts by auto
  qed
qed

section \<open>Schedules of a team\<close>

text \<open>Disabling or deleting a schedule that targets a team writes the change and then fails, because the
  event is recorded with neither a workspace nor a node: the operator is answered an internal error and
  the audit trail misses the change.\<close>

theorem team_schedule_change_unrecorded:
  assumes "find_row (\<lambda>x. st_id x = i) (scheduled_tasks s) = Some sch" "st_nodeId sch = None"
    and "find_row (\<lambda>w. w_id w = st_workspaceId sch) (workspaces s) = Some w" "\<not> w_isArchived w"
  shows "updateEnabled e i False None ctx s =
      (Inl (InternalError ''Workspace context could not be resolved for event task.schedule.updated''),
       s\<lparr>scheduled_tasks := save_row st_id
         (touched (\<lambda>d x. x\<lparr>st_updatedAt := d\<rparr>) (e_now e) sch (switched False None sch)) (scheduled_tasks s)\<rparr>) \<and>
    schedules_delete e i None ctx s =
      (Inl (InternalError ''Workspace context could not be resolved for event task.schedule.deleted''),
       s\<lparr>scheduled_tasks := delete_rows (\<lambda>x. st_id x = i) (scheduled_tasks s)\<rparr>)"
proof
  have i: "st_id sch = i" using assms(1) by (auto dest: find_row_Some)
  have node: "st_nodeId (touched (\<lambda>d x. x\<lparr>st_updatedAt := d\<rparr>) (e_now e) sch (switched False None sch)) = None"
    using assms(2) by (simp add: touched_def switched_def)
  show "updateEnabled e i False None ctx s =
      (Inl (InternalError ''Workspace context could not be resolved for event task.schedule.updated''),
       s\<lparr>scheduled_tasks := save_row st_id
         (touched (\<lambda>d x. x\<lparr>st_updatedAt := d\<rparr>) (e_now e) sch (switched False None sch)) (scheduled_tasks s)\<rparr>)"
    using assms node
    by (simp add: updateEnabled_def schedules_findOneOrFail_def populateScheduleMetadata_def if_given_def
        assertWorkspaceWritable_def findWorkspaceOrFail_def saveSchedule_def Let_def recordEvent_def event_workspace_def)
  show "schedules_delete e i None ctx s =
      (Inl (InternalError ''Workspace context could not be resolved for event task.schedule.deleted''),
       s\<lparr>scheduled_tasks := delete_rows (\<lambda>x. st_id x = i) (scheduled_tasks s)\<rparr>)"
    using assms i
    by (simp add: schedules_delete_def schedules_findOneOrFail_def populateScheduleMetadata_def if_given_def
        assertWorkspaceWritable_def findWorkspaceOrFail_def recordEvent_def event_workspace_def)
qed

definition team_schedule :: scheduled_task where
  "team_schedule = sample_schedule\<lparr>st_nodeId := None, st_targetTeamId := Some ''gone'', st_nextRunAt := Some 0,
     st_cadence := ''minutely'', st_workspaceId := ''0''\<rparr>"

definition schedule_db :: db where
  "schedule_db = empty_db\<lparr>workspaces := [sample_workspace\<lparr>w_id := ''0''\<rparr>], scheduled_tasks := [team_schedule]\<rparr>"

lemma schedule_db_simps [simp]:
  "scheduled_tasks schedule_db = [team_schedule]" "workspaces schedule_db = [sample_workspace\<lparr>w_id := ''0''\<rparr>]"
  "teams schedule_db = []" "tasks schedule_db = []" "drawn schedule_db = 0"
  "st_id team_schedule = ''sch''" "st_workspaceId team_schedule = ''0''" "st_nodeId team_schedule = None"
  "st_targetTeamId team_schedule = Some ''gone''" "st_nextRunAt team_schedule = Some 0" "st_enabled team_schedule"
  "st_leaseUntil team_schedule = None" "\<not> w_isArchived sample_workspace"
  by (simp_all add: schedule_db_def empty_db_def team_schedule_def sample_schedule_def sample_workspace_def
      new_workspace_def sample_dto_def orElse_def)

theorem team_schedule_change_unrecorded_witness:
  "after (schedules_delete base_env ''sch'' None None) schedule_db = schedule_db\<lparr>scheduled_tasks := []\<rparr>"
  using team_schedule_change_unrecorded[of "''sch''" schedule_db team_schedule _ base_env None]
  by (simp add: find_row_def delete_rows_def)

lemma schedule_db_due: "0 \<le> now \<Longrightarrow> due_schedule now schedule_db = Some team_schedule"
  by (simp add: due_schedule_Some candidates_def schedule_ready_def workspace_open_def)


definition pair_db :: db where
  "pair_db = schedule_db\<lparr>scheduled_tasks := [team_schedule, team_schedule\<lparr>st_id := ''b'', st_nextRunAt := Some 5\<rparr>]\<rparr>"


text \<open>A minutely schedule for the one node, under a claim.\<close>

definition node_schedule :: scheduled_task where
  "node_schedule = team_schedule\<lparr>st_nodeId := Some ''n1'', st_targetTeamId := None, st_workspaceId := ''w'',
     st_claimToken := Some ''tok''\<rparr>"

lemma node_schedule_runs:
  "outcome (triggerClaimedSchedule base_env node_schedule) (node_db\<lparr>scheduled_tasks := [node_schedule]\<rparr>) = Inr None"
proof -
  have find: "bindE (nodes_findOneOrFail ''n1'' (Some ''w'')) f s = f (sample_node, None) s"
    if "nodes s = [sample_node]" for f :: "node \<times> string option \<Rightarrow> 'a op" and s
    by (rule findOne_single) (simp_all add: that)
  have shape: "st_targetTeamId node_schedule = None" "st_nodeId node_schedule = Some ''n1''" "st_workspaceId node_schedule = ''w''"
    "st_claimToken node_schedule = Some ''tok''" "st_cadence node_schedule = ''minutely''" "st_nextRunAt node_schedule = Some 0"
    "st_timezone node_schedule = ''UTC''" "\<not> st_runAsRoot node_schedule" "st_templateId node_schedule = None"
    by (simp_all add: node_schedule_def team_schedule_def sample_schedule_def)
  have utc: "trim ''UTC'' = ''UTC''" by code_simp
  have nxt: "nextRunOf base_env node_schedule = Inr (computeMinutelyRun 0)"
    by (simp add: nextRunOf_def computeNextScheduledRun_def shape orElse_def assertValidTimeZone_def isValidTimeZone_def
        Let_def base_env_def utc)
  have shell: "bindE (assertRequestedRootAccessAllowed e n ''shell.exec'' p) f = f ()"
    if "\<not> is_true p ''runAsRoot''" for e n p and f :: "unit \<Rightarrow> 'a op"
    using that by (simp add: assertRequestedRootAccessAllowed_def isPackageMutationTaskType_def readShellExecRootRequest_def)
  let ?s = "node_db\<lparr>scheduled_tasks := [node_schedule]\<rparr>"
  have "\<exists>t s1. createScheduledShellTask base_env ''n1'' node_schedule ?s = (Inr t, s1)"
    by (simp add: createScheduledShellTask_def queueTask_def Let_def assertWorkspaceWritable_def find_row_def shape find
        assertNodeAcceptingNewWork_def shell announceTask_def shouldBroadcastTask_def new_task_def event_workspace_def is_true_def)
  then obtain t s1 where t: "createScheduledShellTask base_env ''n1'' node_schedule ?s = (Inr t, s1)" by blast
  have run: "runScheduleOn base_env node_schedule sample_node ?s = (Inr (t_id t), s1)"
    using t by (simp add: runScheduleOn_def shape bindE_def)
  have "\<exists>s'. finishRun base_env node_schedule [t_id t] s1 = (Inr (), s')"
    by (simp add: finishRun_def nxt shape bindE_Inr[where m = "updateHeld _ _ _", OF updateHeld_apply])
  then obtain s' where fin: "finishRun base_env node_schedule [t_id t] s1 = (Inr (), s')" by blast
  have "schedule_targets node_schedule ?s = (Inr [sample_node], ?s)"
    by (simp add: schedule_targets_def shape find)
  then have "runSchedule base_env node_schedule ?s = (Inr (), s')"
    using run fin by (simp add: runSchedule_def bindE_def)
  then show ?thesis by (simp add: triggerClaimedSchedule_def catchE_def bindE_def)
qed

theorem schedule_run_spec_witness:
  "\<exists>t. tasks (after (triggerClaimedSchedule base_env node_schedule) (node_db\<lparr>scheduled_tasks := [node_schedule]\<rparr>)) = [t] \<and>
     t_nodeId t = ''n1''"
proof -
  let ?s = "node_db\<lparr>scheduled_tasks := [node_schedule]\<rparr>"
  obtain s' where run: "triggerClaimedSchedule base_env node_schedule ?s = (Inr None, s')"
    using node_schedule_runs by (cases "triggerClaimedSchedule base_env node_schedule ?s") simp
  have "outcome (schedule_targets node_schedule) ?s = Inr [sample_node]"
    by (simp add: schedule_targets_def node_schedule_def findOne_single)
  then show ?thesis using schedule_run_spec[OF run] run by (auto simp: map_eq_Cons_conv)
qed

section \<open>The table of schedules\<close>

definition schedule_ok :: "scheduled_task \<Rightarrow> bool" where
  "schedule_ok sch \<longleftrightarrow>
     (st_enabled sch \<longleftrightarrow> st_nextRunAt sch \<noteq> None) \<and>
     (st_claimToken sch = None \<longleftrightarrow> st_leaseUntil sch = None) \<and> (st_claimToken sch = None \<longleftrightarrow> st_claimedBy sch = None) \<and>
     (st_claimToken sch \<noteq> None \<longrightarrow> st_enabled sch) \<and>
     (st_nodeId sch = None \<longleftrightarrow> st_targetTeamId sch \<noteq> None) \<and>
     2 \<le> length (st_name sch) \<and> st_command sch \<noteq> []"

definition schedules_inv :: "(nat \<Rightarrow> string) \<Rightarrow> db \<Rightarrow> bool" where
  "schedules_inv u s \<longleftrightarrow> drawn_ids u (drawn s) (map st_id (scheduled_tasks s)) \<and> (\<forall>x \<in> set (scheduled_tasks s). schedule_ok x)"

definition idles :: "db \<Rightarrow> db \<Rightarrow> bool" where
  "idles s t \<longleftrightarrow> scheduled_tasks t = scheduled_tasks s \<and> drawn s \<le> drawn t"

interpretation idling: effect_order idles
  by unfold_locales (auto simp: idles_def)

lemma idling_output: "outputs m \<Longrightarrow> idling.confined m"
  by (auto simp: outputs_def idling.confined_def idles_def dest: core_eqD(10))

lemma idling_outputs [simp]:
  "idling.confined (recordEvent e w n ty sev msg md)" "idling.confined (recordAudit e inp ctx)"
  "idling.confined (fresh_id e)" "idling.confined (announceTask e nd t)" "idling.confined (dispatchTaskToNode t)"
  by (simp_all add: idling_output output_announceTask)
     (simp add: idling.confined_def idles_def dispatchTaskToNode_def)

lemma idling_quiet [simp]:
  "idling.confined (nodes_findOneOrFail i w)" "idling.confined (assertWorkspaceWritable j)"
  "idling.confined (assertRequestedRootAccessAllowed e n ty p)" "idling.confined (assertNodeAcceptingNewWork n)"
  "idling.confined (resolveTemplateOrFail i' w')" "idling.confined (assertNodeAllowsTaskRoot e n)"
  "idling.confined (findTeamOrFail w'' tm)" "idling.confined (listTeamOwnedNodes w'' tm)"
  "idling.confined (populateScheduleMetadata rs)"
  unfolding assertNodeAllowsTaskRoot_def assertNodeAllowsRootSurface_def listTeamOwnedNodes_def findTeamOrFail_def
    populateScheduleMetadata_def assertNodeAcceptingNewWork_def resolveTemplateOrFail_def
  by (intro idling.confined_quiet quiet_rules root_policy_quiet nodes_findOneOrFail_quiet assertWorkspaceWritable_quiet)+

lemma idling_queueTask [simp]: "idling.confined (queueTask e inp nd ctx)"
  unfolding queueTask_def Let_def
  by (intro idling.confined_rules idling_outputs idling_quiet idling.confined_writeE) (simp_all add: idles_def)

lemma inv_idle: "schedules_inv u s \<Longrightarrow> idles s t \<Longrightarrow> schedules_inv u t"
  by (auto simp: schedules_inv_def idles_def)

lemma keeps_idling: "idling.confined m \<Longrightarrow> keeps (schedules_inv u) m"
  by (simp add: keeps_def idling.confined_def) (metis inv_idle)

lemma leads_idling:
  "idling.confined m \<Longrightarrow> (\<And>s. schedules_inv u s \<Longrightarrow> Q s) \<Longrightarrow> leads (schedules_inv u) m Q"
  by (simp add: leads_def idling.confined_def) (metis inv_idle)

lemma inv_insert:
  "schedules_inv u s \<Longrightarrow> inj u \<Longrightarrow> schedule_ok r \<Longrightarrow> st_id r = u (drawn s) \<Longrightarrow>
     schedules_inv u (s\<lparr>drawn := Suc (drawn s), scheduled_tasks := scheduled_tasks s @ [r]\<rparr>)"
  using drawn_ids_fresh(2)[of u "drawn s" "map st_id (scheduled_tasks s)" "drawn s" "Suc (drawn s)"]
  by (auto simp: schedules_inv_def)

lemma inv_delete: "schedules_inv u s \<Longrightarrow> schedules_inv u (s\<lparr>scheduled_tasks := delete_rows p (scheduled_tasks s)\<rparr>)"
  using drawn_ids_filter[of u "drawn s" st_id "scheduled_tasks s" p] by (auto simp: schedules_inv_def)

lemma inv_update:
  assumes "schedules_inv u s" "\<And>x. x \<in> set (scheduled_tasks s) \<Longrightarrow> p x \<Longrightarrow> schedule_ok x \<Longrightarrow> schedule_ok (f x) \<and> st_id (f x) = st_id x"
  shows "schedules_inv u (s\<lparr>scheduled_tasks := update_rows p f (scheduled_tasks s)\<rparr>)"
proof -
  have ok: "schedule_ok (f x) \<and> st_id (f x) = st_id x" if "x \<in> set (scheduled_tasks s)" "p x" for x
    using assms that by (auto simp: schedules_inv_def)
  then have "map st_id (update_rows p f (scheduled_tasks s)) = map st_id (scheduled_tasks s)"
    by (intro map_update_rows) auto
  then show ?thesis using assms(1) ok by (auto simp: schedules_inv_def set_update_rows)
qed

lemma inv_save:
  assumes "schedules_inv u s" "schedule_ok r" "st_id r \<in> st_id ` set (scheduled_tasks s)"
  shows "schedules_inv u (s\<lparr>scheduled_tasks := save_row st_id r (scheduled_tasks s)\<rparr>)"
  using assms by (auto simp: schedules_inv_def map_key_save_row set_save_row)

text \<open>Every operation on schedules keeps the invariant.\<close>

lemma normalized_ok:
  assumes "normalizeScheduleInput dto = Inr n"
  shows "2 \<le> length (ns_name n)" "ns_command n \<noteq> []"
  using assms by (auto simp: normalizeScheduleInput_def Let_def split: if_splits)

lemma new_schedule_ok:
  assumes "2 \<le> length (ns_name n)" "ns_command n \<noteq> []" "nodeId = None \<longleftrightarrow> teamId \<noteq> None"
  shows "schedule_ok (new_schedule e owner w n nodeId teamId template (Some t) i)"
    "st_id (new_schedule e owner w n nodeId teamId template (Some t) i) = i"
  using assms by (simp_all add: schedule_ok_def new_schedule_def)

lemma keeps_saveNewSchedule:
  assumes "inj (e_uuid e)" "\<And>i. schedule_ok (row i) \<and> st_id (row i) = i"
  shows "keeps (schedules_inv (e_uuid e)) (saveNewSchedule e row)"
  using assms inv_insert[of "e_uuid e"] by (auto simp: keeps_def saveNewSchedule_def)

lemma keeps_optionalTemplate: "keeps I (optionalTemplate i w)"
  unfolding optionalTemplate_def resolveTemplateOrFail_def by (intro keeps_rules)

lemma keeps_createForNodes:
  assumes "inj (e_uuid e)" "2 \<le> length (ns_name n)" "ns_command n \<noteq> []"
  shows "keeps (schedules_inv (e_uuid e)) (createSchedulesForNodes e owner w ids n tpl ctx)"
  unfolding createSchedulesForNodes_def createScheduleForNode_def
  by (intro keeps_rules keeps_optionalTemplate keeps_saveNewSchedule[OF assms(1)])
     (simp_all add: keeps_idling new_schedule_ok[OF assms(2,3)] split: prod.split)

lemma keeps_createForTeam:
  assumes "inj (e_uuid e)" "2 \<le> length (ns_name n)" "ns_command n \<noteq> []"
  shows "keeps (schedules_inv (e_uuid e)) (createSchedulesForTeam e owner w team n tpl ctx)"
  unfolding createSchedulesForTeam_def
  by (intro keeps_rules keeps_optionalTemplate keeps_saveNewSchedule[OF assms(1)])
     (simp_all add: keeps_idling new_schedule_ok[OF assms(2,3)] split: prod.split)

lemma keeps_create: "inj (e_uuid e) \<Longrightarrow> keeps (schedules_inv (e_uuid e)) (schedules_create e owner w dto ctx)"
  and keeps_createBatch: "inj (e_uuid e) \<Longrightarrow> keeps (schedules_inv (e_uuid e)) (schedules_createBatch e owner w ids dto ctx)"
  unfolding keeps_def
proof -
  have owner: "quiet (findOwnerOrFail owner)" by (simp add: findOwnerOrFail_def)
  have space: "quiet (resolveWorkspace w o')" for o'
    unfolding resolveWorkspace_def findMembershipForUser_def getDefaultWorkspaceOrFail_def
    by (intro quiet_rules assertWorkspaceWritable_quiet) (simp split: list.split)
  assume inj: "inj (e_uuid e)"
  have "leads (schedules_inv (e_uuid e)) (schedules_create e owner w dto ctx) (schedules_inv (e_uuid e))"
    unfolding schedules_create_def
  proof (intro leads_after_quiet[OF owner] leads_after_quiet[OF space], goal_cases)
    case (3 o' ws)
    show ?case
    proof (cases "normalizeScheduleInput dto")
      case (Inr n)
      have "keeps (schedules_inv (e_uuid e)) (bindE (if truthy (sd_teamId dto)
            then createSchedulesForTeam e o' ws (the (sd_teamId dto)) n (sd_templateId dto) ctx
            else bindE (someE (sd_nodeId dto) (InternalError ''TypeError'')) (\<lambda>nodeId.
              createSchedulesForNodes e o' ws [nodeId] n (sd_templateId dto) ctx)) (\<lambda>saved. ret (hd saved)))"
        by (intro keeps_rules keeps_createForTeam keeps_createForNodes inj normalized_ok[OF Inr])
      then show ?thesis by (simp add: Inr leads_keeps)
    qed (simp add: leads_def)
  qed simp_all
  then show "\<forall>s. schedules_inv (e_uuid e) s \<longrightarrow> schedules_inv (e_uuid e) (after (schedules_create e owner w dto ctx) s)"
    by (simp add: leads_def)
  have "leads (schedules_inv (e_uuid e)) (schedules_createBatch e owner w ids dto ctx) (schedules_inv (e_uuid e))"
    unfolding schedules_createBatch_def
  proof (intro leads_after_quiet[OF owner] leads_after_quiet[OF space], goal_cases)
    case (3 o' ws)
    show ?case
    proof (cases "normalizeScheduleInput dto")
      case (Inr n)
      then show ?thesis using keeps_createForNodes[OF inj normalized_ok[OF Inr]] by (simp add: leads_keeps)
    qed (simp add: leads_def)
  qed simp_all
  then show "\<forall>s. schedules_inv (e_uuid e) s \<longrightarrow> schedules_inv (e_uuid e) (after (schedules_createBatch e owner w ids dto ctx) s)"
    by (simp add: leads_def)
qed

lemma keeps_delete: "keeps (schedules_inv u) (schedules_delete e i w ctx)"
  unfolding schedules_delete_def schedules_findOneOrFail_def populateScheduleMetadata_def
  by (intro keeps_rules keeps_idling[OF idling_quiet(2)]) (auto simp: keeps_idling inv_delete split: prod.split intro!: keeps_rules)

lemma held_keeps:
  assumes "\<And>x. schedule_ok x \<Longrightarrow> st_claimToken x \<noteq> None \<Longrightarrow>
    schedule_ok ((f x)\<lparr>st_claimToken := None, st_claimedBy := None, st_leaseUntil := None, st_updatedAt := e_now e\<rparr>) \<and> st_id (f x) = st_id x"
  shows "keeps (schedules_inv u) (updateHeld e sch f)"
  unfolding updateHeld_def by (rule keeps_writeE) (rule inv_update, use assms in auto)

lemma quiet_schedule_targets: "quiet (schedule_targets sch)"
  unfolding schedule_targets_def listTeamOwnedNodes_def findTeamOrFail_def by (intro quiet_rules)

lemma keeps_trigger: "keeps (schedules_inv u) (triggerClaimedSchedule e sch)"
proof -
  have root: "quiet (if st_runAsRoot sch then assertNodeAllowsTaskRoot e n else ret ())" for n
    unfolding assertNodeAllowsTaskRoot_def assertNodeAllowsRootSurface_def by (intro quiet_rules)
  have one: "keeps (schedules_inv u) (runScheduleOn e sch n)" for n
    unfolding runScheduleOn_def createScheduledShellTask_def
    by (intro keeps_rules quiet_keeps[OF root] keeps_idling[OF idling_queueTask])
  show ?thesis
    unfolding triggerClaimedSchedule_def runSchedule_def finishRun_def failSchedule_def
    by (intro keeps_catchE keeps_rules one quiet_keeps[OF quiet_schedule_targets] held_keeps keeps_idling[OF idling_outputs(1)])
      (auto simp: schedule_ok_def)
qed

lemma claimed_ok: "schedule_ok x \<Longrightarrow> schedule_ready now x \<Longrightarrow> schedule_ok (claim_schedule now who token x)"
  by (auto simp: schedule_ok_def schedule_ready_def claim_schedule_def)

lemma keeps_claim:
  assumes "\<And>f s. f \<in> set rs \<Longrightarrow> schedules_inv u s \<Longrightarrow> schedules_inv u (f s)"
  shows "keeps (schedules_inv u) (claimNextDueSchedule e who rs)"
  using assms
proof (induction rs)
  case Nil
  show ?case
    by (subst claimNextDueSchedule.simps) (intro keeps_rules keeps_idling[OF idling_outputs(3)], simp)
next
  case (Cons f rs)
  have upd: "keeps (schedules_inv u) (writeE (\<lambda>s. s\<lparr>scheduled_tasks := update_rows (\<lambda>x. st_id x = j \<and> schedule_ready (e_now e) x)
      (claim_schedule (e_now e) who token) (scheduled_tasks s)\<rparr>))" for j token
    by (rule keeps_writeE) (rule inv_update, auto simp: claimed_ok, simp add: claim_schedule_def)
  have others: "keeps (schedules_inv u) (writeE f)" by (rule keeps_writeE) (simp add: Cons.prems)
  have again: "keeps (schedules_inv u) (claimNextDueSchedule e who rs)" by (rule Cons.IH) (simp add: Cons.prems)
  show ?case
    by (subst claimNextDueSchedule.simps, unfold Let_def list.case)
      (intro keeps_bindE keeps_case_option keeps_readE keeps_ret keeps_idling[OF idling_outputs(3)] upd others again)
qed

lemma switched_ok: "schedule_ok sch \<Longrightarrow> en = (t \<noteq> None) \<Longrightarrow> schedule_ok (switched en t sch)"
  by (auto simp: schedule_ok_def switched_def)

lemma touched_ok:
  "schedule_ok new \<Longrightarrow> schedule_ok (touched (\<lambda>d x. x\<lparr>st_updatedAt := d\<rparr>) t old new)"
  "st_id (touched (\<lambda>d x. x\<lparr>st_updatedAt := d\<rparr>) t old new) = st_id new"
  by (auto simp: touched_def schedule_ok_def)

lemma keeps_updateEnabled: "keeps (schedules_inv u) (updateEnabled e i en w ctx)"
proof -
  let ?held = "\<lambda>sch s. schedules_inv u s \<and> sch \<in> set (scheduled_tasks s)"
  have rest: "leads (schedules_inv u) (bindE (recordEvent e w' n ty sev msg md) (\<lambda>_. bindE (recordAudit e inp ctx) (\<lambda>_. ret x)))
      (schedules_inv u)" for w' n ty sev msg md inp and x :: schedule_view
    by (rule leads_idling) (intro idling.confined_rules idling_outputs, simp)
  have save: "leads (?held sch) (bindE (saveSchedule e sch (switched en t sch)) f) (schedules_inv u)"
    if "en = (t \<noteq> None)" "\<And>x. leads (schedules_inv u) (f x) (schedules_inv u)" for sch t and f :: "scheduled_task \<Rightarrow> schedule_view op"
  proof (rule leads_seq[where R = "schedules_inv u"])
    have "schedules_inv u (s\<lparr>scheduled_tasks := save_row st_id (touched (\<lambda>d x. x\<lparr>st_updatedAt := d\<rparr>) (e_now e) sch
        (switched en t sch)) (scheduled_tasks s)\<rparr>)" if "?held sch s" for s
      using that \<open>en = (t \<noteq> None)\<close>
      by (intro inv_save touched_ok switched_ok) (auto simp: schedules_inv_def touched_ok switched_def)
    then show "leads (?held sch) (saveSchedule e sch (switched en t sch)) (schedules_inv u)"
      by (simp add: leads_def saveSchedule_def Let_def)
  qed (use that in simp_all)
  have body: "leads (?held sch) (bindE (assertWorkspaceWritable (st_workspaceId sch)) (\<lambda>_.
     bindE (if en then bindE (liftE (computeNextScheduledRun e sch (e_now e))) (\<lambda>t. ret (Some t)) else ret None) (\<lambda>t.
     bindE (saveSchedule e sch (switched en t sch)) (f t)))) (schedules_inv u)"
    if rest: "\<And>t x. leads (schedules_inv u) (f t x) (schedules_inv u)" for sch and f :: "int option \<Rightarrow> scheduled_task \<Rightarrow> schedule_view op"
  proof (rule leads_after_quiet[OF assertWorkspaceWritable_quiet])
    have q: "quiet (if en then bindE (liftE (computeNextScheduledRun e sch (e_now e))) (\<lambda>t. ret (Some t)) else ret None)"
      by (intro quiet_rules)
    show "leads (?held sch) (bindE (if en then bindE (liftE (computeNextScheduledRun e sch (e_now e))) (\<lambda>t. ret (Some t)) else ret None)
        (\<lambda>t. bindE (saveSchedule e sch (switched en t sch)) (f t))) (schedules_inv u)"
    proof (rule leads_outcome[OF q])
      fix t
      show "leads (\<lambda>s. ?held sch s \<and> outcome (if en then bindE (liftE (computeNextScheduledRun e sch (e_now e)))
          (\<lambda>t. ret (Some t)) else ret None) s = Inr t) (bindE (saveSchedule e sch (switched en t sch)) (f t)) (schedules_inv u)"
      proof (cases "en = (t \<noteq> None)")
        case True
        then show ?thesis by (rule leads_weaken[OF save[OF _ rest]]) simp
      qed (auto simp: leads_def split: if_splits sum.splits)
    qed simp
  qed simp
  show ?thesis
  proof (rule keepsI)
    fix s assume inv: "schedules_inv u s"
    show "schedules_inv u (after (updateEnabled e i en w ctx) s)"
    proof (cases "find_row (\<lambda>sch. st_id sch = i \<and> if_given w (\<lambda>w. st_workspaceId sch = w)) (scheduled_tasks s)")
      case None
      then show ?thesis using inv by (simp add: updateEnabled_def schedules_findOneOrFail_def)
    next
      case (Some sch)
      then have "?held sch s" using inv by (auto dest: find_row_Some)
      then show ?thesis
        unfolding updateEnabled_def schedules_findOneOrFail_def populateScheduleMetadata_def bindE_assoc
        by (simp only: bindE_findE Some option.case bindE_readE list.map list.sel prod.case bindE_ret)
          (rule leadsD[OF body[OF rest]])
    qed
  qed
qed

lemma forE_quiet_results:
  assumes "\<And>x. quiet (f x)" "forE f xs s = (Inr ys, s')" "\<And>x y. x \<in> set xs \<Longrightarrow> f x s = (Inr y, s) \<Longrightarrow> P y"
  shows "\<forall>y \<in> set ys. P y"
  using assms(2,3)
proof (induction xs arbitrary: ys s')
  case (Cons x xs)
  obtain y where y: "f x s = (Inr y, s)" "bindE (forE f xs) (\<lambda>ys. ret (y # ys)) s = (Inr ys, s')"
    using bindE_quiet_success[OF assms(1) Cons.prems(1)[unfolded forE.simps]] by blast
  then obtain zs t where zs: "forE f xs s = (Inr zs, t)" "ys = y # zs" by (auto simp: bindE_success)
  have "\<forall>y \<in> set zs. P y" by (rule Cons.IH[OF zs(1)]) (use Cons.prems(2) in auto)
  moreover have "P y" by (rule Cons.prems(2)[OF _ y(1)]) simp
  ultimately show ?case using zs(2) by simp
qed simp

lemma inv_fold_save:
  assumes "schedules_inv u s" "\<forall>r \<in> set rs. schedule_ok r \<and> st_id r \<in> st_id ` set (scheduled_tasks s)"
  shows "schedules_inv u (s\<lparr>scheduled_tasks := fold (save_row st_id) rs (scheduled_tasks s)\<rparr>)"
  using assms
proof (induction rs arbitrary: s)
  case (Cons r rs)
  let ?t = "s\<lparr>scheduled_tasks := save_row st_id r (scheduled_tasks s)\<rparr>"
  have ids: "st_id ` set (scheduled_tasks ?t) = st_id ` set (scheduled_tasks s)"
    using Cons.prems(2) by (auto simp: set_save_row image_iff)
  have "schedules_inv u ?t" using Cons.prems by (intro inv_save) auto
  from Cons.IH[OF this] show ?case using Cons.prems(2) ids by simp
qed simp

lemma keeps_recompute: "keeps (schedules_inv u) (recomputeWorkspaceSchedules e i tz)"
proof (rule keepsI)
  fix s assume inv: "schedules_inv u s"
  let ?rows = "sort_key st_createdAt (filter (\<lambda>sch. st_workspaceId sch = i \<and> st_timezoneSource sch = ''workspace'') (scheduled_tasks s))"
  define one where "one = (\<lambda>old. let sch = old\<lparr>st_timezone := tz, st_claimToken := None, st_claimedBy := None, st_leaseUntil := None\<rparr>
    in bindE (if st_enabled sch then bindE (liftE (computeNextScheduledRun e sch (e_now e))) (\<lambda>t. ret (Some t)) else ret None)
         (\<lambda>t'. ret (touched (\<lambda>t r. r\<lparr>st_updatedAt := t\<rparr>) (e_now e) old (sch\<lparr>st_nextRunAt := t'\<rparr>)) :: scheduled_task op))"
  have q: "quiet (one old)" for old unfolding one_def Let_def by (intro quiet_rules)
  have ok: "schedule_ok y \<and> st_id y = st_id old" if sok: "schedule_ok old" and run: "one old s = (Inr y, s)" for old y
  proof -
    obtain t where t: "y = touched (\<lambda>t r. r\<lparr>st_updatedAt := t\<rparr>) (e_now e) old (old\<lparr>st_timezone := tz, st_claimToken := None,
        st_claimedBy := None, st_leaseUntil := None, st_nextRunAt := t\<rparr>)" "st_enabled old = (t \<noteq> None)"
      using run by (cases "st_enabled old") (auto simp: one_def Let_def split: sum.splits)
    with sok have "schedule_ok (old\<lparr>st_timezone := tz, st_claimToken := None, st_claimedBy := None, st_leaseUntil := None, st_nextRunAt := t\<rparr>)"
      by (auto simp: schedule_ok_def)
    then have "schedule_ok y" unfolding t(1) by (rule touched_ok)
    moreover have "st_id y = st_id old" unfolding t(1) touched_ok(2) by simp
    ultimately show ?thesis by blast
  qed
  have "quiet (forE one ?rows)" by (rule quiet_forE) (rule q)
  then have "after (forE one ?rows) s = s" by simp
  then obtain r where r: "forE one ?rows s = (r, s)" by (cases "forE one ?rows s") simp
  have saved: "schedules_inv u (s\<lparr>scheduled_tasks := fold (save_row st_id) ys (scheduled_tasks s)\<rparr>)" if ys: "r = Inr ys" for ys
  proof (rule inv_fold_save[OF inv])
    show "\<forall>y \<in> set ys. schedule_ok y \<and> st_id y \<in> st_id ` set (scheduled_tasks s)"
    proof (rule forE_quiet_results[where f = one and s' = s and xs = ?rows and s = s])
      fix x y assume "x \<in> set ?rows" "one x s = (Inr y, s)"
      then show "schedule_ok y \<and> st_id y \<in> st_id ` set (scheduled_tasks s)"
        using ok[of x y] inv by (auto simp: schedules_inv_def)
    qed (use q r ys in auto)
  qed
  have "recomputeWorkspaceSchedules e i tz s = (case r of Inl err \<Rightarrow> (Inl err, s)
      | Inr ys \<Rightarrow> (Inr (), s\<lparr>scheduled_tasks := fold (save_row st_id) ys (scheduled_tasks s)\<rparr>))"
    unfolding recomputeWorkspaceSchedules_def bindE_readE one_def[symmetric]
    using r by (cases r) (simp_all add: bindE_def)
  then show "schedules_inv u (after (recomputeWorkspaceSchedules e i tz) s)"
    using inv saved by (cases r) simp_all
qed

lemma keeps_updateWorkspace: "keeps (schedules_inv u) (updateWorkspace e i a dto)"
proof -
  have quiet: "keeps (schedules_inv u) (checkWorkspaceUpdate a dto w)" "keeps (schedules_inv u) (changeWorkspace e dto w)" for w
    unfolding checkWorkspaceUpdate_def assertPlatformAdmin_def changeWorkspace_def by (intro keeps_rules)+
  have wrt: "keeps (schedules_inv u) (writeE (\<lambda>s. s\<lparr>workspaces := f s\<rparr>))" for f
    by (rule keeps_writeE) (simp add: schedules_inv_def)
  show ?thesis
    unfolding updateWorkspace_def saveWorkspaceUpdate_def Let_def setDefaultWorkspace_def findWorkspaceForUserOrFail_def
      findWorkspaceOrFail_def findMembershipForUser_def assertWorkspaceAdmin_def
    by (intro keeps_rules keeps_case_prod quiet wrt keeps_recompute keeps_idling[OF idling_outputs(2)])
qed

lemma keeps_deleteNode: "keeps (schedules_inv u) (deleteNode e i w ctx)"
proof -
  have wrt: "keeps (schedules_inv u) (writeE (\<lambda>s. s\<lparr>nodes := ns s, scheduled_tasks := delete_rows p (scheduled_tasks s)\<rparr>))" for ns p
    using inv_delete[of u _ p] by (intro keeps_writeE) (simp add: schedules_inv_def)
  show ?thesis unfolding deleteNode_def
    by (intro keeps_rules keeps_case_prod wrt quiet_keeps[OF nodes_findOneOrFail_quiet] quiet_keeps[OF assertWorkspaceWritable_quiet]
        keeps_idling[OF idling_outputs(2)])
qed

lemma keeps_deleteWorkspace: "keeps (schedules_inv u) (deleteWorkspace e i a)"
proof -
  have wrt: "keeps (schedules_inv u) (writeE (remove_workspace j))" for j
    using inv_delete[of u] by (intro keeps_writeE) (simp add: schedules_inv_def remove_workspace_def remove_teams_def Let_def)
  show ?thesis unfolding deleteWorkspace_def findWorkspaceForUserOrFail_def findWorkspaceOrFail_def
      findMembershipForUser_def assertWorkspaceAdmin_def
    by (intro keeps_rules keeps_case_prod wrt quiet_keeps[OF assertWorkspaceWritable_quiet] keeps_idling[OF idling_outputs(2)])
qed

text \<open>What may change the schedules: the operations of this service, the runner, the removal of a node or a
  workspace, a change of a workspace's time zone, and anything that leaves the table alone. What
  happens between the select and the update of a claim is itself any change that keeps the invariant.\<close>

inductive schedule_step :: "(nat \<Rightarrow> string) \<Rightarrow> db \<Rightarrow> db \<Rightarrow> bool" for u where
  create: "e_uuid e = u \<Longrightarrow> schedule_step u s (after (schedules_create e owner w dto ctx) s)"
| batch: "e_uuid e = u \<Longrightarrow> schedule_step u s (after (schedules_createBatch e owner w ids dto ctx) s)"
| switch: "schedule_step u s (after (updateEnabled e i en w ctx) s)"
| delete: "schedule_step u s (after (schedules_delete e i w ctx) s)"
| claim: "(\<And>f t. f \<in> set rs \<Longrightarrow> schedules_inv u t \<Longrightarrow> schedules_inv u (f t)) \<Longrightarrow>
    schedule_step u s (after (claimNextDueSchedule e who rs) s)"
| trigger: "schedule_step u s (after (triggerClaimedSchedule e sch) s)"
| node_gone: "schedule_step u s (after (deleteNode e i w ctx) s)"
| workspace_gone: "schedule_step u s (after (deleteWorkspace e i a) s)"
| workspace_changed: "schedule_step u s (after (updateWorkspace e i a upd) s)"
| elsewhere: "idles s t \<Longrightarrow> schedule_step u s t"

interpretation schedule_system: transition_system "\<lambda>s. scheduled_tasks s = []" "\<lambda>s t. inj u \<and> schedule_step u s t"
    "schedules_inv u" for u
proof
  show "schedules_inv u s" if "scheduled_tasks s = []" for s
    using that by (simp add: schedules_inv_def drawn_ids_def)
  show "schedules_inv u t" if step: "inj u \<and> schedule_step u s t" and inv: "schedules_inv u s" for s t
  proof -
    have "inj u" using step by blast
    from conjunct2[OF step] show ?thesis
    proof cases
      case (claim rs e who)
      then show ?thesis using keepsD[OF keeps_claim inv] by blast
    next
      case elsewhere
      then show ?thesis by (rule inv_idle[OF inv])
    next
      case (create e owner w dto ctx)
      then show ?thesis using keepsD[OF keeps_create, of e s] \<open>inj u\<close> inv by auto
    next
      case (batch e owner w ids dto ctx)
      then show ?thesis using keepsD[OF keeps_createBatch, of e s] \<open>inj u\<close> inv by auto
    qed (use keepsD[OF keeps_updateEnabled inv]
        keepsD[OF keeps_delete inv] keepsD[OF keeps_trigger inv] keepsD[OF keeps_deleteNode inv]
        keepsD[OF keeps_deleteWorkspace inv] keepsD[OF keeps_updateWorkspace inv] in auto)
  qed
qed


definition sample_owner :: user where
  "sample_owner = \<lparr>u_id = ''u1'', u_email = ''ops@example.com'', u_name = ''Ops'', u_role = PLATFORM_ADMIN,
     u_isActive = True, u_inviteStatus = INVITE_ACCEPTED, u_passwordHash = Some ''hash'', u_timezone = ''UTC'',
     u_lastInvitedAt = None, u_activatedAt = None, u_criticalEventEmailsEnabled = True,
     u_enrollmentEmailsEnabled = True, u_sessionVersion = 0, u_mfaEnabled = False, u_mfaSecretEncrypted = None,
     u_mfaPendingSecretEncrypted = None, u_mfaRecoveryCodes = None, u_mfaEnabledAt = None, u_createdAt = 0, u_updatedAt = 0\<rparr>"

definition sample_schedule_dto :: schedule_dto where
  "sample_schedule_dto = \<lparr>sd_nodeId = Some ''n1'', sd_teamId = None, sd_name = ''nightly'', sd_command = ''df'',
     sd_templateId = None, sd_cadence = ''minutely'', sd_minute = 0, sd_hour = None, sd_dayOfWeek = None,
     sd_intervalMinutes = None, sd_runAsRoot = None\<rparr>"

definition owned_db :: db where
  "owned_db = node_db\<lparr>users := [sample_owner], scheduled_tasks := []\<rparr>"

lemma createScheduleForNode_adds:
  "scheduled_tasks (after (createScheduleForNode e owner w n template nextRunAt ctx nodeId) s) =
     scheduled_tasks s @ [new_schedule e owner w n (Some nodeId) None template (Some nextRunAt) (e_uuid e (drawn s))]"
  by (simp add: createScheduleForNode_def saveNewSchedule_def output_rules
      frames_core(10)[OF output_frames[OF output_bindE]] del: ret_apply)

lemma created_schedule:
  "\<exists>r. scheduled_tasks (after (schedules_create base_env ''u1'' (Some ''w'') sample_schedule_dto None) owned_db) = [r]"
proof -
  have texts: "trim ''nightly'' = ''nightly''" "trim ''df'' = ''df''" "trim ''n1'' = ''n1''" "trim ''UTC'' = ''UTC''" by code_simp+
  have node: "bindE (nodes_findOneOrFail ''n1'' (Some ''w'')) f s = f (sample_node, None) s"
    if "nodes s = [sample_node]" for f :: "node \<times> string option \<Rightarrow> 'a op" and s
    by (rule findOne_single) (simp_all add: that)
  have tz: "w_defaultTimezone owned_workspace = ''UTC''"
    by (simp add: owned_workspace_def sample_workspace_def new_workspace_def sample_dto_def orElse_def)
  have zone: "e_validTimeZone base_env ''UTC''" by (simp add: base_env_def)
  show ?thesis
    by (simp add: schedules_create_def findOwnerOrFail_def owned_db_def find_row_def sample_owner_def resolveWorkspace_def
        assertWorkspaceWritable_def normalizeScheduleInput_def sample_schedule_dto_def texts Let_def
        createSchedulesForNodes_def normalizeNodeIds_def uniq_def optionalTemplate_def node firstRunAt_def
        computeNextScheduledRun_def new_schedule_def tz zone assertValidTimeZone_def isValidTimeZone_def
        createScheduleForNode_adds after_bindE_ret)
qed


end
