(* ===== verification/ReleaseCatalog.thy ===== *)
theory ReleaseCatalog
  imports Prelude
begin

text \<open>
  The catalog of agent releases (\<open>src/modules/agent-updates/agent-release-catalog.service.ts\<close>): manifests
  fetched from the CDN, with GitHub as the second source, normalised, sorted and cached for five minutes.
  The state is the cache. The network is the parameter \<open>web\<close>: what \<open>fetchJson\<close> gives for an address, the parsed
  body or an error. \<open>collate\<close> ranks strings as \<open>localeCompare\<close> orders them.
\<close>

section \<open>Data\<close>

record artifact =
  af_binaryUrl :: string
  af_sha256 :: string

record release =
  re_version :: string
  re_publishedAt :: string
  re_commit :: string
  re_channel :: string
  re_amd64 :: "artifact option"
  re_arm64 :: "artifact option"
  re_notes :: "(string \<times> string list) list"

text \<open>\<open>ReleaseCatalogCache\<close>: \<open>checkedAt\<close> and the releases.\<close>

type_synonym cache = "int \<times> release list"

type_synonym 'a catalog_op = "(cache option, 'a) handler"

record catalog_env =
  ce_now :: int
  ce_web :: "string \<Rightarrow> http_error + json"
  ce_collate :: "string \<Rightarrow> rat"

definition RELEASE_CACHE_TTL_MS :: int where
  "RELEASE_CACHE_TTL_MS = 5 * 60 * 1000"

definition MANIFEST_ASSET_NAME :: string where
  "MANIFEST_ASSET_NAME = ''release-manifest.json''"

definition OFFICIAL_CDN_CATALOG_URL :: string where
  "OFFICIAL_CDN_CATALOG_URL = ''https://cdn.noderax.net/noderax-agent/releases/catalog.json''"

definition OFFICIAL_GITHUB_RELEASES_URL :: string where
  "OFFICIAL_GITHUB_RELEASES_URL = ''https://api.github.com/repos/noderax/noderax-agent/releases?per_page=20''"

definition hex_digit :: "nat \<Rightarrow> char" where
  "hex_digit n = ''0123456789ABCDEF'' ! n"

definition url_safe :: "char \<Rightarrow> bool" where
  "url_safe c \<longleftrightarrow>
     c \<in> set ''ABCDEFGHIJKLMNOPQRSTUVWXYZabcdefghijklmnopqrstuvwxyz0123456789-_.!~*()'' \<or> c = CHR 0x27"

definition encodeURIComponent :: "string \<Rightarrow> string" where
  "encodeURIComponent xs =
     concat (map (\<lambda>c. if url_safe c then [c]
       else [CHR ''%'', hex_digit (of_char c div 16), hex_digit (of_char c mod 16)]) xs)"

definition OFFICIAL_CDN_RELEASE_MANIFEST :: "string \<Rightarrow> string" where
  "OFFICIAL_CDN_RELEASE_MANIFEST version =
     ''https://cdn.noderax.net/noderax-agent/releases/'' @ encodeURIComponent version @ ''/release-manifest.json''"

definition OFFICIAL_GITHUB_RELEASE_BY_TAG_URL :: "string \<Rightarrow> string" where
  "OFFICIAL_GITHUB_RELEASE_BY_TAG_URL version =
     ''https://api.github.com/repos/noderax/noderax-agent/releases/tags/agent-v'' @ encodeURIComponent version"

section \<open>Normalising\<close>

text \<open>A member of an object; \<open>None\<close> is \<open>undefined\<close>.\<close>

fun member :: "string \<Rightarrow> json \<Rightarrow> json option" where
  "member k (JObj ob) = jget ob k"
| "member k _ = None"

definition readString :: "json option \<Rightarrow> string option" where
  "readString v = (case v of Some (JStr x) \<Rightarrow> (if trim x = [] then None else Some (trim x)) | _ \<Rightarrow> None)"

definition normalizeArtifact :: "json option \<Rightarrow> artifact option" where
  "normalizeArtifact v =
     (case v of
        Some (JObj ob) \<Rightarrow>
          (case (readString (jget ob ''binaryUrl''), readString (jget ob ''sha256'')) of
             (Some binaryUrl, Some sha256) \<Rightarrow> Some \<lparr>af_binaryUrl = binaryUrl, af_sha256 = sha256\<rparr>
           | _ \<Rightarrow> None)
      | _ \<Rightarrow> None)"

definition normalizeArtifacts :: "json option \<Rightarrow> (artifact option \<times> artifact option) option" where
  "normalizeArtifacts v =
     (case v of
        Some (JObj ob) \<Rightarrow>
          (let amd64 = normalizeArtifact (jget ob ''amd64''); arm64 = normalizeArtifact (jget ob ''arm64'')
           in if amd64 = None \<and> arm64 = None then None else Some (amd64, arm64))
      | _ \<Rightarrow> None)"

definition normalizeSection :: "json \<Rightarrow> (string \<times> string list) option" where
  "normalizeSection v =
     (case v of
        JObj ob \<Rightarrow>
          (let items = (case jget ob ''items'' of
                 Some (JArr xs) \<Rightarrow> List.map_filter (\<lambda>x. readString (Some x)) xs | _ \<Rightarrow> [])
           in case readString (jget ob ''title'') of
                None \<Rightarrow> None
              | Some title \<Rightarrow> (if items = [] then None else Some (title, items)))
      | _ \<Rightarrow> None)"

definition normalizeNotes :: "json option \<Rightarrow> (string \<times> string list) list option" where
  "normalizeNotes v =
     (case v of
        Some (JArr xs) \<Rightarrow> (let sections = List.map_filter normalizeSection xs in if sections = [] then None else Some sections)
      | _ \<Rightarrow> None)"

definition normalizeManifest :: "json \<Rightarrow> release option" where
  "normalizeManifest v =
     (case v of
        JObj ob \<Rightarrow>
          (case (readString (jget ob ''version''), readString (jget ob ''publishedAt''),
                 readString (jget ob ''commit''), normalizeArtifacts (jget ob ''artifacts''),
                 normalizeNotes (jget ob ''notes'')) of
             (Some version, Some publishedAt, Some commit, Some (amd64, arm64), Some notes) \<Rightarrow>
               (if readString (jget ob ''channel'') = Some ''tag''
                then Some \<lparr>re_version = version, re_publishedAt = publishedAt, re_commit = commit, re_channel = ''tag'',
                           re_amd64 = amd64, re_arm64 = arm64, re_notes = notes\<rparr>
                else None)
           | _ \<Rightarrow> None)
      | _ \<Rightarrow> None)"

text \<open>\<open>/^agent-v[0-9A-Za-z._-]+$/\<close>\<close>

definition agent_tag :: "string \<Rightarrow> bool" where
  "agent_tag xs \<longleftrightarrow>
     take 7 xs = ''agent-v'' \<and> drop 7 xs \<noteq> [] \<and>
     (\<forall>c \<in> set (drop 7 xs). c \<in> set ''ABCDEFGHIJKLMNOPQRSTUVWXYZabcdefghijklmnopqrstuvwxyz0123456789._-'')"

definition is_set :: "json option \<Rightarrow> bool" where
  "is_set v \<longleftrightarrow> (case v of None \<Rightarrow> False | Some JNull \<Rightarrow> False | Some (JBool b) \<Rightarrow> b | Some (JNum n) \<Rightarrow> n \<noteq> 0
     | Some (JDec q) \<Rightarrow> q \<noteq> 0 | Some (JStr x) \<Rightarrow> x \<noteq> [] | Some (JArr _) \<Rightarrow> True | Some (JObj _) \<Rightarrow> True)"

definition isSupportedGithubRelease :: "json \<Rightarrow> bool" where
  "isSupportedGithubRelease v \<longleftrightarrow>
     \<not> is_set (member ''draft'' v) \<and> \<not> is_set (member ''prerelease'' v) \<and>
     agent_tag (case member ''tag_name'' v of Some (JStr x) \<Rightarrow> trim x | _ \<Rightarrow> [])"

text \<open>The address of the manifest asset, when it has one.\<close>

definition manifest_url :: "json \<Rightarrow> string option" where
  "manifest_url v =
     (case member ''assets'' v of
        Some (JArr xs) \<Rightarrow>
          (case find (\<lambda>a. member ''name'' a = Some (JStr MANIFEST_ASSET_NAME)) xs of
             None \<Rightarrow> None
           | Some a \<Rightarrow> (case member ''browser_download_url'' a of
               Some (JStr url) \<Rightarrow> (if url = [] then None else Some url) | _ \<Rightarrow> None))
      | _ \<Rightarrow> None)"

definition sortReleases :: "catalog_env \<Rightarrow> release list \<Rightarrow> release list" where
  "sortReleases e rs = sort_key (\<lambda>r. - ce_collate e (re_publishedAt r)) rs"

section \<open>Fetching\<close>

definition fetchCatalogFromCdn :: "catalog_env \<Rightarrow> http_error + release list" where
  "fetchCatalogFromCdn e =
     (case ce_web e OFFICIAL_CDN_CATALOG_URL of
        Inl err \<Rightarrow> Inl err
      | Inr payload \<Rightarrow>
          (let raw = (case payload of JArr xs \<Rightarrow> xs
                 | _ \<Rightarrow> (case member ''releases'' payload of Some (JArr xs) \<Rightarrow> xs | _ \<Rightarrow> []));
               releases = List.map_filter normalizeManifest raw
           in if releases = [] then Inl (InternalError ''CDN release catalog is empty'')
              else Inr (sortReleases e releases)))"

text \<open>What one release of the GitHub listing contributes; a manifest that cannot be fetched is skipped.\<close>

definition github_manifest :: "catalog_env \<Rightarrow> json \<Rightarrow> release option" where
  "github_manifest e rel =
     (if \<not> isSupportedGithubRelease rel then None
      else case manifest_url rel of
             None \<Rightarrow> None
           | Some url \<Rightarrow> (case ce_web e url of Inl _ \<Rightarrow> None | Inr manifest \<Rightarrow> normalizeManifest manifest))"

definition fetchCatalogFromGithub :: "catalog_env \<Rightarrow> http_error + release list" where
  "fetchCatalogFromGithub e =
     (case ce_web e OFFICIAL_GITHUB_RELEASES_URL of
        Inl err \<Rightarrow> Inl err
      | Inr (JArr rels) \<Rightarrow>
          (let manifests = List.map_filter (github_manifest e) rels
           in if manifests = [] then Inl (InternalError ''GitHub release fallback did not return any manifests'')
              else Inr (sortReleases e manifests))
      | Inr _ \<Rightarrow> Inl (InternalError ''releases is not iterable''))"

definition fetchReleaseFromCdn :: "catalog_env \<Rightarrow> string \<Rightarrow> http_error + release" where
  "fetchReleaseFromCdn e version =
     (case ce_web e (OFFICIAL_CDN_RELEASE_MANIFEST version) of
        Inl err \<Rightarrow> Inl err
      | Inr manifest \<Rightarrow>
          (case normalizeManifest manifest of
             None \<Rightarrow> Inl (InternalError (''CDN manifest for '' @ version @ '' is invalid''))
           | Some r \<Rightarrow> Inr r))"

definition fetchReleaseFromGithub :: "catalog_env \<Rightarrow> string \<Rightarrow> http_error + release option" where
  "fetchReleaseFromGithub e version =
     (case ce_web e (OFFICIAL_GITHUB_RELEASE_BY_TAG_URL version) of
        Inl err \<Rightarrow> Inl err
      | Inr rel \<Rightarrow>
          (if \<not> isSupportedGithubRelease rel then Inr None
           else case manifest_url rel of
                  None \<Rightarrow> Inr None
                | Some url \<Rightarrow> (case ce_web e url of Inl err \<Rightarrow> Inl err | Inr manifest \<Rightarrow> Inr (normalizeManifest manifest))))"

section \<open>The cache\<close>

definition isCacheStale :: "catalog_env \<Rightarrow> cache \<Rightarrow> bool" where
  "isCacheStale e c \<longleftrightarrow> ce_now e - fst c > RELEASE_CACHE_TTL_MS"

definition refreshCatalog :: "catalog_env \<Rightarrow> cache catalog_op" where
  "refreshCatalog e =
     (case fetchCatalogFromCdn e of
        Inr releases \<Rightarrow> bindE (writeE (\<lambda>_. Some (ce_now e, releases))) (\<lambda>_. ret (ce_now e, releases))
      | Inl _ \<Rightarrow>
          (case fetchCatalogFromGithub e of
             Inr releases \<Rightarrow> bindE (writeE (\<lambda>_. Some (ce_now e, releases))) (\<lambda>_. ret (ce_now e, releases))
           | Inl err \<Rightarrow> throw err))"

definition getCatalog :: "catalog_env \<Rightarrow> bool \<Rightarrow> cache catalog_op" where
  "getCatalog e forceRefresh =
     bindE (readE (\<lambda>s. s)) (\<lambda>cached.
     if \<not> forceRefresh \<and> cached \<noteq> None \<and> \<not> isCacheStale e (the cached) then ret (the cached)
     else
       catchE (refreshCatalog e) (\<lambda>_.
         case cached of
           Some c \<Rightarrow> ret c
         | None \<Rightarrow> bindE (writeE (\<lambda>_. Some (ce_now e, []))) (\<lambda>_. ret (ce_now e, []))))"

definition findRelease :: "catalog_env \<Rightarrow> string \<Rightarrow> release option catalog_op" where
  "findRelease e version =
     (let v = trim version
      in if v = [] then ret None
         else
           bindE (getCatalog e False) (\<lambda>(_, releases).
           case find (\<lambda>r. re_version r = v) releases of
             Some r \<Rightarrow> ret (Some r)
           | None \<Rightarrow>
               (case fetchReleaseFromCdn e v of
                  Inr r \<Rightarrow> ret (Some r)
                | Inl _ \<Rightarrow> (case fetchReleaseFromGithub e v of Inr r \<Rightarrow> ret r | Inl _ \<Rightarrow> ret None))))"

end
