(* ===== verification/AgentUpdates.thy ===== *)
theory AgentUpdates
  imports TaskLifecycle ReleaseCatalog
begin

text \<open>
  Rollouts of agent releases (\<open>src/modules/agent-updates/agent-updates.service.ts\<close>): one definition
  per method. A rollout updates its target nodes one after the other; the agent's progress reports, the
  version it reports on reconnecting, and a monitor that runs every fifteen seconds move the targets.
  The release catalog is asked through \<open>release_service\<close>, and \<open>readPlatformUpdateState\<close> (a file of the
  installer) through its answer: operation and status of the last platform update, \<open>None\<close> when there is
  none or it cannot be read.
\<close>

section \<open>Data\<close>

fun target_status_str :: "target_status \<Rightarrow> string" where
  "target_status_str TG_PENDING = ''pending''"
| "target_status_str TG_DISPATCHED = ''dispatched''"
| "target_status_str TG_DOWNLOADING = ''downloading''"
| "target_status_str TG_VERIFYING = ''verifying''"
| "target_status_str TG_INSTALLING = ''installing''"
| "target_status_str TG_RESTARTING = ''restarting''"
| "target_status_str TG_WAITING_FOR_RECONNECT = ''waiting_for_reconnect''"
| "target_status_str TG_COMPLETED = ''completed''"
| "target_status_str TG_FAILED = ''failed''"
| "target_status_str TG_SKIPPED = ''skipped''"
| "target_status_str TG_CANCELLED = ''cancelled''"

definition AGENT_UPDATE_TARGET_ACTIVE_STATUSES :: "target_status list" where
  "AGENT_UPDATE_TARGET_ACTIVE_STATUSES =
     [TG_DISPATCHED, TG_DOWNLOADING, TG_VERIFYING, TG_INSTALLING, TG_RESTARTING, TG_WAITING_FOR_RECONNECT]"

definition AGENT_UPDATE_TARGET_TERMINAL_STATUSES :: "target_status list" where
  "AGENT_UPDATE_TARGET_TERMINAL_STATUSES = [TG_COMPLETED, TG_FAILED, TG_SKIPPED, TG_CANCELLED]"

definition SUPPORTED_ARCHES :: "string list" where
  "SUPPORTED_ARCHES = [''amd64'', ''arm64'']"

record rollout_dto =
  rd_nodeIds :: "string list"
  rd_version :: "string option"
  rd_rollback :: "bool option"

record progress_dto =
  pd_status :: target_status
  pd_percent :: int
  pd_message :: "string option"

record release_service =
  rs_releases :: "release list"
  rs_checkedAt :: "int option"
  rs_findRelease :: "string \<Rightarrow> release option"

text \<open>What the interface shows of a target and of a rollout.\<close>

record target_view =
  tv_id :: string
  tv_rolloutId :: string
  tv_nodeId :: string
  tv_workspaceId :: string
  tv_teamId :: "string option"
  tv_nodeNameSnapshot :: string
  tv_previousVersion :: "string option"
  tv_targetVersion :: string
  tv_status :: target_status
  tv_progressPercent :: int
  tv_statusMessage :: "string option"
  tv_taskId :: "string option"
  tv_sequence :: nat
  tv_dispatchedAt :: "string option"
  tv_completedAt :: "string option"
  tv_createdAt :: string
  tv_updatedAt :: string

record rollout_counts =
  rc_total :: nat
  rc_completed :: nat
  rc_failed :: nat
  rc_skipped :: nat
  rc_active :: nat
  rc_pending :: nat

record rollout_view =
  rv_id :: string
  rv_targetVersion :: string
  rv_status :: rollout_status
  rv_rollback :: bool
  rv_requestedByUserId :: "string option"
  rv_requestedByEmailSnapshot :: "string option"
  rv_statusMessage :: "string option"
  rv_startedAt :: "string option"
  rv_completedAt :: "string option"
  rv_cancelledAt :: "string option"
  rv_counts :: rollout_counts
  rv_targets :: "target_view list"
  rv_createdAt :: string
  rv_updatedAt :: string

definition toTargetDto :: "rollout_target \<Rightarrow> target_view" where
  "toTargetDto t =
     \<lparr>tv_id = rt_id t, tv_rolloutId = rt_rolloutId t, tv_nodeId = rt_nodeId t, tv_workspaceId = rt_workspaceId t,
      tv_teamId = rt_teamId t, tv_nodeNameSnapshot = rt_nodeNameSnapshot t, tv_previousVersion = rt_previousVersion t,
      tv_targetVersion = rt_targetVersion t, tv_status = rt_status t, tv_progressPercent = rt_progressPercent t,
      tv_statusMessage = rt_statusMessage t, tv_taskId = rt_taskId t, tv_sequence = rt_sequence t,
      tv_dispatchedAt = map_option toISOString (rt_dispatchedAt t),
      tv_completedAt = map_option toISOString (rt_completedAt t),
      tv_createdAt = toISOString (rt_createdAt t), tv_updatedAt = toISOString (rt_updatedAt t)\<rparr>"

definition active_status :: "target_status \<Rightarrow> bool" where
  "active_status st \<longleftrightarrow> st \<in> set AGENT_UPDATE_TARGET_ACTIVE_STATUSES"

definition isTargetTerminal :: "target_status \<Rightarrow> bool" where
  "isTargetTerminal st \<longleftrightarrow> st \<in> set AGENT_UPDATE_TARGET_TERMINAL_STATUSES"

definition toCountsDto :: "rollout_target list \<Rightarrow> rollout_counts" where
  "toCountsDto ts =
     \<lparr>rc_total = length ts, rc_completed = count_rows (\<lambda>t. rt_status t = TG_COMPLETED) ts,
      rc_failed = count_rows (\<lambda>t. rt_status t = TG_FAILED) ts,
      rc_skipped = count_rows (\<lambda>t. rt_status t = TG_SKIPPED) ts,
      rc_active = count_rows (\<lambda>t. active_status (rt_status t)) ts,
      rc_pending = count_rows (\<lambda>t. rt_status t = TG_PENDING) ts\<rparr>"

definition toRolloutDto :: "rollout \<Rightarrow> rollout_target list \<Rightarrow> rollout_view" where
  "toRolloutDto r ts =
     \<lparr>rv_id = ro_id r, rv_targetVersion = ro_targetVersion r, rv_status = ro_status r, rv_rollback = ro_rollback r,
      rv_requestedByUserId = ro_requestedByUserId r, rv_requestedByEmailSnapshot = ro_requestedByEmailSnapshot r,
      rv_statusMessage = ro_statusMessage r, rv_startedAt = map_option toISOString (ro_startedAt r),
      rv_completedAt = map_option toISOString (ro_completedAt r),
      rv_cancelledAt = map_option toISOString (ro_cancelledAt r),
      rv_counts = toCountsDto ts, rv_targets = map toTargetDto ts,
      rv_createdAt = toISOString (ro_createdAt r), rv_updatedAt = toISOString (ro_updatedAt r)\<rparr>"

section \<open>Reading\<close>

text \<open>\<open>find({ where: { rolloutId }, order: { sequence: 'ASC' } })\<close>\<close>

definition targets_of :: "string \<Rightarrow> rollout_target list \<Rightarrow> rollout_target list" where
  "targets_of i ts = sort_key rt_sequence (filter (\<lambda>t. rt_rolloutId t = i) ts)"

definition open_rollout :: "rollout \<Rightarrow> bool" where
  "open_rollout r \<longleftrightarrow> ro_status r \<in> {RO_QUEUED, RO_RUNNING, RO_PAUSED}"

definition findRolloutEntityOrFail :: "string \<Rightarrow> rollout op" where
  "findRolloutEntityOrFail i =
     findE rollouts (\<lambda>r. ro_id r = i) (NotFound (''Agent update rollout '' @ i @ '' was not found''))"

definition findTargetEntityOrFail :: "string \<Rightarrow> rollout_target op" where
  "findTargetEntityOrFail i =
     findE rollout_targets (\<lambda>t. rt_id t = i) (NotFound (''Agent update rollout target '' @ i @ '' was not found''))"

definition listRollouts :: "rollout_view list op" where
  "listRollouts =
     readE (\<lambda>s. map (\<lambda>r. toRolloutDto r (targets_of (ro_id r) (rollout_targets s)))
       (order_limit (\<lambda>r. - ro_createdAt r) 20 (rollouts s)))"

definition getRollout :: "string \<Rightarrow> rollout_view op" where
  "getRollout i =
     bindE (findRolloutEntityOrFail i) (\<lambda>r.
     readE (\<lambda>s. toRolloutDto r (targets_of (ro_id r) (rollout_targets s))))"

definition findActiveRollout :: "rollout_view option op" where
  "findActiveRollout =
     readE (\<lambda>s. case order_limit (\<lambda>r. - ro_createdAt r) 1 (filter open_rollout (rollouts s)) of
         [] \<Rightarrow> None
       | r # _ \<Rightarrow> Some (toRolloutDto r (targets_of (ro_id r) (rollout_targets s))))"

definition countOutdatedNodes :: "string \<Rightarrow> nat op" where
  "countOutdatedNodes v = readE (\<lambda>s. count_rows (\<lambda>n. n_agentVersion n \<noteq> Some v) (nodes s))"

definition countEligibleOutdatedNodes :: "string \<Rightarrow> nat op" where
  "countEligibleOutdatedNodes v =
     readE (\<lambda>s. count_rows (\<lambda>n. n_status n = ONLINE \<and> \<not> n_maintenanceMode n \<and> n_arch n \<in> set SUPPORTED_ARCHES \<and>
       n_agentVersion n \<noteq> Some v) (nodes s))"

definition getSummary :: "release_service \<Rightarrow> (release option \<times> nat \<times> nat \<times> rollout_view option \<times> string option) op" where
  "getSummary rs =
     bindE findActiveRollout (\<lambda>activeRollout.
     bindE (case rs_releases rs of [] \<Rightarrow> ret (0, 0)
            | latest # _ \<Rightarrow>
                bindE (countOutdatedNodes (re_version latest)) (\<lambda>a.
                bindE (countEligibleOutdatedNodes (re_version latest)) (\<lambda>b. ret (a, b))))
       (\<lambda>(outdatedNodeCount, eligibleOutdatedNodeCount).
     ret (case rs_releases rs of [] \<Rightarrow> None | latest # _ \<Rightarrow> Some latest,
          outdatedNodeCount, eligibleOutdatedNodeCount, activeRollout, map_option toISOString (rs_checkedAt rs))))"

definition getOperationalSnapshot :: "(nat \<times> nat) op" where
  "getOperationalSnapshot =
     readE (\<lambda>s. (count_rows (\<lambda>t. active_status (rt_status t)) (rollout_targets s),
                 count_rows (\<lambda>t. rt_status t = TG_FAILED) (rollout_targets s)))"

section \<open>Writing\<close>

text \<open>\<open>save\<close> compares with the stored row: a changed one moves its update date.\<close>

definition saved_row :: "('r \<Rightarrow> string) \<Rightarrow> (int \<Rightarrow> 'r \<Rightarrow> 'r) \<Rightarrow> int \<Rightarrow> 'r \<Rightarrow> 'r list \<Rightarrow> 'r" where
  "saved_row key set_date now new rows =
     (case find_row (\<lambda>r. key r = key new) rows of None \<Rightarrow> new | Some old \<Rightarrow> touched set_date now old new)"

definition saveRollout :: "env \<Rightarrow> rollout \<Rightarrow> rollout op" where
  "saveRollout e new =
     bindE (readE (\<lambda>s. saved_row ro_id (\<lambda>d r. r\<lparr>ro_updatedAt := d\<rparr>) (e_now e) new (rollouts s))) (\<lambda>r.
     bindE (writeE (\<lambda>s. s\<lparr>rollouts := save_row ro_id r (rollouts s)\<rparr>)) (\<lambda>_. ret r))"

definition saveTarget :: "env \<Rightarrow> rollout_target \<Rightarrow> rollout_target op" where
  "saveTarget e new =
     bindE (readE (\<lambda>s. saved_row rt_id (\<lambda>d r. r\<lparr>rt_updatedAt := d\<rparr>) (e_now e) new (rollout_targets s))) (\<lambda>r.
     bindE (writeE (\<lambda>s. s\<lparr>rollout_targets := save_row rt_id r (rollout_targets s)\<rparr>)) (\<lambda>_. ret r))"

definition setRolloutStatus :: "env \<Rightarrow> rollout \<Rightarrow> rollout_status \<Rightarrow> string \<Rightarrow> rollout op" where
  "setRolloutStatus e r st message = saveRollout e (r\<lparr>ro_status := st, ro_statusMessage := Some message\<rparr>)"

definition recordRolloutEvent ::
  "env \<Rightarrow> string option \<Rightarrow> string \<Rightarrow> severity \<Rightarrow> string \<Rightarrow> json_object \<Rightarrow> unit op" where
  "recordRolloutEvent e nodeId type sev message metadata =
     whenE (truthy nodeId) (bindE (recordEvent e None nodeId type (Some sev) message (Some metadata)) (\<lambda>_. ret ()))"

definition rollout_audit :: "string \<Rightarrow> string \<Rightarrow> string \<Rightarrow> string \<Rightarrow> json_object option \<Rightarrow> audit_input" where
  "rollout_audit action targetType targetId label metadata =
     \<lparr>ai_scope = ''platform'', ai_workspaceId = None, ai_action = action, ai_targetType = targetType,
      ai_targetId = Some targetId, ai_targetLabel = Some label, ai_changes = None, ai_metadata = metadata\<rparr>"

text \<open>The task of a target ends with the target, unless it has ended before.\<close>

definition monitor_task :: "env \<Rightarrow> task_status \<Rightarrow> string \<Rightarrow> task \<Rightarrow> task" where
  "monitor_task e st detail t =
     t\<lparr>t_status := st, t_finishedAt := Some (orElse (t_finishedAt t) (e_now e)), t_leaseUntil := None,
       t_claimedBy := None, t_claimToken := None, t_output := Some (orElse (t_output t) detail),
       t_result := Some (jmerge (orElse (t_result t) [])
         [(''source'', JStr ''agent-update-rollout-monitor''), (''detail'', JStr detail)])\<rparr>"

definition syncLinkedTaskTerminalState :: "env \<Rightarrow> rollout_target \<Rightarrow> task_status \<Rightarrow> string \<Rightarrow> unit op" where
  "syncLinkedTaskTerminalState e target st detail =
     whenE (truthy (rt_taskId target))
       (bindE (readE (\<lambda>s. find_row (\<lambda>t. t_id t = the (rt_taskId target)) (tasks s))) (\<lambda>linked.
        case linked of
          None \<Rightarrow> ret ()
        | Some t \<Rightarrow> whenE (t_status t \<notin> {SUCCESS, FAILED, CANCELLED})
                      (bindE (saveTask e t (monitor_task e st detail t)) (\<lambda>_. ret ()))))"

definition pauseRolloutForTargetFailure :: "env \<Rightarrow> rollout \<Rightarrow> rollout_target \<Rightarrow> string \<Rightarrow> unit op" where
  "pauseRolloutForTargetFailure e r target message =
     bindE (saveTarget e (target\<lparr>rt_status := TG_FAILED, rt_completedAt := Some (orElse (rt_completedAt target) (e_now e)),
              rt_statusMessage := Some message\<rparr>)) (\<lambda>failedTarget.
     bindE (saveRollout e (r\<lparr>ro_status := RO_PAUSED, ro_statusMessage := Some message\<rparr>)) (\<lambda>_.
     bindE (syncLinkedTaskTerminalState e failedTarget FAILED message) (\<lambda>_.
     recordRolloutEvent e (Some (rt_nodeId failedTarget)) ''agent.update.target.failed'' WARNING message
       [(''rolloutId'', JStr (ro_id r)), (''targetId'', JStr (rt_id failedTarget)),
        (''targetVersion'', JStr (rt_targetVersion failedTarget))])))"

definition assertNodeEligibleForRollout :: "node \<Rightarrow> string \<Rightarrow> unit op" where
  "assertNodeEligibleForRollout n version =
     bindE (guardE (n_status n = ONLINE)
              (BadRequest (''Node '' @ n_hostname n @ '' must be online before it can be updated.''))) (\<lambda>_.
     bindE (assertNodeAcceptingNewWork n) (\<lambda>_.
     bindE (guardE (n_arch n \<in> set SUPPORTED_ARCHES)
              (BadRequest (''Node '' @ n_hostname n @ '' uses unsupported architecture '' @ n_arch n @ ''.''))) (\<lambda>_.
     guardE (n_agentVersion n \<noteq> Some version)
       (BadRequest (''Node '' @ n_hostname n @ '' is already running agent '' @ version @ ''.'')))))"

definition node_label :: "node \<Rightarrow> string" where
  "node_label n = (if n_name n = [] then n_hostname n else n_name n)"

definition update_kind :: "bool \<Rightarrow> string" where
  "update_kind rollback = (if rollback then ''rollback'' else ''update'')"

section \<open>Dispatching\<close>

text \<open>The first pending target of the rollout, \<open>ORDER BY sequence\<close>.\<close>

definition pending_target :: "string \<Rightarrow> db \<Rightarrow> rollout_target option" where
  "pending_target i s =
     (case order_limit rt_sequence 1 (filter (\<lambda>t. rt_rolloutId t = i \<and> rt_status t = TG_PENDING) (rollout_targets s)) of
        [] \<Rightarrow> None | t # _ \<Rightarrow> Some t)"

definition dispatched_target :: "env \<Rightarrow> node \<Rightarrow> string \<Rightarrow> rollout_target \<Rightarrow> rollout_target" where
  "dispatched_target e n taskId t =
     t\<lparr>rt_status := TG_DISPATCHED, rt_progressPercent := 5,
       rt_statusMessage := Some (''Queued update task '' @ taskId @ '' for '' @ node_label n @ ''.''),
       rt_taskId := Some taskId, rt_dispatchedAt := Some (e_now e), rt_completedAt := None\<rparr>"

definition dispatchTarget :: "env \<Rightarrow> rollout \<Rightarrow> rollout_target \<Rightarrow> node \<Rightarrow> unit op" where
  "dispatchTarget e r target n =
     bindE (createTask e (n_id n) ''agent.update''
              (Some [(''targetVersion'', JStr (ro_targetVersion r)), (''targetId'', JStr (rt_id target)),
                     (''rollback'', JBool (ro_rollback r))]) None None None False) (\<lambda>t.
     bindE (saveTarget e (dispatched_target e n (t_id t) target)) (\<lambda>_.
     bindE (saveRollout e (r\<lparr>ro_status := RO_RUNNING,
              ro_statusMessage := Some (''Dispatched '' @ node_label n @ ''. Waiting for agent update progress.''),
              ro_startedAt := Some (orElse (ro_startedAt r) (e_now e))\<rparr>)) (\<lambda>_.
     recordRolloutEvent e (Some (n_id n)) ''agent.update.target.dispatched'' INFO
       (node_label n @ '' queued agent '' @ update_kind (ro_rollback r) @ '' to '' @ ro_targetVersion r @ ''.'')
       [(''rolloutId'', JStr (ro_id r)), (''targetId'', JStr (rt_id target)), (''taskId'', JStr (t_id t)),
        (''targetVersion'', JStr (ro_targetVersion r))])))"

text \<open>The next target of an idle rollout is dispatched; when there is none the rollout is finished.\<close>

definition dispatchOrFinish :: "env \<Rightarrow> rollout \<Rightarrow> rollout_target option \<Rightarrow> unit op" where
  "dispatchOrFinish e r nextTarget =
     (case nextTarget of
        None \<Rightarrow>
          bindE (saveRollout e (r\<lparr>ro_status := RO_COMPLETED,
                   ro_statusMessage := Some ''Rollout finished. No pending targets remain.'',
                   ro_completedAt := Some (orElse (ro_completedAt r) (e_now e))\<rparr>)) (\<lambda>_. ret ())
      | Some target \<Rightarrow>
          bindE (catchE
              (bindE (nodes_findOneOrFail (rt_nodeId target) None) (\<lambda>(n, _).
               bindE (assertNodeEligibleForRollout n (ro_targetVersion r)) (\<lambda>_. ret (Some n))))
              (\<lambda>err. bindE (pauseRolloutForTargetFailure e r target (error_message err)) (\<lambda>_. ret None)))
            (\<lambda>found. case found of None \<Rightarrow> ret () | Some n \<Rightarrow> dispatchTarget e r target n))"

definition dispatchNextTarget :: "env \<Rightarrow> string \<Rightarrow> unit op" where
  "dispatchNextTarget e rolloutId =
     bindE (findRolloutEntityOrFail rolloutId) (\<lambda>r.
     if ro_status r = RO_CANCELLED then ret ()
     else
       bindE (readE (\<lambda>s. count_rows (\<lambda>t. rt_rolloutId t = ro_id r \<and> active_status (rt_status t)) (rollout_targets s)))
         (\<lambda>activeCount.
       if 0 < activeCount then ret ()
       else
         bindE (readE (pending_target (ro_id r))) (dispatchOrFinish e r)))"

section \<open>Operations of an operator\<close>

definition assertControlPlaneApplyIsIdle :: "(string \<times> string) option \<Rightarrow> unit op" where
  "assertControlPlaneApplyIsIdle updateState =
     (case updateState of
        None \<Rightarrow> ret ()
      | Some (operation, st) \<Rightarrow>
          guardE (\<not> (operation = ''apply'' \<and>
              st \<in> set [''queued'', ''applying'', ''migrating_database'', ''recreating_services'']))
            (Conflict ''A control-plane apply is already in progress. Wait for the platform update to finish before starting an agent rollout.''))"

definition assertNoActiveRolloutExists :: "unit op" where
  "assertNoActiveRolloutExists =
     bindE (readE (\<lambda>s. count_rows open_rollout (rollouts s))) (\<lambda>n.
     guardE (n = 0) (Conflict ''Finish, resume, or cancel the existing rollout before creating a new one.''))"

definition nodes_word :: "nat \<Rightarrow> string" where
  "nodes_word n = (if n = 1 then ''node'' else ''nodes'')"

definition new_rollout :: "env \<Rightarrow> rollout_dto \<Rightarrow> audit_context \<Rightarrow> release \<Rightarrow> nat \<Rightarrow> string \<Rightarrow> rollout" where
  "new_rollout e dto ctx rel n i =
     \<lparr>ro_id = i, ro_targetVersion = re_version rel, ro_status = RO_QUEUED, ro_rollback = orElse (rd_rollback dto) False,
      ro_requestedByUserId = ac_actorUserId ctx, ro_requestedByEmailSnapshot = ac_actorEmailSnapshot ctx,
      ro_startedAt = None, ro_completedAt = None, ro_cancelledAt = None,
      ro_statusMessage = Some (''Queued '' @ show_nat n @ '' '' @ nodes_word n @ '' for agent '' @
        update_kind (orElse (rd_rollback dto) False) @ '' to '' @ re_version rel @ ''.''),
      ro_createdAt = e_now e, ro_updatedAt = e_now e\<rparr>"

definition new_target :: "env \<Rightarrow> string \<Rightarrow> string \<Rightarrow> node \<Rightarrow> nat \<Rightarrow> string \<Rightarrow> rollout_target" where
  "new_target e rolloutId version n index i =
     \<lparr>rt_id = i, rt_rolloutId = rolloutId, rt_nodeId = n_id n, rt_workspaceId = n_workspaceId n, rt_teamId = n_teamId n,
      rt_nodeNameSnapshot = node_label n, rt_previousVersion = n_agentVersion n, rt_targetVersion = version,
      rt_status = TG_PENDING, rt_progressPercent = 0, rt_statusMessage = Some ''Waiting for rollout dispatch.'',
      rt_taskId = None, rt_sequence = index, rt_dispatchedAt = None, rt_completedAt = None,
      rt_createdAt = e_now e, rt_updatedAt = e_now e\<rparr>"

definition addTarget :: "env \<Rightarrow> string \<Rightarrow> string \<Rightarrow> node \<times> nat \<Rightarrow> rollout_target op" where
  "addTarget e rolloutId version = (\<lambda>(n, index).
     bindE (fresh_id e) (\<lambda>i.
       let t = new_target e rolloutId version n index i
       in bindE (writeE (\<lambda>s. s\<lparr>rollout_targets := rollout_targets s @ [t]\<rparr>)) (\<lambda>_. ret t)))"

text \<open>The node identifiers of a request: trimmed, without blanks and repetitions.\<close>

definition requested_nodes :: "rollout_dto \<Rightarrow> string list" where
  "requested_nodes dto = uniq (filter (\<lambda>i. i \<noteq> []) (map trim (rd_nodeIds dto)))"

definition resolveTargets :: "string list \<Rightarrow> string \<Rightarrow> node list op" where
  "resolveTargets nodeIds version =
     forE (\<lambda>i. bindE (nodes_findOneOrFail i None) (\<lambda>(n, _).
               bindE (assertNodeEligibleForRollout n version) (\<lambda>_. ret n))) nodeIds"

definition storeRollout :: "env \<Rightarrow> rollout_dto \<Rightarrow> audit_context \<Rightarrow> release \<Rightarrow> node list \<Rightarrow> rollout op" where
  "storeRollout e dto ctx rel ns =
     bindE (fresh_id e) (\<lambda>i.
       let r = new_rollout e dto ctx rel (length ns) i
       in bindE (writeE (\<lambda>s. s\<lparr>rollouts := rollouts s @ [r]\<rparr>)) (\<lambda>_.
          bindE (forE (addTarget e i (re_version rel)) (zip ns [0..<length ns])) (\<lambda>_. ret r)))"

definition createRollout ::
  "env \<Rightarrow> release_service \<Rightarrow> (string \<times> string) option \<Rightarrow> rollout_dto \<Rightarrow> audit_context \<Rightarrow> rollout_view op" where
  "createRollout e rs updateState dto ctx =
     bindE (assertControlPlaneApplyIsIdle updateState) (\<lambda>_.
     bindE assertNoActiveRolloutExists (\<lambda>_.
     bindE (someE (if truthy (rd_version dto) then rs_findRelease rs (the (rd_version dto))
                   else case rs_releases rs of [] \<Rightarrow> None | latest # _ \<Rightarrow> Some latest)
              (BadRequest ''No official tagged agent release is currently available.'')) (\<lambda>rel.
       let nodeIds = requested_nodes dto
       in
       bindE (guardE (nodeIds \<noteq> []) (BadRequest ''Select at least one node.'')) (\<lambda>_.
       bindE (resolveTargets nodeIds (re_version rel)) (\<lambda>ns.
       bindE (storeRollout e dto ctx rel ns) (\<lambda>r.
       bindE (recordAudit e (rollout_audit ''agent_update.rollout.created'' ''agent_update_rollout'' (ro_id r) (re_version rel)
                (Some [(''rollback'', JBool (ro_rollback r)), (''nodeIds'', JArr (map JStr nodeIds)),
                       (''targetVersion'', JStr (re_version rel))])) (Some ctx)) (\<lambda>_.
       bindE (recordRolloutEvent e (case ns of [] \<Rightarrow> None | n # _ \<Rightarrow> Some (n_id n)) ''agent.update.rollout.created'' INFO
                (''Agent '' @ update_kind (ro_rollback r) @ '' rollout created for '' @ show_nat (length ns) @ '' '' @
                 nodes_word (length ns) @ '' targeting '' @ re_version rel @ ''.'')
                [(''rolloutId'', JStr (ro_id r)), (''targetVersion'', JStr (re_version rel)),
                 (''rollback'', JBool (ro_rollback r))]) (\<lambda>_.
       bindE (setRolloutStatus e (r\<lparr>ro_startedAt := Some (e_now e)\<rparr>) RO_RUNNING
                (''Dispatching node 1 of '' @ show_nat (length ns) @ ''.'')) (\<lambda>nextRollout.
       bindE (dispatchNextTarget e (ro_id nextRollout)) (\<lambda>_.
       getRollout (ro_id r)))))))))))"

definition resumeRollout :: "env \<Rightarrow> string \<Rightarrow> audit_context \<Rightarrow> rollout_view op" where
  "resumeRollout e rolloutId ctx =
     bindE (findRolloutEntityOrFail rolloutId) (\<lambda>r.
     bindE (guardE (ro_status r = RO_PAUSED) (Conflict ''Only paused rollouts can be resumed.'')) (\<lambda>_.
     bindE (readE (\<lambda>s. count_rows (\<lambda>t. rt_rolloutId t = ro_id r \<and> rt_status t = TG_FAILED) (rollout_targets s)))
       (\<lambda>failedTargetCount.
     bindE (guardE (failedTargetCount = 0) (Conflict ''Retry or skip failed targets before resuming this rollout.'')) (\<lambda>_.
     bindE (setRolloutStatus e r RO_RUNNING ''Rollout resumed by an operator.'') (\<lambda>_.
     bindE (recordAudit e (rollout_audit ''agent_update.rollout.resumed'' ''agent_update_rollout'' (ro_id r)
              (ro_targetVersion r) None) (Some ctx)) (\<lambda>_.
     bindE (dispatchNextTarget e (ro_id r)) (\<lambda>_.
     getRollout (ro_id r))))))))"

definition requestTaskCancellationForTarget :: "env \<Rightarrow> rollout_target \<Rightarrow> unit op" where
  "requestTaskCancellationForTarget e target =
     whenE (truthy (rt_taskId target))
       (catchE (bindE (requestTaskCancellation e (the (rt_taskId target)) (Some ''Rollout cancelled by operator.'')
                         (Some (rt_workspaceId target)) None) (\<lambda>_. ret ()))
          (\<lambda>_. ret ()))"

definition cancelTarget :: "env \<Rightarrow> rollout_target \<Rightarrow> unit op" where
  "cancelTarget e target =
     (if rt_status target = TG_PENDING then
        bindE (saveTarget e (target\<lparr>rt_status := TG_CANCELLED, rt_statusMessage := Some ''Cancelled before dispatch.'',
                 rt_completedAt := Some (e_now e), rt_progressPercent := 0\<rparr>)) (\<lambda>_. ret ())
      else if active_status (rt_status target) then
        bindE (saveTarget e (target\<lparr>rt_status := TG_CANCELLED,
                 rt_statusMessage := Some ''Cancelled by operator. In-flight updater was asked to stop; local update may still complete if it already passed handoff.'',
                 rt_completedAt := Some (e_now e)\<rparr>)) (\<lambda>_.
        requestTaskCancellationForTarget e target)
      else ret ())"

definition cancelRollout :: "env \<Rightarrow> string \<Rightarrow> audit_context \<Rightarrow> rollout_view op" where
  "cancelRollout e rolloutId ctx =
     bindE (findRolloutEntityOrFail rolloutId) (\<lambda>r.
     bindE (guardE (ro_status r \<noteq> RO_COMPLETED \<and> ro_status r \<noteq> RO_CANCELLED)
              (Conflict ''This rollout is already terminal.'')) (\<lambda>_.
     bindE (saveRollout e (r\<lparr>ro_status := RO_CANCELLED,
              ro_statusMessage := Some ''Rollout cancelled by an operator. Pending targets were cancelled and active targets received cancellation requests.'',
              ro_cancelledAt := Some (e_now e)\<rparr>)) (\<lambda>_.
     bindE (readE (\<lambda>s. targets_of (ro_id r) (rollout_targets s))) (\<lambda>ts.
     bindE (forE (cancelTarget e) ts) (\<lambda>_.
     bindE (recordAudit e (rollout_audit ''agent_update.rollout.cancelled'' ''agent_update_rollout'' (ro_id r)
              (ro_targetVersion r) None) (Some ctx)) (\<lambda>_.
     getRollout (ro_id r)))))))"

definition findPausedFailedTarget :: "string \<Rightarrow> string \<Rightarrow> (rollout \<times> rollout_target) op" where
  "findPausedFailedTarget rolloutId targetId =
     bindE (findRolloutEntityOrFail rolloutId) (\<lambda>r.
     bindE (guardE (ro_status r = RO_PAUSED)
              (Conflict ''Target retry and skip are available only when the rollout is paused.'')) (\<lambda>_.
     bindE (findTargetEntityOrFail targetId) (\<lambda>t.
     bindE (guardE (rt_rolloutId t = ro_id r) (Conflict ''The target does not belong to this rollout.'')) (\<lambda>_.
     bindE (guardE (rt_status t = TG_FAILED) (Conflict ''Only failed targets can be retried or skipped.'')) (\<lambda>_.
     ret (r, t))))))"

text \<open>What retrying and skipping have in common: the target is saved as \<open>change\<close> says, the rollout runs
  again and the next target is dispatched.\<close>

definition releaseTarget ::
  "env \<Rightarrow> rollout \<Rightarrow> rollout_target \<Rightarrow> rollout_target \<Rightarrow> string \<Rightarrow> string \<Rightarrow> audit_context \<Rightarrow> rollout_view op" where
  "releaseTarget e r t changed message action ctx =
     bindE (saveTarget e changed) (\<lambda>_.
     bindE (setRolloutStatus e r RO_RUNNING message) (\<lambda>_.
     bindE (recordAudit e (rollout_audit action ''agent_update_rollout_target'' (rt_id t) (rt_nodeNameSnapshot t)
              (Some [(''rolloutId'', JStr (ro_id r)), (''targetVersion'', JStr (ro_targetVersion r))])) (Some ctx)) (\<lambda>_.
     bindE (dispatchNextTarget e (ro_id r)) (\<lambda>_.
     getRollout (ro_id r)))))"

definition retried_target :: "rollout_target \<Rightarrow> rollout_target" where
  "retried_target t =
     t\<lparr>rt_status := TG_PENDING, rt_progressPercent := 0, rt_statusMessage := Some ''Retry queued by an operator.'',
       rt_taskId := None, rt_dispatchedAt := None, rt_completedAt := None\<rparr>"

definition retryTarget :: "env \<Rightarrow> string \<Rightarrow> string \<Rightarrow> audit_context \<Rightarrow> rollout_view op" where
  "retryTarget e rolloutId targetId ctx =
     bindE (findPausedFailedTarget rolloutId targetId) (\<lambda>(r, t).
     releaseTarget e r t (retried_target t) (''Retrying '' @ rt_nodeNameSnapshot t @ ''.'') ''agent_update.target.retried'' ctx)"

definition skipped_target :: "env \<Rightarrow> rollout_target \<Rightarrow> rollout_target" where
  "skipped_target e t =
     t\<lparr>rt_status := TG_SKIPPED, rt_statusMessage := Some (orElse (rt_statusMessage t) ''Skipped after operator review.''),
       rt_completedAt := Some (orElse (rt_completedAt t) (e_now e))\<rparr>"

definition skipTarget :: "env \<Rightarrow> string \<Rightarrow> string \<Rightarrow> audit_context \<Rightarrow> rollout_view op" where
  "skipTarget e rolloutId targetId ctx =
     bindE (findPausedFailedTarget rolloutId targetId) (\<lambda>(r, t).
     releaseTarget e r t (skipped_target e t) (''Skipping '' @ rt_nodeNameSnapshot t @ '' and continuing the rollout.'')
       ''agent_update.target.skipped'' ctx)"

section \<open>Reports of the agents\<close>

text \<open>The open target of a node in a running or paused rollout, \<open>ORDER BY sequence\<close>.\<close>

definition observed_target :: "string \<Rightarrow> db \<Rightarrow> rollout_target option" where
  "observed_target nodeId s =
     (case order_limit rt_sequence 1
         (filter (\<lambda>t. rt_nodeId t = nodeId \<and> \<not> isTargetTerminal (rt_status t) \<and>
            (\<exists>r \<in> set (rollouts s). ro_id r = rt_rolloutId t \<and> ro_status r \<in> {RO_RUNNING, RO_PAUSED})) (rollout_targets s)) of
        [] \<Rightarrow> None | t # _ \<Rightarrow> Some t)"

definition observeNodeVersion :: "env \<Rightarrow> string \<Rightarrow> string option \<Rightarrow> unit op" where
  "observeNodeVersion e nodeId agentVersion =
     bindE (readE (observed_target nodeId)) (\<lambda>found.
     case found of
       None \<Rightarrow> ret ()
     | Some t \<Rightarrow>
         if \<not> truthy agentVersion \<or> agentVersion \<noteq> Some (rt_targetVersion t) then ret ()
         else
           bindE (findRolloutEntityOrFail (rt_rolloutId t)) (\<lambda>r.
             let detail = ''Agent reconnect confirmed '' @ the agentVersion @ ''.''
             in
             bindE (saveTarget e (t\<lparr>rt_status := TG_COMPLETED, rt_progressPercent := 100,
                      rt_statusMessage := Some detail, rt_completedAt := Some (e_now e)\<rparr>)) (\<lambda>completedTarget.
             bindE (syncLinkedTaskTerminalState e completedTarget SUCCESS detail) (\<lambda>_.
             bindE (recordRolloutEvent e (Some (rt_nodeId t)) ''agent.update.target.completed'' INFO
                      (rt_nodeNameSnapshot t @ '' reported agent '' @ the agentVersion @ ''.'')
                      [(''rolloutId'', JStr (ro_id r)), (''targetId'', JStr (rt_id t)),
                       (''targetVersion'', JStr (rt_targetVersion t))]) (\<lambda>_.
             whenE (ro_status r = RO_RUNNING) (dispatchNextTarget e (ro_id r)))))))"

definition with_spaces :: "string \<Rightarrow> string" where
  "with_spaces xs = map (\<lambda>c. if c = CHR ''_'' then CHR '' '' else c) xs"

definition reported_target :: "env \<Rightarrow> progress_dto \<Rightarrow> rollout_target \<Rightarrow> rollout_target" where
  "reported_target e dto t =
     t\<lparr>rt_status := pd_status dto, rt_progressPercent := pd_percent dto,
       rt_statusMessage := orKeep (pd_message dto) (rt_statusMessage t),
       rt_completedAt := (if pd_status dto = TG_FAILED then Some (e_now e) else rt_completedAt t)\<rparr>"

definition handleAgentProgress :: "env \<Rightarrow> string \<Rightarrow> progress_dto \<Rightarrow> string \<Rightarrow> target_view op" where
  "handleAgentProgress e targetId dto agentNodeId =
     bindE (findTargetEntityOrFail targetId) (\<lambda>t.
     bindE (guardE (rt_nodeId t = agentNodeId)
              (Conflict ''The authenticated agent cannot report progress for this rollout target.'')) (\<lambda>_.
     bindE (findRolloutEntityOrFail (rt_rolloutId t)) (\<lambda>r.
     if isTargetTerminal (rt_status t) then ret (toTargetDto t)
     else
       bindE (saveTarget e (reported_target e dto t)) (\<lambda>nextTarget.
       bindE (if pd_status dto = TG_FAILED
              then pauseRolloutForTargetFailure e r nextTarget
                     (orElse (pd_message dto) (rt_nodeNameSnapshot nextTarget @ '' reported an update failure.''))
              else if ro_status r \<noteq> RO_CANCELLED
              then bindE (saveRollout e (r\<lparr>ro_statusMessage := Some (orElse (pd_message dto)
                     (rt_nodeNameSnapshot nextTarget @ '' is '' @ with_spaces (target_status_str (pd_status dto)) @ ''.''))\<rparr>))
                     (\<lambda>_. ret ())
              else ret ()) (\<lambda>_.
       bindE (whenE (pd_status dto = TG_WAITING_FOR_RECONNECT)
                (bindE (readE (\<lambda>s. find_row (\<lambda>n. n_id n = rt_nodeId nextTarget) (nodes s))) (\<lambda>found.
                 case found of
                   None \<Rightarrow> ret ()
                 | Some n \<Rightarrow> whenE (n_agentVersion n = Some (rt_targetVersion nextTarget))
                     (observeNodeVersion e (n_id n) (n_agentVersion n))))) (\<lambda>_.
       ret (toTargetDto nextTarget)))))))"

section \<open>The monitor\<close>

fun resolveTargetTimeoutThresholdMs :: "target_status \<Rightarrow> int" where
  "resolveTargetTimeoutThresholdMs TG_DISPATCHED = 2 * 60 * 1000"
| "resolveTargetTimeoutThresholdMs TG_WAITING_FOR_RECONNECT = 5 * 60 * 1000"
| "resolveTargetTimeoutThresholdMs _ = 15 * 60 * 1000"

definition truncateTaskFailureDetail :: "string \<Rightarrow> string" where
  "truncateTaskFailureDetail v =
     (let normalized = trim (collapse_ws v)
      in if length normalized \<le> 240 then normalized else take 237 normalized @ ''...'')"

definition extractTaskFailureDetail :: "task \<Rightarrow> string option" where
  "extractTaskFailureDetail t =
     (let out = trim (orElse (t_output t) []);
          err = trim (orElse (str_field (orElse (t_result t) []) ''error'') []);
          msg = trim (orElse (str_field (orElse (t_result t) []) ''message'') [])
      in if out \<noteq> [] then Some (''Last task output: '' @ truncateTaskFailureDetail out @ ''.'')
         else if err \<noteq> [] then Some (''Reported error: '' @ truncateTaskFailureDetail err @ ''.'')
         else if msg \<noteq> [] then Some (''Reported message: '' @ truncateTaskFailureDetail msg @ ''.'')
         else None)"

definition buildTaskFailureMessage :: "rollout_target \<Rightarrow> task \<Rightarrow> string" where
  "buildTaskFailureMessage target t =
     (let base = rt_nodeNameSnapshot target @ '' update task '' @ t_id t @ '' '' @ task_status_str (t_status t) @
            '' before detached updater progress was received.''
      in case extractTaskFailureDetail t of None \<Rightarrow> base | Some detail \<Rightarrow> base @ '' '' @ detail)"

text \<open>The failed or cancelled tasks among those of the targets.\<close>

definition loadFailedTasksById :: "rollout_target list \<Rightarrow> task list op" where
  "loadFailedTasksById targets =
     readE (\<lambda>s. filter (\<lambda>t. t_id t \<in> set (List.map_filter rt_taskId targets) \<and> t_status t \<in> {FAILED, CANCELLED}) (tasks s))"

definition failed_task_of :: "task list \<Rightarrow> rollout_target \<Rightarrow> task option" where
  "failed_task_of failed target =
     (if truthy (rt_taskId target) then find_row (\<lambda>t. Some (t_id t) = rt_taskId target) failed else None)"

text \<open>One target; the result says whether it was paused.\<close>

definition reconcileTarget :: "env \<Rightarrow> task list \<Rightarrow> rollout_target \<Rightarrow> nat op" where
  "reconcileTarget e failed target =
     bindE (readE (\<lambda>s. find_row (\<lambda>n. n_id n = rt_nodeId target) (nodes s))) (\<lambda>node.
     if node \<noteq> None \<and> n_status (the node) = ONLINE \<and> n_agentVersion (the node) = Some (rt_targetVersion target) then
       bindE (observeNodeVersion e (rt_nodeId target) (n_agentVersion (the node))) (\<lambda>_. ret 0)
     else
       bindE (findRolloutEntityOrFail (rt_rolloutId target)) (\<lambda>r.
       case failed_task_of failed target of
         Some t \<Rightarrow>
           bindE (pauseRolloutForTargetFailure e r (target\<lparr>rt_completedAt := Some (e_now e)\<rparr>)
                    (buildTaskFailureMessage target t)) (\<lambda>_. ret 1)
       | None \<Rightarrow>
           if e_now e - rt_updatedAt target < resolveTargetTimeoutThresholdMs (rt_status target) then ret 0
           else
             bindE (pauseRolloutForTargetFailure e r (target\<lparr>rt_status := TG_FAILED, rt_completedAt := Some (e_now e)\<rparr>)
                      (rt_nodeNameSnapshot target @ '' timed out while waiting for '' @
                       with_spaces (target_status_str (rt_status target)) @ ''.'')) (\<lambda>_. ret 1)))"

definition monitored :: "db \<Rightarrow> rollout_target list" where
  "monitored s =
     sort_key rt_updatedAt (filter (\<lambda>t. active_status (rt_status t) \<and>
       (\<exists>r \<in> set (rollouts s). ro_id r = rt_rolloutId t \<and> ro_status r = RO_RUNNING)) (rollout_targets s))"

definition reconcileActiveTargets :: "env \<Rightarrow> nat op" where
  "reconcileActiveTargets e =
     bindE (readE monitored) (\<lambda>targets.
     bindE (loadFailedTasksById targets) (\<lambda>failed.
     bindE (forE (reconcileTarget e failed) targets) (\<lambda>paused.
     ret (sum_list paused))))"

definition markTimedOutTargets :: "env \<Rightarrow> nat op" where
  "markTimedOutTargets e = reconcileActiveTargets e"

end
