(* ===== verification/Rollouts.thy ===== *)
theory Rollouts
  imports AgentUpdates
begin

text \<open>
  The state machine of the agent rollouts: what holds of rollouts and their targets in every state the
  operators, the agents and the monitor reach, and what follows for the single operations.
\<close>

section \<open>Handlers that leave the rollouts alone\<close>

definition rests :: "db \<Rightarrow> db \<Rightarrow> bool" where
  "rests s t \<longleftrightarrow> rollouts t = rollouts s \<and> rollout_targets t = rollout_targets s \<and> drawn s \<le> drawn t"

interpretation resting: effect_order rests
  by unfold_locales (auto simp: rests_def)

lemma resting_output: "outputs m \<Longrightarrow> resting.confined m"
  by (auto simp: outputs_def resting.confined_def rests_def dest: core_eqD(13,14))

lemma resting_outputs [simp]:
  "resting.confined (recordEvent e w n ty sev msg md)" "resting.confined (recordAudit e inp ctx)"
  "resting.confined (fresh_id e)" "resting.confined (announceTask e nd t)" "resting.confined (dispatchTaskToNode t)"
  by (simp_all add: resting_output)
     (simp add: resting_output announceTask_def output_rules del: ret_apply,
      simp add: resting.confined_def rests_def dispatchTaskToNode_def)

lemma resting_publishTaskUpdated [simp]: "resting.confined (publishTaskUpdated e t)"
  unfolding publishTaskUpdated_def by (rule resting_output) (intro output_rules)

lemma resting_quiet [simp]:
  "resting.confined (nodes_findOneOrFail i w)" "resting.confined (assertWorkspaceWritable j)"
  "resting.confined (assertRequestedRootAccessAllowed e n ty p)" "resting.confined (assertNodeAcceptingNewWork n)"
  "resting.confined (resolveTemplateOrFail i' w')" "resting.confined (tasks_findOneOrFail i w)"
  unfolding assertNodeAcceptingNewWork_def resolveTemplateOrFail_def tasks_findOneOrFail_def
  by (intro resting.confined_quiet quiet_rules root_policy_quiet nodes_findOneOrFail_quiet assertWorkspaceWritable_quiet)+

lemma resting_queueTask [simp]: "resting.confined (queueTask e inp nd ctx)"
  unfolding queueTask_def Let_def
  by (intro resting.confined_rules resting_outputs resting_quiet resting.confined_writeE) (simp_all add: rests_def)

lemma resting_saveTask [simp]: "resting.confined (saveTask e old new)"
  by (simp add: resting.confined_def rests_def saveTask_def Let_def)

lemma resting_tasks [simp]:
  "resting.confined (createTask e n ty p tpl w ctx b)" "resting.confined (createTaskLog e i l m)"
  by (simp add: createTask_def)
     (simp add: createTaskLog_def insertTaskLog_def Let_def resting.confined_def rests_def)

lemma resting_cancellation [simp]: "resting.confined (requestTaskCancellation e i reason w ctx)"
  unfolding requestTaskCancellation_def reportCancellation_def Let_def
  by (intro resting.confined_rules resting_outputs resting_quiet resting_saveTask resting_tasks resting_publishTaskUpdated)

lemma resting_linked [simp]:
  "resting.confined (syncLinkedTaskTerminalState e t st d)" "resting.confined (recordRolloutEvent e n ty sev msg md)"
  "resting.confined (requestTaskCancellationForTarget e t)"
  unfolding syncLinkedTaskTerminalState_def recordRolloutEvent_def requestTaskCancellationForTarget_def
  by (intro resting.confined_rules resting_saveTask resting_outputs resting_tasks resting_cancellation)+

section \<open>Saving\<close>

lemma saved_target [simp]:
  defines "sv \<equiv> \<lambda>new rows now. saved_row rt_id (\<lambda>d r. r\<lparr>rt_updatedAt := d\<rparr>) now new rows"
  shows "rt_id (sv t rows now) = rt_id t" "rt_rolloutId (sv t rows now) = rt_rolloutId t"
    "rt_status (sv t rows now) = rt_status t" "rt_taskId (sv t rows now) = rt_taskId t"
    "rt_nodeId (sv t rows now) = rt_nodeId t" "rt_targetVersion (sv t rows now) = rt_targetVersion t"
    "rt_completedAt (sv t rows now) = rt_completedAt t" "rt_dispatchedAt (sv t rows now) = rt_dispatchedAt t"
    "rt_progressPercent (sv t rows now) = rt_progressPercent t" "rt_sequence (sv t rows now) = rt_sequence t"
    "rt_nodeNameSnapshot (sv t rows now) = rt_nodeNameSnapshot t" "rt_statusMessage (sv t rows now) = rt_statusMessage t"
  by (simp_all add: sv_def saved_row_def touched_def split: option.split)

lemma saved_rollout [simp]:
  defines "sv \<equiv> \<lambda>new rows now. saved_row ro_id (\<lambda>d r. r\<lparr>ro_updatedAt := d\<rparr>) now new rows"
  shows "ro_id (sv r rows now) = ro_id r" "ro_status (sv r rows now) = ro_status r"
    "ro_targetVersion (sv r rows now) = ro_targetVersion r" "ro_rollback (sv r rows now) = ro_rollback r"
  by (simp_all add: sv_def saved_row_def touched_def split: option.split)

lemma save_save:
  assumes "key x = key y"
  shows "save_row key y (save_row key x rows) = save_row key y rows"
proof -
  have "key y \<in> key ` set (save_row key x rows)" using assms by (simp add: set_save_row)
  then have "save_row key y (save_row key x rows) = map (\<lambda>r. if key r = key y then y else r) (save_row key x rows)"
    by (simp add: save_row_def update_rows_def)
  also have "\<dots> = save_row key y rows"
  proof (cases "key y \<in> key ` set rows")
    case True
    then show ?thesis using assms by (simp add: save_row_def update_rows_def)
  next
    case False
    then have "\<And>r. r \<in> set rows \<Longrightarrow> key r \<noteq> key y" by (metis imageI)
    then have "map (\<lambda>r. if key r = key y then y else r) rows = rows" by (intro map_idI) simp
    then show ?thesis using False assms by (simp add: save_row_def)
  qed
  finally show ?thesis .
qed

lemma save_same:
  assumes "distinct (map key rows)" "r \<in> set rows"
  shows "save_row key r rows = rows"
  using assms by (auto simp: save_row_def update_rows_def distinct_map inj_on_def intro!: map_idI)

section \<open>The invariant\<close>

fun allowed :: "rollout_status \<Rightarrow> target_status \<Rightarrow> bool" where
  "allowed RO_QUEUED st \<longleftrightarrow> st = TG_PENDING"
| "allowed RO_RUNNING st \<longleftrightarrow> st \<noteq> TG_FAILED \<and> st \<noteq> TG_CANCELLED"
| "allowed RO_PAUSED st \<longleftrightarrow> \<not> active_status st \<and> st \<noteq> TG_CANCELLED"
| "allowed RO_COMPLETED st \<longleftrightarrow> st = TG_COMPLETED \<or> st = TG_SKIPPED"
| "allowed RO_CANCELLED st \<longleftrightarrow> isTargetTerminal st"

text \<open>A target that holds up its rollout.\<close>

definition busy :: "target_status \<Rightarrow> bool" where
  "busy st \<longleftrightarrow> active_status st \<or> st = TG_FAILED"

definition target_ok :: "rollout_target \<Rightarrow> bool" where
  "target_ok t \<longleftrightarrow>
     (rt_status t = TG_PENDING \<longrightarrow> rt_taskId t = None \<and> rt_dispatchedAt t = None \<and> rt_progressPercent t = 0) \<and>
     (active_status (rt_status t) \<longrightarrow> rt_taskId t \<noteq> None \<and> rt_dispatchedAt t \<noteq> None) \<and>
     (isTargetTerminal (rt_status t) \<longleftrightarrow> rt_completedAt t \<noteq> None) \<and>
     (rt_status t = TG_COMPLETED \<longrightarrow> rt_progressPercent t = 100) \<and>
     0 \<le> rt_progressPercent t \<and> rt_progressPercent t \<le> 100"

definition rollout_ok :: "rollout_target set \<Rightarrow> rollout \<Rightarrow> bool" where
  "rollout_ok T r \<longleftrightarrow>
     (\<forall>t \<in> T. rt_rolloutId t = ro_id r \<longrightarrow> allowed (ro_status r) (rt_status t)) \<and>
     (ro_status r \<noteq> RO_CANCELLED \<longrightarrow> (\<forall>t \<in> T. \<forall>t' \<in> T. rt_rolloutId t = ro_id r \<and> rt_rolloutId t' = ro_id r \<and>
        busy (rt_status t) \<and> busy (rt_status t') \<longrightarrow> rt_id t = rt_id t')) \<and>
     (ro_status r = RO_PAUSED \<longrightarrow> (\<exists>t \<in> T. rt_rolloutId t = ro_id r \<and> rt_status t = TG_FAILED))"

definition sound :: "rollout set \<Rightarrow> rollout_target set \<Rightarrow> bool" where
  "sound R T \<longleftrightarrow>
     (\<forall>r \<in> R. \<forall>r' \<in> R. open_rollout r \<and> open_rollout r' \<longrightarrow> ro_id r = ro_id r') \<and>
     (\<forall>t \<in> T. target_ok t \<and> (\<exists>r \<in> R. ro_id r = rt_rolloutId t)) \<and>
     (\<forall>r \<in> R. rollout_ok T r)"

definition rollouts_inv :: "(nat \<Rightarrow> string) \<Rightarrow> db \<Rightarrow> bool" where
  "rollouts_inv u s \<longleftrightarrow> drawn_ids u (drawn s) (map ro_id (rollouts s)) \<and>
     drawn_ids u (drawn s) (map rt_id (rollout_targets s)) \<and> sound (set (rollouts s)) (set (rollout_targets s))"

lemmas status_defs = active_status_def AGENT_UPDATE_TARGET_ACTIVE_STATUSES_def isTargetTerminal_def
  AGENT_UPDATE_TARGET_TERMINAL_STATUSES_def busy_def

lemma target_ok_saved [simp]: "target_ok (saved_row rt_id (\<lambda>d r. r\<lparr>rt_updatedAt := d\<rparr>) now t rows) \<longleftrightarrow> target_ok t"
  by (simp add: target_ok_def)

lemma inv_rest: "rollouts_inv u s \<Longrightarrow> rests s t \<Longrightarrow> rollouts_inv u t"
  by (auto simp: rollouts_inv_def rests_def)

lemma inv_key:
  assumes "rollouts_inv u s"
  shows "r \<in> set (rollouts s) \<Longrightarrow> r' \<in> set (rollouts s) \<Longrightarrow> ro_id r = ro_id r' \<Longrightarrow> r = r'"
    "t \<in> set (rollout_targets s) \<Longrightarrow> t' \<in> set (rollout_targets s) \<Longrightarrow> rt_id t = rt_id t' \<Longrightarrow> t = t'"
  using assms by (auto simp: rollouts_inv_def drawn_ids_def distinct_map inj_on_def)

text \<open>One target and its rollout change; the others are not concerned.\<close>

lemma sound_move:
  assumes snd: "sound R T" and keys: "inj_on ro_id R" "inj_on rt_id T"
    and r: "r \<in> R" "ro_id r' = ro_id r" "open_rollout r' \<Longrightarrow> open_rollout r"
    and t: "t \<in> T" "rt_id t' = rt_id t" "rt_rolloutId t = ro_id r" "rt_rolloutId t' = ro_id r" "target_ok t'"
    and ok: "rollout_ok (insert t' {x \<in> T. rt_id x \<noteq> rt_id t'}) r'"
  shows "sound (insert r' {x \<in> R. ro_id x \<noteq> ro_id r'}) (insert t' {x \<in> T. rt_id x \<noteq> rt_id t'})"
proof -
  have others: "rollout_ok (insert t' {x \<in> T. rt_id x \<noteq> rt_id t'}) x" if "x \<in> R" "ro_id x \<noteq> ro_id r'" for x
  proof -
    have "rollout_ok T x" using snd that(1) by (simp add: sound_def)
    moreover have "rt_id y \<noteq> rt_id t'" if "y \<in> T" "rt_rolloutId y = ro_id x" for y
      using keys(2) t that \<open>ro_id x \<noteq> ro_id r'\<close> r(2) by (auto simp: inj_on_def)
    ultimately show ?thesis using that(2) t(4) r(2) unfolding rollout_ok_def by auto
  qed
  have opn: "ro_id x = ro_id y"
    if "open_rollout x" "open_rollout y" "x \<in> insert r' {x \<in> R. ro_id x \<noteq> ro_id r'}" "y \<in> insert r' {x \<in> R. ro_id x \<noteq> ro_id r'}" for x y
  proof -
    note xy = that
    have old: "\<exists>z0 \<in> R. open_rollout z0 \<and> ro_id z0 = ro_id z"
      if "open_rollout z" "z \<in> insert r' {x \<in> R. ro_id x \<noteq> ro_id r'}" for z
    proof (cases "z = r'")
      case True
      then have "open_rollout r \<and> ro_id r = ro_id z" using r(2,3) that(1) by simp
      then show ?thesis using r(1) by blast
    next
      case False
      then show ?thesis using that by blast
    qed
    obtain x0 y0 where "x0 \<in> R" "open_rollout x0" "ro_id x0 = ro_id x" "y0 \<in> R" "open_rollout y0" "ro_id y0 = ro_id y"
      using old[OF xy(1,3)] old[OF xy(2,4)] by blast
    then show ?thesis using snd unfolding sound_def by metis
  qed
  have tgt: "target_ok y \<and> (\<exists>x \<in> insert r' {x \<in> R. ro_id x \<noteq> ro_id r'}. ro_id x = rt_rolloutId y)"
    if "y \<in> insert t' {x \<in> T. rt_id x \<noteq> rt_id t'}" for y
  proof -
    have "target_ok a \<and> (\<exists>x \<in> R. ro_id x = rt_rolloutId a)" if "a \<in> T" for a
      using that snd unfolding sound_def by blast
    then have "target_ok y \<and> (\<exists>x \<in> R. ro_id x = rt_rolloutId y)" using that t r(1) by force
    then show ?thesis using r(2) by auto
  qed
  have rok: "rollout_ok (insert t' {x \<in> T. rt_id x \<noteq> rt_id t'}) x" if "x \<in> insert r' {x \<in> R. ro_id x \<noteq> ro_id r'}" for x
    using that ok others by blast
  show ?thesis
    unfolding sound_def
  proof (intro conjI ballI impI, goal_cases)
    case (1 x y)
    then show ?case using opn by blast
  next
    case (2 y)
    then show ?case using tgt by blast
  next
    case (3 y)
    then show ?case using tgt by blast
  next
    case (4 x)
    then show ?case by (rule rok)
  qed
qed

lemma sound_rollout:
  assumes snd: "sound R T" and r: "r \<in> R" "ro_id r' = ro_id r" "open_rollout r' \<Longrightarrow> open_rollout r" and ok: "rollout_ok T r'"
  shows "sound (insert r' {x \<in> R. ro_id x \<noteq> ro_id r'}) T"
proof -
  have old: "\<exists>z0 \<in> R. (open_rollout z \<longrightarrow> open_rollout z0) \<and> ro_id z0 = ro_id z"
    if "z \<in> insert r' {x \<in> R. ro_id x \<noteq> ro_id r'}" for z
    using that r by (cases "z = r'") auto
  show ?thesis
    unfolding sound_def
  proof (intro conjI ballI impI, goal_cases)
    case (1 x y)
    obtain x0 y0 where "x0 \<in> R" "open_rollout x0" "ro_id x0 = ro_id x" "y0 \<in> R" "open_rollout y0" "ro_id y0 = ro_id y"
      using old[OF 1(1)] old[OF 1(2)] 1(3) by blast
    then show ?case using snd unfolding sound_def by metis
  next
    case (2 t)
    then show ?case using snd unfolding sound_def by blast
  next
    case (3 t)
    then obtain x where "x \<in> R" "ro_id x = rt_rolloutId t" using snd unfolding sound_def by blast
    then show ?case using r(2) by (cases "ro_id x = ro_id r'") auto
  next
    case (4 x)
    then show ?case using ok snd unfolding sound_def by blast
  qed
qed

lemma rollout_ok_change:
  assumes "ro_id r' = ro_id r" "rt_id t' = rt_id t" "rt_rolloutId t' = ro_id r" "allowed (ro_status r') (rt_status t')"
    and others: "\<And>x. x \<in> T \<Longrightarrow> rt_rolloutId x = ro_id r \<Longrightarrow> rt_id x \<noteq> rt_id t \<Longrightarrow> allowed (ro_status r') (rt_status x)"
    and free: "\<And>x. busy (rt_status t') \<Longrightarrow> x \<in> T \<Longrightarrow> rt_rolloutId x = ro_id r \<Longrightarrow> rt_id x \<noteq> rt_id t \<Longrightarrow> \<not> busy (rt_status x)"
    and apart: "\<And>x y. x \<in> T \<Longrightarrow> y \<in> T \<Longrightarrow> rt_rolloutId x = ro_id r \<Longrightarrow> rt_rolloutId y = ro_id r \<Longrightarrow>
      busy (rt_status x) \<Longrightarrow> busy (rt_status y) \<Longrightarrow> rt_id x = rt_id y"
    and held: "ro_status r' = RO_PAUSED \<Longrightarrow> rt_status t' = TG_FAILED \<or>
      (\<exists>x \<in> T. rt_rolloutId x = ro_id r \<and> rt_id x \<noteq> rt_id t \<and> rt_status x = TG_FAILED)"
  shows "rollout_ok (insert t' {x \<in> T. rt_id x \<noteq> rt_id t'}) r'"
  unfolding rollout_ok_def
proof (intro conjI ballI impI, goal_cases)
  case (1 x)
  then show ?case using assms(1-4) others by auto
next
  case (2 x y)
  then have xy: "x \<in> insert t' T" "y \<in> insert t' T" "rt_rolloutId x = ro_id r" "rt_rolloutId y = ro_id r"
      "busy (rt_status x)" "busy (rt_status y)" "x \<noteq> t' \<longrightarrow> rt_id x \<noteq> rt_id t" "y \<noteq> t' \<longrightarrow> rt_id y \<noteq> rt_id t"
    using assms(1,2) by auto
  show ?case
  proof (cases "x = t' \<or> y = t'")
    case True
    then show ?thesis using xy free[of x] free[of y] by (metis insertE)
  next
    case False
    then show ?thesis using xy by (intro apart) auto
  qed
next
  case 3
  then show ?case using held assms(1-3) by auto
qed

lemma inv_move:
  assumes inv: "rollouts_inv u s" and r: "r \<in> set (rollouts s)" "ro_id r' = ro_id r" "open_rollout r' \<Longrightarrow> open_rollout r"
    and t: "t \<in> set (rollout_targets s)" "rt_id t' = rt_id t" "rt_rolloutId t = ro_id r" "rt_rolloutId t' = ro_id r" "target_ok t'"
    and ok: "rollout_ok (insert t' {x \<in> set (rollout_targets s). rt_id x \<noteq> rt_id t'}) r'"
    and v: "rollouts v = save_row ro_id r' (rollouts s)" "rollout_targets v = save_row rt_id t' (rollout_targets s)"
      "drawn s \<le> drawn v"
  shows "rollouts_inv u v"
proof -
  have "inj_on ro_id (set (rollouts s))" "inj_on rt_id (set (rollout_targets s))"
    using inv by (simp_all add: rollouts_inv_def drawn_ids_def distinct_map)
  then have "sound (set (rollouts v)) (set (rollout_targets v))"
    unfolding v set_save_row using inv r t ok by (intro sound_move[where r = r and t = t]) (simp_all add: rollouts_inv_def)
  moreover have "map ro_id (rollouts v) = map ro_id (rollouts s)" "map rt_id (rollout_targets v) = map rt_id (rollout_targets s)"
    using r t by (auto simp: v map_key_save_row)
  ultimately show ?thesis using inv v(3) by (auto simp: rollouts_inv_def)
qed

lemma inv_rollout:
  assumes inv: "rollouts_inv u s" and r: "r \<in> set (rollouts s)" "ro_id r' = ro_id r" "open_rollout r' \<Longrightarrow> open_rollout r"
    and ok: "rollout_ok (set (rollout_targets s)) r'"
    and v: "rollouts v = save_row ro_id r' (rollouts s)" "rollout_targets v = rollout_targets s" "drawn s \<le> drawn v"
  shows "rollouts_inv u v"
proof -
  have "sound (set (rollouts v)) (set (rollout_targets v))"
    unfolding v set_save_row using inv r ok by (intro sound_rollout[where r = r]) (simp_all add: rollouts_inv_def)
  moreover have "map ro_id (rollouts v) = map ro_id (rollouts s)" using r by (auto simp: v map_key_save_row)
  ultimately show ?thesis using inv v(2,3) by (auto simp: rollouts_inv_def)
qed

text \<open>What the invariant says of one rollout.\<close>

lemma inv_rolloutD:
  assumes "rollouts_inv u s" "r \<in> set (rollouts s)"
  shows "x \<in> set (rollout_targets s) \<Longrightarrow> rt_rolloutId x = ro_id r \<Longrightarrow> allowed (ro_status r) (rt_status x)"
    "ro_status r \<noteq> RO_CANCELLED \<Longrightarrow> x \<in> set (rollout_targets s) \<Longrightarrow> y \<in> set (rollout_targets s) \<Longrightarrow> rt_rolloutId x = ro_id r \<Longrightarrow>
      rt_rolloutId y = ro_id r \<Longrightarrow> busy (rt_status x) \<Longrightarrow> busy (rt_status y) \<Longrightarrow> rt_id x = rt_id y"
    "ro_status r = RO_PAUSED \<Longrightarrow> \<exists>x \<in> set (rollout_targets s). rt_rolloutId x = ro_id r \<and> rt_status x = TG_FAILED"
  using assms unfolding rollouts_inv_def sound_def rollout_ok_def by blast+

lemma inv_targetD:
  assumes "rollouts_inv u s" "x \<in> set (rollout_targets s)"
  shows "target_ok x" "\<exists>r \<in> set (rollouts s). ro_id r = rt_rolloutId x"
  using assms unfolding rollouts_inv_def sound_def by blast+

section \<open>The moves\<close>

text \<open>What the pair of a rollout and one of its targets becomes, and nothing else changes.\<close>

definition moved :: "rollout \<Rightarrow> rollout_target \<Rightarrow> db \<Rightarrow> db \<Rightarrow> bool" where
  "moved r t s v \<longleftrightarrow> rollouts v = save_row ro_id r (rollouts s) \<and>
     rollout_targets v = save_row rt_id t (rollout_targets s) \<and> drawn s \<le> drawn v"

lemma pause_moves:
  "\<exists>r' t'. moved r' t' s (after (pauseRolloutForTargetFailure e r t message) s) \<and> ro_id r' = ro_id r \<and> ro_status r' = RO_PAUSED \<and>
     rt_id t' = rt_id t \<and> rt_rolloutId t' = rt_rolloutId t \<and> rt_status t' = TG_FAILED \<and> rt_completedAt t' \<noteq> None \<and>
     rt_progressPercent t' = rt_progressPercent t"
proof -
  define t1 where "t1 = t\<lparr>rt_status := TG_FAILED, rt_completedAt := Some (orElse (rt_completedAt t) (e_now e)), rt_statusMessage := Some message\<rparr>"
  define t' where "t' = saved_row rt_id (\<lambda>d r. r\<lparr>rt_updatedAt := d\<rparr>) (e_now e) t1 (rollout_targets s)"
  define r' where "r' = saved_row ro_id (\<lambda>d r. r\<lparr>ro_updatedAt := d\<rparr>) (e_now e)
    (r\<lparr>ro_status := RO_PAUSED, ro_statusMessage := Some message\<rparr>) (rollouts s)"
  define s1 where "s1 = s\<lparr>rollout_targets := save_row rt_id t' (rollout_targets s), rollouts := save_row ro_id r' (rollouts s)\<rparr>"
  define rest where "rest = bindE (syncLinkedTaskTerminalState e t' FAILED message) (\<lambda>_.
     recordRolloutEvent e (Some (rt_nodeId t')) ''agent.update.target.failed'' WARNING message
       [(''rolloutId'', JStr (ro_id r)), (''targetId'', JStr (rt_id t')), (''targetVersion'', JStr (rt_targetVersion t'))])"
  have run: "pauseRolloutForTargetFailure e r t message s = rest s1"
    by (simp add: pauseRolloutForTargetFailure_def saveTarget_def saveRollout_def rest_def s1_def r'_def t'_def t1_def)
  have "resting.confined rest" unfolding rest_def by (intro resting.confined_rules resting_linked)
  then have "rests s1 (after rest s1)" by (simp add: resting.confined_def)
  then have "moved r' t' s (after (pauseRolloutForTargetFailure e r t message) s)"
    by (simp add: run moved_def rests_def s1_def)
  then show ?thesis by (intro exI[of _ r'] exI[of _ t']) (simp add: r'_def t'_def t1_def)
qed

lemma dispatch_moves:
  obtains (failed) "rests s (after (dispatchTarget e r t n) s)"
  | (dispatched) r' t' where "moved r' t' s (after (dispatchTarget e r t n) s)" "ro_id r' = ro_id r" "ro_status r' = RO_RUNNING"
      "rt_id t' = rt_id t" "rt_rolloutId t' = rt_rolloutId t" "rt_status t' = TG_DISPATCHED" "rt_completedAt t' = None"
      "rt_progressPercent t' = 5" "rt_taskId t' \<noteq> None" "rt_dispatchedAt t' \<noteq> None"
proof -
  define mk where "mk = createTask e (n_id n) ''agent.update''
    (Some [(''targetVersion'', JStr (ro_targetVersion r)), (''targetId'', JStr (rt_id t)), (''rollback'', JBool (ro_rollback r))])
    None None None False"
  have mk: "rests s (after mk s)" using resting_tasks(1) by (simp add: mk_def resting.confined_def)
  show thesis
  proof (cases mk s rule: handler_cases)
    case (error err s')
    then have "after (dispatchTarget e r t n) s = s'"
      by (simp add: dispatchTarget_def mk_def[symmetric] bindE_Inl[where m = mk and s = s, OF error])
    then show thesis using failed mk error by simp
  next
    case (result tk s')
    define t' where "t' = saved_row rt_id (\<lambda>d r. r\<lparr>rt_updatedAt := d\<rparr>) (e_now e) (dispatched_target e n (t_id tk) t) (rollout_targets s')"
    define r1 where "r1 = r\<lparr>ro_status := RO_RUNNING,
      ro_statusMessage := Some (''Dispatched '' @ node_label n @ ''. Waiting for agent update progress.''),
      ro_startedAt := Some (orElse (ro_startedAt r) (e_now e))\<rparr>"
    define r' where "r' = saved_row ro_id (\<lambda>d r. r\<lparr>ro_updatedAt := d\<rparr>) (e_now e) r1 (rollouts s')"
    define s1 where "s1 = s'\<lparr>rollout_targets := save_row rt_id t' (rollout_targets s'), rollouts := save_row ro_id r' (rollouts s')\<rparr>"
    define rest where "rest = recordRolloutEvent e (Some (n_id n)) ''agent.update.target.dispatched'' INFO
       (node_label n @ '' queued agent '' @ update_kind (ro_rollback r) @ '' to '' @ ro_targetVersion r @ ''.'')
       [(''rolloutId'', JStr (ro_id r)), (''targetId'', JStr (rt_id t)), (''taskId'', JStr (t_id tk)),
        (''targetVersion'', JStr (ro_targetVersion r))]"
    have run: "dispatchTarget e r t n s = rest s1"
      unfolding dispatchTarget_def mk_def[symmetric] bindE_Inr[where m = mk and s = s, OF result]
      by (simp add: saveTarget_def saveRollout_def rest_def s1_def r'_def t'_def r1_def)
    have "rests s1 (after rest s1)" using resting_linked(2) by (simp add: rest_def resting.confined_def)
    then have "moved r' t' s (after (dispatchTarget e r t n) s)"
      using mk by (simp add: run moved_def rests_def s1_def result)
    then show thesis by (rule dispatched) (simp_all add: r'_def t'_def r1_def dispatched_target_def)
  qed
qed

section \<open>Dispatching keeps the invariant\<close>

lemma pause_inv:
  assumes inv: "rollouts_inv u s" and r: "r \<in> set (rollouts s)" "ro_status r = RO_RUNNING"
    and t: "t \<in> set (rollout_targets s)" "rt_rolloutId t = ro_id r"
    and alone: "\<And>x. x \<in> set (rollout_targets s) \<Longrightarrow> rt_rolloutId x = ro_id r \<Longrightarrow> rt_id x \<noteq> rt_id t \<Longrightarrow> \<not> busy (rt_status x)"
    and t1: "rt_id t1 = rt_id t" "rt_rolloutId t1 = ro_id r" "0 \<le> rt_progressPercent t1" "rt_progressPercent t1 \<le> 100"
    and v: "rollouts v = rollouts s" "rollout_targets v = save_row rt_id y (rollout_targets s)" "rt_id y = rt_id t" "drawn s \<le> drawn v"
  shows "rollouts_inv u (after (pauseRolloutForTargetFailure e r t1 message) v)"
proof -
  obtain r' t' where m: "moved r' t' v (after (pauseRolloutForTargetFailure e r t1 message) v)"
    and r': "ro_id r' = ro_id r" "ro_status r' = RO_PAUSED"
    and t': "rt_id t' = rt_id t" "rt_rolloutId t' = ro_id r" "rt_status t' = TG_FAILED" "rt_completedAt t' \<noteq> None"
      "rt_progressPercent t' = rt_progressPercent t1"
    using pause_moves[where s = v and t = t1 and r = r and e = e and message = message] unfolding t1(1,2) by blast
  have apart: "rt_id x = rt_id z" if "x \<in> set (rollout_targets s)" "z \<in> set (rollout_targets s)" "rt_rolloutId x = ro_id r"
      "rt_rolloutId z = ro_id r" "busy (rt_status x)" "busy (rt_status z)" for x z
    by (rule inv_rolloutD(2)[OF inv r(1)]) (use that r(2) in simp_all)
  have paused: "allowed RO_PAUSED (rt_status x)" if "x \<in> set (rollout_targets s)" "rt_rolloutId x = ro_id r" "rt_id x \<noteq> rt_id t" for x
    using alone[OF that] inv_rolloutD(1)[OF inv r(1) that(1,2)] r(2) by (auto simp: busy_def)
  show ?thesis
  proof (rule inv_move[OF inv r(1) r'(1) _ t(1) t'(1) t(2) t'(2)])
    show "rollout_ok (insert t' {x \<in> set (rollout_targets s). rt_id x \<noteq> rt_id t'}) r'"
    proof (rule rollout_ok_change[where r = r and t = t])
      show "allowed (ro_status r') (rt_status x)" if "x \<in> set (rollout_targets s)" "rt_rolloutId x = ro_id r" "rt_id x \<noteq> rt_id t" for x
        using paused[OF that] r'(2) by simp
    qed (use r' t' alone in \<open>auto intro: apart simp: status_defs\<close>)
    show "target_ok t'" using t' t1 by (auto simp: target_ok_def status_defs)
    show "open_rollout r" if "open_rollout r'" using r(2) by (simp add: open_rollout_def)
  qed (use m v t'(1) in \<open>simp_all add: moved_def save_save\<close>)
qed

lemma dispatch_inv:
  assumes inv: "rollouts_inv u s" and r: "r \<in> set (rollouts s)" "ro_status r = RO_RUNNING"
    and t: "t \<in> set (rollout_targets s)" "rt_rolloutId t = ro_id r"
    and alone: "\<And>x. x \<in> set (rollout_targets s) \<Longrightarrow> rt_rolloutId x = ro_id r \<Longrightarrow> \<not> busy (rt_status x)"
  shows "rollouts_inv u (after (dispatchTarget e r t n) s)"
proof (cases rule: dispatch_moves[of s e r t n])
  case failed
  then show ?thesis by (rule inv_rest[OF inv])
next
  case (dispatched r' t')
  have running: "allowed RO_RUNNING (rt_status x)" if "x \<in> set (rollout_targets s)" "rt_rolloutId x = ro_id r" for x
    using inv_rolloutD(1)[OF inv r(1) that] r(2) by simp
  show ?thesis
  proof (rule inv_move[OF inv r(1) dispatched(2) _ t(1) dispatched(4) t(2)])
    show "rollout_ok (insert t' {x \<in> set (rollout_targets s). rt_id x \<noteq> rt_id t'}) r'"
    proof (rule rollout_ok_change[where r = r and t = t])
      show "allowed (ro_status r') (rt_status x)" if "x \<in> set (rollout_targets s)" "rt_rolloutId x = ro_id r" for x
        using running[OF that] dispatched by simp
    qed (use dispatched t alone in \<open>auto simp: status_defs\<close>)
    show "target_ok t'" using dispatched by (auto simp: target_ok_def status_defs)
    show "open_rollout r" if "open_rollout r'" using r(2) by (simp add: open_rollout_def)
  qed (use dispatched t in \<open>simp_all add: moved_def\<close>)
qed

lemma pending_target_None:
  "pending_target i s = None \<Longrightarrow> x \<in> set (rollout_targets s) \<Longrightarrow> rt_rolloutId x = i \<Longrightarrow> rt_status x \<noteq> TG_PENDING"
  using order_limit_Nil[of 1 rt_sequence "filter (\<lambda>t. rt_rolloutId t = i \<and> rt_status t = TG_PENDING) (rollout_targets s)"]
  by (auto simp: pending_target_def filter_empty_conv split: list.splits)

lemma pending_target_Some:
  assumes "pending_target i s = Some t"
  shows "t \<in> set (rollout_targets s)" "rt_rolloutId t = i" "rt_status t = TG_PENDING"
    "\<And>x. x \<in> set (rollout_targets s) \<Longrightarrow> rt_rolloutId x = i \<Longrightarrow> rt_status x = TG_PENDING \<Longrightarrow> rt_sequence t \<le> rt_sequence x"
proof -
  obtain ts where "order_limit rt_sequence (Suc 0) (filter (\<lambda>t. rt_rolloutId t = i \<and> rt_status t = TG_PENDING) (rollout_targets s)) = t # ts"
    using assms by (auto simp: pending_target_def split: list.splits)
  from order_limit_head[OF this] show "t \<in> set (rollout_targets s)" "rt_rolloutId t = i" "rt_status t = TG_PENDING"
    "\<And>x. x \<in> set (rollout_targets s) \<Longrightarrow> rt_rolloutId x = i \<Longrightarrow> rt_status x = TG_PENDING \<Longrightarrow> rt_sequence t \<le> rt_sequence x"
    by auto
qed

lemma dispatchNext_run:
  assumes "find_row (\<lambda>r. ro_id r = i) (rollouts s) = Some r"
  shows "dispatchNextTarget e i s =
    (if ro_status r = RO_CANCELLED \<or> (\<exists>t \<in> set (rollout_targets s). rt_rolloutId t = ro_id r \<and> active_status (rt_status t))
     then (Inr (), s) else dispatchOrFinish e r (pending_target (ro_id r) s) s)"
proof -
  have "0 < count_rows p rows \<longleftrightarrow> (\<exists>x \<in> set rows. p x)" for p and rows :: "rollout_target list"
    using count_rows_zero[of p rows] by auto
  then show ?thesis using assms by (auto simp: dispatchNextTarget_def findRolloutEntityOrFail_def)
qed

lemma eligible_quiet: "quiet (assertNodeEligibleForRollout n v)"
  unfolding assertNodeEligibleForRollout_def assertNodeAcceptingNewWork_def by (intro quiet_rules)

lemma eligible_lookup_quiet:
  "quiet (bindE (nodes_findOneOrFail i w) (\<lambda>(n, _). bindE (assertNodeEligibleForRollout n v) (\<lambda>_. ret (Some n))))"
  by (intro quiet_rules nodes_findOneOrFail_quiet eligible_quiet)

lemma dispatchNext_inv:
  assumes inv: "rollouts_inv u s" and r: "r \<in> set (rollouts s)" "ro_status r = RO_RUNNING"
  shows "rollouts_inv u (after (dispatchNextTarget e (ro_id r)) s)"
proof -
  have found: "find_row (\<lambda>x. ro_id x = ro_id r) (rollouts s) = Some r"
    using inv r(1) by (intro find_row_key) (simp_all add: rollouts_inv_def drawn_ids_def)
  show ?thesis
  proof (cases "\<exists>t \<in> set (rollout_targets s). rt_rolloutId t = ro_id r \<and> active_status (rt_status t)")
    case True
    then show ?thesis using inv by (simp add: dispatchNext_run[OF found])
  next
    case idle: False
    have free: "\<not> busy (rt_status x) \<and> allowed RO_RUNNING (rt_status x)"
      if "x \<in> set (rollout_targets s)" "rt_rolloutId x = ro_id r" for x
      using idle that inv_rolloutD(1)[OF inv r(1) that] r(2) by (auto simp: busy_def)
    have run: "dispatchNextTarget e (ro_id r) s = dispatchOrFinish e r (pending_target (ro_id r) s) s"
    proof -
      have "\<not> (ro_status r = RO_CANCELLED \<or> (\<exists>t \<in> set (rollout_targets s). rt_rolloutId t = ro_id r \<and> active_status (rt_status t)))"
        using idle r(2) by simp
      then show ?thesis by (simp only: dispatchNext_run[OF found] if_False)
    qed
    show ?thesis
    proof (cases "pending_target (ro_id r) s")
      case None
      have "allowed RO_COMPLETED (rt_status x)" if "x \<in> set (rollout_targets s)" "rt_rolloutId x = ro_id r" for x
        using free[OF that] pending_target_None[OF None that] by (cases "rt_status x") (auto simp: status_defs)
      then have ok: "rollout_ok (set (rollout_targets s)) x" if "ro_id x = ro_id r" "ro_status x = RO_COMPLETED" for x
        using free that by (auto simp: rollout_ok_def)
      show ?thesis unfolding run None dispatchOrFinish_def
        by (simp add: saveRollout_def)
           (rule inv_rollout[OF inv r(1)], use ok r(2) in \<open>simp_all add: open_rollout_def\<close>)
    next
      case (Some t)
      note t = pending_target_Some[OF Some]
      define look where "look = bindE (nodes_findOneOrFail (rt_nodeId t) None) (\<lambda>(n, _).
               bindE (assertNodeEligibleForRollout n (ro_targetVersion r)) (\<lambda>_. ret (Some n)))"
      have quiet: "quiet look" unfolding look_def by (rule eligible_lookup_quiet)
      have run2: "dispatchNextTarget e (ro_id r) s =
          bindE (catchE look (\<lambda>err. bindE (pauseRolloutForTargetFailure e r t (error_message err)) (\<lambda>_. ret None)))
            (\<lambda>found. case found of None \<Rightarrow> ret () | Some n \<Rightarrow> dispatchTarget e r t n) s"
        unfolding run Some dispatchOrFinish_def look_def by simp
      show ?thesis
      proof (cases look s rule: handler_cases)
        case (error err s')
        then have same: "s' = s" using quiet_run[OF quiet] by blast
        have keyed: "distinct (map rt_id (rollout_targets s))" using inv by (simp add: rollouts_inv_def drawn_ids_def)
        have "target_ok t" using inv_targetD(1)[OF inv t(1)] .
        then have "rollouts_inv u (after (pauseRolloutForTargetFailure e r t (error_message err)) s)"
          using t free by (intro pause_inv[OF inv r t(1,2), where y = t]) (auto simp: save_same[OF keyed] target_ok_def)
        moreover have "after (bindE (catchE look (\<lambda>err. bindE (pauseRolloutForTargetFailure e r t (error_message err)) (\<lambda>_. ret None)))
            (\<lambda>found. case found of None \<Rightarrow> ret () | Some n \<Rightarrow> dispatchTarget e r t n)) s =
          after (pauseRolloutForTargetFailure e r t (error_message err)) s"
          using error by (simp add: same bindE_def catchE_def split: prod.split sum.split)
        ultimately show ?thesis by (simp add: run2)
      next
        case (result x s')
        then have same: "s' = s" using quiet_run[OF quiet] by blast
        have "after (dispatchNextTarget e (ro_id r)) s = after (case x of None \<Rightarrow> ret () | Some n \<Rightarrow> dispatchTarget e r t n) s"
          unfolding run2 using result by (simp add: same bindE_def catchE_def)
        then show ?thesis using dispatch_inv[OF inv r t(1,2)] free inv by (cases x) auto
      qed
    qed
  qed
qed

section \<open>Every operation keeps the invariant\<close>

definition with_rollout :: "(nat \<Rightarrow> string) \<Rightarrow> rollout \<Rightarrow> db \<Rightarrow> bool" where
  "with_rollout u r s \<longleftrightarrow> rollouts_inv u s \<and> r \<in> set (rollouts s)"

lemma with_rollout_rest: "with_rollout u r s \<Longrightarrow> rests s t \<Longrightarrow> with_rollout u r t"
  by (auto simp: with_rollout_def rests_def intro: inv_rest)

lemma leads_rest:
  assumes "resting.confined m" "\<And>x. leads (with_rollout u r) (f x) (rollouts_inv u)"
  shows "leads (with_rollout u r) (bindE m f) (rollouts_inv u)"
proof (rule leads_seq[where R = "with_rollout u r"])
  show "leads (with_rollout u r) m (with_rollout u r)"
    using assms(1) by (auto simp: leads_def resting.confined_def intro: with_rollout_rest)
qed (use assms(2) in \<open>simp_all add: with_rollout_def\<close>)

lemma leads_dispatch:
  assumes "ro_status r = RO_RUNNING"
  shows "leads (with_rollout u r) (dispatchNextTarget e (ro_id r)) (rollouts_inv u)"
  using dispatchNext_inv[of u _ r e] assms by (simp add: leads_def with_rollout_def)

lemma rollout_found:
  assumes "rollouts_inv u s" "r \<in> set (rollouts s)" "ro_id r = i"
  shows "find_row (\<lambda>x. ro_id x = i) (rollouts s) = Some r"
  using find_row_key[of ro_id "rollouts s" r] assms by (simp add: rollouts_inv_def drawn_ids_def)

lemma target_found:
  assumes "rollouts_inv u s" "t \<in> set (rollout_targets s)" "rt_id t = i"
  shows "find_row (\<lambda>x. rt_id x = i) (rollout_targets s) = Some t"
  using find_row_key[of rt_id "rollout_targets s" t] assms by (simp add: rollouts_inv_def drawn_ids_def)

lemma observed_target_Some:
  assumes "observed_target i s = Some t"
  shows "t \<in> set (rollout_targets s)" "rt_nodeId t = i" "\<not> isTargetTerminal (rt_status t)"
    "\<exists>r \<in> set (rollouts s). ro_id r = rt_rolloutId t \<and> (ro_status r = RO_RUNNING \<or> ro_status r = RO_PAUSED)"
proof -
  obtain ts where "order_limit rt_sequence (Suc 0) (filter (\<lambda>t. rt_nodeId t = i \<and> \<not> isTargetTerminal (rt_status t) \<and>
      (\<exists>r \<in> set (rollouts s). ro_id r = rt_rolloutId t \<and> ro_status r \<in> {RO_RUNNING, RO_PAUSED})) (rollout_targets s)) = t # ts"
    using assms by (auto simp: observed_target_def split: list.splits)
  from order_limit_head[OF this] show "t \<in> set (rollout_targets s)" "rt_nodeId t = i" "\<not> isTargetTerminal (rt_status t)"
    "\<exists>r \<in> set (rollouts s). ro_id r = rt_rolloutId t \<and> (ro_status r = RO_RUNNING \<or> ro_status r = RO_PAUSED)"
    by auto
qed

text \<open>A target changes and its rollout keeps its status.\<close>

lemma inv_target:
  assumes inv: "rollouts_inv u s" and r: "r \<in> set (rollouts s)" "ro_status r = RO_RUNNING \<or> ro_status r = RO_PAUSED"
      "ro_id r' = ro_id r" "ro_status r' = ro_status r"
    and t: "t \<in> set (rollout_targets s)" "rt_rolloutId t = ro_id r" "\<not> isTargetTerminal (rt_status t)"
      "rt_id t' = rt_id t" "rt_rolloutId t' = ro_id r" "target_ok t'" "allowed (ro_status r) (rt_status t')"
    and busy: "busy (rt_status t') \<Longrightarrow> busy (rt_status t)"
    and v: "rollouts v = save_row ro_id r' (rollouts s)" "rollout_targets v = save_row rt_id t' (rollout_targets s)"
      "drawn s \<le> drawn v"
  shows "rollouts_inv u v"
proof (rule inv_move[OF inv r(1,3) _ t(1,4,2,5,6) _ v])
  have apart: "rt_id x = rt_id z" if "x \<in> set (rollout_targets s)" "z \<in> set (rollout_targets s)" "rt_rolloutId x = ro_id r"
      "rt_rolloutId z = ro_id r" "busy (rt_status x)" "busy (rt_status z)" for x z
    by (rule inv_rolloutD(2)[OF inv r(1)]) (use that r(2) in auto)
  show "rollout_ok (insert t' {x \<in> set (rollout_targets s). rt_id x \<noteq> rt_id t'}) r'"
  proof (rule rollout_ok_change[where r = r and t = t])
    show "allowed (ro_status r') (rt_status x)" if "x \<in> set (rollout_targets s)" "rt_rolloutId x = ro_id r" for x
      using inv_rolloutD(1)[OF inv r(1) that] r(4) by simp
    show "\<not> busy (rt_status x)" if "busy (rt_status t')" "x \<in> set (rollout_targets s)" "rt_rolloutId x = ro_id r" "rt_id x \<noteq> rt_id t" for x
      using apart[OF that(2) t(1) that(3) t(2)] busy[OF that(1)] that(4) by blast
    show "rt_status t' = TG_FAILED \<or> (\<exists>x \<in> set (rollout_targets s). rt_rolloutId x = ro_id r \<and> rt_id x \<noteq> rt_id t \<and> rt_status x = TG_FAILED)"
      if paused: "ro_status r' = RO_PAUSED"
    proof -
      obtain x where x: "x \<in> set (rollout_targets s)" "rt_rolloutId x = ro_id r" "rt_status x = TG_FAILED"
        using inv_rolloutD(3)[OF inv r(1)] paused r(4) by auto
      have "rt_id x \<noteq> rt_id t" using inv_key(2)[OF inv x(1) t(1)] x(3) t(3) by (auto simp: status_defs)
      then show ?thesis using x by blast
    qed
  qed (use r t in \<open>auto intro: apart\<close>)
  show "open_rollout r" using r(2) by (auto simp: open_rollout_def)
qed

lemma keeps_observe: "keeps (rollouts_inv u) (observeNodeVersion e nodeId version)"
proof (rule keepsI)
  fix s assume inv: "rollouts_inv u s"
  show "rollouts_inv u (after (observeNodeVersion e nodeId version) s)"
  proof (cases "observed_target nodeId s")
    case None
    then show ?thesis using inv by (simp add: observeNodeVersion_def)
  next
    case (Some t)
    note t = observed_target_Some[OF Some]
    obtain r where r: "r \<in> set (rollouts s)" "ro_id r = rt_rolloutId t" "ro_status r = RO_RUNNING \<or> ro_status r = RO_PAUSED"
      using t(4) by blast
    show ?thesis
    proof (cases "truthy version \<and> version = Some (rt_targetVersion t)")
      case False
      then show ?thesis using inv Some by (auto simp: observeNodeVersion_def)
    next
      case True
      define detail where "detail = ''Agent reconnect confirmed '' @ the version @ ''.''"
      define t' where "t' = saved_row rt_id (\<lambda>d r. r\<lparr>rt_updatedAt := d\<rparr>) (e_now e)
        (t\<lparr>rt_status := TG_COMPLETED, rt_progressPercent := 100, rt_statusMessage := Some detail, rt_completedAt := Some (e_now e)\<rparr>)
        (rollout_targets s)"
      define s1 where "s1 = s\<lparr>rollout_targets := save_row rt_id t' (rollout_targets s)\<rparr>"
      define rest where "rest = bindE (syncLinkedTaskTerminalState e t' SUCCESS detail) (\<lambda>_.
        bindE (recordRolloutEvent e (Some (rt_nodeId t)) ''agent.update.target.completed'' INFO
                      (rt_nodeNameSnapshot t @ '' reported agent '' @ the version @ ''.'')
                      [(''rolloutId'', JStr (ro_id r)), (''targetId'', JStr (rt_id t)),
                       (''targetVersion'', JStr (rt_targetVersion t))]) (\<lambda>_.
        whenE (ro_status r = RO_RUNNING) (dispatchNextTarget e (ro_id r))))"
      have "rt_targetVersion t \<noteq> []" "version = Some (rt_targetVersion t)" using True by auto
      then have run: "observeNodeVersion e nodeId version s = rest s1"
        by (simp add: observeNodeVersion_def Some findRolloutEntityOrFail_def rollout_found[OF inv r(1,2)]
            saveTarget_def rest_def s1_def t'_def detail_def Let_def)
      have "distinct (map ro_id (rollouts s))" using inv by (simp add: rollouts_inv_def drawn_ids_def)
      then have keep: "rollouts s = save_row ro_id r (rollouts s)" using r(1) by (simp add: save_same)
      have done_t: "rt_status t' = TG_COMPLETED" "rt_id t' = rt_id t" "rt_rolloutId t' = ro_id r" "rt_progressPercent t' = 100"
          "rt_completedAt t' \<noteq> None" using r(2) by (simp_all add: t'_def)
      have "rollouts_inv u s1"
      proof (rule inv_target[OF inv r(1,3) refl refl t(1) r(2)[symmetric] t(3) done_t(2,3)])
        show "target_ok t'" using done_t by (simp add: target_ok_def status_defs)
        show "allowed (ro_status r) (rt_status t')" using r(3) done_t(1) by (auto simp: status_defs)
        show "busy (rt_status t)" if "busy (rt_status t')" using that done_t(1) by (simp add: status_defs)
        show "rollouts s1 = save_row ro_id r (rollouts s)" unfolding keep[symmetric] by (simp add: s1_def)
      qed (simp_all add: s1_def)
      then have "with_rollout u r s1" using r(1) by (simp add: with_rollout_def s1_def)
      moreover have "leads (with_rollout u r) rest (rollouts_inv u)"
        unfolding rest_def
      proof (intro leads_rest resting_linked)
        show "leads (with_rollout u r) (whenE (ro_status r = RO_RUNNING) (dispatchNextTarget e (ro_id r))) (rollouts_inv u)"
          using leads_dispatch[of r u e] by (auto simp: leads_def with_rollout_def)
      qed
      ultimately show ?thesis unfolding run by (rule leadsD[rotated])
    qed
  qed
qed

text \<open>What an agent may report: progress of a target that was dispatched to it.\<close>

definition honest_report :: "progress_dto \<Rightarrow> string \<Rightarrow> db \<Rightarrow> bool" where
  "honest_report dto targetId s \<longleftrightarrow>
     (active_status (pd_status dto) \<or> pd_status dto = TG_FAILED) \<and> 0 \<le> pd_percent dto \<and> pd_percent dto \<le> 100 \<and>
     (\<forall>t \<in> set (rollout_targets s). rt_id t = targetId \<longrightarrow> rt_status t \<noteq> TG_PENDING)"

lemma active_running:
  assumes inv: "rollouts_inv u s" and "r \<in> set (rollouts s)" "t \<in> set (rollout_targets s)" "rt_rolloutId t = ro_id r"
    "active_status (rt_status t)"
  shows "ro_status r = RO_RUNNING"
  using inv_rolloutD(1)[OF assms(1-4)] assms(5) by (cases "ro_status r") (auto simp: status_defs)

lemma alone_active:
  assumes inv: "rollouts_inv u s" and r: "r \<in> set (rollouts s)" "ro_status r = RO_RUNNING"
    and t: "t \<in> set (rollout_targets s)" "rt_rolloutId t = ro_id r" "active_status (rt_status t)"
    and x: "x \<in> set (rollout_targets s)" "rt_rolloutId x = ro_id r" "rt_id x \<noteq> rt_id t"
  shows "\<not> busy (rt_status x)"
proof
  assume "busy (rt_status x)"
  then have "rt_id x = rt_id t"
    by (intro inv_rolloutD(2)[OF inv r(1) _ x(1) t(1) x(2) t(2)]) (use r(2) t(3) in \<open>simp_all add: busy_def\<close>)
  with x(3) show False ..
qed

lemma progress_inv:
  assumes inv: "rollouts_inv u s" and honest: "honest_report dto i s"
  shows "rollouts_inv u (after (handleAgentProgress e i dto node) s)"
proof (cases "find_row (\<lambda>t. rt_id t = i) (rollout_targets s)")
  case None
  then show ?thesis using inv by (simp add: handleAgentProgress_def findTargetEntityOrFail_def)
next
  case (Some t)
  then have t: "t \<in> set (rollout_targets s)" "rt_id t = i" by (auto dest: find_row_Some)
  obtain r where r: "r \<in> set (rollouts s)" "ro_id r = rt_rolloutId t" using inv_targetD(2)[OF inv t(1)] by blast
  note found = rollout_found[OF inv r]
  show ?thesis
  proof (cases "rt_nodeId t = node \<and> \<not> isTargetTerminal (rt_status t)")
    case False
    then show ?thesis using inv
      by (auto simp: handleAgentProgress_def findTargetEntityOrFail_def findRolloutEntityOrFail_def Some found)
  next
    case True
    have "rt_status t \<noteq> TG_PENDING" using honest t by (simp add: honest_report_def)
    then have active: "active_status (rt_status t)" using True by (cases "rt_status t") (auto simp: status_defs)
    have running: "ro_status r = RO_RUNNING" by (rule active_running[OF inv r(1) t(1) r(2)[symmetric] active])
    define t' where "t' = saved_row rt_id (\<lambda>d r. r\<lparr>rt_updatedAt := d\<rparr>) (e_now e) (reported_target e dto t) (rollout_targets s)"
    define s1 where "s1 = s\<lparr>rollout_targets := save_row rt_id t' (rollout_targets s)\<rparr>"
    have t': "rt_id t' = rt_id t" "rt_rolloutId t' = ro_id r" "rt_status t' = pd_status dto" "rt_progressPercent t' = pd_percent dto"
        "rt_taskId t' = rt_taskId t" "rt_dispatchedAt t' = rt_dispatchedAt t"
        "pd_status dto \<noteq> TG_FAILED \<Longrightarrow> rt_completedAt t' = rt_completedAt t"
      using r(2) by (simp_all add: t'_def reported_target_def)
    define observe where "observe = whenE (pd_status dto = TG_WAITING_FOR_RECONNECT)
                (bindE (readE (\<lambda>s. find_row (\<lambda>n. n_id n = rt_nodeId t') (nodes s))) (\<lambda>found.
                 case found of
                   None \<Rightarrow> ret ()
                 | Some n \<Rightarrow> whenE (n_agentVersion n = Some (rt_targetVersion t'))
                     (observeNodeVersion e (n_id n) (n_agentVersion n))))"
    have st: "saveTarget e (reported_target e dto t) s = (Inr t', s1)" by (simp add: saveTarget_def t'_def s1_def)
    note step = bindE_Inr[where m = "saveTarget e (reported_target e dto t)" and s = s, OF st]
    have tail: "keeps (rollouts_inv u) (bindE observe (\<lambda>_. ret (toTargetDto t')))"
      unfolding observe_def by (intro keeps_rules keeps_observe)
    show ?thesis
    proof (cases "pd_status dto = TG_FAILED")
      case failed: True
      let ?m = "orElse (pd_message dto) (rt_nodeNameSnapshot t' @ '' reported an update failure.'')"
      have run: "handleAgentProgress e i dto node s =
          bindE (pauseRolloutForTargetFailure e r t' ?m) (\<lambda>_. bindE observe (\<lambda>_. ret (toTargetDto t'))) s1"
        using True failed by (simp add: handleAgentProgress_def findTargetEntityOrFail_def findRolloutEntityOrFail_def Some found
            step observe_def)
      have "rollouts_inv u (after (pauseRolloutForTargetFailure e r t' ?m) s1)"
        by (rule pause_inv[OF inv r(1) running t(1) r(2)[symmetric], where y = t'])
          (use t' honest alone_active[OF inv r(1) running t(1) r(2)[symmetric] active] in
            \<open>simp_all add: s1_def honest_report_def\<close>)
      then have "leads (\<lambda>v. v = s1) (bindE (pauseRolloutForTargetFailure e r t' ?m)
          (\<lambda>_. bindE observe (\<lambda>_. ret (toTargetDto t')))) (rollouts_inv u)"
        by (intro leads_seq[where R = "rollouts_inv u"] tail[unfolded leads_keeps]) (simp_all add: leads_def)
      then show ?thesis unfolding run by (simp add: leads_def)
    next
      case False
      define r' where "r' = saved_row ro_id (\<lambda>d r. r\<lparr>ro_updatedAt := d\<rparr>) (e_now e) (r\<lparr>ro_statusMessage := Some (orElse (pd_message dto)
                     (rt_nodeNameSnapshot t' @ '' is '' @ with_spaces (target_status_str (pd_status dto)) @ ''.''))\<rparr>) (rollouts s)"
      define s2 where "s2 = s\<lparr>rollout_targets := save_row rt_id t' (rollout_targets s), rollouts := save_row ro_id r' (rollouts s)\<rparr>"
      have run: "handleAgentProgress e i dto node s = bindE observe (\<lambda>_. ret (toTargetDto t')) s2"
        using True False running by (simp add: handleAgentProgress_def findTargetEntityOrFail_def findRolloutEntityOrFail_def Some found
            step saveRollout_def r'_def s1_def s2_def observe_def)
      have act: "active_status (pd_status dto)" using honest False by (simp add: honest_report_def)
      have "target_ok t" by (rule inv_targetD(1)[OF inv t(1)])
      then have fields: "rt_taskId t \<noteq> None" "rt_dispatchedAt t \<noteq> None" "rt_completedAt t = None"
        using active True by (simp_all add: target_ok_def)
      have "0 \<le> pd_percent dto" "pd_percent dto \<le> 100" using honest by (simp_all add: honest_report_def)
      moreover have "pd_status dto \<noteq> TG_PENDING" "pd_status dto \<noteq> TG_COMPLETED" "\<not> isTargetTerminal (pd_status dto)"
        using act by (auto simp: status_defs)
      ultimately have "target_ok t'" using fields act t'(7)[OF False] by (simp add: target_ok_def t'(3-6))
      have "rollouts_inv u s2"
      proof (rule inv_target[OF inv r(1) disjI1[OF running] _ _ t(1) r(2)[symmetric] _ t'(1,2) \<open>target_ok t'\<close>])
        show "ro_id r' = ro_id r" "ro_status r' = ro_status r" by (simp_all add: r'_def)
        show "\<not> isTargetTerminal (rt_status t)" using True by simp
        show "allowed (ro_status r) (rt_status t')" using act by (auto simp: running t'(3) status_defs)
        show "busy (rt_status t)" using active by (simp add: busy_def)
      qed (simp_all add: s2_def)
      then show ?thesis unfolding run by (rule keepsD[OF tail])
    qed
  qed
qed

text \<open>At most one target is watched by the monitor, so it never works on a stale row.\<close>

lemma monitored_cases:
  assumes inv: "rollouts_inv u s"
  obtains "monitored s = []"
  | t r where "monitored s = [t]" "t \<in> set (rollout_targets s)" "active_status (rt_status t)"
      "r \<in> set (rollouts s)" "ro_id r = rt_rolloutId t" "ro_status r = RO_RUNNING"
proof -
  let ?p = "\<lambda>t. active_status (rt_status t) \<and> (\<exists>r \<in> set (rollouts s). ro_id r = rt_rolloutId t \<and> ro_status r = RO_RUNNING)"
  have same: "x = y" if "x \<in> set (monitored s)" "y \<in> set (monitored s)" for x y
  proof -
    from that obtain rx ry where x: "x \<in> set (rollout_targets s)" "active_status (rt_status x)" "rx \<in> set (rollouts s)"
        "ro_id rx = rt_rolloutId x" "ro_status rx = RO_RUNNING"
      and y: "y \<in> set (rollout_targets s)" "active_status (rt_status y)" "ry \<in> set (rollouts s)"
        "ro_id ry = rt_rolloutId y" "ro_status ry = RO_RUNNING" by (auto simp: monitored_def)
    have "ro_id rx = ro_id ry" using inv x(3,5) y(3,5) unfolding rollouts_inv_def sound_def open_rollout_def by blast
    then have "rt_id x = rt_id y"
      by (intro inv_rolloutD(2)[OF inv x(3) _ x(1) y(1)]) (use x y in \<open>simp_all add: busy_def\<close>)
    then show ?thesis by (rule inv_key(2)[OF inv x(1) y(1)])
  qed
  have "distinct (rollout_targets s)" using inv by (auto simp: rollouts_inv_def drawn_ids_def distinct_map)
  then have dist: "distinct (monitored s)" by (simp add: monitored_def)
  show thesis
  proof (cases "monitored s")
    case Nil
    then show thesis by (rule that(1))
  next
    case (Cons t ts)
    have "ts = []"
    proof (cases ts)
      case (Cons y ys)
      then show ?thesis using same[of t y] dist \<open>monitored s = t # ts\<close> by simp
    qed
    moreover have "t \<in> set (monitored s)" using Cons by simp
    then obtain r where "t \<in> set (rollout_targets s)" "active_status (rt_status t)"
      "r \<in> set (rollouts s)" "ro_id r = rt_rolloutId t" "ro_status r = RO_RUNNING" by (auto simp: monitored_def)
    ultimately show thesis using that(2) Cons by simp
  qed
qed

lemma pause_current_inv:
  assumes inv: "rollouts_inv u s" and r: "r \<in> set (rollouts s)" "ro_status r = RO_RUNNING" "ro_id r = rt_rolloutId t"
    and t: "t \<in> set (rollout_targets s)" "active_status (rt_status t)"
    and t1: "rt_id t1 = rt_id t" "rt_rolloutId t1 = rt_rolloutId t" "rt_progressPercent t1 = rt_progressPercent t"
  shows "rollouts_inv u (after (pauseRolloutForTargetFailure e r t1 message) s)"
proof -
  have "distinct (map rt_id (rollout_targets s))" using inv by (simp add: rollouts_inv_def drawn_ids_def)
  moreover have "target_ok t" by (rule inv_targetD(1)[OF inv t(1)])
  ultimately show ?thesis
    by (intro pause_inv[OF inv r(1,2) t(1) r(3)[symmetric], where y = t])
      (use t1 r(3) t alone_active[OF inv r(1,2) t(1) r(3)[symmetric] t(2)] in \<open>simp_all add: save_same target_ok_def\<close>)
qed

lemma reconcile_inv:
  assumes inv: "rollouts_inv u s" and r: "r \<in> set (rollouts s)" "ro_status r = RO_RUNNING" "ro_id r = rt_rolloutId t"
    and t: "t \<in> set (rollout_targets s)" "active_status (rt_status t)"
  shows "rollouts_inv u (after (reconcileTarget e failed t) s)"
proof -
  have seq: "rollouts_inv u (after (bindE m (\<lambda>_. ret x)) s)" if "rollouts_inv u (after m s)" for m :: "unit op" and x :: nat
    using that by (simp add: after_bindE_ret)
  have "rollouts_inv u (after (pauseRolloutForTargetFailure e r (t\<lparr>rt_completedAt := Some (e_now e)\<rparr>) m) s)"
    "rollouts_inv u (after (pauseRolloutForTargetFailure e r (t\<lparr>rt_status := TG_FAILED, rt_completedAt := Some (e_now e)\<rparr>) m) s)"
    "rollouts_inv u (after (observeNodeVersion e i v) s)" for m i v
    by (intro pause_current_inv[OF inv r t], simp_all)+ (rule keepsD[OF keeps_observe inv])
  then show ?thesis using inv
    by (auto simp: reconcileTarget_def findRolloutEntityOrFail_def rollout_found[OF inv r(1,3)] after_bindE_ret split: option.split)
qed

lemma keeps_reconcile: "keeps (rollouts_inv u) (reconcileActiveTargets e)"
proof (rule keepsI)
  fix s assume inv: "rollouts_inv u s"
  show "rollouts_inv u (after (reconcileActiveTargets e) s)"
  proof (cases rule: monitored_cases[OF inv])
    case 1
    then show ?thesis using inv by (simp add: reconcileActiveTargets_def loadFailedTasksById_def)
  next
    case (2 t r)
    then show ?thesis using reconcile_inv[OF inv 2(4,6,5,2,3)]
      by (simp add: reconcileActiveTargets_def loadFailedTasksById_def after_bindE_ret del: ret_apply)
  qed
qed

subsection \<open>Creating\<close>

lemma new_rollout_inv:
  assumes inv: "rollouts_inv u s" and "inj u" and none: "count_rows open_rollout (rollouts s) = 0"
    and r: "ro_id r = u (drawn s)" "ro_status r = RO_QUEUED"
  shows "with_rollout u r (s\<lparr>drawn := Suc (drawn s), rollouts := rollouts s @ [r]\<rparr>)"
proof -
  have fresh: "drawn_ids u (Suc (drawn s)) (map ro_id (rollouts s) @ [u (drawn s)])"
    "drawn_ids u (Suc (drawn s)) (map rt_id (rollout_targets s))"
    using inv drawn_ids_fresh(2)[of u "drawn s" "map ro_id (rollouts s)" "drawn s" "Suc (drawn s)"] \<open>inj u\<close>
      drawn_ids_Suc[of u "drawn s" "map rt_id (rollout_targets s)"] by (auto simp: rollouts_inv_def)
  have "u (drawn s) \<notin> set (map ro_id (rollouts s))" using fresh(1) by (simp add: drawn_ids_def)
  then have other: "ro_id x \<noteq> u (drawn s)" if "x \<in> set (rollouts s)" for x
    using that by (metis image_eqI list.set_map)
  have unused: "rt_rolloutId t \<noteq> u (drawn s)" if "t \<in> set (rollout_targets s)" for t
    using inv_targetD(2)[OF inv that] other by metis
  have closed: "\<not> open_rollout x" if "x \<in> set (rollouts s)" for x using none that by (simp add: count_rows_zero)
  have "rollout_ok (set (rollout_targets s)) r" using unused r by (auto simp: rollout_ok_def)
  then have "sound (insert r (set (rollouts s))) (set (rollout_targets s))"
    using inv closed unfolding rollouts_inv_def sound_def by auto
  then show ?thesis using fresh r(1) by (simp add: with_rollout_def rollouts_inv_def)
qed

lemma rollout_ok_insert:
  assumes ok: "rollout_ok T y"
    and t: "rt_rolloutId t \<noteq> ro_id y \<or> allowed (ro_status y) (rt_status t) \<and> \<not> busy (rt_status t)"
  shows "rollout_ok (insert t T) y"
  unfolding rollout_ok_def
proof (intro conjI ballI impI, goal_cases)
  case (1 x)
  then show ?case using ok t unfolding rollout_ok_def by blast
next
  case (2 x z)
  then have "x \<in> T" "z \<in> T" using t by auto
  then show ?case using ok 2 unfolding rollout_ok_def by blast
next
  case 3
  then show ?case using ok unfolding rollout_ok_def by blast
qed

lemma addTarget_inv:
  assumes "inj (e_uuid e)" "ro_status r = RO_QUEUED"
  shows "leads (with_rollout (e_uuid e) r) (addTarget e (ro_id r) version x) (with_rollout (e_uuid e) r)"
  unfolding leads_def
proof (intro allI impI)
  fix s assume w: "with_rollout (e_uuid e) r s"
  let ?u = "e_uuid e"
  obtain n k where x: "x = (n, k)" by (cases x)
  let ?t = "new_target e (ro_id r) version n k (?u (drawn s))"
  have inv: "rollouts_inv ?u s" and r: "r \<in> set (rollouts s)" using w by (simp_all add: with_rollout_def)
  have ids: "drawn_ids ?u (Suc (drawn s)) (map rt_id (rollout_targets s) @ [?u (drawn s)])"
    "drawn_ids ?u (Suc (drawn s)) (map ro_id (rollouts s))"
    using inv drawn_ids_fresh(2)[of ?u "drawn s" "map rt_id (rollout_targets s)" "drawn s" "Suc (drawn s)"] assms(1)
      drawn_ids_Suc[of ?u "drawn s" "map ro_id (rollouts s)"] by (auto simp: rollouts_inv_def)
  have t: "rt_rolloutId ?t = ro_id r" "rt_status ?t = TG_PENDING" "target_ok ?t" "\<not> busy TG_PENDING"
    by (simp_all add: new_target_def target_ok_def status_defs)
  have ok: "rollout_ok (insert ?t (set (rollout_targets s))) y" if y: "y \<in> set (rollouts s)" for y
  proof -
    have old: "rollout_ok (set (rollout_targets s)) y" using inv y unfolding rollouts_inv_def sound_def by blast
    show ?thesis
    proof (cases "ro_id y = ro_id r")
      case True
      then have "y = r" by (rule inv_key(1)[OF inv y r])
      then show ?thesis using old t(2) assms(2) by (intro rollout_ok_insert) (simp_all add: status_defs)
    next
      case False
      then show ?thesis using old t(1) by (intro rollout_ok_insert) auto
    qed
  qed
  have "sound (set (rollouts s)) (insert ?t (set (rollout_targets s)))"
    unfolding sound_def
  proof (intro conjI ballI impI, goal_cases)
    case (1 x y)
    then show ?case using inv unfolding rollouts_inv_def sound_def by blast
  next
    case (2 y)
    then show ?case using t(3) inv_targetD(1)[OF inv] by auto
  next
    case (3 y)
    then show ?case using t(1) r inv_targetD(2)[OF inv] by auto
  next
    case (4 y)
    then show ?case by (rule ok)
  qed
  moreover have "rt_id ?t = ?u (drawn s)" by (simp add: new_target_def)
  ultimately show "with_rollout ?u r (after (addTarget e (ro_id r) version x) s)"
    using ids r by (simp add: addTarget_def x Let_def with_rollout_def rollouts_inv_def)
qed

text \<open>A rollout whose targets all wait is started.\<close>

lemma start_inv:
  assumes w: "with_rollout u r s" and queued: "ro_status r = RO_QUEUED" and r1: "ro_id r1 = ro_id r"
  shows "\<exists>r'. setRolloutStatus e r1 RO_RUNNING m s = (Inr r', s\<lparr>rollouts := save_row ro_id r' (rollouts s)\<rparr>) \<and>
    ro_id r' = ro_id r \<and> ro_status r' = RO_RUNNING \<and> with_rollout u r' (s\<lparr>rollouts := save_row ro_id r' (rollouts s)\<rparr>)"
proof -
  have inv: "rollouts_inv u s" and r: "r \<in> set (rollouts s)" using w by (simp_all add: with_rollout_def)
  define r' where "r' = saved_row ro_id (\<lambda>d r. r\<lparr>ro_updatedAt := d\<rparr>) (e_now e)
    (r1\<lparr>ro_status := RO_RUNNING, ro_statusMessage := Some m\<rparr>) (rollouts s)"
  have r': "ro_id r' = ro_id r" "ro_status r' = RO_RUNNING" using r1 by (simp_all add: r'_def)
  have pend: "rt_status x = TG_PENDING" if "x \<in> set (rollout_targets s)" "rt_rolloutId x = ro_id r" for x
    using inv_rolloutD(1)[OF inv r that] queued by simp
  have "rollout_ok (set (rollout_targets s)) r'"
    unfolding rollout_ok_def r' using pend by (auto simp: status_defs)
  then have "rollouts_inv u (s\<lparr>rollouts := save_row ro_id r' (rollouts s)\<rparr>)"
    by (intro inv_rollout[OF inv r r'(1)]) (simp_all add: queued open_rollout_def)
  then show ?thesis
    by (intro exI[of _ r']) (simp add: r' with_rollout_def setRolloutStatus_def saveRollout_def r'_def[symmetric] set_save_row)
qed

lemma leads_start:
  assumes queued: "ro_status r = RO_QUEUED" and "ro_id r1 = ro_id r"
    and rest: "\<And>r'. ro_id r' = ro_id r \<Longrightarrow> ro_status r' = RO_RUNNING \<Longrightarrow> leads (with_rollout u r') (f r') (rollouts_inv u)"
  shows "leads (with_rollout u r) (bindE (setRolloutStatus e r1 RO_RUNNING m) f) (rollouts_inv u)"
  unfolding leads_def
proof (intro allI impI)
  fix s assume w: "with_rollout u r s"
  obtain r' where r': "setRolloutStatus e r1 RO_RUNNING m s = (Inr r', s\<lparr>rollouts := save_row ro_id r' (rollouts s)\<rparr>)"
    "ro_id r' = ro_id r" "ro_status r' = RO_RUNNING" "with_rollout u r' (s\<lparr>rollouts := save_row ro_id r' (rollouts s)\<rparr>)"
    using start_inv[OF w assms(1,2)] by blast
  show "rollouts_inv u (after (bindE (setRolloutStatus e r1 RO_RUNNING m) f) s)"
    using leadsD[OF rest[OF r'(2,3)] r'(4)]
    by (simp add: bindE_Inr[where m = "setRolloutStatus e r1 RO_RUNNING m" and s = s, OF r'(1)])
qed

lemma leads_dispatch_get:
  assumes "ro_status r' = RO_RUNNING"
  shows "leads (with_rollout u r') (bindE (dispatchNextTarget e (ro_id r')) (\<lambda>_. getRollout i)) (rollouts_inv u)"
proof (rule leads_seq[OF leads_dispatch[OF assms]])
  show "leads (rollouts_inv u) (getRollout i) (rollouts_inv u)"
    unfolding getRollout_def findRolloutEntityOrFail_def by (intro leads_quiet quiet_rules)
qed

lemma storeRollout_inv:
  assumes inj: "inj (e_uuid e)"
    and rest: "\<And>r. ro_status r = RO_QUEUED \<Longrightarrow> leads (with_rollout (e_uuid e) r) (f r) (rollouts_inv (e_uuid e))"
  shows "leads (\<lambda>s. rollouts_inv (e_uuid e) s \<and> count_rows open_rollout (rollouts s) = 0)
    (bindE (storeRollout e dto ctx rel ns) f) (rollouts_inv (e_uuid e))"
  unfolding leads_def
proof (intro allI impI, elim conjE)
  fix s assume inv: "rollouts_inv (e_uuid e) s" "count_rows open_rollout (rollouts s) = 0"
  define r where "r = new_rollout e dto ctx rel (length ns) (e_uuid e (drawn s))"
  have r: "ro_id r = e_uuid e (drawn s)" "ro_status r = RO_QUEUED" by (simp_all add: r_def new_rollout_def)
  let ?s1 = "s\<lparr>drawn := Suc (drawn s), rollouts := rollouts s @ [r]\<rparr>"
  have run: "bindE (storeRollout e dto ctx rel ns) f s =
      bindE (forE (addTarget e (ro_id r) (re_version rel)) (zip ns [0..<length ns])) (\<lambda>_. f r) ?s1"
    by (simp add: storeRollout_def Let_def r_def[symmetric] r(1))
  have w: "with_rollout (e_uuid e) r ?s1" by (rule new_rollout_inv[OF inv(1) inj inv(2) r])
  have "leads (with_rollout (e_uuid e) r)
      (bindE (forE (addTarget e (ro_id r) (re_version rel)) (zip ns [0..<length ns])) (\<lambda>_. f r)) (rollouts_inv (e_uuid e))"
  proof (rule leads_seq[where R = "with_rollout (e_uuid e) r"])
    show "leads (with_rollout (e_uuid e) r) (forE (addTarget e (ro_id r) (re_version rel)) (zip ns [0..<length ns]))
        (with_rollout (e_uuid e) r)"
      by (rule leads_for) (use addTarget_inv[OF inj r(2)] in simp_all)
  qed (use rest[OF r(2)] in \<open>simp_all add: with_rollout_def\<close>)
  then show "rollouts_inv (e_uuid e) (after (bindE (storeRollout e dto ctx rel ns) f) s)"
    unfolding run using w by (rule leadsD)
qed

lemma keeps_createRollout:
  assumes inj: "inj (e_uuid e)"
  shows "keeps (rollouts_inv (e_uuid e)) (createRollout e rs pu dto ctx)"
proof (rule keepsI)
  fix s assume inv: "rollouts_inv (e_uuid e) s"
  let ?P = "\<lambda>s. rollouts_inv (e_uuid e) s \<and> count_rows open_rollout (rollouts s) = 0"
  have idle: "quiet (assertControlPlaneApplyIsIdle pu)"
    unfolding assertControlPlaneApplyIsIdle_def by (intro quiet_rules quiet_case_prod)
  have nodes: "quiet (resolveTargets is v)" for "is" v
    unfolding resolveTargets_def by (intro quiet_rules nodes_findOneOrFail_quiet eligible_quiet)
  have body: "leads ?P (bindE (storeRollout e dto ctx rel ns) (\<lambda>r.
       bindE (recordAudit e (a r) (Some ctx)) (\<lambda>_. bindE (recordRolloutEvent e i ty sev (m r) (md r)) (\<lambda>_.
       bindE (setRolloutStatus e (r\<lparr>ro_startedAt := Some (e_now e)\<rparr>) RO_RUNNING msg) (\<lambda>r'.
       bindE (dispatchNextTarget e (ro_id r')) (\<lambda>_. getRollout (ro_id r))))))) (rollouts_inv (e_uuid e))"
    for rel ns a i ty sev m md msg
  proof (rule storeRollout_inv[OF inj], rule leads_rest[OF resting_outputs(2)], rule leads_rest[OF resting_linked(2)])
    fix r :: rollout assume queued: "ro_status r = RO_QUEUED"
    show "leads (with_rollout (e_uuid e) r) (bindE (setRolloutStatus e (r\<lparr>ro_startedAt := Some (e_now e)\<rparr>) RO_RUNNING msg) (\<lambda>r'.
       bindE (dispatchNextTarget e (ro_id r')) (\<lambda>_. getRollout (ro_id r)))) (rollouts_inv (e_uuid e))"
    proof (rule leads_start[OF queued])
      fix r' :: rollout assume "ro_status r' = RO_RUNNING"
      then show "leads (with_rollout (e_uuid e) r') (bindE (dispatchNextTarget e (ro_id r')) (\<lambda>_. getRollout (ro_id r)))
          (rollouts_inv (e_uuid e))" by (rule leads_dispatch_get)
    qed simp
  qed
  show "rollouts_inv (e_uuid e) (after (createRollout e rs pu dto ctx) s)"
  proof (cases "count_rows open_rollout (rollouts s) = 0")
    case True
    have "leads ?P (createRollout e rs pu dto ctx) (rollouts_inv (e_uuid e))"
      unfolding createRollout_def assertNoActiveRolloutExists_def Let_def bindE_assoc
      by (intro leads_after_quiet[OF idle] leads_after_quiet[OF quiet_prims(3)] leads_after_quiet[OF quiet_prims(5)]
          leads_after_quiet[OF quiet_someE] leads_after_quiet[OF nodes] body) simp_all
    then show ?thesis using inv True by (simp add: leads_def)
  next
    case False
    then have "createRollout e rs pu dto ctx s =
      (case outcome (assertControlPlaneApplyIsIdle pu) s of Inl err \<Rightarrow> (Inl err, s)
       | Inr _ \<Rightarrow> (Inl (Conflict ''Finish, resume, or cancel the existing rollout before creating a new one.''), s))"
      by (simp add: createRollout_def assertNoActiveRolloutExists_def assertControlPlaneApplyIsIdle_def split: option.split prod.split)
    then show ?thesis using inv by (simp split: sum.split)
  qed
qed

subsection \<open>Releasing a failed target, and cancelling\<close>

lemma releaseTarget_inv:
  assumes inv: "rollouts_inv u s" and r: "r \<in> set (rollouts s)" "ro_status r = RO_PAUSED"
    and t: "t \<in> set (rollout_targets s)" "rt_rolloutId t = ro_id r" "rt_status t = TG_FAILED"
    and c: "rt_id c = rt_id t" "rt_rolloutId c = ro_id r" "rt_status c = TG_PENDING \<or> rt_status c = TG_SKIPPED" "target_ok c"
  shows "rollouts_inv u (after (releaseTarget e r t c message action ctx) s)"
proof -
  define c' where "c' = saved_row rt_id (\<lambda>d r. r\<lparr>rt_updatedAt := d\<rparr>) (e_now e) c (rollout_targets s)"
  define r' where "r' = saved_row ro_id (\<lambda>d r. r\<lparr>ro_updatedAt := d\<rparr>) (e_now e)
    (r\<lparr>ro_status := RO_RUNNING, ro_statusMessage := Some message\<rparr>) (rollouts s)"
  define s1 where "s1 = s\<lparr>rollout_targets := save_row rt_id c' (rollout_targets s), rollouts := save_row ro_id r' (rollouts s)\<rparr>"
  define rest where "rest = bindE (recordAudit e (rollout_audit action ''agent_update_rollout_target'' (rt_id t) (rt_nodeNameSnapshot t)
              (Some [(''rolloutId'', JStr (ro_id r)), (''targetVersion'', JStr (ro_targetVersion r))])) (Some ctx)) (\<lambda>_.
     bindE (dispatchNextTarget e (ro_id r')) (\<lambda>_. getRollout (ro_id r)))"
  have r': "ro_id r' = ro_id r" "ro_status r' = RO_RUNNING" by (simp_all add: r'_def)
  have c': "rt_id c' = rt_id t" "rt_rolloutId c' = ro_id r" "rt_status c' = rt_status c" "target_ok c'"
    using c by (simp_all add: c'_def)
  have run: "releaseTarget e r t c message action ctx s = rest s1"
    by (simp add: releaseTarget_def saveTarget_def setRolloutStatus_def saveRollout_def rest_def s1_def c'_def[symmetric]
        r'_def[symmetric] r')
  have alone: "\<not> busy (rt_status x)" if x: "x \<in> set (rollout_targets s)" "rt_rolloutId x = ro_id r" "rt_id x \<noteq> rt_id t" for x
  proof
    assume "busy (rt_status x)"
    then have "rt_id x = rt_id t"
      by (intro inv_rolloutD(2)[OF inv r(1) _ x(1) t(1) x(2) t(2)]) (use r(2) t(3) in \<open>simp_all add: busy_def\<close>)
    with x(3) show False ..
  qed
  have "rollouts_inv u s1"
  proof (rule inv_move[OF inv r(1) r'(1) _ t(1) c'(1) t(2) c'(2) c'(4)])
    show "rollout_ok (insert c' {x \<in> set (rollout_targets s). rt_id x \<noteq> rt_id c'}) r'"
    proof (rule rollout_ok_change[where r = r and t = t])
      show "allowed (ro_status r') (rt_status x)" if "x \<in> set (rollout_targets s)" "rt_rolloutId x = ro_id r" "rt_id x \<noteq> rt_id t" for x
        using inv_rolloutD(1)[OF inv r(1) that(1,2)] alone[OF that] r(2) by (auto simp: r' busy_def)
      show "rt_id x = rt_id y" if "x \<in> set (rollout_targets s)" "y \<in> set (rollout_targets s)" "rt_rolloutId x = ro_id r"
          "rt_rolloutId y = ro_id r" "busy (rt_status x)" "busy (rt_status y)" for x y
        by (rule inv_rolloutD(2)[OF inv r(1) _ that]) (simp add: r(2))
      show "\<not> busy (rt_status x)" if "x \<in> set (rollout_targets s)" "rt_rolloutId x = ro_id r" "rt_id x \<noteq> rt_id t" for x
        using that by (rule alone)
      show "allowed (ro_status r') (rt_status c')" using c(3) by (auto simp: r' c'(3))
    qed (simp_all add: r' c')
    show "open_rollout r" by (simp add: open_rollout_def r(2))
  qed (simp_all add: s1_def)
  moreover have "r' \<in> set (rollouts s1)" by (simp add: s1_def set_save_row)
  ultimately have "with_rollout u r' s1" by (simp add: with_rollout_def)
  moreover have "leads (with_rollout u r') rest (rollouts_inv u)"
    unfolding rest_def by (rule leads_rest[OF resting_outputs(2)]) (rule leads_dispatch_get[OF r'(2)])
  ultimately show ?thesis unfolding run by (rule leadsD[rotated])
qed

lemma findPausedFailed_run:
  assumes inv: "rollouts_inv u s" and run: "findPausedFailedTarget i j s = (Inr (r, t), s')"
  shows "s' = s \<and> r \<in> set (rollouts s) \<and> ro_status r = RO_PAUSED \<and> t \<in> set (rollout_targets s) \<and> rt_rolloutId t = ro_id r \<and>
    rt_status t = TG_FAILED"
  using run by (auto simp: findPausedFailedTarget_def findRolloutEntityOrFail_def findTargetEntityOrFail_def
      dest!: find_row_Some split: option.splits if_splits)

lemma findPausedFailed_quiet: "quiet (findPausedFailedTarget i j)"
  unfolding findPausedFailedTarget_def findRolloutEntityOrFail_def findTargetEntityOrFail_def by (intro quiet_rules)

lemma release_keeps:
  assumes "\<And>r t s. rollouts_inv u s \<Longrightarrow> r \<in> set (rollouts s) \<Longrightarrow> ro_status r = RO_PAUSED \<Longrightarrow> t \<in> set (rollout_targets s) \<Longrightarrow>
    rt_rolloutId t = ro_id r \<Longrightarrow> rt_status t = TG_FAILED \<Longrightarrow> rollouts_inv u (after (f r t) s)"
  shows "keeps (rollouts_inv u) (bindE (findPausedFailedTarget i j) (\<lambda>(r, t). f r t))"
proof (rule keepsI)
  fix s assume inv: "rollouts_inv u s"
  show "rollouts_inv u (after (bindE (findPausedFailedTarget i j) (\<lambda>(r, t). f r t)) s)"
  proof (cases "findPausedFailedTarget i j" s rule: handler_cases)
    case (error err s')
    then have "s' = s" using quiet_run[OF findPausedFailed_quiet] by blast
    then show ?thesis using inv error by (simp add: bindE_def)
  next
    case (result x s')
    obtain r t where x: "x = (r, t)" by (cases x)
    from findPausedFailed_run[OF inv result[unfolded x]] show ?thesis
      using assms[OF inv, of r t] result by (auto simp: bindE_def x)
  qed
qed

lemma keeps_retryTarget: "keeps (rollouts_inv u) (retryTarget e i j ctx)"
  unfolding retryTarget_def
  by (rule release_keeps, rule releaseTarget_inv) (auto simp: retried_target_def target_ok_def status_defs)

lemma keeps_skipTarget: "keeps (rollouts_inv u) (skipTarget e i j ctx)"
  unfolding skipTarget_def
proof (rule release_keeps, rule releaseTarget_inv)
  fix r :: rollout and t s assume inv: "rollouts_inv u s" and t: "t \<in> set (rollout_targets s)" "rt_status t = TG_FAILED"
  then show "target_ok (skipped_target e t)" using inv_targetD(1)[OF inv t(1)]
    by (simp add: skipped_target_def target_ok_def status_defs)
qed (auto simp: skipped_target_def)

text \<open>A paused rollout has a failed target, so resuming one is always refused.\<close>

lemma resume_refused:
  assumes inv: "rollouts_inv u s"
  shows "\<exists>err. resumeRollout e i ctx s = (Inl err, s)"
proof (cases "find_row (\<lambda>r. ro_id r = i) (rollouts s)")
  case None
  then show ?thesis by (simp add: resumeRollout_def findRolloutEntityOrFail_def)
next
  case (Some r)
  then have r: "r \<in> set (rollouts s)" by (auto dest: find_row_Some)
  show ?thesis
  proof (cases "ro_status r = RO_PAUSED")
    case True
    then obtain t where "t \<in> set (rollout_targets s)" "rt_rolloutId t = ro_id r" "rt_status t = TG_FAILED"
      using inv_rolloutD(3)[OF inv r] by blast
    then have "count_rows (\<lambda>t. rt_rolloutId t = ro_id r \<and> rt_status t = TG_FAILED) (rollout_targets s) \<noteq> 0"
      by (auto simp: count_rows_zero)
    then show ?thesis using True by (simp add: resumeRollout_def findRolloutEntityOrFail_def Some)
  next
    case False
    then show ?thesis by (simp add: resumeRollout_def findRolloutEntityOrFail_def Some)
  qed
qed

lemma keeps_resume: "keeps (rollouts_inv u) (resumeRollout e i ctx)"
proof (rule keepsI)
  fix s assume inv: "rollouts_inv u s"
  then obtain err where "resumeRollout e i ctx s = (Inl err, s)" using resume_refused by blast
  then show "rollouts_inv u (after (resumeRollout e i ctx) s)" using inv by simp
qed

text \<open>While a rollout is being cancelled, the targets still to be visited may be open.\<close>

definition one_open :: "rollout set \<Rightarrow> bool" where
  "one_open R \<longleftrightarrow> (\<forall>x \<in> R. \<forall>y \<in> R. open_rollout x \<and> open_rollout y \<longrightarrow> ro_id x = ro_id y)"

definition cancelling :: "(nat \<Rightarrow> string) \<Rightarrow> string \<Rightarrow> rollout_target set \<Rightarrow> db \<Rightarrow> bool" where
  "cancelling u i S s \<longleftrightarrow>
     drawn_ids u (drawn s) (map ro_id (rollouts s)) \<and> drawn_ids u (drawn s) (map rt_id (rollout_targets s)) \<and>
     one_open (set (rollouts s)) \<and>
     (\<forall>t \<in> set (rollout_targets s). target_ok t \<and> (\<exists>r \<in> set (rollouts s). ro_id r = rt_rolloutId t)) \<and>
     (\<forall>r \<in> set (rollouts s). ro_id r \<noteq> i \<longrightarrow> rollout_ok (set (rollout_targets s)) r) \<and>
     (\<forall>r \<in> set (rollouts s). ro_id r = i \<longrightarrow> ro_status r = RO_CANCELLED) \<and>
     (\<forall>t \<in> set (rollout_targets s). rt_rolloutId t = i \<longrightarrow> isTargetTerminal (rt_status t) \<or> t \<in> S) \<and>
     (\<forall>t \<in> S. t \<in> set (rollout_targets s) \<and> rt_rolloutId t = i)"

lemma cancelling_rest: "cancelling u i S s \<Longrightarrow> rests s t \<Longrightarrow> cancelling u i S t"
  by (auto simp: cancelling_def rests_def)

lemma cancelling_inv: "cancelling u i {} s \<Longrightarrow> rollouts_inv u s"
proof -
  assume c: "cancelling u i {} s"
  have "rollout_ok (set (rollout_targets s)) r" if "r \<in> set (rollouts s)" for r
  proof (cases "ro_id r = i")
    case True
    have "ro_status r = RO_CANCELLED"
        "\<And>t. t \<in> set (rollout_targets s) \<Longrightarrow> rt_rolloutId t = i \<Longrightarrow> isTargetTerminal (rt_status t)"
      using c that True by (auto simp: cancelling_def)
    then show ?thesis using True by (simp add: rollout_ok_def)
  next
    case False
    then show ?thesis using c that by (simp add: cancelling_def)
  qed
  moreover have "one_open (set (rollouts s))"
      "\<And>t. t \<in> set (rollout_targets s) \<Longrightarrow> target_ok t \<and> (\<exists>r \<in> set (rollouts s). ro_id r = rt_rolloutId t)"
    using c by (simp_all add: cancelling_def)
  ultimately have "sound (set (rollouts s)) (set (rollout_targets s))" unfolding sound_def one_open_def by blast
  then show ?thesis using c by (simp add: cancelling_def rollouts_inv_def)
qed

lemma cancelling_save:
  assumes c: "cancelling u i S s" and t: "t \<in> S" "rt_id t' = rt_id t" "rt_rolloutId t' = i" "isTargetTerminal (rt_status t')" "target_ok t'"
  shows "cancelling u i (S - {t}) (s\<lparr>rollout_targets := save_row rt_id t' (rollout_targets s)\<rparr>)"
proof -
  let ?T = "set (rollout_targets s)"
  have mem: "t \<in> ?T" "rt_rolloutId t = i" using c t(1) by (auto simp: cancelling_def)
  have inj: "inj_on rt_id ?T" using c by (simp add: cancelling_def drawn_ids_def distinct_map)
  have new: "set (save_row rt_id t' (rollout_targets s)) = insert t' (?T - {t})"
    using inj mem(1) t(2) by (auto simp: set_save_row inj_on_def)
  have ids: "map rt_id (save_row rt_id t' (rollout_targets s)) = map rt_id (rollout_targets s)"
    using mem(1) t(2) by (auto simp: map_key_save_row)
  have ok: "rollout_ok (insert t' (?T - {t})) r" if r: "r \<in> set (rollouts s)" "ro_id r \<noteq> i" for r
  proof -
    have full: "rollout_ok ?T r" using c r by (simp add: cancelling_def)
    have "rollout_ok (?T - {t}) r"
      unfolding rollout_ok_def
    proof (intro conjI ballI impI, goal_cases)
      case (1 x)
      then show ?case using full unfolding rollout_ok_def by blast
    next
      case (2 x y)
      then show ?case using full unfolding rollout_ok_def by blast
    next
      case 3
      then obtain x where "x \<in> ?T" "rt_rolloutId x = ro_id r" "rt_status x = TG_FAILED"
        using full unfolding rollout_ok_def by blast
      then show ?case using mem(2) r(2) by (intro bexI[of _ x]) auto
    qed
    then show ?thesis by (rule rollout_ok_insert) (use t(3) r(2) in simp)
  qed
  have targets: "target_ok x \<and> (\<exists>r \<in> set (rollouts s). ro_id r = rt_rolloutId x)" if "x \<in> ?T" for x
    using c that by (simp add: cancelling_def)
  have "isTargetTerminal (rt_status x) \<or> x \<in> S - {t}" if "x \<in> insert t' (?T - {t})" "rt_rolloutId x = i" for x
    using c t(4) that by (auto simp: cancelling_def)
  moreover have "x \<in> insert t' (?T - {t}) \<and> rt_rolloutId x = i" if "x \<in> S - {t}" for x
    using c that by (auto simp: cancelling_def)
  moreover have "target_ok x \<and> (\<exists>r \<in> set (rollouts s). ro_id r = rt_rolloutId x)" if "x \<in> insert t' (?T - {t})" for x
    using that targets[of x] targets[OF mem(1)] t(3,5) mem(2) by auto
  ultimately show ?thesis using c ok unfolding cancelling_def by (simp add: new ids)
qed

lemma cancellation_returns: "\<exists>s'. requestTaskCancellationForTarget e t s = (Inr (), s') \<and> rests s s'"
proof -
  have "\<exists>s'. requestTaskCancellationForTarget e t s = (Inr (), s')"
    by (auto simp: requestTaskCancellationForTarget_def catchE_def bindE_def split: prod.split sum.split)
  then obtain s' where s': "requestTaskCancellationForTarget e t s = (Inr (), s')" by blast
  moreover have "rests s (after (requestTaskCancellationForTarget e t) s)"
    using resting_linked(3) by (simp add: resting.confined_def)
  ultimately show ?thesis by simp
qed

lemma cancelTarget_runs:
  assumes c: "cancelling u i S s" and t: "t \<in> S"
  shows "\<exists>s'. cancelTarget e t s = (Inr (), s') \<and> cancelling u i (S - {t}) s'"
proof -
  have mem: "t \<in> set (rollout_targets s)" "rt_rolloutId t = i" using c t by (auto simp: cancelling_def)
  have ok: "target_ok t" using c mem(1) by (simp add: cancelling_def)
  let ?sv = "\<lambda>x. saved_row rt_id (\<lambda>d r. r\<lparr>rt_updatedAt := d\<rparr>) (e_now e) x (rollout_targets s)"
  have save: "cancelling u i (S - {t}) (s\<lparr>rollout_targets := save_row rt_id (?sv x) (rollout_targets s)\<rparr>)"
    if "rt_id x = rt_id t" "rt_rolloutId x = i" "rt_status x = TG_CANCELLED" "target_ok x" for x
    by (rule cancelling_save[OF c t]) (use that in \<open>simp_all add: status_defs\<close>)
  consider "rt_status t = TG_PENDING" | "active_status (rt_status t)" | "isTargetTerminal (rt_status t)"
    by (cases "rt_status t") (auto simp: status_defs)
  then show ?thesis
  proof cases
    case 1
    then show ?thesis using mem by (simp add: cancelTarget_def saveTarget_def save target_ok_def status_defs)
  next
    case 2
    define x where "x = t\<lparr>rt_status := TG_CANCELLED,
                 rt_statusMessage := Some ''Cancelled by operator. In-flight updater was asked to stop; local update may still complete if it already passed handoff.'',
                 rt_completedAt := Some (e_now e)\<rparr>"
    let ?s1 = "s\<lparr>rollout_targets := save_row rt_id (?sv x) (rollout_targets s)\<rparr>"
    have "target_ok x" using ok by (simp add: x_def target_ok_def status_defs)
    then have c1: "cancelling u i (S - {t}) ?s1" using mem by (intro save) (simp_all add: x_def)
    have "rt_status t \<noteq> TG_PENDING" using 2 by (auto simp: status_defs)
    then have run: "cancelTarget e t s = requestTaskCancellationForTarget e t ?s1"
      using 2 by (simp add: cancelTarget_def saveTarget_def x_def)
    obtain s' where "requestTaskCancellationForTarget e t ?s1 = (Inr (), s')" "rests ?s1 s'"
      using cancellation_returns by blast
    then show ?thesis using cancelling_rest[OF c1] by (simp add: run)
  next
    case 3
    then have "\<not> active_status (rt_status t)" "rt_status t \<noteq> TG_PENDING" by (auto simp: status_defs)
    moreover have "cancelling u i (S - {t}) s" using c 3 by (auto simp: cancelling_def)
    ultimately show ?thesis by (simp add: cancelTarget_def)
  qed
qed

lemma cancelTargets_run:
  "cancelling u i (set xs) s \<Longrightarrow> distinct xs \<Longrightarrow> \<exists>ys s'. forE (cancelTarget e) xs s = (Inr ys, s') \<and> cancelling u i {} s'"
proof (induction xs arbitrary: s)
  case (Cons x xs)
  obtain s1 where s1: "cancelTarget e x s = (Inr (), s1)" "cancelling u i (set (x # xs) - {x}) s1"
    using cancelTarget_runs[OF Cons.prems(1), of x] by auto
  then have "cancelling u i (set xs) s1" using Cons.prems(2) by simp
  then obtain ys s2 where "forE (cancelTarget e) xs s1 = (Inr ys, s2)" "cancelling u i {} s2"
    using Cons.IH[of s1] Cons.prems(2) by force
  then show ?case using s1(1) by (simp add: bindE_def)
qed simp

lemma keeps_cancelRollout: "keeps (rollouts_inv u) (cancelRollout e i ctx)"
proof (rule keepsI)
  fix s assume inv: "rollouts_inv u s"
  show "rollouts_inv u (after (cancelRollout e i ctx) s)"
  proof (cases "find_row (\<lambda>r. ro_id r = i) (rollouts s)")
    case None
    then show ?thesis using inv by (simp add: cancelRollout_def findRolloutEntityOrFail_def)
  next
    case (Some r)
    then have r: "r \<in> set (rollouts s)" "ro_id r = i" by (auto dest: find_row_Some)
    show ?thesis
    proof (cases "ro_status r \<noteq> RO_COMPLETED \<and> ro_status r \<noteq> RO_CANCELLED")
      case False
      then show ?thesis using inv by (auto simp: cancelRollout_def findRolloutEntityOrFail_def Some)
    next
      case True
      define r' where "r' = saved_row ro_id (\<lambda>d r. r\<lparr>ro_updatedAt := d\<rparr>) (e_now e) (r\<lparr>ro_status := RO_CANCELLED,
          ro_statusMessage := Some ''Rollout cancelled by an operator. Pending targets were cancelled and active targets received cancellation requests.'',
          ro_cancelledAt := Some (e_now e)\<rparr>) (rollouts s)"
      define s1 where "s1 = s\<lparr>rollouts := save_row ro_id r' (rollouts s)\<rparr>"
      define rest where "rest = bindE (recordAudit e (rollout_audit ''agent_update.rollout.cancelled'' ''agent_update_rollout'' (ro_id r)
              (ro_targetVersion r) None) (Some ctx)) (\<lambda>_. getRollout (ro_id r))"
      have r': "ro_id r' = i" "ro_status r' = RO_CANCELLED" using r(2) by (simp_all add: r'_def)
      define r1 where "r1 = r\<lparr>ro_status := RO_CANCELLED,
          ro_statusMessage := Some ''Rollout cancelled by an operator. Pending targets were cancelled and active targets received cancellation requests.'',
          ro_cancelledAt := Some (e_now e)\<rparr>"
      have st: "saveRollout e r1 s = (Inr r', s1)" by (simp add: saveRollout_def r1_def r'_def s1_def)
      have run: "cancelRollout e i ctx s =
          bindE (forE (cancelTarget e) (targets_of i (rollout_targets s))) (\<lambda>_. rest) s1"
        using True r(2) by (simp add: cancelRollout_def findRolloutEntityOrFail_def Some r1_def[symmetric]
            bindE_Inr[where m = "saveRollout e r1" and s = s, OF st] rest_def s1_def)
      have rows: "set (rollouts s1) = insert r' {x \<in> set (rollouts s). ro_id x \<noteq> i}"
        "map ro_id (rollouts s1) = map ro_id (rollouts s)" "rollout_targets s1 = rollout_targets s" "drawn s1 = drawn s"
      proof -
        show "set (rollouts s1) = insert r' {x \<in> set (rollouts s). ro_id x \<noteq> i}" by (simp add: s1_def set_save_row r'(1))
        have "ro_id r' \<in> ro_id ` set (rollouts s)" using r by (metis imageI r'(1))
        then show "map ro_id (rollouts s1) = map ro_id (rollouts s)" by (simp add: s1_def map_key_save_row)
      qed (simp_all add: s1_def)
      have "one_open (set (rollouts s))" using inv unfolding rollouts_inv_def sound_def one_open_def by blast
      moreover have closed: "\<not> open_rollout r'" by (simp add: open_rollout_def r'(2))
      ultimately have "one_open (set (rollouts s1))" unfolding rows(1) one_open_def by blast
      moreover have "\<exists>x \<in> set (rollouts s1). ro_id x = rt_rolloutId t" if "t \<in> set (rollout_targets s)" for t
      proof -
        from inv_targetD(2)[OF inv that] obtain x where "x \<in> set (rollouts s)" "ro_id x = rt_rolloutId t" by blast
        then show ?thesis using r'(1) unfolding rows(1) by (cases "ro_id x = i") auto
      qed
      moreover have "rollout_ok (set (rollout_targets s)) x" if "x \<in> set (rollouts s)" for x
        using inv that unfolding rollouts_inv_def sound_def by blast
      ultimately have c: "cancelling u i (set (targets_of i (rollout_targets s))) s1"
        using inv inv_targetD(1)[OF inv] r' unfolding cancelling_def rows(2-4)
        by (auto simp: rows(1) targets_of_def rollouts_inv_def)
      have "distinct (rollout_targets s)" using inv by (auto simp: rollouts_inv_def drawn_ids_def distinct_map)
      then have "distinct (targets_of i (rollout_targets s))" by (simp add: targets_of_def)
      then obtain ys s2 where s2: "forE (cancelTarget e) (targets_of i (rollout_targets s)) s1 = (Inr ys, s2)"
        "cancelling u i {} s2" using cancelTargets_run[OF c] by blast
      have "resting.confined rest"
        unfolding rest_def getRollout_def findRolloutEntityOrFail_def by (intro resting.confined_rules resting_outputs)
      then have "rests s2 (after rest s2)" by (simp add: resting.confined_def)
      then show ?thesis
        unfolding run by (simp add: bindE_Inr[where m = "forE (cancelTarget e) (targets_of i (rollout_targets s))" and s = s1, OF s2(1)]
          inv_rest[OF cancelling_inv[OF s2(2)]])
    qed
  qed
qed

section \<open>The rollout machine\<close>

inductive rollout_step :: "(nat \<Rightarrow> string) \<Rightarrow> db \<Rightarrow> db \<Rightarrow> bool" for u where
  create: "e_uuid e = u \<Longrightarrow> rollout_step u s (after (createRollout e rs pu dto ctx) s)"
| resume: "rollout_step u s (after (resumeRollout e i ctx) s)"
| cancel: "rollout_step u s (after (cancelRollout e i ctx) s)"
| retry: "rollout_step u s (after (retryTarget e i j ctx) s)"
| skip: "rollout_step u s (after (skipTarget e i j ctx) s)"
| report: "honest_report dto j s \<Longrightarrow> rollout_step u s (after (handleAgentProgress e j dto node) s)"
| observe: "rollout_step u s (after (observeNodeVersion e node v) s)"
| monitor: "rollout_step u s (after (reconcileActiveTargets e) s)"
| elsewhere: "rests s t \<Longrightarrow> rollout_step u s t"

interpretation rollout_system: transition_system "\<lambda>s. rollouts s = [] \<and> rollout_targets s = []"
    "\<lambda>s t. inj u \<and> rollout_step u s t" "rollouts_inv u" for u
proof
  show "rollouts_inv u s" if "rollouts s = [] \<and> rollout_targets s = []" for s
    using that by (simp add: rollouts_inv_def drawn_ids_def sound_def)
  show "rollouts_inv u t" if step: "inj u \<and> rollout_step u s t" and inv: "rollouts_inv u s" for s t
  proof -
    have "inj u" using step by blast
    from conjunct2[OF step] show ?thesis
    proof cases
      case (create e rs pu dto ctx)
      then show ?thesis using keepsD[OF keeps_createRollout, of e s] \<open>inj u\<close> inv by auto
    next
      case (report dto j e node)
      then show ?thesis using progress_inv[OF inv] by simp
    next
      case elsewhere
      then show ?thesis by (rule inv_rest[OF inv])
    qed (use keepsD[OF keeps_resume inv] keepsD[OF keeps_cancelRollout inv] keepsD[OF keeps_retryTarget inv]
        keepsD[OF keeps_skipTarget inv] keepsD[OF keeps_observe inv] keepsD[OF keeps_reconcile inv] in auto)
  qed
qed

lemma count_rows_le_one:
  assumes "distinct (map key rows)" "\<And>x y. x \<in> set rows \<Longrightarrow> y \<in> set rows \<Longrightarrow> p x \<Longrightarrow> p y \<Longrightarrow> key x = key y"
  shows "count_rows p rows \<le> 1"
proof -
  have dist: "distinct (map key (filter p rows))" using assms(1) by (rule distinct_map_filter)
  have "\<forall>a \<in> key ` set (filter p rows). \<forall>b \<in> key ` set (filter p rows). a = b"
  proof (intro ballI, elim imageE)
    fix a b x y assume ab: "a = key x" "b = key y" and xy: "x \<in> set (filter p rows)" "y \<in> set (filter p rows)"
    have "x \<in> set rows" "y \<in> set rows" "p x" "p y" using xy by simp_all
    from assms(2)[OF this] show "a = b" unfolding ab .
  qed
  then have "card (key ` set (filter p rows)) \<le> 1"
    using card_le_Suc0_iff_eq[of "key ` set (filter p rows)"] unfolding One_nat_def by blast
  then show ?thesis using distinct_card[OF dist] by (simp add: count_rows_def)
qed



text \<open>C31: A target whose agent falls silent is found out: the monitor fails the target in progress once its last
  report is older than its threshold (two minutes after the dispatch, five when waiting for the
  reconnection, else fifteen), unless the node is online with the wanted version, and pauses the rollout.\<close>

theorem silent_target_fails:
  assumes inv: "rollouts_inv u s" and r: "r \<in> set (rollouts s)" "ro_status r = RO_RUNNING"
    and t: "t \<in> set (rollout_targets s)" "rt_rolloutId t = ro_id r" "active_status (rt_status t)"
    and silent: "rt_updatedAt t + resolveTargetTimeoutThresholdMs (rt_status t) \<le> e_now e"
    and node: "\<not> (\<exists>n. find_row (\<lambda>n. n_id n = rt_nodeId t) (nodes s) = Some n \<and> n_status n = ONLINE \<and>
      n_agentVersion n = Some (rt_targetVersion t))"
  shows "\<exists>r' t'. r' \<in> set (rollouts (after (reconcileActiveTargets e) s)) \<and> ro_id r' = ro_id r \<and> ro_status r' = RO_PAUSED \<and>
    t' \<in> set (rollout_targets (after (reconcileActiveTargets e) s)) \<and> rt_id t' = rt_id t \<and> rt_status t' = TG_FAILED"
proof -
  have "t \<in> set (monitored s)" using r t by (auto simp: monitored_def)
  then have m: "monitored s = [t]" by (cases rule: monitored_cases[OF inv]) auto
  obtain failed where load: "loadFailedTasksById [t] s = (Inr failed, s)" by (simp add: loadFailedTasksById_def)
  have run: "after (reconcileActiveTargets e) s = after (reconcileTarget e failed t) s"
    using load by (simp add: reconcileActiveTargets_def m bindE_Inr[where m = "loadFailedTasksById [t]" and s = s, OF load]
        after_bindE_ret del: ret_apply)
  have "\<exists>t1 message. after (reconcileTarget e failed t) s = after (pauseRolloutForTargetFailure e r t1 message) s \<and> rt_id t1 = rt_id t"
  proof (cases "failed_task_of failed t")
    case None
    then show ?thesis using node silent
      by (intro exI[of _ "t\<lparr>rt_status := TG_FAILED, rt_completedAt := Some (e_now e)\<rparr>"])
        (auto simp: reconcileTarget_def findRolloutEntityOrFail_def rollout_found[OF inv r(1) t(2)[symmetric]] after_bindE_ret
          simp del: ret_apply)
  next
    case (Some tk)
    then show ?thesis using node
      by (intro exI[of _ "t\<lparr>rt_completedAt := Some (e_now e)\<rparr>"])
        (auto simp: reconcileTarget_def findRolloutEntityOrFail_def rollout_found[OF inv r(1) t(2)[symmetric]] after_bindE_ret
          simp del: ret_apply)
  qed
  then obtain t1 message where t1: "after (reconcileTarget e failed t) s = after (pauseRolloutForTargetFailure e r t1 message) s"
    "rt_id t1 = rt_id t" by blast
  obtain r' t' where "moved r' t' s (after (pauseRolloutForTargetFailure e r t1 message) s)" "ro_id r' = ro_id r"
    "ro_status r' = RO_PAUSED" "rt_id t' = rt_id t1" "rt_status t' = TG_FAILED"
    using pause_moves[where s = s and t = t1 and r = r and e = e and message = message] by blast
  then show ?thesis unfolding run t1(1) by (intro exI[of _ r'] exI[of _ t']) (simp add: moved_def set_save_row t1(2))
qed

lemma running_unique:
  assumes inv: "rollouts_inv u s" and r: "r \<in> set (rollouts s)" "open_rollout r" and x: "x \<in> set (rollouts s)" "open_rollout x"
  shows "x = r"
proof -
  have "ro_id x = ro_id r" using inv r x unfolding rollouts_inv_def sound_def by blast
  then show ?thesis by (rule inv_key(1)[OF inv x(1) r(1)])
qed

lemma archived_refuses_task:
  assumes "nodes_findOneOrFail i None s = (Inr (n, v), s)" "find_row (\<lambda>w. w_id w = n_workspaceId n) (workspaces s) = Some w"
    "w_isArchived w"
  shows "\<exists>err. createTask e i ty p None None None b s = (Inl err, s)"
  using assms by (simp add: createTask_def queueTask_def bindE_Inr[where m = "nodes_findOneOrFail i None" and s = s, OF assms(1)]
      assertWorkspaceWritable_def findWorkspaceOrFail_def)

text \<open>C33: A rollout that reaches a node in an archived workspace is stuck. The node passes the eligibility check, the
  task cannot be queued, and the exception leaves everything as it was: the rollout runs with nothing in
  progress, the monitor finds nothing to do, and no other rollout can be created. (Only cancelling helps.)\<close>

theorem archived_workspace_stalls_rollout:
  assumes inv: "rollouts_inv u s" and r: "r \<in> set (rollouts s)" "ro_status r = RO_RUNNING"
    and idle: "\<not> (\<exists>x \<in> set (rollout_targets s). rt_rolloutId x = ro_id r \<and> active_status (rt_status x))"
    and t: "pending_target (ro_id r) s = Some t"
    and n: "nodes_findOneOrFail (rt_nodeId t) None s = (Inr (n, v), s)" "n_id n = rt_nodeId t"
      "outcome (assertNodeEligibleForRollout n (ro_targetVersion r)) s = Inr ()"
    and w: "find_row (\<lambda>w. w_id w = n_workspaceId n) (workspaces s) = Some w" "w_isArchived w"
  shows "(\<exists>err. dispatchNextTarget e (ro_id r) s = (Inl err, s)) \<and> reconcileActiveTargets e' s = (Inr 0, s) \<and>
    (\<exists>err. createRollout e' rs None dto ctx s = (Inl err, s))"
proof (intro conjI)
  have found: "find_row (\<lambda>x. ro_id x = ro_id r) (rollouts s) = Some r" by (rule rollout_found[OF inv r(1) refl])
  have elig: "assertNodeEligibleForRollout n (ro_targetVersion r) s = (Inr (), s)"
    using n(3) quietD[OF eligible_quiet, of n "ro_targetVersion r" s]
    by (cases "assertNodeEligibleForRollout n (ro_targetVersion r) s") simp
  define look where "look = bindE (nodes_findOneOrFail (rt_nodeId t) None) (\<lambda>(n, _).
               bindE (assertNodeEligibleForRollout n (ro_targetVersion r)) (\<lambda>_. ret (Some n)))"
  define h where "h = (\<lambda>err. bindE (pauseRolloutForTargetFailure e r t (error_message err)) (\<lambda>_. ret (None :: node option)))"
  have "look s = (Inr (Some n), s)"
    by (simp add: look_def bindE_Inr[where m = "nodes_findOneOrFail (rt_nodeId t) None" and s = s, OF n(1)]
        bindE_Inr[where m = "assertNodeEligibleForRollout n (ro_targetVersion r)" and s = s, OF elig])
  then have "catchE look h s = (Inr (Some n), s)" by (simp add: catchE_def)
  note step = bindE_Inr[where m = "catchE look h" and s = s, OF this]
  obtain err where refused: "createTask e (rt_nodeId t) ''agent.update''
      (Some [(''targetVersion'', JStr (ro_targetVersion r)), (''targetId'', JStr (rt_id t)), (''rollback'', JBool (ro_rollback r))])
      None None None False s = (Inl err, s)" (is "?m s = _")
    using archived_refuses_task[OF n(1) w] by blast
  have "dispatchNextTarget e (ro_id r) s = dispatchOrFinish e r (Some t) s"
  proof -
    have "\<not> (ro_status r = RO_CANCELLED \<or> (\<exists>t \<in> set (rollout_targets s). rt_rolloutId t = ro_id r \<and> active_status (rt_status t)))"
      using idle r(2) by simp
    then show ?thesis by (simp only: dispatchNext_run[OF found] if_False t)
  qed
  also have "\<dots> = bindE (catchE look h) (\<lambda>found. case found of None \<Rightarrow> ret () | Some n \<Rightarrow> dispatchTarget e r t n) s"
    by (simp add: dispatchOrFinish_def look_def h_def)
  also have "\<dots> = dispatchTarget e r t n s" by (simp add: step)
  also have "\<dots> = (Inl err, s)"
    unfolding dispatchTarget_def n(2) by (simp add: bindE_Inl[where m = ?m and s = s, OF refused])
  finally show "\<exists>err. dispatchNextTarget e (ro_id r) s = (Inl err, s)" by blast
  have "open_rollout r" by (simp add: open_rollout_def r(2))
  then have only: "x = r" if "x \<in> set (rollouts s)" "open_rollout x" for x
    using running_unique[OF inv r(1) _ that] by blast
  have "x \<notin> set (monitored s)" for x
  proof
    assume "x \<in> set (monitored s)"
    then obtain y where "x \<in> set (rollout_targets s)" "active_status (rt_status x)" "y \<in> set (rollouts s)"
      "ro_id y = rt_rolloutId x" "open_rollout y" by (auto simp: monitored_def open_rollout_def)
    with only[of y] idle show False by auto
  qed
  then have "monitored s = []" by (metis list.set_intros(1) neq_Nil_conv)
  then show "reconcileActiveTargets e' s = (Inr 0, s)" by (simp add: reconcileActiveTargets_def loadFailedTasksById_def)
  have "count_rows open_rollout (rollouts s) \<noteq> 0" using r(1) \<open>open_rollout r\<close> by (auto simp: count_rows_zero)
  then show "\<exists>err. createRollout e' rs None dto ctx s = (Inl err, s)"
    by (simp add: createRollout_def assertControlPlaneApplyIsIdle_def assertNoActiveRolloutExists_def)
qed

section \<open>Instances\<close>

definition sample_context :: audit_context where
  "sample_context = \<lparr>ac_actorType = Some ''user'', ac_actorUserId = Some ''u1'', ac_actorEmailSnapshot = Some ''ops@example.com'',
     ac_ipAddress = None, ac_userAgent = None\<rparr>"

definition sample_release :: release where
  "sample_release = \<lparr>re_version = ''1.0.1'', re_publishedAt = ''2026-01-01T00:00:00Z'', re_commit = ''abc'', re_channel = ''tag'',
     re_amd64 = Some \<lparr>af_binaryUrl = ''https://cdn/agent'', af_sha256 = ''00''\<rparr>, re_arm64 = None,
     re_notes = [(''Fixes'', [''startup''])]\<rparr>"

definition sample_releases :: release_service where
  "sample_releases = \<lparr>rs_releases = [sample_release], rs_checkedAt = Some 0, rs_findRelease = (\<lambda>_. None)\<rparr>"

definition sample_rollout_dto :: rollout_dto where
  "sample_rollout_dto = \<lparr>rd_nodeIds = [''n1''], rd_version = None, rd_rollback = None\<rparr>"

definition sample_rollout :: rollout where
  "sample_rollout = (new_rollout base_env sample_rollout_dto sample_context sample_release 1 (show_nat 0))\<lparr>ro_status := RO_RUNNING\<rparr>"

definition waiting_target :: rollout_target where
  "waiting_target = new_target base_env (show_nat 0) ''1.0.1'' sample_node 0 (show_nat 1)"

definition active_target :: rollout_target where
  "active_target = dispatched_target base_env sample_node ''t1'' waiting_target"

definition stalled_db :: db where
  "stalled_db = node_db\<lparr>workspaces := [owned_workspace\<lparr>w_isArchived := True\<rparr>], rollouts := [sample_rollout],
     rollout_targets := [waiting_target], drawn := 2\<rparr>"

definition silent_db :: db where
  "silent_db = node_db\<lparr>rollouts := [sample_rollout], rollout_targets := [active_target], drawn := 2\<rparr>"

lemmas rollout_samples = sample_rollout_def new_rollout_def waiting_target_def active_target_def new_target_def
  dispatched_target_def

lemma sample_inv: "rollouts_inv show_nat stalled_db" "rollouts_inv show_nat silent_db"
proof -
  have ids: "drawn_ids show_nat 2 [show_nat 0]" "drawn_ids show_nat 2 [show_nat 1]"
    by (auto simp: drawn_ids_def intro: exI[of _ 0] exI[of _ 1])
  show "rollouts_inv show_nat stalled_db" "rollouts_inv show_nat silent_db"
    using ids by (auto simp: rollouts_inv_def stalled_db_def silent_db_def rollout_samples sound_def rollout_ok_def
        target_ok_def status_defs)
qed

lemma created_by_operator: "(\<lambda>s t. inj show_nat \<and> rollout_step show_nat s t)\<^sup>*\<^sup>* node_db
    (after (createRollout base_env sample_releases None sample_rollout_dto sample_context) node_db)"
  by (intro r_into_rtranclp conjI rollout_step.create) (simp_all add: inj_show_nat)

lemma node_db_rollouts [simp]: "rollouts node_db = []" "rollout_targets node_db = []"
  by (simp_all add: node_db_def empty_db_def)



theorem silent_target_fails_witness:
  "\<exists>t. t \<in> set (rollout_targets (after (reconcileActiveTargets (base_env\<lparr>e_now := 2000000\<rparr>)) silent_db)) \<and> rt_status t = TG_FAILED"
proof -
  have "\<exists>r' t'. r' \<in> set (rollouts (after (reconcileActiveTargets (base_env\<lparr>e_now := 2000000\<rparr>)) silent_db)) \<and> ro_id r' = ro_id sample_rollout \<and>
      ro_status r' = RO_PAUSED \<and>
      t' \<in> set (rollout_targets (after (reconcileActiveTargets (base_env\<lparr>e_now := 2000000\<rparr>)) silent_db)) \<and>
      rt_id t' = rt_id active_target \<and> rt_status t' = TG_FAILED"
    by (rule silent_target_fails[OF sample_inv(2)])
      (simp_all add: silent_db_def rollout_samples status_defs base_env_def find_row_def sample_node_def blank_node_def)
  then show ?thesis by blast
qed

theorem archived_workspace_stalls_rollout_witness:
  "\<exists>err. dispatchNextTarget base_env (show_nat 0) stalled_db = (Inl err, stalled_db)"
proof -
  have look: "nodes_findOneOrFail (rt_nodeId waiting_target) None stalled_db = (Inr (sample_node, None), stalled_db)"
    by (simp add: nodes_findOneOrFail_def find_row_def if_given_def populateNode_eq stalled_db_def waiting_target_def new_target_def)
  have "(\<exists>err. dispatchNextTarget base_env (ro_id sample_rollout) stalled_db = (Inl err, stalled_db)) \<and>
      reconcileActiveTargets base_env stalled_db = (Inr 0, stalled_db) \<and>
      (\<exists>err. createRollout base_env sample_releases None sample_rollout_dto sample_context stalled_db = (Inl err, stalled_db))"
    by (rule archived_workspace_stalls_rollout[OF sample_inv(1) _ _ _ _ look, where w = "owned_workspace\<lparr>w_isArchived := True\<rparr>"])
      (simp_all add: stalled_db_def rollout_samples status_defs pending_target_def order_limit_def assertNodeEligibleForRollout_def
        assertNodeAcceptingNewWork_def sample_node_def blank_node_def SUPPORTED_ARCHES_def find_row_def sample_release_def
        owned_workspace_def)
  then show ?thesis by (simp add: sample_rollout_def new_rollout_def)
qed

end
