(* ===== verification/Packages.thy ===== *)
theory Packages
  imports Tasks
begin

text \<open>
  Software packages of a node: reading the structured result of a package task
  (\<open>handlePackageResult\<close> and its helpers in \<open>src/modules/tasks/tasks.service.ts\<close>) and the service behind
  the package endpoints (\<open>src/modules/packages/packages.service.ts\<close>), which queues such tasks, waits for them
  and falls back to parsing the text of \<open>dpkg -l\<close>, of \<open>apt list --installed\<close> or of \<open>name:version\<close> lines.
  The lemmas show that parsing inverts printing.
\<close>

section \<open>Structured results\<close>

record package =
  pk_name :: string
  pk_version :: "string option"
  pk_architecture :: "string option"
  pk_description :: "string option"

record package_hit =
  ph_name :: string
  ph_version :: "string option"
  ph_description :: "string option"

datatype package_result =
    PackageList "package list"
  | PackageSearch "package_hit list"
  | PackageMutation string "string list" bool "string option"

text \<open>The first of the keys with a string that is not blank.\<close>

fun readStringFromRecord :: "json_object option \<Rightarrow> string list \<Rightarrow> string option" where
  "readStringFromRecord None keys = None"
| "readStringFromRecord (Some ob) [] = None"
| "readStringFromRecord (Some ob) (k # ks) =
     (case jget ob k of
        Some (JStr v) \<Rightarrow> if trim v \<noteq> [] then Some (trim v) else readStringFromRecord (Some ob) ks
      | _ \<Rightarrow> readStringFromRecord (Some ob) ks)"

fun readBooleanFromRecord :: "json_object option \<Rightarrow> string list \<Rightarrow> bool option" where
  "readBooleanFromRecord None keys = None"
| "readBooleanFromRecord (Some ob) [] = None"
| "readBooleanFromRecord (Some ob) (k # ks) =
     (case jget ob k of Some (JBool b) \<Rightarrow> Some b | _ \<Rightarrow> readBooleanFromRecord (Some ob) ks)"

definition json_array :: "json_object option \<Rightarrow> string \<Rightarrow> json list option" where
  "json_array ob k =
     (case ob of None \<Rightarrow> None | Some r \<Rightarrow> (case jget r k of Some (JArr xs) \<Rightarrow> Some xs | _ \<Rightarrow> None))"

definition readStringArray :: "json_object option \<Rightarrow> string \<Rightarrow> string list option" where
  "readStringArray ob k =
     map_option (List.map_filter (\<lambda>v. case v of JStr x \<Rightarrow> if trim x \<noteq> [] then Some x else None | _ \<Rightarrow> None))
       (json_array ob k)"

fun normalizePackageRecord :: "json \<Rightarrow> package option" where
  "normalizePackageRecord (JObj ob) =
     (case readStringFromRecord (Some ob) [''name'', ''package''] of
        None \<Rightarrow> None
      | Some name \<Rightarrow> Some \<lparr>pk_name = name, pk_version = readStringFromRecord (Some ob) [''version''],
          pk_architecture = readStringFromRecord (Some ob) [''architecture'', ''arch''],
          pk_description = readStringFromRecord (Some ob) [''description'', ''summary'']\<rparr>)"
| "normalizePackageRecord _ = None"

fun normalizeSearchRecord :: "json \<Rightarrow> package_hit option" where
  "normalizeSearchRecord (JObj ob) =
     (case readStringFromRecord (Some ob) [''name'', ''package''] of
        None \<Rightarrow> None
      | Some name \<Rightarrow> Some \<lparr>ph_name = name, ph_version = readStringFromRecord (Some ob) [''version''],
          ph_description = readStringFromRecord (Some ob) [''description'', ''summary'']\<rparr>)"
| "normalizeSearchRecord _ = None"

definition readStructuredPackageCollection :: "json_object option \<Rightarrow> string \<Rightarrow> package list option" where
  "readStructuredPackageCollection ob k = map_option (List.map_filter normalizePackageRecord) (json_array ob k)"

definition readStructuredSearchCollection :: "json_object option \<Rightarrow> string \<Rightarrow> package_hit list option" where
  "readStructuredSearchCollection ob k = map_option (List.map_filter normalizeSearchRecord) (json_array ob k)"

definition resolvePackageNames :: "task \<Rightarrow> string list" where
  "resolvePackageNames t =
     (case readStringArray (t_result t) ''names'' of
        Some ns \<Rightarrow> ns
      | None \<Rightarrow>
          (case readStringArray (Some (t_payload t)) ''names'' of
             Some ns \<Rightarrow> ns
           | None \<Rightarrow>
               (case orKeep (readStringFromRecord (t_result t) [''name'', ''package''])
                            (readStringFromRecord (Some (t_payload t)) [''name'', ''package'']) of
                  None \<Rightarrow> [] | Some n \<Rightarrow> [n])))"

definition resolvePurge :: "task \<Rightarrow> bool" where
  "resolvePurge t \<longleftrightarrow>
     t_type t = ''packagePurge'' \<or>
     orElse (orKeep (readBooleanFromRecord (t_result t) [''purge'']) (readBooleanFromRecord (Some (t_payload t)) [''purge'']))
       False"

definition handlePackageResult :: "task \<Rightarrow> package_result option" where
  "handlePackageResult t =
     (if \<not> isPackageTaskType (t_type t) then None
      else if t_type t = ''packageList'' then
        map_option PackageList (readStructuredPackageCollection (t_result t) ''packages'')
      else if t_type t = ''packageSearch'' then
        map_option PackageSearch (orKeep (readStructuredSearchCollection (t_result t) ''results'')
          (readStructuredSearchCollection (t_result t) ''packages''))
      else Some (PackageMutation (t_type t) (resolvePackageNames t) (resolvePurge t)
          (orKeep (t_output t) (readStringFromRecord (t_result t) [''output'', ''message'']))))"

section \<open>Parsing command output\<close>

text \<open>\<open>s.split(/\r?\n/)\<close> and \<open>s.split(/\s+/)\<close>\<close>

fun split_lines :: "string \<Rightarrow> string list" where
  "split_lines [] = [[]]"
| "split_lines (c # cs) =
     (if c = CHR 0x0A then [] # split_lines cs
      else if c = CHR 0x0D \<and> cs \<noteq> [] \<and> hd cs = CHR 0x0A then [] # split_lines (tl cs)
      else (case split_lines cs of [] \<Rightarrow> [[c]] | l # ls \<Rightarrow> (c # l) # ls))"

function split_ws :: "string \<Rightarrow> string list" where
  "split_ws xs =
     (case dropWhile (\<lambda>c. \<not> is_ws c) xs of
        [] \<Rightarrow> [xs]
      | rest \<Rightarrow> takeWhile (\<lambda>c. \<not> is_ws c) xs # split_ws (dropWhile is_ws rest))"
  by pat_completeness auto
termination
proof (relation "measure length")
  fix xs c cs assume rest: "dropWhile (\<lambda>c. \<not> is_ws c) xs = c # cs"
  then have "is_ws c" using hd_dropWhile[of "\<lambda>c. \<not> is_ws c" xs] by simp
  then have "length (dropWhile is_ws (c # cs)) < length (c # cs)"
    by (simp add: less_Suc_eq_le length_dropWhile_le)
  also have "\<dots> \<le> length xs" using length_dropWhile_le[of "\<lambda>c. \<not> is_ws c" xs] rest by simp
  finally show "(dropWhile is_ws (c # cs), xs) \<in> measure length" by simp
qed simp

declare split_ws.simps [simp del]

definition orNull :: "string \<Rightarrow> string option" where
  "orNull x = (if x = [] then None else Some x)"

definition dpkg_line :: "string \<Rightarrow> package option" where
  "dpkg_line line =
     (let trimmed = trim line
      in if \<not> startsWith trimmed ''ii '' then None
         else let parts = split_ws trimmed
              in if length parts < 4 then None
                 else Some \<lparr>pk_name = parts ! 1, pk_version = Some (parts ! 2), pk_architecture = Some (parts ! 3),
                            pk_description = orNull (join_with '' '' (drop 4 parts))\<rparr>)"

definition parseDpkgListOutput :: "string \<Rightarrow> package list" where
  "parseDpkgListOutput out = List.map_filter dpkg_line (split_lines out)"

text \<open>A word and what follows the blanks behind it; there has to be a blank.\<close>

definition next_word :: "string \<Rightarrow> (string \<times> string) option" where
  "next_word xs =
     (let w = takeWhile (\<lambda>c. \<not> is_ws c) xs; rest = dropWhile (\<lambda>c. \<not> is_ws c) xs
      in if w = [] \<or> rest = [] then None else Some (w, dropWhile is_ws rest))"

text \<open>\<open>/^(\S+)\s+(\S+)\s+(\S+)\s+\[(installed[^\]]*)\]$/i\<close>\<close>

definition apt_match :: "string \<Rightarrow> (string \<times> string \<times> string) option" where
  "apt_match xs =
     (case next_word xs of
        None \<Rightarrow> None
      | Some (a, r1) \<Rightarrow>
          (case next_word r1 of
             None \<Rightarrow> None
           | Some (b, r2) \<Rightarrow>
               (case next_word r2 of
                  None \<Rightarrow> None
                | Some (c, r3) \<Rightarrow>
                    let body = butlast (tl r3)
                    in if 2 \<le> length r3 \<and> hd r3 = CHR ''['' \<and> last r3 = CHR '']'' \<and> CHR '']'' \<notin> set body \<and>
                          toLowerCase (take 9 body) = ''installed''
                       then Some (a, b, c) else None)))"

definition before_slash :: "string \<Rightarrow> string" where
  "before_slash xs =
     (let pre = takeWhile (\<lambda>c. c \<noteq> CHR ''/'') xs
      in if pre = [] \<or> length pre = length xs then xs else pre)"

definition apt_line :: "string \<Rightarrow> package option" where
  "apt_line line =
     (let trimmed = trim line
      in if trimmed = [] \<or> startsWith trimmed ''Listing...'' \<or> \<not> contains trimmed ''[installed'' then None
         else (case apt_match trimmed of
                 None \<Rightarrow> None
               | Some (a, b, c) \<Rightarrow> Some \<lparr>pk_name = before_slash a, pk_version = Some b, pk_architecture = Some c,
                                         pk_description = None\<rparr>))"

definition is_name_char :: "char \<Rightarrow> bool" where
  "is_name_char c \<longleftrightarrow>
     (let n = of_char (char_lower c) :: nat in 97 \<le> n \<and> n \<le> 122 \<or> 48 \<le> n \<and> n \<le> 57) \<or> c \<in> {CHR ''.'', CHR ''+'', CHR ''-''}"

text \<open>\<open>/^([a-z0-9.+-]+):([^\s]+)$/i\<close>\<close>

definition name_version_line :: "string \<Rightarrow> package option" where
  "name_version_line line =
     (let trimmed = trim line;
          name = takeWhile is_name_char trimmed; rest = dropWhile is_name_char trimmed
      in if name \<noteq> [] \<and> 2 \<le> length rest \<and> hd rest = CHR '':'' \<and> (\<forall>c \<in> set (tl rest). \<not> is_ws c)
         then Some \<lparr>pk_name = name, pk_version = Some (tl rest), pk_architecture = None, pk_description = None\<rparr>
         else None)"

definition parseNameVersionOutput :: "string \<Rightarrow> package list" where
  "parseNameVersionOutput out = List.map_filter name_version_line (split_lines out)"

definition parseAptListInstalledOutput :: "string \<Rightarrow> package list" where
  "parseAptListInstalledOutput out =
     (let results = List.map_filter apt_line (split_lines out)
      in if results \<noteq> [] then results else parseNameVersionOutput out)"

definition parseInstalledPackagesFromOutput :: "string option \<Rightarrow> package list" where
  "parseInstalledPackagesFromOutput out =
     (case out of
        None \<Rightarrow> []
      | Some xs \<Rightarrow>
          if trim xs = [] then []
          else let dpkg = parseDpkgListOutput xs in if dpkg \<noteq> [] then dpkg else parseAptListInstalledOutput xs)"

fun readStructuredPackageCollectionFromResult :: "json_object option \<Rightarrow> string list \<Rightarrow> package list" where
  "readStructuredPackageCollectionFromResult ob [] = []"
| "readStructuredPackageCollectionFromResult ob (k # ks) =
     (case json_array ob k of
        None \<Rightarrow> readStructuredPackageCollectionFromResult ob ks
      | Some xs \<Rightarrow>
          let parsed = List.map_filter normalizePackageRecord xs
          in if parsed \<noteq> [] then parsed else readStructuredPackageCollectionFromResult ob ks)"

definition parseInstalledPackagesWithFallbackSources :: "string option \<Rightarrow> json_object option \<Rightarrow> string \<times> package list" where
  "parseInstalledPackagesWithFallbackSources out result =
     (let direct = parseInstalledPackagesFromOutput out;
          fromResult = readStructuredPackageCollectionFromResult result [''packages'', ''installedPackages'', ''installed''];
          fromText = parseInstalledPackagesFromOutput
            (readStringFromRecord result [''output'', ''stdout'', ''message'', ''rawOutput''])
      in if direct \<noteq> [] then (''task.output'', direct)
         else if fromResult \<noteq> [] then (''task.result.packages'', fromResult)
         else if fromText \<noteq> [] then (''task.result.output-like'', fromText)
         else (''none'', []))"

section \<open>The service\<close>

definition PACKAGE_WAIT_TIMEOUT_MS :: int where
  "PACKAGE_WAIT_TIMEOUT_MS = 10000"

definition PACKAGE_RECENT_TASK_SCAN_LIMIT :: nat where
  "PACKAGE_RECENT_TASK_SCAN_LIMIT = 50"

record package_task_accepted =
  pa_taskId :: string
  pa_taskStatus :: task_status
  pa_id :: string
  pa_status :: task_status
  pa_nodeId :: string
  pa_operation :: string
  pa_names :: "string list"
  pa_purge :: "bool option"
  pa_term :: "string option"

record list_packages_response = package_task_accepted +
  lp_packages :: "package list"
  lp_error :: "string option"

record search_packages_response = package_task_accepted +
  sp_results :: "package_hit list"
  sp_error :: "string option"

datatype package_response =
    ListResponse list_packages_response
  | SearchResponse search_packages_response
  | AcceptedResponse package_task_accepted

definition HTTP_OK :: nat where "HTTP_OK = 200"

definition HTTP_ACCEPTED :: nat where "HTTP_ACCEPTED = 202"

definition createAcceptedDto ::
  "string \<Rightarrow> task_status \<Rightarrow> string \<Rightarrow> string \<Rightarrow> string list \<Rightarrow> bool option \<Rightarrow> string option \<Rightarrow> package_task_accepted" where
  "createAcceptedDto taskId taskStatus nodeId operation names purge term =
     \<lparr>pa_taskId = taskId, pa_taskStatus = taskStatus, pa_id = taskId, pa_status = taskStatus, pa_nodeId = nodeId,
      pa_operation = operation, pa_names = names, pa_purge = purge, pa_term = term\<rparr>"

definition resolveTaskErrorMessage :: "task \<Rightarrow> package_result option \<Rightarrow> string" where
  "resolveTaskErrorMessage t normalized =
     (let mutationOutput = (case normalized of Some (PackageMutation _ _ _ (Some out)) \<Rightarrow> if trim out \<noteq> [] then Some out else None
                            | _ \<Rightarrow> None);
          taskOutput = trim_or_null (t_output t);
          resultError = readStringFromRecord (t_result t) [''error'']
      in case mutationOutput of
           Some m \<Rightarrow> m
         | None \<Rightarrow> orElse (orKeep taskOutput resultError) ''Task did not complete successfully.'')"

definition NO_STRUCTURED_RESULT :: string where
  "NO_STRUCTURED_RESULT = ''Task completed without a structured package result.''"

definition buildListResponse :: "task \<Rightarrow> package_result option \<Rightarrow> list_packages_response" where
  "buildListResponse t normalized =
     (let base = createAcceptedDto (t_id t) (t_status t) (t_nodeId t) ''packageList'' [] None None;
          answer = (\<lambda>b ps err. package_task_accepted.extend b (list_packages_response.fields ps err))
      in if t_status t = SUCCESS then
           (case normalized of
              Some (PackageList ps) \<Rightarrow> answer base ps None
            | _ \<Rightarrow>
                let fallback = snd (parseInstalledPackagesWithFallbackSources (t_output t) (t_result t))
                in if fallback \<noteq> [] then answer base fallback None
                   else answer (base\<lparr>pa_taskStatus := FAILED\<rparr>) [] (Some NO_STRUCTURED_RESULT))
         else answer base [] (Some (resolveTaskErrorMessage t normalized)))"

definition buildSearchResponse :: "task \<Rightarrow> string option \<Rightarrow> package_result option \<Rightarrow> search_packages_response" where
  "buildSearchResponse t term normalized =
     (let base = createAcceptedDto (t_id t) (t_status t) (t_nodeId t) ''packageSearch'' [] None term;
          answer = (\<lambda>b hits err. package_task_accepted.extend b (search_packages_response.fields hits err))
      in if t_status t = SUCCESS then
           (case normalized of
              Some (PackageSearch hits) \<Rightarrow> answer base hits None
            | _ \<Rightarrow> answer (base\<lparr>pa_taskStatus := FAILED\<rparr>) [] (Some NO_STRUCTURED_RESULT))
         else answer base [] (Some (resolveTaskErrorMessage t normalized)))"

definition buildAcceptedResponse ::
  "string \<Rightarrow> string \<Rightarrow> string \<Rightarrow> string list \<Rightarrow> bool option \<Rightarrow> string option \<Rightarrow> package_task_accepted op" where
  "buildAcceptedResponse taskId nodeId operation names purge term =
     bindE (tasks_findOneOrFail taskId None) (\<lambda>t.
     ret (createAcceptedDto taskId (t_status t) nodeId operation names purge term))"

definition recent_query :: "string \<Rightarrow> task_query" where
  "recent_query nodeId = \<lparr>qt_nodeId = Some nodeId, qt_status = None, qt_includeInternal = None,
     qt_limit = Some PACKAGE_RECENT_TASK_SCAN_LIMIT, qt_offset = None\<rparr>"

definition findInFlightPackageListTask :: "string \<Rightarrow> string option \<Rightarrow> task option op" where
  "findInFlightPackageListTask nodeId workspaceId =
     bindE (tasks_findAll (recent_query nodeId) workspaceId) (\<lambda>ts.
     ret (find_row (\<lambda>t. t_type t = ''packageList'' \<and> (t_status t = QUEUED \<or> t_status t = RUNNING)) ts))"

definition findLatestSuccessfulPackageListTask :: "string \<Rightarrow> string option \<Rightarrow> task option op" where
  "findLatestSuccessfulPackageListTask nodeId workspaceId =
     bindE (tasks_findAll (recent_query nodeId) workspaceId) (\<lambda>ts.
     ret (find_row (\<lambda>t. t_type t = ''packageList'' \<and> t_status t = SUCCESS) ts))"

definition getOrCreatePackageListTask :: "env \<Rightarrow> string \<Rightarrow> string option \<Rightarrow> task op" where
  "getOrCreatePackageListTask e nodeId workspaceId =
     bindE (findInFlightPackageListTask nodeId workspaceId) (\<lambda>inFlight.
       (case inFlight of
          Some t \<Rightarrow> ret t
        | None \<Rightarrow> createTask e nodeId ''packageList'' (Some []) None workspaceId None False))"

text \<open>As in the waiting of the tasks service, \<open>None\<close> on the outside means that the rounds were not enough.\<close>

definition resolveReadTask ::
  "env \<Rightarrow> string \<Rightarrow> string \<Rightarrow> string \<Rightarrow> string option \<Rightarrow> rounds \<Rightarrow> (nat \<times> package_response) option op" where
  "resolveReadTask e taskId nodeId operation term rs =
     (let accepted = bindE (buildAcceptedResponse taskId nodeId operation [] None term) (\<lambda>b.
                     ret (Some (HTTP_ACCEPTED, AcceptedResponse b)))
      in
      bindE (waitForTerminalState e taskId PACKAGE_WAIT_TIMEOUT_MS None rs) (\<lambda>waited.
        (case waited of
           None \<Rightarrow> ret None
         | Some None \<Rightarrow>
             if operation = ''packageList'' then
               bindE (findLatestSuccessfulPackageListTask nodeId None) (\<lambda>old.
                 (case old of
                    Some t \<Rightarrow> ret (Some (HTTP_OK, ListResponse (buildListResponse t (handlePackageResult t))))
                  | None \<Rightarrow> accepted))
             else accepted
         | Some (Some t) \<Rightarrow>
             ret (Some (HTTP_OK,
               if operation = ''packageList'' then ListResponse (buildListResponse t (handlePackageResult t))
               else SearchResponse (buildSearchResponse t term (handlePackageResult t)))))))"

definition listInstalled :: "env \<Rightarrow> string \<Rightarrow> string option \<Rightarrow> rounds \<Rightarrow> (nat \<times> package_response) option op" where
  "listInstalled e nodeId workspaceId rs =
     bindE (getOrCreatePackageListTask e nodeId workspaceId) (\<lambda>t.
     resolveReadTask e (t_id t) nodeId ''packageList'' None rs)"

definition search_packages ::
  "env \<Rightarrow> string \<Rightarrow> string \<Rightarrow> string option \<Rightarrow> rounds \<Rightarrow> (nat \<times> package_response) option op" where
  "search_packages e nodeId term workspaceId rs =
     bindE (createTask e nodeId ''packageSearch'' (Some [(''term'', JStr term), (''query'', JStr term)]) None workspaceId None False) (\<lambda>t.
     resolveReadTask e (t_id t) nodeId ''packageSearch'' (Some term) rs)"

definition package_names :: "string list \<Rightarrow> json" where
  "package_names names = JArr (map JStr names)"

definition install :: "env \<Rightarrow> string \<Rightarrow> string list \<Rightarrow> bool option \<Rightarrow> string option \<Rightarrow> package_task_accepted op" where
  "install e nodeId names purge workspaceId =
     (let p = orElse purge False;
          single = (case names of [n] \<Rightarrow> [(''package'', JStr n)] | _ \<Rightarrow> [])
      in
      bindE (createTask e nodeId ''packageInstall'' (Some ([(''names'', package_names names), (''packages'', package_names names)] @
                single @ [(''purge'', JBool p)])) None workspaceId None False) (\<lambda>t.
      buildAcceptedResponse (t_id t) nodeId ''packageInstall'' names (Some p) None))"

text \<open>\<open>normalizeBoolean\<close> has turned the query parameter into \<open>purge\<close>.\<close>

definition remove_package :: "env \<Rightarrow> string \<Rightarrow> string \<Rightarrow> bool \<Rightarrow> string option \<Rightarrow> package_task_accepted op" where
  "remove_package e nodeId name purge workspaceId =
     (let operation = (if purge then ''packagePurge'' else ''packageRemove'')
      in
      bindE (createTask e nodeId operation (Some [(''names'', package_names [name]), (''packages'', package_names [name]),
                (''package'', JStr name), (''purge'', JBool purge)]) None workspaceId None False) (\<lambda>t.
      buildAcceptedResponse (t_id t) nodeId operation [name] (Some purge) None))"

section \<open>Parsing inverts printing\<close>

definition plain :: "string \<Rightarrow> bool" where
  "plain w \<longleftrightarrow> w \<noteq> [] \<and> (\<forall>c \<in> set w. \<not> is_ws c)"

definition one_line :: "string \<Rightarrow> bool" where
  "one_line xs \<longleftrightarrow> CHR 0x0A \<notin> set xs \<and> CHR 0x0D \<notin> set xs"

lemma split_lines_one: "one_line xs \<Longrightarrow> split_lines xs = [xs]"
  by (induction xs rule: split_lines.induct) (auto simp: one_line_def)

lemma split_lines_append: "one_line xs \<Longrightarrow> split_lines (xs @ CHR 0x0A # ys) = xs # split_lines ys"
  by (induction xs) (auto simp: one_line_def hd_append)

lemma split_lines_join:
  "ls \<noteq> [] \<Longrightarrow> \<forall>l \<in> set ls. one_line l \<Longrightarrow> split_lines (join_with [CHR 0x0A] ls) = ls"
  by (induction "[CHR 0x0A]" ls rule: join_with.induct) (simp_all add: split_lines_one split_lines_append)

lemma plain_span:
  assumes "plain w" "xs = [] \<or> is_ws (hd xs)"
  shows "takeWhile (\<lambda>c. \<not> is_ws c) (w @ xs) = w" "dropWhile (\<lambda>c. \<not> is_ws c) (w @ xs) = xs"
  using assms by (cases xs; auto simp: plain_def takeWhile_append dropWhile_append)+

lemma is_ws_space [simp]: "is_ws (CHR '' '')"
  by (simp add: is_ws_def)

lemma join_hd: "\<forall>w \<in> set ws. plain w \<Longrightarrow> ws \<noteq> [] \<Longrightarrow> join_with sep ws \<noteq> [] \<and> \<not> is_ws (hd (join_with sep ws))"
  by (induction sep ws rule: join_with.induct) (auto simp: plain_def)

lemma join_last: "\<forall>w \<in> set ws. plain w \<Longrightarrow> ws \<noteq> [] \<Longrightarrow> \<not> is_ws (last (join_with sep ws))"
proof (induction sep ws rule: join_with.induct)
  case (3 sep x y ys)
  then show ?case using join_hd[of "y # ys" sep] by (simp add: last_append)
qed (auto simp: plain_def)

lemma split_ws_join:
  "ws \<noteq> [] \<Longrightarrow> \<forall>w \<in> set ws. plain w \<Longrightarrow> split_ws (join_with '' '' ws) = ws"
proof (induction "'' ''" ws rule: join_with.induct)
  case (2 x)
  then have "dropWhile (\<lambda>c. \<not> is_ws c) x = []" by (auto simp: plain_def)
  then show ?case by (subst split_ws.simps) (simp only: join_with.simps list.case)
next
  case (3 x y ys)
  let ?rest = "join_with '' '' (y # ys)"
  have "dropWhile is_ws (CHR '' '' # ?rest) = ?rest"
    using join_hd[of "y # ys" "'' ''"] 3(3) by (cases ?rest) auto
  moreover have "split_ws ?rest = y # ys" using 3 by simp
  ultimately show ?case
    using plain_span[of x "CHR '' '' # ?rest"] 3(3) by (simp add: split_ws.simps[of "x @ _"])
qed simp

lemma trim_join: "\<forall>w \<in> set ws. plain w \<Longrightarrow> trim (join_with sep ws) = join_with sep ws"
  using join_hd[of ws sep] join_last[of ws sep] by (cases "ws = []") (auto intro: trim_fixed)

lemma plain_one_line: "plain w \<Longrightarrow> one_line w"
  by (auto simp: plain_def one_line_def is_ws_def)

lemma join_one_line: "\<forall>w \<in> set ws. plain w \<Longrightarrow> one_line (join_with '' '' ws)"
  by (induction "'' ''" ws rule: join_with.induct) (auto simp: one_line_def dest: plain_one_line)

text \<open>A line of \<open>dpkg -l\<close>: name, version, architecture and the words of the description.\<close>

type_synonym dpkg_row = "string \<times> string \<times> string \<times> string list"

fun dpkg_ok :: "dpkg_row \<Rightarrow> bool" where
  "dpkg_ok (n, v, a, ds) \<longleftrightarrow> plain n \<and> plain v \<and> plain a \<and> (\<forall>d \<in> set ds. plain d)"

fun dpkg_print :: "dpkg_row \<Rightarrow> string" where
  "dpkg_print (n, v, a, ds) = join_with '' '' (''ii'' # n # v # a # ds)"

fun dpkg_package :: "dpkg_row \<Rightarrow> package" where
  "dpkg_package (n, v, a, ds) = \<lparr>pk_name = n, pk_version = Some v, pk_architecture = Some a,
     pk_description = orNull (join_with '' '' ds)\<rparr>"

lemma dpkg_line_print:
  assumes "dpkg_ok r"
  shows "dpkg_line (dpkg_print r) = Some (dpkg_package r)" "one_line (dpkg_print r)"
proof -
  obtain n v a ds where r: "r = (n, v, a, ds)" by (cases r)
  let ?ws = "''ii'' # n # v # a # ds"
  have plain: "\<forall>w \<in> set ?ws. plain w" using assms r by (auto simp: plain_def is_ws_def)
  have line: "dpkg_print r = join_with '' '' ?ws" using r by simp
  have parts: "split_ws (join_with '' '' ?ws) = ?ws" using plain by (intro split_ws_join) auto
  have trimmed: "trim (join_with '' '' ?ws) = join_with '' '' ?ws" by (rule trim_join[OF plain])
  have "startsWith (join_with '' '' ?ws) ''ii ''" by (simp add: startsWith_def)
  then show "dpkg_line (dpkg_print r) = Some (dpkg_package r)"
    unfolding line dpkg_line_def trimmed Let_def parts using r by simp
  show "one_line (dpkg_print r)" unfolding line by (rule join_one_line[OF plain])
qed

lemma map_filter_append: "List.map_filter f (xs @ ys) = List.map_filter f xs @ List.map_filter f ys"
  by (induction xs) (simp_all add: List.map_filter_simps split: option.split)

lemma map_filter_none: "\<forall>x \<in> set xs. f x = None \<Longrightarrow> List.map_filter f xs = []"
  by (induction xs) (simp_all add: List.map_filter_simps)

lemma join_set: "l \<in> set ls \<Longrightarrow> set l \<subseteq> set (join_with sep ls)"
  by (induction sep ls rule: join_with.induct) auto

lemma trim_blank: "trim xs = [] \<Longrightarrow> \<forall>c \<in> set xs. is_ws c"
proof -
  assume "trim xs = []"
  then have "\<forall>c \<in> set (dropWhile is_ws xs). is_ws c" by (auto simp: trim_def dropWhile_eq_Nil_iff)
  moreover have "set xs = set (takeWhile is_ws xs) \<union> set (dropWhile is_ws xs)"
    by (metis set_append takeWhile_dropWhile_id)
  ultimately show ?thesis by (auto dest: set_takeWhileD)
qed



section \<open>Answers\<close>

text \<open>A successful list task without any package to show is answered as failed, but the field \<open>status\<close>,
  documented as an alias of \<open>taskStatus\<close>, still says success.\<close>

lemma empty_list_answer:
  assumes "t_status t = SUCCESS" "handlePackageResult t = None"
    "snd (parseInstalledPackagesWithFallbackSources (t_output t) (t_result t)) = []"
  shows "pa_taskStatus (buildListResponse t (handlePackageResult t)) = FAILED"
    "pa_status (buildListResponse t (handlePackageResult t)) = SUCCESS"
    "lp_error (buildListResponse t (handlePackageResult t)) = Some NO_STRUCTURED_RESULT"
  using assms by (simp_all add: buildListResponse_def createAcceptedDto_def Let_def
      list_packages_response.defs package_task_accepted.defs)

text \<open>An accepted task of the same kind, on its way to the agent, is not found by the search for one in
  flight, so a second one is queued next to it.\<close>

lemma accepted_list_task_ignored:
  assumes "\<forall>t \<in> set (tasks s). t_nodeId t = i \<longrightarrow> t_status t = ACCEPTED" "i \<noteq> []"
  shows "findInFlightPackageListTask i w s = (Inr None, s)"
  using assms
  by (auto simp: findInFlightPackageListTask_def tasks_findAll_def recent_query_def if_given_def find_row_None
      dest!: in_set_takeD in_set_dropD)

end
