(* ===== verification/Notifications.thy ===== *)
theory Notifications
  imports Events
begin

text \<open>
  The notifications (\<open>src/modules/notifications/notifications.service.ts\<close>): who is told of an event, of an
  enrollment request, of an invitation and of a password reset, by mail and by Telegram, the text and HTML of the
  mails, and the mailer (\<open>mailer.service.ts\<close>). The SMTP transport and the Telegram endpoint are parameters: what
  they answer to a message. A delivered mail is added to \<open>mailed\<close>, a request to Telegram to \<open>telegrams\<close>.
  Characters outside ASCII are written as their UTF-8 bytes. The transporter a mailer keeps between two mails
  has no effect of its own and is left out.
\<close>

section \<open>The mailer\<close>

text \<open>What \<open>transporter.sendMail\<close> throws: its message, the response of the server and its code.\<close>

record smtp_error =
  sm_message :: string
  sm_response :: "string option"
  sm_responseCode :: "int option"

text \<open>The answer of Telegram: its status and body, when the request got one.\<close>

record telegram_answer =
  ta_ok :: bool
  ta_status :: int
  ta_body :: string

text \<open>The mail configuration and the two outer services; the transport gets the sender and the mail.\<close>

record mail_env =
  me_jsonTransport :: bool
  me_smtpHost :: string
  me_fromName :: string
  me_fromEmail :: string
  me_webAppUrl :: string
  me_transport :: "string \<Rightarrow> mail \<Rightarrow> smtp_error option"
  me_telegram :: "string \<Rightarrow> json \<Rightarrow> string + telegram_answer"

definition isConfigured :: "mail_env \<Rightarrow> bool" where
  "isConfigured me \<longleftrightarrow> me_jsonTransport me \<or> trim (me_smtpHost me) \<noteq> []"

definition smtpResponse :: "smtp_error \<Rightarrow> string" where
  "smtpResponse x = (case trim_or_null (sm_response x) of None \<Rightarrow> sm_message x | Some r \<Rightarrow> r)"

definition senderHint :: "smtp_error \<Rightarrow> string" where
  "senderHint x =
     (let r = toLowerCase (smtpResponse x)
      in if contains r ''from'' \<or> contains r ''sender'' \<or> contains r ''mail from'' \<or>
            (case sm_responseCode x of None \<Rightarrow> False | Some c \<Rightarrow> c \<in> {550, 553, 554})
         then '' Verify SMTP_FROM_EMAIL and the sender identity/domain with your email provider.'' else [])"

definition sendMail :: "mail_env \<Rightarrow> mail \<Rightarrow> unit op" where
  "sendMail me m =
     (if \<not> isConfigured me
      then throw (ServiceUnavailable ''Email delivery is not configured for this environment.'')
      else case me_transport me (me_fromName me @ '' <'' @ me_fromEmail me @ ''>'') m of
             None \<Rightarrow> writeE (\<lambda>s. s\<lparr>mailed := mailed s @ [m]\<rparr>)
           | Some x \<Rightarrow> throw (ServiceUnavailable
               (trim (''Email delivery failed: '' @ smtpResponse x @ ''.'' @ senderHint x))))"

section \<open>The text of a mail\<close>

datatype tone = TONE_DEFAULT | TONE_WARNING | TONE_CRITICAL

text \<open>The input of \<open>buildStyledEmail\<close>; \<open>em_cta\<close> is the button, label and address.\<close>

record email_input =
  em_eyebrow :: string
  em_title :: string
  em_paragraphs :: "string list"
  em_greeting :: "string option"
  em_cta :: "(string \<times> string) option"
  em_details :: "(string \<times> string) list"
  em_footnote :: "string option"
  em_tone :: tone

record palette =
  pl_accent :: string
  pl_badgeBg :: string
  pl_badgeText :: string
  pl_button :: string
  pl_surface :: string
  pl_border :: string
  pl_title :: string
  pl_body :: string
  pl_muted :: string

fun getEmailPalette :: "tone \<Rightarrow> palette" where
  "getEmailPalette TONE_CRITICAL = \<lparr>pl_accent = ''#c2410c'', pl_badgeBg = ''#fff1eb'', pl_badgeText = ''#b93815'',
     pl_button = ''#7f1d1d'', pl_surface = ''#fff5f3'', pl_border = ''#f2d6cf'', pl_title = ''#211310'',
     pl_body = ''#4e3c37'', pl_muted = ''#7d6861''\<rparr>"
| "getEmailPalette TONE_WARNING = \<lparr>pl_accent = ''#b45309'', pl_badgeBg = ''#fff7e8'', pl_badgeText = ''#a16207'',
     pl_button = ''#171717'', pl_surface = ''#fffbf2'', pl_border = ''#f0e1bf'', pl_title = ''#211910'',
     pl_body = ''#52463a'', pl_muted = ''#7c6f63''\<rparr>"
| "getEmailPalette TONE_DEFAULT = \<lparr>pl_accent = ''#d65c36'', pl_badgeBg = ''#fff1eb'', pl_badgeText = ''#c24d29'',
     pl_button = ''#171717'', pl_surface = ''#faf6f1'', pl_border = ''#eadfd7'', pl_title = ''#1d1612'',
     pl_body = ''#4d433d'', pl_muted = ''#7b7069''\<rparr>"

abbreviation em_palette :: "email_input \<Rightarrow> palette" where
  "em_palette m \<equiv> getEmailPalette (em_tone m)"

fun resolveTone :: "severity \<Rightarrow> tone" where
  "resolveTone CRITICAL = TONE_CRITICAL"
| "resolveTone WARNING = TONE_WARNING"
| "resolveTone INFO = TONE_DEFAULT"

text \<open>\<open>s.replace(/c/g, rep)\<close>\<close>

definition replace_char :: "char \<Rightarrow> string \<Rightarrow> string \<Rightarrow> string" where
  "replace_char c rep xs = concat (map (\<lambda>x. if x = c then rep else [x]) xs)"

abbreviation nl :: string where
  "nl \<equiv> [CHR 0x0A]"

definition escapeHtml :: "string \<Rightarrow> string" where
  "escapeHtml value =
     replace_char (CHR 0x27) ''&#39;'' (replace_char (CHR 0x22) ''&quot;'' (replace_char (CHR ''>'') ''&gt;''
       (replace_char (CHR ''<'') ''&lt;'' (replace_char (CHR ''&'') ''&amp;'' value))))"

definition escapeHtmlWithBreaks :: "string \<Rightarrow> string" where
  "escapeHtmlWithBreaks value = replace_char (CHR 0x0A) ''<br />'' (escapeHtml value)"

definition escapeTelegramHtml :: "string \<Rightarrow> string" where
  "escapeTelegramHtml value =
     replace_char (CHR ''>'') ''&gt;'' (replace_char (CHR ''<'') ''&lt;'' (replace_char (CHR ''&'') ''&amp;'' value))"

text \<open>\<open>Date.toUTCString\<close>, e.g. \<open>Thu, 01 Jan 1970 00:00:00 GMT\<close>.\<close>

definition formatTimestamp :: "int \<Rightarrow> string" where
  "formatTimestamp t =
     (let days = t div 86400000; ms = t mod 86400000; (y, m, d) = civil_from_days days;
          p2 = (\<lambda>n. pad0 2 (show_int n))
      in [''Thu'', ''Fri'', ''Sat'', ''Sun'', ''Mon'', ''Tue'', ''Wed''] ! nat (days mod 7) @ '', '' @ p2 d @ '' '' @
         [''Jan'', ''Feb'', ''Mar'', ''Apr'', ''May'', ''Jun'', ''Jul'', ''Aug'', ''Sep'', ''Oct'', ''Nov'', ''Dec''] ! nat (m - 1) @
         '' '' @ (if y < 0 then ''-'' else []) @ pad0 4 (show_int \<bar>y\<bar>) @ '' '' @
         p2 (ms div 3600000) @ '':'' @ p2 (ms div 60000 mod 60) @ '':'' @ p2 (ms div 1000 mod 60) @ '' GMT'')"

definition buildFrontendUrl :: "mail_env \<Rightarrow> string \<Rightarrow> string" where
  "buildFrontendUrl me path =
     (if endsWith (me_webAppUrl me) ''/'' then butlast (me_webAppUrl me) else me_webAppUrl me) @ path"

text \<open>The lines of the text part: an empty one is kept only after one that is not empty.\<close>

fun drop_blank_runs :: "string \<Rightarrow> string list \<Rightarrow> string list" where
  "drop_blank_runs previous [] = []"
| "drop_blank_runs previous (l # ls) =
     (if l \<noteq> [] \<or> previous \<noteq> [] then l # drop_blank_runs l ls else drop_blank_runs l ls)"

definition email_text :: "string \<Rightarrow> email_input \<Rightarrow> string" where
  "email_text appUrl m =
     (let greeting = (case em_greeting m of None \<Rightarrow> [] | Some g \<Rightarrow> g);
          footnote = (case em_footnote m of None \<Rightarrow> [] | Some f \<Rightarrow> f);
          cta = (case em_cta m of None \<Rightarrow> [] | Some (label, url) \<Rightarrow>
                   if label \<noteq> [] \<and> url \<noteq> [] then label @ '': '' @ url else [])
      in join_with nl (drop_blank_runs []
           ([''Noderax'', em_title m, [], greeting, []] @ concat (map (\<lambda>p. [p, []]) (em_paragraphs m)) @
            [cta, []] @ concat (map (\<lambda>(label, value). [label @ '': '' @ value, []]) (em_details m)) @
            [footnote, [], ''Open Noderax: '' @ appUrl])))"

section \<open>The HTML of a mail\<close>

definition paragraphHtml :: "email_input \<Rightarrow> string \<Rightarrow> string" where
  "paragraphHtml m paragraph = ''<p style=\"margin:0 0 14px;color:'' @ pl_body (em_palette m) @ '';font-size:16px;line-height:1.7;\">'' @ escapeHtml paragraph @ ''</p>''"

definition paragraphsHtml :: "email_input \<Rightarrow> string" where
  "paragraphsHtml m = concat (map (paragraphHtml m) (em_paragraphs m))"

definition detailRow :: "email_input \<Rightarrow> bool \<Rightarrow> string \<Rightarrow> string \<Rightarrow> string" where
  "detailRow m lastOne label value = join_with nl [
       [],
       ''                <tr>'',
       ''                  <td style=\"padding:14px 18px;'' @ (if lastOne then [] else ''border-bottom:1px solid '' @ pl_border (em_palette m) @ '';'') @ ''\">'',
       ''                    <div style=\"margin:0 0 4px;color:'' @ pl_muted (em_palette m) @ '';font-size:12px;font-weight:700;letter-spacing:0.08em;text-transform:uppercase;\">'',
       ''                      '' @ escapeHtml label,
       ''                    </div>'',
       ''                    <div style=\"margin:0;color:'' @ pl_title (em_palette m) @ '';font-size:15px;line-height:1.6;font-weight:600;\">'',
       ''                      '' @ escapeHtmlWithBreaks value,
       ''                    </div>'',
       ''                  </td>'',
       ''                </tr>'',
       ''              '']"

fun detailRows :: "email_input \<Rightarrow> (string \<times> string) list \<Rightarrow> string" where
  "detailRows m [] = []"
| "detailRows m ((label, value) # ds) = detailRow m (ds = []) label value @ detailRows m ds"

definition detailsHtml :: "email_input \<Rightarrow> string" where
  "detailsHtml m = (if em_details m = [] then [] else join_with nl [
       [],
       ''        <table role=\"presentation\" width=\"100%\" cellspacing=\"0\" cellpadding=\"0\" style=\"margin:24px 0 0;border-collapse:separate;border-spacing:0;background:'' @ pl_surface (em_palette m) @ '';border:1px solid '' @ pl_border (em_palette m) @ '';border-radius:18px;\">'',
       ''          '' @ detailRows m (em_details m),
       ''        </table>'',
       ''      ''])"

definition ctaBlock :: "email_input \<Rightarrow> string \<Rightarrow> string \<Rightarrow> string" where
  "ctaBlock m label url = join_with nl [
       [],
       ''          <table role=\"presentation\" cellspacing=\"0\" cellpadding=\"0\" style=\"margin:26px 0 0;\">'',
       ''            <tr>'',
       ''              <td align=\"center\" bgcolor=\"'' @ pl_button (em_palette m) @ ''\" style=\"border-radius:14px;\">'',
       ''                <a'',
       ''                  href=\"'' @ escapeHtml url @ ''\"'',
       ''                  style=\"display:inline-block;padding:14px 22px;color:#ffffff;font-size:15px;font-weight:700;line-height:1;text-decoration:none;\"'',
       ''                >'',
       ''                  '' @ escapeHtml label,
       ''                </a>'',
       ''              </td>'',
       ''            </tr>'',
       ''          </table>'',
       ''          <p style=\"margin:14px 0 0;color:'' @ pl_muted (em_palette m) @ '';font-size:13px;line-height:1.6;\">'',
       ''            Button not working? Copy and paste this link into your browser:<br />'',
       ''            <a href=\"'' @ escapeHtml url @ ''\" style=\"color:'' @ pl_accent (em_palette m) @ '';text-decoration:none;\">'' @ escapeHtml url @ ''</a>'',
       ''          </p>'',
       ''        '']"

definition ctaHtml :: "email_input \<Rightarrow> string" where
  "ctaHtml m = (case em_cta m of None \<Rightarrow> [] | Some (label, url) \<Rightarrow>
     if label \<noteq> [] \<and> url \<noteq> [] then ctaBlock m label url else [])"

definition greetingHtml :: "email_input \<Rightarrow> string" where
  "greetingHtml m = (case em_greeting m of None \<Rightarrow> [] | Some greeting \<Rightarrow>
     if greeting = [] then [] else ''<p style=\"margin:0 0 14px;color:'' @ pl_title (em_palette m) @ '';font-size:16px;line-height:1.7;font-weight:600;\">'' @ escapeHtml greeting @ ''</p>'')"

definition footnoteHtml :: "email_input \<Rightarrow> string" where
  "footnoteHtml m = (case em_footnote m of None \<Rightarrow> [] | Some footnote \<Rightarrow>
     if footnote = [] then [] else ''<p style=\"margin:24px 0 0;color:'' @ pl_muted (em_palette m) @ '';font-size:13px;line-height:1.7;\">'' @ escapeHtml footnote @ ''</p>'')"

definition email_html :: "string \<Rightarrow> email_input \<Rightarrow> string" where
  "email_html appUrl m = join_with nl [
       [],
       ''        <!DOCTYPE html>'',
       ''        <html lang=\"en\">'',
       ''          <body style=\"margin:0;padding:24px;background:#f6f2ed;font-family:-apple-system,BlinkMacSystemFont,'' @ [CHR 0x27] @ ''Segoe UI'' @ [CHR 0x27] @ '',sans-serif;\">'',
       ''            <div style=\"display:none;max-height:0;overflow:hidden;opacity:0;\">'',
       ''              '' @ escapeHtml (em_title m),
       ''            </div>'',
       ''            <table role=\"presentation\" width=\"100%\" cellspacing=\"0\" cellpadding=\"0\" style=\"border-collapse:collapse;\">'',
       ''              <tr>'',
       ''                <td align=\"center\">'',
       ''                  <table role=\"presentation\" width=\"100%\" cellspacing=\"0\" cellpadding=\"0\" style=\"max-width:640px;border-collapse:collapse;\">'',
       ''                    <tr>'',
       ''                      <td style=\"padding:0 0 16px;\">'',
       ''                        <table role=\"presentation\" width=\"100%\" cellspacing=\"0\" cellpadding=\"0\" style=\"border-collapse:collapse;\">'',
       ''                          <tr>'',
       ''                            <td valign=\"middle\">'',
       ''                                <span style=\"display:inline-block;color:#171717;font-size:18px;font-weight:800;letter-spacing:0.01em;vertical-align:middle;\">Noderax</span>'',
       ''                            </td>'',
       ''                            <td align=\"right\" valign=\"middle\">'',
       ''                              <span style=\"display:inline-block;padding:8px 12px;border-radius:999px;background:'' @ pl_badgeBg (em_palette m) @ '';color:'' @ pl_badgeText (em_palette m) @ '';font-size:11px;font-weight:800;letter-spacing:0.08em;text-transform:uppercase;\">'',
       ''                                '' @ escapeHtml (em_eyebrow m),
       ''                              </span>'',
       ''                            </td>'',
       ''                          </tr>'',
       ''                        </table>'',
       ''                      </td>'',
       ''                    </tr>'',
       ''                    <tr>'',
       ''                      <td style=\"background:#ffffff;border:1px solid #eadfd7;border-radius:26px;padding:36px 34px 30px;box-shadow:0 14px 34px rgba(23,19,15,0.08);\">'',
       ''                        <div style=\"margin:0 0 16px;\">'',
       ''                          <span style=\"display:inline-block;padding:7px 11px;border-radius:999px;background:'' @ pl_badgeBg (em_palette m) @ '';color:'' @ pl_badgeText (em_palette m) @ '';font-size:11px;font-weight:800;letter-spacing:0.08em;text-transform:uppercase;\">'',
       ''                            Noderax control plane'',
       ''                          </span>'',
       ''                        </div>'',
       ''                        <h1 style=\"margin:0 0 14px;color:'' @ pl_title (em_palette m) @ '';font-size:30px;line-height:1.2;font-weight:800;letter-spacing:-0.03em;\">'',
       ''                          '' @ escapeHtml (em_title m),
       ''                        </h1>'',
       ''                        '' @ greetingHtml m,
       ''                        '' @ paragraphsHtml m,
       ''                        '' @ ctaHtml m,
       ''                        '' @ detailsHtml m,
       ''                        '' @ footnoteHtml m,
       ''                      </td>'',
       ''                    </tr>'',
       ''                    <tr>'',
       ''                      <td style=\"padding:16px 8px 0;color:#756b65;font-size:12px;line-height:1.7;text-align:center;\">'',
       ''                        Sent by Noderax. Open your dashboard at'',
       ''                        <a href=\"'' @ escapeHtml appUrl @ ''\" style=\"color:'' @ pl_accent (em_palette m) @ '';text-decoration:none;\">'' @ escapeHtml appUrl @ ''</a>.'',
       ''                      </td>'',
       ''                    </tr>'',
       ''                  </table>'',
       ''                </td>'',
       ''              </tr>'',
       ''            </table>'',
       ''          </body>'',
       ''        </html>'',
       ''      '']"

definition buildStyledEmail :: "mail_env \<Rightarrow> email_input \<Rightarrow> string \<times> string" where
  "buildStyledEmail me m =
     (let appUrl = buildFrontendUrl me [] in (email_text appUrl m, email_html appUrl m))"

definition styledMail :: "mail_env \<Rightarrow> string list \<Rightarrow> string \<Rightarrow> email_input \<Rightarrow> mail" where
  "styledMail me recipients subject m =
     \<lparr>ml_to = recipients, ml_subject = subject, ml_text = fst (buildStyledEmail me m), ml_html = snd (buildStyledEmail me m)\<rparr>"

section \<open>Invitations and password resets\<close>

definition invitation_email :: "mail_env \<Rightarrow> string \<Rightarrow> string \<Rightarrow> string \<Rightarrow> int \<Rightarrow> email_input" where
  "invitation_email me email name token expiresAt =
     \<lparr>em_eyebrow = ''Access invitation'', em_title = ''You have been invited to Noderax'',
      em_paragraphs = [''A platform admin invited you to the Noderax control plane.'',
        ''Activate your account and set your password to start managing workspaces, nodes, and tasks.''],
      em_greeting = Some (''Hello '' @ name @ '',''),
      em_cta = Some (''Activate account'', buildFrontendUrl me (''/invite/'' @ token)),
      em_details = [(''Account email'', email), (''Invite expires'', formatTimestamp expiresAt)],
      em_footnote = Some ''If you were not expecting this invitation, you can safely ignore this email.'',
      em_tone = TONE_DEFAULT\<rparr>"

definition sendUserInvitation :: "mail_env \<Rightarrow> string \<Rightarrow> string \<Rightarrow> string \<Rightarrow> int \<Rightarrow> unit op" where
  "sendUserInvitation me email name token expiresAt =
     sendMail me (styledMail me [email] ''You have been invited to Noderax'' (invitation_email me email name token expiresAt))"

definition reset_email :: "mail_env \<Rightarrow> string \<Rightarrow> string \<Rightarrow> string \<Rightarrow> int \<Rightarrow> email_input" where
  "reset_email me email name token expiresAt =
     \<lparr>em_eyebrow = ''Security'', em_title = ''Reset your Noderax password'',
      em_paragraphs = [''We received a request to reset your Noderax password.'',
        ''Use the secure link below to choose a new password and regain access.''],
      em_greeting = Some (''Hello '' @ name @ '',''),
      em_cta = Some (''Reset password'', buildFrontendUrl me (''/reset-password/'' @ token)),
      em_details = [(''Account email'', email), (''Reset link expires'', formatTimestamp expiresAt)],
      em_footnote = Some ''If you did not request this reset, you can ignore this email and your password will stay the same.'',
      em_tone = TONE_DEFAULT\<rparr>"

definition sendPasswordReset :: "mail_env \<Rightarrow> string \<Rightarrow> string \<Rightarrow> string \<Rightarrow> int \<Rightarrow> unit op" where
  "sendPasswordReset me email name token expiresAt =
     sendMail me (styledMail me [email] ''Reset your Noderax password'' (reset_email me email name token expiresAt))"

section \<open>Recipients\<close>

definition WORKSPACE_ADMIN_ROLES :: "membership_role list" where
  "WORKSPACE_ADMIN_ROLES = [OWNER, ADMIN]"

definition uniqueEmails :: "user list \<Rightarrow> string list" where
  "uniqueEmails us = uniq (filter (\<lambda>x. x \<noteq> []) (map (\<lambda>u. toLowerCase (trim (u_email u))) us))"

text \<open>\<open>preference\<close> is the column that has to be set, if one has to.\<close>

definition findWorkspaceAdmins :: "string list \<Rightarrow> (user \<Rightarrow> bool) \<Rightarrow> db \<Rightarrow> user list" where
  "findWorkspaceAdmins workspaceIds preference s =
     (let userIds = uniq (map m_userId (filter (\<lambda>m. m_workspaceId m \<in> set workspaceIds \<and>
            m_role m \<in> set WORKSPACE_ADMIN_ROLES) (memberships s)))
      in if userIds = [] then []
         else filter (\<lambda>u. u_id u \<in> set userIds \<and> u_isActive u \<and> preference u) (users s))"

definition platformAdmins :: "(user \<Rightarrow> bool) \<Rightarrow> db \<Rightarrow> user list" where
  "platformAdmins preference s =
     filter (\<lambda>u. u_role u = PLATFORM_ADMIN \<and> u_isActive u \<and> preference u) (users s)"

definition findCriticalEventRecipients :: "string \<Rightarrow> db \<Rightarrow> string list" where
  "findCriticalEventRecipients workspaceId s =
     uniqueEmails (platformAdmins u_criticalEventEmailsEnabled s @
       findWorkspaceAdmins [workspaceId] u_criticalEventEmailsEnabled s)"

definition findEnrollmentRecipients :: "string \<Rightarrow> db \<Rightarrow> string list" where
  "findEnrollmentRecipients email s =
     (let admins = platformAdmins u_enrollmentEmailsEnabled s
      in case find_row (\<lambda>u. u_email u = toLowerCase (trim email)) (users s) of
           None \<Rightarrow> uniqueEmails admins
         | Some u \<Rightarrow>
             (let workspaceIds = uniq (map m_workspaceId (filter (\<lambda>m. m_userId m = u_id u) (memberships s)))
              in if workspaceIds = [] then uniqueEmails admins
                 else uniqueEmails (admins @ findWorkspaceAdmins workspaceIds u_enrollmentEmailsEnabled s)))"

definition enrollment_email :: "mail_env \<Rightarrow> string \<Rightarrow> string \<Rightarrow> int \<Rightarrow> bool \<Rightarrow> email_input" where
  "enrollment_email me email hostname expiresAt hasKnownUser =
     \<lparr>em_eyebrow = ''Enrollment request'', em_title = ''Enrollment pending for '' @ hostname,
      em_paragraphs = [''A node enrollment request is waiting for review in Noderax.'',
        ''Use the dashboard to confirm the request and complete the approval flow.''],
      em_greeting = None, em_cta = Some (''Open Noderax'', buildFrontendUrl me []),
      em_details = [(''Hostname'', hostname), (''Requested by'', email),
        (''Known operator'', if hasKnownUser then ''Yes'' else ''No''), (''Request expires'', formatTimestamp expiresAt)],
      em_footnote = None, em_tone = TONE_WARNING\<rparr>"

definition notifyEnrollmentInitiated :: "mail_env \<Rightarrow> string \<Rightarrow> string \<Rightarrow> int \<Rightarrow> bool \<Rightarrow> unit op" where
  "notifyEnrollmentInitiated me email hostname expiresAt hasKnownUser =
     catchE
       (bindE (readE (findEnrollmentRecipients email)) (\<lambda>recipients.
          if recipients = [] then ret ()
          else sendMail me (styledMail me recipients (''[Noderax] Enrollment pending for '' @ hostname)
                 (enrollment_email me email hostname expiresAt hasKnownUser))))
       (\<lambda>_. ret ())"

section \<open>Events\<close>

definition nodeAllowsSeverity :: "severity list \<Rightarrow> severity \<Rightarrow> bool" where
  "nodeAllowsSeverity levels sev \<longleftrightarrow> sev \<in> set levels"

definition nodeDisplay :: "event \<Rightarrow> node option \<Rightarrow> string" where
  "nodeDisplay ev node =
     (case node of Some n \<Rightarrow> n_name n @ '' ('' @ n_id n @ '')''
      | None \<Rightarrow> (case ev_nodeId ev of None \<Rightarrow> ''n/a'' | Some i \<Rightarrow> i))"

definition severityEmoji :: "severity \<Rightarrow> string" where
  "severityEmoji sev =
     (if sev = CRITICAL then [CHR 0xF0, CHR 0x9F, CHR 0x94, CHR 0xB4]
      else if sev = WARNING then [CHR 0xF0, CHR 0x9F, CHR 0x9F, CHR 0xA0]
      else [CHR 0xF0, CHR 0x9F, CHR 0x94, CHR 0xB5])"

definition telegram_text :: "mail_env \<Rightarrow> workspace \<Rightarrow> event \<Rightarrow> node option \<Rightarrow> string" where
  "telegram_text me w ev node =
     ''<b>'' @ severityEmoji (ev_severity ev) @ '' Noderax Event</b>'' @ nl @ nl @
     ''<b>Type:</b> '' @ escapeTelegramHtml (ev_type ev) @ nl @
     ''<b>Workspace:</b> '' @ escapeTelegramHtml (w_name w) @ nl @
     ''<b>Severity:</b> '' @ escapeTelegramHtml (toUpperCase (severity_str (ev_severity ev))) @ nl @
     ''<b>Node:</b> '' @ escapeTelegramHtml (nodeDisplay ev node) @ nl @ nl @
     ''<code>'' @ escapeTelegramHtml (ev_message ev) @ ''</code>'' @ nl @ nl @
     ''<a href=\"'' @ escapeTelegramHtml (buildFrontendUrl me []) @ ''\">Open Dashboard</a>''"

definition telegram_request :: "mail_env \<Rightarrow> workspace \<Rightarrow> event \<Rightarrow> node option \<Rightarrow> string \<times> json" where
  "telegram_request me w ev node =
     (''https://api.telegram.org/bot'' @ (case w_automationTelegramBotToken w of None \<Rightarrow> ''null'' | Some t \<Rightarrow> t) @ ''/sendMessage'',
      JObj [(''chat_id'', jstr_opt (w_automationTelegramChatId w)), (''text'', JStr (telegram_text me w ev node)),
            (''parse_mode'', JStr ''HTML'')])"

definition sendTelegramMessage :: "mail_env \<Rightarrow> workspace \<Rightarrow> event \<Rightarrow> node option \<Rightarrow> unit op" where
  "sendTelegramMessage me w ev node =
     (let (url, body) = telegram_request me w ev node
      in bindE (writeE (\<lambda>s. s\<lparr>telegrams := telegrams s @ [(url, body)]\<rparr>)) (\<lambda>_.
         case me_telegram me url body of
           Inl m \<Rightarrow> throw (InternalError m)
         | Inr a \<Rightarrow> guardE (ta_ok a) (InternalError (''Telegram API error for workspace '' @ w_id w @ '': '' @
             show_int (ta_status a) @ '' '' @ ta_body a))))"

definition nodeEmailEnabled :: "event \<Rightarrow> node option \<Rightarrow> bool" where
  "nodeEmailEnabled ev node \<longleftrightarrow>
     \<not> truthy (ev_nodeId ev) \<or>
     (case node of None \<Rightarrow> True | Some n \<Rightarrow>
        n_notificationEmailEnabled n \<and> nodeAllowsSeverity (n_notificationEmailLevels n) (ev_severity ev))"

definition nodeTelegramEnabled :: "event \<Rightarrow> node option \<Rightarrow> bool" where
  "nodeTelegramEnabled ev node \<longleftrightarrow>
     \<not> truthy (ev_nodeId ev) \<or>
     (case node of None \<Rightarrow> True | Some n \<Rightarrow>
        n_notificationTelegramEnabled n \<and> nodeAllowsSeverity (n_notificationTelegramLevels n) (ev_severity ev))"

definition shouldSendTelegram :: "workspace \<Rightarrow> event \<Rightarrow> node option \<Rightarrow> bool" where
  "shouldSendTelegram w ev node \<longleftrightarrow>
     w_automationTelegramEnabled w \<and> truthy (w_automationTelegramBotToken w) \<and> truthy (w_automationTelegramChatId w) \<and>
     ev_severity ev \<in> set (w_automationTelegramLevels w) \<and> nodeTelegramEnabled ev node"

definition shouldSendEmail :: "workspace \<Rightarrow> event \<Rightarrow> node option \<Rightarrow> bool" where
  "shouldSendEmail w ev node \<longleftrightarrow>
     (if truthy (ev_nodeId ev)
      then w_automationEmailEnabled w \<and> ev_severity ev \<in> set (w_automationEmailLevels w) \<and> nodeEmailEnabled ev node
      else ev_severity ev = CRITICAL \<or>
           (w_automationEmailEnabled w \<and> ev_severity ev \<in> set (w_automationEmailLevels w)))"

definition event_recipients :: "workspace \<Rightarrow> event \<Rightarrow> db \<Rightarrow> string list" where
  "event_recipients w ev s =
     uniq ((if ev_severity ev = CRITICAL
            then uniqueEmails (platformAdmins u_criticalEventEmailsEnabled s @
                   findWorkspaceAdmins [ev_workspaceId ev] u_criticalEventEmailsEnabled s) else []) @
           (if w_automationEmailEnabled w
            then uniqueEmails (findWorkspaceAdmins [ev_workspaceId ev] (\<lambda>_. True) s) else []))"

definition event_email :: "mail_env \<Rightarrow> workspace \<Rightarrow> event \<Rightarrow> node option \<Rightarrow> email_input" where
  "event_email me w ev node =
     \<lparr>em_eyebrow = ''Event notification'', em_title = ''Event detected: '' @ ev_type ev,
      em_paragraphs = [''Noderax recorded an event in workspace '' @ [CHR 0x22] @ w_name w @ [CHR 0x22] @
          '' that may need attention.'', ev_message ev],
      em_greeting = None, em_cta = Some (''Open Noderax'', buildFrontendUrl me []),
      em_details = [(''Severity'', toUpperCase (severity_str (ev_severity ev))), (''Workspace'', w_name w),
        (''Node'', nodeDisplay ev node), (''Detected at'', formatTimestamp (ev_createdAt ev))],
      em_footnote = None, em_tone = resolveTone (ev_severity ev)\<rparr>"

definition event_mail :: "mail_env \<Rightarrow> workspace \<Rightarrow> event \<Rightarrow> node option \<Rightarrow> string list \<Rightarrow> mail" where
  "event_mail me w ev node recipients =
     styledMail me recipients
       (''[Noderax] '' @ toUpperCase (severity_str (ev_severity ev)) @ '' event: '' @ ev_type ev)
       (event_email me w ev node)"

text \<open>Whether a mail went out; without recipients none does.\<close>

definition sendEventMail :: "mail_env \<Rightarrow> workspace \<Rightarrow> event \<Rightarrow> node option \<Rightarrow> bool op" where
  "sendEventMail me w ev node =
     bindE (readE (event_recipients w ev)) (\<lambda>recipients.
       if recipients = [] then ret False
       else bindE (sendMail me (event_mail me w ev node recipients)) (\<lambda>_. ret True))"

text \<open>A channel that is tried reports whether it delivered, or its error.\<close>

definition attempt :: "bool op \<Rightarrow> (string + bool) op" where
  "attempt m = catchE (bindE m (\<lambda>b. ret (Inr b))) (\<lambda>err. ret (Inl (error_message err)))"

definition notifyEvent :: "mail_env \<Rightarrow> event \<Rightarrow> bool \<Rightarrow> unit op" where
  "notifyEvent me ev propagateErrors =
     bindE (readE (\<lambda>s. find_row (\<lambda>w. w_id w = ev_workspaceId ev) (workspaces s))) (\<lambda>found.
     case found of
       None \<Rightarrow> ret ()
     | Some w \<Rightarrow>
         bindE (readE (\<lambda>s. if truthy (ev_nodeId ev) then find_row (\<lambda>n. Some (n_id n) = ev_nodeId ev) (nodes s) else None)) (\<lambda>node.
         bindE (if shouldSendTelegram w ev node
                then attempt (bindE (sendTelegramMessage me w ev node) (\<lambda>_. ret True)) else ret (Inr False)) (\<lambda>telegram.
         bindE (if shouldSendEmail w ev node then attempt (sendEventMail me w ev node) else ret (Inr False)) (\<lambda>email.
           let errors = List.map_filter (\<lambda>r. case r of Inl m \<Rightarrow> Some m | Inr _ \<Rightarrow> None) [telegram, email]
           in if errors = [] \<or> telegram = Inr True \<or> email = Inr True then ret ()
              else if propagateErrors
              then throw (InternalError (''Event notification delivery failed for event '' @ ev_id ev @ '': '' @
                     join_with '' | '' errors))
              else ret ()))))"

section \<open>Lemmas\<close>

lemma sendMail_run:
  "sendMail me m s = (Inr (), s\<lparr>mailed := mailed s @ [m]\<rparr>) \<or> (\<exists>err. sendMail me m s = (Inl err, s))"
  by (cases "me_transport me (me_fromName me @ '' <'' @ me_fromEmail me @ ''>'') m") (auto simp: sendMail_def)

lemma output_sendMail [output_rules, simp]: "outputs (sendMail me m)"
  by (auto simp: outputs_def sendMail_def core_def split: option.split)

text \<open>A request Telegram has accepted.\<close>

definition accepted :: "mail_env \<Rightarrow> string \<times> json \<Rightarrow> bool" where
  "accepted me req \<longleftrightarrow> (case me_telegram me (fst req) (snd req) of Inl _ \<Rightarrow> False | Inr a \<Rightarrow> ta_ok a)"

lemma attempt_telegram:
  "\<exists>r. attempt (bindE (sendTelegramMessage me w ev node) (\<lambda>_. ret True)) s =
       (r, s\<lparr>telegrams := telegrams s @ [telegram_request me w ev node]\<rparr>) \<and>
     (if accepted me (telegram_request me w ev node) then r = Inr (Inr True) else (\<exists>m. r = Inr (Inl m)))"
  by (cases "telegram_request me w ev node")
    (auto simp: attempt_def sendTelegramMessage_def catchE_def accepted_def split: sum.split)

text \<open>What the mail channel does.\<close>

lemma attempt_mail:
  "event_recipients w ev s = [] \<and> attempt (sendEventMail me w ev node) s = (Inr (Inr False), s) \<or>
    event_recipients w ev s \<noteq> [] \<and>
      (attempt (sendEventMail me w ev node) s =
         (Inr (Inr True), s\<lparr>mailed := mailed s @ [event_mail me w ev node (event_recipients w ev s)]\<rparr>) \<or>
       (\<exists>x. attempt (sendEventMail me w ev node) s = (Inr (Inl x), s)))"
  using sendMail_run[of me "event_mail me w ev node (event_recipients w ev s)" s]
  by (auto simp: attempt_def sendEventMail_def catchE_def bindE_def)

lemma event_recipients_frame [simp]:
  "event_recipients w ev (s\<lparr>telegrams := x\<rparr>) = event_recipients w ev s"
  by (simp add: event_recipients_def platformAdmins_def findWorkspaceAdmins_def Let_def)

text \<open>The two channels, one after the other.\<close>

lemma settle:
  "\<exists>msg. (if es = [] \<or> A then ret () else if p then throw (InternalError (f es)) else ret ()) s =
     (if es = [] \<or> A \<or> \<not> p then Inr () else Inl (InternalError msg), s)"
  by (rule exI[of _ "f es"]) simp

lemma no_errors:
  "List.map_filter (\<lambda>r. case r of Inl m \<Rightarrow> Some m | Inr _ \<Rightarrow> None) [x, y] = [] \<longleftrightarrow> (\<forall>m. x \<noteq> Inl m) \<and> (\<forall>m. y \<noteq> Inl m)"
  by (cases x; cases y) (simp_all add: List.map_filter_simps)

definition notified_node :: "event \<Rightarrow> db \<Rightarrow> node option" where
  "notified_node ev s = (if truthy (ev_nodeId ev) then find_row (\<lambda>n. Some (n_id n) = ev_nodeId ev) (nodes s) else None)"

lemma notifyEvent_run:
  fixes me :: mail_env
  assumes "find_row (\<lambda>w. w_id w = ev_workspaceId ev) (workspaces s) = Some w"
  defines "node \<equiv> notified_node ev s"
  defines "s1 \<equiv> (if shouldSendTelegram w ev node then s\<lparr>telegrams := telegrams s @ [telegram_request me w ev node]\<rparr> else s)"
  shows "\<exists>(telegram :: string + bool) email s2 msg.
    (if shouldSendTelegram w ev node
     then (if accepted me (telegram_request me w ev node) then telegram = Inr True else (\<exists>m. telegram = Inl m))
     else telegram = Inr False) \<and>
    (if shouldSendEmail w ev node then attempt (sendEventMail me w ev node) s1 = (Inr email, s2)
     else email = Inr False \<and> s2 = s1) \<and>
    notifyEvent me ev p s =
      ((if (\<forall>m. telegram \<noteq> Inl m) \<and> (\<forall>m. email \<noteq> Inl m) \<or> telegram = Inr True \<or> email = Inr True \<or> \<not> p then Inr ()
        else Inl (InternalError msg)), s2)"
proof -
  define f where "f errors = ''Event notification delivery failed for event '' @ ev_id ev @ '': '' @ join_with '' | '' errors" for errors
  define k :: "string + bool \<Rightarrow> string + bool \<Rightarrow> unit op" where
    "k telegram email = (let errors = List.map_filter (\<lambda>r. case r of Inl m \<Rightarrow> Some m | Inr _ \<Rightarrow> None) [telegram, email]
           in if errors = [] \<or> telegram = Inr True \<or> email = Inr True then ret ()
              else if p then throw (InternalError (f errors)) else ret ())" for telegram email
  define go where "go telegram = bindE (if shouldSendEmail w ev node then attempt (sendEventMail me w ev node) else ret (Inr False)) (k telegram)" for telegram
  have run: "notifyEvent me ev p s = bindE (if shouldSendTelegram w ev node
      then attempt (bindE (sendTelegramMessage me w ev node) (\<lambda>_. ret True)) else ret (Inr False)) go s"
    unfolding notifyEvent_def go_def[abs_def] k_def[abs_def] f_def node_def notified_node_def by (simp add: assms(1))
  obtain telegram where tg: "notifyEvent me ev p s = go telegram s1"
    "if shouldSendTelegram w ev node
     then (if accepted me (telegram_request me w ev node) then telegram = Inr True else (\<exists>m. telegram = Inl m))
     else telegram = Inr False"
  proof (cases "shouldSendTelegram w ev node")
    case True
    obtain r where r: "attempt (bindE (sendTelegramMessage me w ev node) (\<lambda>_. ret True)) s = (r, s1)"
      "if accepted me (telegram_request me w ev node) then r = Inr (Inr True) else (\<exists>m. r = Inr (Inl m))"
      using attempt_telegram[of me w ev node s] True by (auto simp: s1_def)
    then obtain x where x: "r = Inr x" by (auto split: if_splits)
    have "notifyEvent me ev p s = go x s1"
      using True r(1) by (simp add: run x bindE_Inr)
    moreover have "if accepted me (telegram_request me w ev node) then x = Inr True else (\<exists>m. x = Inl m)"
      using r(2) by (cases "accepted me (telegram_request me w ev node)") (simp_all add: x)
    ultimately show ?thesis using that True by simp
  next
    case False
    have "notifyEvent me ev p s = go (Inr False) s1"
      using False by (simp add: run s1_def)
    then show ?thesis using that False by auto
  qed
  obtain email' s2' where at: "attempt (sendEventMail me w ev node) s1 = (Inr email', s2')"
    using attempt_mail[of w ev s1 me node] by metis
  obtain email s2 where em: "if shouldSendEmail w ev node then attempt (sendEventMail me w ev node) s1 = (Inr email, s2)
     else email = Inr False \<and> s2 = s1"
    using at by (cases "shouldSendEmail w ev node") auto
  have go: "go telegram s1 = k telegram email s2"
    using em by (cases "shouldSendEmail w ev node")
      (simp_all add: go_def bindE_Inr[where m = "attempt (sendEventMail me w ev node)" and s = s1])
  have "\<exists>msg. k telegram email s2 =
      (if (\<forall>m. telegram \<noteq> Inl m) \<and> (\<forall>m. email \<noteq> Inl m) \<or> telegram = Inr True \<or> email = Inr True \<or> \<not> p then Inr ()
        else Inl (InternalError msg), s2)"
    using settle[of "List.map_filter (\<lambda>r. case r of Inl m \<Rightarrow> Some m | Inr _ \<Rightarrow> None) [telegram, email]"
        "telegram = Inr True \<or> email = Inr True" p f s2]
    unfolding k_def Let_def no_errors disj_assoc .
  then obtain msg where k: "k telegram email s2 =
      (if (\<forall>m. telegram \<noteq> Inl m) \<and> (\<forall>m. email \<noteq> Inl m) \<or> telegram = Inr True \<or> email = Inr True \<or> \<not> p then Inr ()
        else Inl (InternalError msg), s2)" ..
  show ?thesis
    by (rule exI[of _ telegram], rule exI[of _ email], rule exI[of _ s2], rule exI[of _ msg], intro conjI)
      (rule tg(2), rule em, simp only: tg(1) go k)
qed

lemma no_failure: "telegram = Inr True \<or> telegram = Inr False \<or> (\<exists>m. telegram = Inl m)" for telegram :: "string + bool"
  by (metis sum.exhaust)

subsection \<open>Who gets a mail\<close>

lemma set_uniqueEmails: "set (uniqueEmails us) = {x. x \<noteq> [] \<and> (\<exists>u \<in> set us. x = toLowerCase (trim (u_email u)))}"
  by (auto simp: uniqueEmails_def)

lemma set_findWorkspaceAdmins:
  "set (findWorkspaceAdmins ws q s) = {u \<in> set (users s). u_isActive u \<and> q u \<and>
     (\<exists>m \<in> set (memberships s). m_workspaceId m \<in> set ws \<and> m_role m \<in> {OWNER, ADMIN} \<and> u_id u = m_userId m)}"
proof -
  let ?ms = "filter (\<lambda>m. m_workspaceId m \<in> set ws \<and> m_role m \<in> set WORKSPACE_ADMIN_ROLES) (memberships s)"
  have "findWorkspaceAdmins ws q s =
      filter (\<lambda>u. u_id u \<in> set (uniq (map m_userId ?ms)) \<and> u_isActive u \<and> q u) (users s)"
    by (simp only: findWorkspaceAdmins_def Let_def set_uniq split: if_split) (metis (no_types, lifting) empty_iff filter_False set_empty set_uniq)
  also have "set \<dots> = {u \<in> set (users s). u_isActive u \<and> q u \<and> u_id u \<in> m_userId ` set ?ms}" by auto
  also have "\<dots> = {u \<in> set (users s). u_isActive u \<and> q u \<and>
     (\<exists>m \<in> set (memberships s). m_workspaceId m \<in> set ws \<and> m_role m \<in> {OWNER, ADMIN} \<and> u_id u = m_userId m)}"
    by (rule Collect_cong) (auto simp: WORKSPACE_ADMIN_ROLES_def)
  finally show ?thesis .
qed

definition administers :: "db \<Rightarrow> string \<Rightarrow> user \<Rightarrow> bool" where
  "administers s i u \<longleftrightarrow>
     (\<exists>m \<in> set (memberships s). m_workspaceId m = i \<and> m_role m \<in> {OWNER, ADMIN} \<and> u_id u = m_userId m)"

lemma set_event_recipients:
  "set (event_recipients w ev s) =
     {x. x \<noteq> [] \<and> (\<exists>u \<in> set (users s). x = toLowerCase (trim (u_email u)) \<and> u_isActive u \<and>
        (ev_severity ev = CRITICAL \<and> u_criticalEventEmailsEnabled u \<and>
           (u_role u = PLATFORM_ADMIN \<or> administers s (ev_workspaceId ev) u) \<or>
         w_automationEmailEnabled w \<and> administers s (ev_workspaceId ev) u))}"
  by (auto simp: event_recipients_def set_uniqueEmails set_findWorkspaceAdmins platformAdmins_def administers_def)

section \<open>Properties\<close>

text \<open>C34: When both channels work, an event of an existing workspace goes to exactly the channels its settings
  select: to Telegram once when it is set up for the severity, by one mail when mails are wanted and
  somebody is to get one. The addresses are distinct: of active users, for a critical event the platform
  administrators and the owners and administrators of the workspace who want such mails, and, when the workspace
  mails its events, all its owners and administrators, those who do not want critical mails included.\<close>

theorem notification_routing:
  fixes me :: mail_env
  assumes w: "find_row (\<lambda>w. w_id w = ev_workspaceId ev) (workspaces s) = Some w"
    and mail: "isConfigured me" "\<And>from m. me_transport me from m = None"
    and tg: "accepted me (telegram_request me w ev (notified_node ev s))"
  shows "notifyEvent me ev p s = (Inr (), s
      \<lparr>mailed := mailed s @ (if shouldSendEmail w ev (notified_node ev s) \<and> event_recipients w ev s \<noteq> []
                 then [event_mail me w ev (notified_node ev s) (event_recipients w ev s)] else []),
       telegrams := telegrams s @ (if shouldSendTelegram w ev (notified_node ev s)
                 then [telegram_request me w ev (notified_node ev s)] else [])\<rparr>) \<and>
    distinct (event_recipients w ev s) \<and>
    (\<forall>x. x \<in> set (event_recipients w ev s) \<longleftrightarrow> x \<noteq> [] \<and>
       (\<exists>u \<in> set (users s). x = toLowerCase (trim (u_email u)) \<and> u_isActive u \<and>
          (ev_severity ev = CRITICAL \<and> u_criticalEventEmailsEnabled u \<and>
             (u_role u = PLATFORM_ADMIN \<or> administers s (ev_workspaceId ev) u) \<or>
           w_automationEmailEnabled w \<and> administers s (ev_workspaceId ev) u)))"
proof (intro conjI)
  let ?n = "notified_node ev s"
  have send: "sendMail me m t = (Inr (), t\<lparr>mailed := mailed t @ [m]\<rparr>)" for m t
    using mail by (simp add: sendMail_def)
  then have deliver: "attempt (sendEventMail me w ev ?n) t =
      (if event_recipients w ev t = [] then (Inr (Inr False), t)
       else (Inr (Inr True), t\<lparr>mailed := mailed t @ [event_mail me w ev ?n (event_recipients w ev t)]\<rparr>))" for t
    by (simp add: attempt_def sendEventMail_def catchE_def bindE_def)
  show "notifyEvent me ev p s = (Inr (), s
      \<lparr>mailed := mailed s @ (if shouldSendEmail w ev ?n \<and> event_recipients w ev s \<noteq> []
                 then [event_mail me w ev ?n (event_recipients w ev s)] else []),
       telegrams := telegrams s @ (if shouldSendTelegram w ev ?n then [telegram_request me w ev ?n] else [])\<rparr>)"
    using notifyEvent_run[OF w, of me p] tg deliver by (auto split: if_splits)
qed (auto simp: set_event_recipients, simp add: event_recipients_def)

text \<open>C35: A notification is retried only when it reached nobody. The error that makes the outbox try again is
  thrown only when every channel that was tried failed: no mail was sent, and Telegram accepted no request.\<close>

theorem notification_retry_is_safe:
  assumes "notifyEvent me ev p s = (Inl err, t)"
  shows "mailed t = mailed s \<and> (\<forall>req \<in> set (drop (length (telegrams s)) (telegrams t)). \<not> accepted me req)"
proof (cases "find_row (\<lambda>w. w_id w = ev_workspaceId ev) (workspaces s)")
  case None
  then show ?thesis using assms by (simp add: notifyEvent_def)
next
  case (Some w)
  let ?n = "notified_node ev s"
  define s1 where "s1 = (if shouldSendTelegram w ev ?n then s\<lparr>telegrams := telegrams s @ [telegram_request me w ev ?n]\<rparr> else s)"
  obtain telegram :: "string + bool" and email s2 msg where tg: "if shouldSendTelegram w ev ?n
     then (if accepted me (telegram_request me w ev ?n) then telegram = Inr True else (\<exists>m. telegram = Inl m))
     else telegram = Inr False"
    and em: "if shouldSendEmail w ev ?n then attempt (sendEventMail me w ev ?n) s1 = (Inr email, s2)
     else email = Inr False \<and> s2 = s1"
    and out: "notifyEvent me ev p s =
      (if (\<forall>m. telegram \<noteq> Inl m) \<and> (\<forall>m. email \<noteq> Inl m) \<or> telegram = Inr True \<or> email = Inr True \<or> \<not> p then Inr ()
        else Inl (InternalError msg), s2)"
    using notifyEvent_run[OF Some, of me p] unfolding s1_def by blast
  have run: "t = s2" "telegram \<noteq> Inr True" "email \<noteq> Inr True"
    using assms unfolding out by (auto split: if_splits)
  have "s2 = s1" using em run(3) attempt_mail[of w ev s1 me ?n] by (auto split: if_splits)
  then show ?thesis using tg run by (auto simp: s1_def split: if_splits)
qed

subsection \<open>Markup\<close>

text \<open>The characters that make up the tags and attributes of an HTML text.\<close>

definition markup :: "string \<Rightarrow> string" where
  "markup xs = filter (\<lambda>c. c \<in> {CHR ''<'', CHR ''>'', CHR 0x22, CHR 0x27}) xs"

lemma markup_append: "markup (xs @ ys) = markup xs @ markup ys"
  and markup_Nil: "markup [] = []"
  by (simp_all add: markup_def)

lemma replace_char_append: "replace_char c r (xs @ ys) = replace_char c r xs @ replace_char c r ys"
  by (simp add: replace_char_def)

lemma escapeHtml_Cons: "escapeHtml (c # cs) = escapeHtml [c] @ escapeHtml cs"
  using replace_char_append[of _ _ "[c]" cs]
  by (simp add: escapeHtml_def) (simp add: replace_char_def)

lemma escapeHtml_char:
  "markup (escapeHtml [c]) = []"
  "replace_char (CHR 0x0A) r (escapeHtml [c]) = (if c = CHR 0x0A then r else escapeHtml [c])"
  by (auto simp: escapeHtml_def replace_char_def markup_def)

lemma escapeHtml_markup: "markup (escapeHtml xs) = []"
  by (induction xs)
    (simp add: escapeHtml_def replace_char_def markup_def, subst escapeHtml_Cons, simp add: markup_append escapeHtml_char)

lemma escapeHtmlWithBreaks_markup:
  "markup (escapeHtmlWithBreaks xs) = concat (map (\<lambda>_. ''<>'') (filter (\<lambda>c. c = CHR 0x0A) xs))"
proof (induction xs)
  case Nil
  show ?case by (simp add: escapeHtmlWithBreaks_def escapeHtml_def replace_char_def markup_def)
next
  case (Cons c cs)
  have "escapeHtmlWithBreaks (c # cs) =
      (if c = CHR 0x0A then ''<br />'' else escapeHtml [c]) @ escapeHtmlWithBreaks cs"
    unfolding escapeHtmlWithBreaks_def by (subst escapeHtml_Cons) (simp add: replace_char_append escapeHtml_char)
  moreover have "markup ''<br />'' = ''<>''" by (simp add: markup_def)
  ultimately show ?case using Cons.IH by (simp add: markup_append escapeHtml_char)
qed

text \<open>Two mails of the same shape: the same optional parts, numbers of paragraphs and details, and line
  breaks inside the details, whatever the texts.\<close>

definition same_shape :: "email_input \<Rightarrow> email_input \<Rightarrow> bool" where
  "same_shape a b \<longleftrightarrow>
     em_tone a = em_tone b \<and> length (em_paragraphs a) = length (em_paragraphs b) \<and>
     truthy (em_greeting a) = truthy (em_greeting b) \<and> truthy (em_footnote a) = truthy (em_footnote b) \<and>
     (case em_cta a of None \<Rightarrow> False | Some (l, u) \<Rightarrow> l \<noteq> [] \<and> u \<noteq> []) =
       (case em_cta b of None \<Rightarrow> False | Some (l, u) \<Rightarrow> l \<noteq> [] \<and> u \<noteq> []) \<and>
     map (\<lambda>(_, v). filter (\<lambda>c. c = CHR 0x0A) v) (em_details a) =
       map (\<lambda>(_, v). filter (\<lambda>c. c = CHR 0x0A) v) (em_details b)"

lemmas markup_rules = markup_append escapeHtml_markup escapeHtmlWithBreaks_markup join_with.simps append_assoc

lemma markup_paragraphs:
  "em_tone a = em_tone b \<Longrightarrow> length ps = length qs \<Longrightarrow>
     markup (concat (map (paragraphHtml a) ps)) = markup (concat (map (paragraphHtml b) qs))"
proof (induction ps qs rule: list_induct2')
  case (4 p ps q qs)
  then show ?case by (simp only: list.map concat.simps paragraphHtml_def markup_rules) simp
qed simp_all

lemma markup_detailRow:
  "em_tone a = em_tone b \<Longrightarrow> filter (\<lambda>c. c = CHR 0x0A) v = filter (\<lambda>c. c = CHR 0x0A) v' \<Longrightarrow>
     markup (detailRow a x l v) = markup (detailRow b x l' v')"
  by (simp only: detailRow_def markup_rules)

lemma markup_rows:
  "em_tone a = em_tone b \<Longrightarrow>
     map (\<lambda>(_, v). filter (\<lambda>c. c = CHR 0x0A) v) ds = map (\<lambda>(_, v). filter (\<lambda>c. c = CHR 0x0A) v) es \<Longrightarrow>
     markup (detailRows a ds) = markup (detailRows b es)"
proof (induction ds es rule: list_induct2')
  case (4 d ds e es)
  obtain l v l' v' where "d = (l, v)" "e = (l', v')" by fastforce
  moreover have "(ds = []) = (es = [])" using 4(3) by auto
  ultimately show ?case
    using 4 markup_detailRow[of a b v v' "ds = []" l l'] by (simp add: markup_append)
qed simp_all

lemma markup_greeting:
  assumes "em_tone a = em_tone b" "truthy (em_greeting a) = truthy (em_greeting b)"
  shows "markup (greetingHtml a) = markup (greetingHtml b)"
  using assms by (cases "em_greeting a"; cases "em_greeting b"; simp only: greetingHtml_def option.case truthy_simps markup_rules split: if_split; simp)

lemma markup_footnote:
  assumes "em_tone a = em_tone b" "truthy (em_footnote a) = truthy (em_footnote b)"
  shows "markup (footnoteHtml a) = markup (footnoteHtml b)"
  using assms by (cases "em_footnote a"; cases "em_footnote b"; simp only: footnoteHtml_def option.case truthy_simps markup_rules split: if_split; simp)

lemma markup_cta: "em_tone a = em_tone b \<Longrightarrow> markup (ctaBlock a l u) = markup (ctaBlock b l' u')"
  by (simp only: ctaBlock_def markup_rules)

text \<open>C36: No text can add markup to a mail: two mails of the same shape have the same tags, attributes and quotes in the
  same order, whatever the names, messages and links written into them.\<close>

theorem mail_markup_fixed:
  assumes "same_shape a b"
  shows "markup (snd (buildStyledEmail me a)) = markup (snd (buildStyledEmail me' b))"
proof -
  have tone: "em_tone a = em_tone b" using assms by (simp add: same_shape_def)
  have "markup (paragraphsHtml a) = markup (paragraphsHtml b)"
    unfolding paragraphsHtml_def using assms by (intro markup_paragraphs tone) (simp add: same_shape_def)
  moreover have "markup (ctaHtml a) = markup (ctaHtml b)"
    using assms markup_cta[OF tone] by (cases "em_cta a"; cases "em_cta b") (auto simp: ctaHtml_def same_shape_def markup_Nil split: if_splits)
  moreover have rows: "markup (detailRows a (em_details a)) = markup (detailRows b (em_details b))"
    using assms by (intro markup_rows tone) (simp add: same_shape_def)
  moreover have "markup (detailsHtml a) = markup (detailsHtml b)"
  proof (cases "em_details a = []")
    case True
    then show ?thesis using assms by (simp add: same_shape_def detailsHtml_def)
  next
    case False
    moreover have "em_details b \<noteq> []" using False assms by (auto simp: same_shape_def)
    ultimately show ?thesis by (simp only: detailsHtml_def if_False markup_rules rows tone)
  qed
  moreover have "markup (greetingHtml a) = markup (greetingHtml b)" "markup (footnoteHtml a) = markup (footnoteHtml b)"
    using assms by (intro markup_greeting markup_footnote tone; simp add: same_shape_def)+
  ultimately show ?thesis
    by (simp only: buildStyledEmail_def Let_def snd_conv email_html_def markup_rules tone)
qed

definition sample_mail_env :: mail_env where
  "sample_mail_env = \<lparr>me_jsonTransport = True, me_smtpHost = [], me_fromName = ''Noderax'', me_fromEmail = ''noreply@noderax.local'',
     me_webAppUrl = ''http://localhost:3001'', me_transport = (\<lambda>_ _. None),
     me_telegram = (\<lambda>_ _. Inr \<lparr>ta_ok = True, ta_status = 200, ta_body = []\<rparr>)\<rparr>"

definition sample_email :: email_input where
  "sample_email = \<lparr>em_eyebrow = ''E'', em_title = ''T'', em_paragraphs = [''<b>''], em_greeting = None, em_cta = None,
     em_details = [(''Node'', ''a'')], em_footnote = None, em_tone = TONE_DEFAULT\<rparr>"

theorem mail_markup_fixed_witness:
  "markup (snd (buildStyledEmail sample_mail_env sample_email)) =
     markup (snd (buildStyledEmail sample_mail_env (sample_email\<lparr>em_title := ''<script>'', em_paragraphs := [''p'']\<rparr>)))"
  by (rule mail_markup_fixed) (simp add: same_shape_def sample_email_def)

definition notified_workspace :: workspace where
  "notified_workspace = \<lparr>w_id = ''w'', w_name = ''Ops'', w_slug = ''ops'', w_defaultTimezone = ''UTC'', w_createdByUserId = None,
     w_isArchived = False, w_isDefault = True, w_automationEmailEnabled = False, w_automationTelegramEnabled = True,
     w_automationTelegramBotToken = Some ''bot'', w_automationTelegramChatId = Some ''1'', w_automationEmailLevels = [],
     w_automationTelegramLevels = [CRITICAL], w_createdAt = 0, w_updatedAt = 0\<rparr>"

definition notified_admin :: user where
  "notified_admin = \<lparr>u_id = ''u'', u_email = ''ann@x.org'', u_name = ''Ann'', u_role = PLATFORM_ADMIN, u_isActive = True,
     u_inviteStatus = INVITE_ACCEPTED, u_passwordHash = None, u_timezone = ''UTC'', u_lastInvitedAt = None,
     u_activatedAt = None, u_criticalEventEmailsEnabled = True, u_enrollmentEmailsEnabled = True, u_sessionVersion = 0,
     u_mfaEnabled = False, u_mfaSecretEncrypted = None, u_mfaPendingSecretEncrypted = None, u_mfaRecoveryCodes = None,
     u_mfaEnabledAt = None, u_createdAt = 0, u_updatedAt = 0\<rparr>"

definition critical_event :: event where
  "critical_event = \<lparr>ev_id = ''e'', ev_workspaceId = ''w'', ev_nodeId = None, ev_type = ''disk.full'', ev_severity = CRITICAL,
     ev_message = ''Disk full'', ev_metadata = None, ev_createdAt = 0\<rparr>"

definition notified_db :: db where
  "notified_db = empty_db\<lparr>workspaces := [notified_workspace], users := [notified_admin]\<rparr>"

lemma notified_found:
  "find_row (\<lambda>w. w_id w = ev_workspaceId critical_event) (workspaces notified_db) = Some notified_workspace"
  by (simp add: find_row_def notified_db_def notified_workspace_def critical_event_def)

lemma notified_recipients: "event_recipients notified_workspace critical_event notified_db = [''ann@x.org'']"
  by (simp add: event_recipients_def platformAdmins_def findWorkspaceAdmins_def uniqueEmails_def uniq_def trim_def is_ws_def
      toLowerCase_def char_lower_def notified_db_def notified_admin_def empty_db_def critical_event_def notified_workspace_def)

lemma notified_channels:
  "shouldSendEmail notified_workspace critical_event None" "shouldSendTelegram notified_workspace critical_event None"
  "notified_node critical_event notified_db = None"
  by (simp_all add: shouldSendEmail_def shouldSendTelegram_def nodeTelegramEnabled_def notified_node_def critical_event_def
      notified_workspace_def)

theorem notification_routing_witness:
  "notifyEvent sample_mail_env critical_event True notified_db = (Inr (), notified_db
      \<lparr>mailed := mailed notified_db @ [event_mail sample_mail_env notified_workspace critical_event None [''ann@x.org'']],
       telegrams := telegrams notified_db @ [telegram_request sample_mail_env notified_workspace critical_event None]\<rparr>)"
proof -
  have "isConfigured sample_mail_env" "\<And>from m. me_transport sample_mail_env from m = None"
    "accepted sample_mail_env (telegram_request sample_mail_env notified_workspace critical_event None)"
    by (simp_all add: isConfigured_def sample_mail_env_def accepted_def)
  note works = this
  show ?thesis
    using notification_routing[OF notified_found works(1,2), of True] works(3) by (simp add: notified_channels notified_recipients)
qed

theorem notification_retry_is_safe_witness:
  "\<exists>err t. notifyEvent (sample_mail_env\<lparr>me_jsonTransport := False, me_telegram := (\<lambda>_ _. Inl ''no route'')\<rparr>) critical_event True
     notified_db = (Inl err, t) \<and> mailed t = []"
proof -
  let ?me = "sample_mail_env\<lparr>me_jsonTransport := False, me_telegram := (\<lambda>_ _. Inl ''no route'')\<rparr>"
  have "\<not> isConfigured ?me" "\<not> accepted ?me (telegram_request ?me notified_workspace critical_event None)"
    by (simp_all add: isConfigured_def sample_mail_env_def accepted_def trim_def)
  then obtain err t where run: "notifyEvent ?me critical_event True notified_db = (Inl err, t)"
    using notifyEvent_run[OF notified_found, of ?me True]
    by (auto simp: notified_channels notified_recipients attempt_def sendEventMail_def sendMail_def catchE_def)
  have "mailed t = mailed notified_db" using notification_retry_is_safe[OF run] by (rule conjunct1)
  with run show ?thesis by (auto simp: notified_db_def empty_db_def)
qed

end
