(* ===== verification/Enrollments.thy ===== *)
theory Enrollments
  imports Nodes Notifications
begin

text \<open>
  Enrollment of servers (\<open>src/modules/enrollments/enrollments.service.ts\<close>, \<open>enrollment-tokens.service.ts\<close>): an agent asks for
  an enrollment with a short-lived token that an operator finalizes, or an operator creates a node install whose bootstrap token the
  installer reports its progress with and consumes once for a node and its agent token. The tables are \<open>enrollments\<close> and
  \<open>node_installs\<close>. \<open>new URL\<close> is a parameter: the parts of an address, or nothing when it is none.
\<close>

section \<open>Data\<close>

record initiate_dto =
  in_email :: string
  in_hostname :: string
  in_additionalInfo :: "json_object option"

record finalize_dto =
  fi_email :: string
  fi_nodeName :: string
  fi_description :: "string option"

record create_install_dto =
  ci_nodeName :: string
  ci_description :: "string option"
  ci_teamId :: "string option"

record install_progress_dto =
  ip_token :: string
  ip_stage :: string
  ip_status :: "install_status option"
  ip_progressPercent :: "int option"
  ip_statusMessage :: "string option"

record consume_dto =
  co_token :: string
  co_hostname :: string
  co_additionalInfo :: "json_object option"

text \<open>The request of Express: a header is one text or several.\<close>

datatype header = One string | Many "string list"

record http_request =
  rq_headers :: "string \<Rightarrow> header option"
  rq_protocol :: string

text \<open>A parsed address: everything before the path as it is written back, the host name, the path and the query;
  an opaque path is not replaced by an assignment to \<open>pathname\<close>.\<close>

record url =
  ur_prefix :: string
  ur_hostname :: string
  ur_opaque :: bool
  ur_pathname :: string
  ur_search :: string

record install_env =
  ie_URL :: "string \<Rightarrow> url option"
  ie_AGENT_PUBLIC_API_URL :: "string option"
  ie_publicApiUrl :: string
  ie_installScriptUrl :: string
  ie_releaseManifestUrl :: string
  ie_releaseMinisignPublicKey :: string

definition ENROLLMENT_TOKEN_TTL_MINUTES :: int where
  "ENROLLMENT_TOKEN_TTL_MINUTES = 15"

definition NODE_INSTALL_TOKEN_TTL_MINUTES :: int where
  "NODE_INSTALL_TOKEN_TTL_MINUTES = 15"

definition INITIAL_NODE_INSTALL_PROGRESS :: int where
  "INITIAL_NODE_INSTALL_PROGRESS = 5"

definition INITIAL_NODE_INSTALL_STAGE :: string where
  "INITIAL_NODE_INSTALL_STAGE = ''command_generated''"

definition EXPIRED_NODE_INSTALL_STAGE :: string where
  "EXPIRED_NODE_INSTALL_STAGE = ''expired''"

definition BOOTSTRAP_CONSUMED_STAGE :: string where
  "BOOTSTRAP_CONSUMED_STAGE = ''bootstrap_token_consumed''"

definition TERMINAL_NODE_INSTALL_STATUSES :: "install_status set" where
  "TERMINAL_NODE_INSTALL_STATUSES = {NI_COMPLETED, NI_FAILED, NI_EXPIRED}"

definition INTERNAL_PUBLIC_API_HOSTS :: "string list" where
  "INTERNAL_PUBLIC_API_HOSTS =
     [''nginx'', ''localhost'', ''127.0.0.1'', ''0.0.0.0'', ''api'', ''api-setup'', ''api-a'', ''api-b'']"

fun install_status_str :: "install_status \<Rightarrow> string" where
  "install_status_str NI_PENDING = ''pending''"
| "install_status_str NI_INSTALLING = ''installing''"
| "install_status_str NI_COMPLETED = ''completed''"
| "install_status_str NI_FAILED = ''failed''"
| "install_status_str NI_EXPIRED = ''expired''"

section \<open>Tokens\<close>

definition createLookupHash :: "env \<Rightarrow> string \<Rightarrow> string" where
  "createLookupHash e token = e_lookupHash e token"

definition hashToken :: "env \<Rightarrow> string \<Rightarrow> string op" where
  "hashToken e token = bindE (readE drawn) (\<lambda>n. bindE (writeE (\<lambda>s. s\<lparr>drawn := Suc n\<rparr>)) (\<lambda>_. ret (e_hashSecret e n token)))"

text \<open>The token, its hash and its lookup hash.\<close>

definition issueEnrollmentToken :: "env \<Rightarrow> (string \<times> string \<times> string) op" where
  "issueEnrollmentToken e =
     bindE (fresh_token e) (\<lambda>token.
     bindE (hashToken e token) (\<lambda>tokenHash.
     ret (token, tokenHash, createLookupHash e token)))"

definition issueAgentToken :: "env \<Rightarrow> string op" where
  "issueAgentToken e = fresh_token e"

definition matchesLookupHash :: "env \<Rightarrow> string \<Rightarrow> string \<Rightarrow> bool" where
  "matchesLookupHash e token expectedHash \<longleftrightarrow>
     length (createLookupHash e token) = length expectedHash \<and> createLookupHash e token = expectedHash"

definition verifyToken :: "env \<Rightarrow> string \<Rightarrow> string \<Rightarrow> string \<Rightarrow> bool" where
  "verifyToken e token tokenHash tokenLookupHash \<longleftrightarrow>
     matchesLookupHash e token tokenLookupHash \<and> e_matchesSecret e token tokenHash"

section \<open>Reading what an agent reports\<close>

definition normalizeEmail :: "string \<Rightarrow> string" where
  "normalizeEmail email = toLowerCase (trim email)"

definition normalizeHostname :: "string \<Rightarrow> string" where
  "normalizeHostname hostname = toLowerCase (trim hostname)"

fun readFirst :: "json_object option \<Rightarrow> string list \<Rightarrow> string option" where
  "readFirst None keys = None"
| "readFirst (Some ob) [] = None"
| "readFirst (Some ob) (k # ks) =
     (case jget ob k of
        Some (JStr v) \<Rightarrow> if trim v \<noteq> [] then Some (trim v) else readFirst (Some ob) ks
      | _ \<Rightarrow> readFirst (Some ob) ks)"

definition resolveNodeOs :: "json_object option \<Rightarrow> string" where
  "resolveNodeOs info = orElse (readFirst info [''os'', ''operatingSystem'', ''platform'']) ''unknown''"

definition resolveNodeArch :: "json_object option \<Rightarrow> string" where
  "resolveNodeArch info = orElse (readFirst info [''arch'', ''architecture'']) ''unknown''"

definition readLocation :: "json_object option \<Rightarrow> node_location_input option" where
  "readLocation info =
     (case info of
        None \<Rightarrow> None
      | Some ob \<Rightarrow>
          (case jget ob ''location'' of
             Some (JObj l) \<Rightarrow> Some \<lparr>li_provider = readFirst (Some l) [''provider''], li_source = readFirst (Some l) [''source''],
               li_region = readFirst (Some l) [''region''], li_zone = readFirst (Some l) [''zone''],
               li_latitude = None, li_longitude = None\<rparr>
           | _ \<Rightarrow> None))"

definition reported_info :: "json_object option \<Rightarrow> agent_info" where
  "reported_info info =
     \<lparr>ag_agentVersion = readFirst info [''agentVersion''], ag_platformVersion = readFirst info [''platformVersion''],
      ag_kernelVersion = readFirst info [''kernelVersion''], ag_location = readLocation info\<rparr>"

definition resolveDefaultNodeInstallMessage :: "string \<Rightarrow> install_status \<Rightarrow> string" where
  "resolveDefaultNodeInstallMessage stage status =
     (if status = NI_FAILED then ''Installer reported a failure. Inspect the server output for details.''
      else if status = NI_EXPIRED then ''Bootstrap token expired before installation finished. Generate a fresh install command.''
      else if stage = INITIAL_NODE_INSTALL_STAGE then ''Install command generated. Run it on the target server to start bootstrap.''
      else if stage = ''installer_started'' then ''Installer started on the target server.''
      else if stage = ''dependencies_installing'' then ''Installing required operating system packages.''
      else if stage = ''dependencies_ready'' then ''Required operating system packages are ready.''
      else if stage = ''service_user_ready'' then ''Preparing the noderax service account and runtime directories.''
      else if stage = ''binary_download_started'' then ''Downloading the Noderax agent binary.''
      else if stage = ''binary_downloaded'' then ''Agent binary downloaded. Bootstrapping node credentials next.''
      else if stage = ''agent_bootstrapping'' then ''Bootstrapping node credentials and writing service config.''
      else if stage = BOOTSTRAP_CONSUMED_STAGE then ''Node record created. Finishing service startup.''
      else if stage = ''service_started'' \<or> stage = ''completed'' then ''Agent installed successfully and the noderax service is running.''
      else if status = NI_COMPLETED then ''Agent installation completed successfully.'' else ''Installer progress updated.'')"

section \<open>The install command\<close>

text \<open>\<open>'\<close> becomes \<open>'"'"'\<close>, and the whole is put between single quotes.\<close>

definition shellEscape :: "string \<Rightarrow> string" where
  "shellEscape value =
     [CHR 0x27] @ replace_char (CHR 0x27) [CHR 0x27, CHR 0x22, CHR 0x27, CHR 0x22, CHR 0x27] value @ [CHR 0x27]"

definition install_lines :: "string \<Rightarrow> string \<Rightarrow> string \<Rightarrow> string \<Rightarrow> string \<Rightarrow> string list" where
  "install_lines scriptUrl manifestUrl minisignPublicKey apiUrl token =
       [''set -euo pipefail'',
        ''tmp=\"$(mktemp -d)\"'',
        ''trap '' @ [CHR 0x27] @ ''rm -rf \"$tmp\"'' @ [CHR 0x27] @ '' EXIT'',
        ''curl -fsSLo \"$tmp/install.sh\" '' @ shellEscape scriptUrl,
        ''curl -fsSLo \"$tmp/release-manifest.json\" '' @ shellEscape manifestUrl,
        ''curl -fsSLo \"$tmp/release-manifest.json.minisig\" '' @ shellEscape (manifestUrl @ ''.minisig''),
        ''minisign -Vm \"$tmp/release-manifest.json\" -P '' @ shellEscape minisignPublicKey,
        ''expected_sha=\"$(python3 -c '' @ [CHR 0x27] @
          ''import json,sys; print(json.load(open(sys.argv[1]))[\"installer\"][\"sha256\"])'' @ [CHR 0x27] @
          '' \"$tmp/release-manifest.json\")\"'',
        ''actual_sha=\"$(sha256sum \"$tmp/install.sh\" | awk '' @ [CHR 0x27] @ ''{print $1}'' @ [CHR 0x27] @ '')\"'',
        ''test \"$expected_sha\" = \"$actual_sha\"'',
        ''sudo env NODERAX_AGENT_RELEASE_MANIFEST_URL='' @ shellEscape manifestUrl @
          '' NODERAX_AGENT_MINISIGN_PUBLIC_KEY='' @ shellEscape minisignPublicKey @
          '' bash \"$tmp/install.sh\" --api-url '' @ shellEscape apiUrl @ '' --bootstrap-token '' @ shellEscape token]"

definition buildInstallCommand :: "string \<Rightarrow> string \<Rightarrow> string \<Rightarrow> string \<Rightarrow> string \<Rightarrow> string" where
  "buildInstallCommand scriptUrl manifestUrl minisignPublicKey apiUrl token =
     join_with nl (install_lines scriptUrl manifestUrl minisignPublicKey apiUrl token)"

definition readHeaderValue :: "http_request \<Rightarrow> string \<Rightarrow> string option" where
  "readHeaderValue request name =
     (case rq_headers request name of
        Some (Many xs) \<Rightarrow> map_option trim (find (\<lambda>x. trim x \<noteq> []) xs)
      | Some (One x) \<Rightarrow> (if trim x = [] then None else Some (trim x))
      | None \<Rightarrow> None)"

text \<open>What \<open>/\/(?:api\/)?v1\/?$/i\<close> leaves of a path: the longest of the four endings it has is cut off.\<close>

fun cut_ending :: "string \<Rightarrow> string list \<Rightarrow> string" where
  "cut_ending path [] = path"
| "cut_ending path (ending # es) =
     (if endsWith (toLowerCase path) ending then take (length path - length ending) path else cut_ending path es)"

definition without_slash :: "string \<Rightarrow> string" where
  "without_slash x = (if endsWith x ''/'' then butlast x else x)"

definition normalizePublicApiUrl :: "install_env \<Rightarrow> string option \<Rightarrow> string option" where
  "normalizePublicApiUrl ie value =
     (case trim_or_null value of
        None \<Rightarrow> None
      | Some candidate \<Rightarrow>
          (case ie_URL ie candidate of
             None \<Rightarrow> None
           | Some u \<Rightarrow>
               (let stripped = cut_ending (ur_pathname u) [''/api/v1/'', ''/api/v1'', ''/v1/'', ''/v1''];
                    path = (if ur_opaque u then ur_pathname u else if stripped = [] then ''/'' else stripped)
                in Some (without_slash (ur_prefix u @ path @ ur_search u)))))"

definition isNonPublicApiUrl :: "install_env \<Rightarrow> string \<Rightarrow> bool" where
  "isNonPublicApiUrl ie value \<longleftrightarrow>
     (case ie_URL ie value of
        None \<Rightarrow> False
      | Some u \<Rightarrow> toLowerCase (ur_hostname u) = ''::1'' \<or> toLowerCase (ur_hostname u) \<in> set INTERNAL_PUBLIC_API_HOSTS)"

definition resolveRequestPublicApiUrl :: "install_env \<Rightarrow> http_request option \<Rightarrow> string option" where
  "resolveRequestPublicApiUrl ie request =
     (case request of
        None \<Rightarrow> None
      | Some rq \<Rightarrow>
          (case orKeep (readHeaderValue rq ''x-forwarded-host'') (readHeaderValue rq ''host'') of
             None \<Rightarrow> None
           | Some host \<Rightarrow>
               (let forwarded = (case readHeaderValue rq ''x-forwarded-proto'' of None \<Rightarrow> []
                      | Some p \<Rightarrow> trim (takeWhile (\<lambda>c. c \<noteq> CHR '','') p));
                    protocol = (if forwarded \<noteq> [] then forwarded else if rq_protocol rq \<noteq> [] then rq_protocol rq else ''http'')
                in normalizePublicApiUrl ie (Some (protocol @ ''://'' @ host)))))"

definition resolveNodeInstallApiUrl :: "install_env \<Rightarrow> http_request option \<Rightarrow> string option \<Rightarrow> string \<Rightarrow> string" where
  "resolveNodeInstallApiUrl ie request configuredUrl fallback =
     (let proxied = normalizePublicApiUrl ie
            (case request of None \<Rightarrow> None | Some rq \<Rightarrow> readHeaderValue rq ''x-noderax-public-api-url'');
          discovered = orKeep proxied (resolveRequestPublicApiUrl ie request)
      in if truthy configuredUrl \<and> \<not> isNonPublicApiUrl ie (the configuredUrl) then the configuredUrl
         else if truthy discovered then the discovered
         else if truthy configuredUrl then the configuredUrl
         else orElse (normalizePublicApiUrl ie (Some fallback)) fallback)"


section \<open>Looking rows up and saving them\<close>

definition isExpired :: "env \<Rightarrow> enrollment \<Rightarrow> bool" where
  "isExpired e x \<longleftrightarrow> en_expiresAt x \<le> e_now e"

definition isNodeInstallExpired :: "env \<Rightarrow> node_install \<Rightarrow> bool" where
  "isNodeInstallExpired e x \<longleftrightarrow> ni_consumedAt x = None \<and> ni_expiresAt x \<le> e_now e"

definition findByTokenOrThrow :: "env \<Rightarrow> string \<Rightarrow> enrollment op" where
  "findByTokenOrThrow e token =
     bindE (findE enrollments (\<lambda>x. en_tokenLookupHash x = createLookupHash e token)
              (NotFound ''Enrollment token was not found'')) (\<lambda>x.
     bindE (guardE (verifyToken e token (en_tokenHash x) (en_tokenLookupHash x))
              (NotFound ''Enrollment token was not found'')) (\<lambda>_. ret x))"

definition findNodeInstallByTokenOrThrow :: "env \<Rightarrow> string \<Rightarrow> node_install op" where
  "findNodeInstallByTokenOrThrow e token =
     bindE (findE node_installs (\<lambda>x. ni_tokenLookupHash x = createLookupHash e token)
              (NotFound ''Bootstrap token was not found'')) (\<lambda>x.
     bindE (guardE (verifyToken e token (ni_tokenHash x) (ni_tokenLookupHash x))
              (NotFound ''Bootstrap token was not found'')) (\<lambda>_. ret x))"

definition saveEnrollment :: "enrollment \<Rightarrow> unit op" where
  "saveEnrollment x = writeE (\<lambda>s. s\<lparr>enrollments := save_row en_id x (enrollments s)\<rparr>)"

text \<open>The repository's \<open>save\<close> of an install that was read before; it writes nothing when nothing changed.\<close>

definition saveInstall :: "env \<Rightarrow> node_install \<Rightarrow> node_install \<Rightarrow> node_install op" where
  "saveInstall e old x =
     (if x = old then ret old
      else let r = x\<lparr>ni_updatedAt := e_now e\<rparr>
           in bindE (writeE (\<lambda>s. s\<lparr>node_installs := save_row ni_id r (node_installs s)\<rparr>)) (\<lambda>_. ret r))"

definition toNodeInstallStatusResponse :: "node_install \<Rightarrow> json_object" where
  "toNodeInstallStatusResponse x =
     [(''installId'', JStr (ni_id x)), (''workspaceId'', JStr (ni_workspaceId x)), (''teamId'', jstr_opt (ni_teamId x)),
      (''nodeName'', JStr (ni_nodeName x)), (''description'', jstr_opt (ni_description x)),
      (''hostname'', jstr_opt (ni_hostname x)), (''nodeId'', jstr_opt (ni_nodeId x)),
      (''status'', JStr (install_status_str (ni_status x))), (''stage'', JStr (ni_stage x)),
      (''progressPercent'', JNum (ni_progressPercent x)), (''statusMessage'', jstr_opt (ni_statusMessage x)),
      (''startedAt'', jtime_opt (ni_startedAt x)), (''consumedAt'', jtime_opt (ni_consumedAt x)),
      (''expiresAt'', JStr (toISOString (ni_expiresAt x))), (''createdAt'', JStr (toISOString (ni_createdAt x))),
      (''updatedAt'', JStr (toISOString (ni_updatedAt x)))]"

definition emitNodeInstallUpdated :: "env \<Rightarrow> node_install \<Rightarrow> unit op" where
  "emitNodeInstallUpdated e x =
     bindE (emit ''node-install.updated'' (JObj (toNodeInstallStatusResponse x))) (\<lambda>_.
     publish ''node-installs.updated'' (JObj (toNodeInstallStatusResponse x @ [(''sourceInstanceId'', JStr (e_instanceId e))])))"

definition expireNodeInstall :: "env \<Rightarrow> node_install \<Rightarrow> node_install op" where
  "expireNodeInstall e x =
     bindE (saveInstall e x (x\<lparr>ni_status := NI_EXPIRED, ni_stage := EXPIRED_NODE_INSTALL_STAGE,
              ni_statusMessage := Some (resolveDefaultNodeInstallMessage EXPIRED_NODE_INSTALL_STAGE NI_EXPIRED)\<rparr>)) (\<lambda>saved.
     bindE (emitNodeInstallUpdated e saved) (\<lambda>_. ret saved))"

definition expireNodeInstallIfNeeded :: "env \<Rightarrow> node_install \<Rightarrow> node_install op" where
  "expireNodeInstallIfNeeded e x =
     (if ni_status x = NI_EXPIRED \<or> \<not> isNodeInstallExpired e x then ret x else expireNodeInstall e x)"

definition revokePendingByEmailAndHostname :: "env \<Rightarrow> string \<Rightarrow> string \<Rightarrow> unit op" where
  "revokePendingByEmailAndHostname e email hostname =
     writeE (\<lambda>s. s\<lparr>enrollments := update_rows (\<lambda>x. en_email x = email \<and> en_hostname x = hostname \<and> en_status x = EN_PENDING)
       (\<lambda>x. x\<lparr>en_status := EN_REVOKED, en_expiresAt := e_now e\<rparr>) (enrollments s)\<rparr>)"

definition revoke_enrollment :: "env \<Rightarrow> enrollment \<Rightarrow> unit op" where
  "revoke_enrollment e x = saveEnrollment (x\<lparr>en_status := EN_REVOKED, en_expiresAt := e_now e\<rparr>)"

section \<open>Enrollments\<close>

text \<open>The token and its expiry date.\<close>

definition initiate :: "env \<Rightarrow> mail_env \<Rightarrow> initiate_dto \<Rightarrow> (string \<times> int) op" where
  "initiate e me dto =
     (let email = normalizeEmail (in_email dto); hostname = normalizeHostname (in_hostname dto);
          expiresAt = e_now e + ENROLLMENT_TOKEN_TTL_MINUTES * 60 * 1000
      in bindE (issueEnrollmentToken e) (\<lambda>(token, tokenHash, tokenLookupHash).
         bindE (readE (\<lambda>s. find_row (\<lambda>u. u_email u = email) (users s))) (\<lambda>existingUser.
         bindE (revokePendingByEmailAndHostname e email hostname) (\<lambda>_.
         bindE (fresh_id e) (\<lambda>i.
         bindE (writeE (\<lambda>s. s\<lparr>enrollments := enrollments s @
             [\<lparr>en_id = i, en_workspaceId = None, en_email = email, en_tokenHash = tokenHash,
               en_tokenLookupHash = tokenLookupHash, en_hostname = hostname, en_additionalInfo = in_additionalInfo dto,
               en_createdAt = e_now e, en_expiresAt = expiresAt, en_status = EN_PENDING, en_nodeId = None,
               en_agentToken = None\<rparr>]\<rparr>)) (\<lambda>_.
         bindE (notifyEnrollmentInitiated me email hostname expiresAt (existingUser \<noteq> None)) (\<lambda>_.
         ret (token, expiresAt))))))))"

text \<open>The checks of \<open>finalize\<close>: an enrollment of that address that is pending and has not expired.\<close>

definition pendingEnrollment :: "env \<Rightarrow> string \<Rightarrow> string \<Rightarrow> enrollment op" where
  "pendingEnrollment e token email =
     bindE (findByTokenOrThrow e token) (\<lambda>x.
     bindE (guardE (en_email x = normalizeEmail email) (NotFound ''Enrollment token was not found'')) (\<lambda>_.
     bindE (guardE (en_status x \<noteq> EN_APPROVED) (Conflict ''Enrollment token has already been approved'')) (\<lambda>_.
     bindE (guardE (en_status x \<noteq> EN_REVOKED) (Gone ''Enrollment token has expired or was revoked'')) (\<lambda>_.
     if isExpired e x
     then bindE (revoke_enrollment e x) (\<lambda>_. throw (Gone ''Enrollment token has expired or was revoked''))
     else ret x))))"

text \<open>The node and its agent token.\<close>

definition finalize_enrollment :: "env \<Rightarrow> string \<Rightarrow> finalize_dto \<Rightarrow> string option \<Rightarrow> (string \<times> string) op" where
  "finalize_enrollment e token dto workspaceId =
     bindE (pendingEnrollment e token (fi_email dto)) (\<lambda>x.
     bindE (case workspaceId of Some w \<Rightarrow> ret w | None \<Rightarrow> bindE getDefaultWorkspaceOrFail (\<lambda>w. ret (w_id w))) (\<lambda>resolvedWorkspaceId.
     bindE (assertWorkspaceWritable resolvedWorkspaceId) (\<lambda>_.
     bindE (issueAgentToken e) (\<lambda>agentToken.
     bindE (createFromEnrollment e resolvedWorkspaceId None (fi_nodeName dto) (fi_description dto) (en_hostname x)
              (resolveNodeOs (en_additionalInfo x)) (resolveNodeArch (en_additionalInfo x))
              (hashAgentToken e agentToken) (reported_info (en_additionalInfo x))) (\<lambda>(n, _).
     bindE (saveEnrollment (x\<lparr>en_status := EN_APPROVED, en_workspaceId := Some resolvedWorkspaceId, en_nodeId := Some (n_id n),
              en_agentToken := Some agentToken, en_expiresAt := e_now e\<rparr>)) (\<lambda>_.
     ret (n_id n, agentToken)))))))"

text \<open>The status, and the node and agent token of an approved enrollment.\<close>

definition getStatus :: "env \<Rightarrow> string \<Rightarrow> (enrollment_status \<times> string option \<times> string option) op" where
  "getStatus e token =
     bindE (findByTokenOrThrow e token) (\<lambda>x.
       if en_status x = EN_PENDING \<and> isExpired e x
       then bindE (revoke_enrollment e x) (\<lambda>_. ret (EN_REVOKED, None, None))
       else if en_status x \<noteq> EN_APPROVED then ret (en_status x, None, None)
       else ret (en_status x, en_nodeId x, en_agentToken x))"

section \<open>Node installs\<close>

definition new_install :: "env \<Rightarrow> string \<Rightarrow> string \<Rightarrow> create_install_dto \<Rightarrow> string option \<Rightarrow> string \<Rightarrow> string \<Rightarrow> node_install" where
  "new_install e i workspaceId dto team tokenHash tokenLookupHash =
     \<lparr>ni_id = i, ni_workspaceId = workspaceId, ni_teamId = team, ni_nodeName = trim (ci_nodeName dto),
      ni_description = trim_or_null (ci_description dto), ni_tokenHash = tokenHash, ni_tokenLookupHash = tokenLookupHash,
      ni_hostname = None, ni_additionalInfo = None, ni_nodeId = None, ni_status = NI_PENDING,
      ni_stage = INITIAL_NODE_INSTALL_STAGE, ni_progressPercent = INITIAL_NODE_INSTALL_PROGRESS,
      ni_statusMessage = Some (resolveDefaultNodeInstallMessage INITIAL_NODE_INSTALL_STAGE NI_PENDING),
      ni_startedAt = None, ni_consumedAt = None,
      ni_expiresAt = e_now e + NODE_INSTALL_TOKEN_TTL_MINUTES * 60 * 1000, ni_createdAt = e_now e, ni_updatedAt = e_now e\<rparr>"

definition createNodeInstall ::
  "env \<Rightarrow> install_env \<Rightarrow> string \<Rightarrow> create_install_dto \<Rightarrow> http_request option \<Rightarrow> json_object op" where
  "createNodeInstall e ie workspaceId dto request =
     bindE (assertWorkspaceWritable workspaceId) (\<lambda>_.
     bindE (requestedTeam workspaceId (ci_teamId dto)) (\<lambda>team.
     bindE (issueEnrollmentToken e) (\<lambda>(token, tokenHash, tokenLookupHash).
     bindE (fresh_id e) (\<lambda>i.
       let x = new_install e i workspaceId dto team tokenHash tokenLookupHash;
           apiUrl = resolveNodeInstallApiUrl ie request (normalizePublicApiUrl ie (ie_AGENT_PUBLIC_API_URL ie)) (ie_publicApiUrl ie)
       in bindE (writeE (\<lambda>s. s\<lparr>node_installs := node_installs s @ [x]\<rparr>)) (\<lambda>_.
          ret (toNodeInstallStatusResponse x @
            [(''installCommand'', JStr (buildInstallCommand (ie_installScriptUrl ie) (ie_releaseManifestUrl ie)
                (ie_releaseMinisignPublicKey ie) apiUrl token)),
             (''scriptUrl'', JStr (ie_installScriptUrl ie)), (''releaseManifestUrl'', JStr (ie_releaseManifestUrl ie)),
             (''apiUrl'', JStr apiUrl)]))))))"

definition getNodeInstallStatus :: "env \<Rightarrow> string \<Rightarrow> string \<Rightarrow> json_object op" where
  "getNodeInstallStatus e workspaceId installId =
     bindE (findWorkspaceOrFail workspaceId) (\<lambda>_.
     bindE (findE node_installs (\<lambda>x. ni_id x = installId \<and> ni_workspaceId x = workspaceId)
              (NotFound (''Node install '' @ installId @ '' was not found''))) (\<lambda>x.
     bindE (expireNodeInstallIfNeeded e x) (\<lambda>normalized.
     ret (toNodeInstallStatusResponse normalized))))"

definition progressed_install :: "env \<Rightarrow> install_progress_dto \<Rightarrow> node_install \<Rightarrow> node_install" where
  "progressed_install e dto x =
     (let status = orElse (ip_status dto) NI_INSTALLING; stage = trim (ip_stage dto)
      in x\<lparr>ni_status := status, ni_stage := stage,
           ni_progressPercent := orElse (ip_progressPercent dto) (ni_progressPercent x),
           ni_statusMessage := Some (orElse (trim_or_null (ip_statusMessage dto)) (resolveDefaultNodeInstallMessage stage status)),
           ni_startedAt := orKeep (ni_startedAt x) (Some (e_now e))\<rparr>)"

definition reportNodeInstallProgress :: "env \<Rightarrow> install_progress_dto \<Rightarrow> json_object op" where
  "reportNodeInstallProgress e dto =
     bindE (findNodeInstallByTokenOrThrow e (ip_token dto)) (\<lambda>x.
     bindE (expireNodeInstallIfNeeded e x) (\<lambda>normalized.
     bindE (guardE (ni_status normalized \<noteq> NI_EXPIRED) (Gone ''Bootstrap token has expired'')) (\<lambda>_.
       if ni_status normalized \<in> TERMINAL_NODE_INSTALL_STATUSES \<and> Some (ni_status normalized) \<noteq> ip_status dto
       then ret (toNodeInstallStatusResponse normalized)
       else
         bindE (saveInstall e normalized (progressed_install e dto normalized)) (\<lambda>saved.
         bindE (emitNodeInstallUpdated e saved) (\<lambda>_.
         ret (toNodeInstallStatusResponse saved))))))"

definition consumed_install :: "env \<Rightarrow> string \<Rightarrow> string \<Rightarrow> json_object option \<Rightarrow> node_install \<Rightarrow> node_install" where
  "consumed_install e nodeId hostname info x =
     x\<lparr>ni_hostname := Some hostname, ni_additionalInfo := info, ni_nodeId := Some nodeId, ni_consumedAt := Some (e_now e),
       ni_startedAt := orKeep (ni_startedAt x) (Some (e_now e)), ni_status := NI_INSTALLING,
       ni_stage := BOOTSTRAP_CONSUMED_STAGE, ni_progressPercent := max (ni_progressPercent x) 92,
       ni_statusMessage := Some (resolveDefaultNodeInstallMessage BOOTSTRAP_CONSUMED_STAGE NI_INSTALLING)\<rparr>"

text \<open>The node and its agent token.\<close>

definition consumeNodeInstall :: "env \<Rightarrow> consume_dto \<Rightarrow> (string \<times> string) op" where
  "consumeNodeInstall e dto =
     bindE (findNodeInstallByTokenOrThrow e (co_token dto)) (\<lambda>x.
     bindE (guardE (ni_consumedAt x = None \<and> \<not> truthy (ni_nodeId x)) (Conflict ''Bootstrap token has already been used'')) (\<lambda>_.
       if isNodeInstallExpired e x
       then bindE (expireNodeInstall e x) (\<lambda>_. throw (Gone ''Bootstrap token has expired''))
       else
         bindE (assertWorkspaceWritable (ni_workspaceId x)) (\<lambda>_.
         bindE (issueAgentToken e) (\<lambda>agentToken.
         bindE (createFromEnrollment e (ni_workspaceId x) (ni_teamId x) (ni_nodeName x) (ni_description x)
                  (normalizeHostname (co_hostname dto)) (resolveNodeOs (co_additionalInfo dto))
                  (resolveNodeArch (co_additionalInfo dto)) (hashAgentToken e agentToken)
                  (reported_info (co_additionalInfo dto))) (\<lambda>(n, _).
         bindE (saveInstall e x (consumed_install e (n_id n) (normalizeHostname (co_hostname dto)) (co_additionalInfo dto) x)) (\<lambda>saved.
         bindE (emitNodeInstallUpdated e saved) (\<lambda>_.
         ret (n_id n, agentToken))))))))"


section \<open>Reading a command as the shell does\<close>

text \<open>
  A specification of POSIX word splitting as far as the install command needs it. Between single quotes every
  character stands for itself; between double quotes too, up to the next double quote, except the backquote and the
  backslash; outside quotes, white space ends a word and the operator characters are not part of one. What a \<open>$\<close> between
  double quotes expands to is left as it is written. \<open>None\<close>: not a simple word.
\<close>

datatype quoting = Unquoted | Single_quoted | Double_quoted

fun scan :: "quoting \<Rightarrow> string \<Rightarrow> string \<Rightarrow> (string \<times> string) option" where
  "scan Unquoted acc [] = Some (acc, [])"
| "scan Unquoted acc (c # cs) =
     (if c = CHR 0x27 then scan Single_quoted acc cs
      else if c = CHR 0x22 then scan Double_quoted acc cs
      else if is_ws c then Some (acc, c # cs)
      else if c \<in> set '';&|<>()$*?~#{}!'' \<or> c = CHR 0x5C \<or> c = CHR 0x60 then None
      else scan Unquoted (acc @ [c]) cs)"
| "scan Single_quoted acc [] = None"
| "scan Single_quoted acc (c # cs) = (if c = CHR 0x27 then scan Unquoted acc cs else scan Single_quoted (acc @ [c]) cs)"
| "scan Double_quoted acc [] = None"
| "scan Double_quoted acc (c # cs) =
     (if c = CHR 0x22 then scan Unquoted acc cs
      else if c = CHR 0x5C \<or> c = CHR 0x60 then None
      else scan Double_quoted (acc @ [c]) cs)"

lemma scan_shorter: "scan q acc xs = Some (w, rest) \<Longrightarrow> length rest \<le> length xs"
  by (induction q acc xs rule: scan.induct) (auto split: if_splits simp: le_Suc_eq)

lemma scan_word_shorter:
  assumes "scan Unquoted acc (c # cs) = Some (w, rest)" "\<not> is_ws c"
  shows "length rest < length (c # cs)"
  using assms scan_shorter[of _ _ cs w rest] by (auto split: if_splits simp: less_Suc_eq_le)

function sh_words :: "string \<Rightarrow> string list option" where
  "sh_words xs =
     (case dropWhile is_ws xs of
        [] \<Rightarrow> Some []
      | c # cs \<Rightarrow> (case scan Unquoted [] (c # cs) of
          None \<Rightarrow> None
        | Some (w, rest) \<Rightarrow> map_option (\<lambda>ws. w # ws) (sh_words rest)))"
  by pat_completeness auto
termination
proof (relation "measure length")
  fix xs c cs p w rest
  assume drop: "dropWhile is_ws xs = c # cs" and scan: "scan Unquoted [] (c # cs) = Some p" "(w, rest) = p"
  have "\<not> is_ws c" using drop hd_dropWhile[of is_ws xs] by simp
  then have "length rest < length (c # cs)" using scan scan_word_shorter by metis
  also have "\<dots> \<le> length xs" using length_dropWhile_le[of is_ws xs] drop by simp
  finally show "(rest, xs) \<in> measure length" by simp
qed simp

declare sh_words.simps [simp del]

lemma scan_quoted:
  "scan Single_quoted acc (replace_char (CHR 0x27) [CHR 0x27, CHR 0x22, CHR 0x27, CHR 0x22, CHR 0x27] v @ CHR 0x27 # rest) =
     scan Unquoted (acc @ v) rest"
  by (induction v arbitrary: acc) (simp_all add: replace_char_def)

text \<open>Whatever the value, the escaped text stands for exactly that value inside a word.\<close>

lemma scan_shellEscape: "scan Unquoted acc (shellEscape v @ rest) = scan Unquoted (acc @ v) rest"
  using scan_quoted[of acc v rest] by (simp add: shellEscape_def)

lemma words_step:
  "\<not> is_ws c \<Longrightarrow> scan Unquoted [] (c # cs) = Some (w, rest) \<Longrightarrow>
     sh_words (c # cs) = map_option (\<lambda>ws. w # ws) (sh_words rest)"
  by (subst sh_words.simps) simp

lemma words_blank: "is_ws c \<Longrightarrow> sh_words (c # cs) = sh_words cs"
  by (subst (1 2) sh_words.simps) simp

lemma words_Nil: "sh_words [] = Some []"
  by (subst sh_words.simps) simp

lemma scan_shellEscape_end: "scan Unquoted acc (shellEscape v) = Some (acc @ v, [])"
  using scan_shellEscape[of acc v "[]"] by simp

lemma words_shellEscape:
  "scan Unquoted v rest = Some (w, r) \<Longrightarrow> sh_words (shellEscape v @ rest) = map_option (\<lambda>ws. w # ws) (sh_words r)"
  "sh_words (shellEscape v) = Some [v]"
proof -
  have q: "\<not> is_ws (CHR 0x27)" by (simp add: is_ws_def)
  have e: "shellEscape v = CHR 0x27 # tl (shellEscape v)" by (simp add: shellEscape_def)
  show "sh_words (shellEscape v @ rest) = map_option (\<lambda>ws. w # ws) (sh_words r)" if "scan Unquoted v rest = Some (w, r)"
    using words_step[OF q, of "tl (shellEscape v) @ rest" w r] scan_shellEscape[of "[]" v rest] that e by (metis append_Cons append_Nil)
  show "sh_words (shellEscape v) = Some [v]"
    using words_step[OF q, of "tl (shellEscape v)" v "[]"] scan_shellEscape_end[of "[]" v] e by (simp add: words_Nil)
qed

lemmas words_rules = words_shellEscape words_step words_blank words_Nil scan_shellEscape scan_shellEscape_end is_ws_def

section \<open>Properties\<close>

text \<open>C40: The install command cannot be broken out of: whatever the addresses, the key and the token contain, in the lines
  of the command they are written into the shell reads each of them as (the end of) exactly one word with exactly that
  value; the other lines do not depend on them.\<close>

theorem install_command_words:
  "map sh_words (map (\<lambda>i. install_lines scriptUrl manifestUrl key apiUrl token ! i) [3, 4, 5, 6, 10]) =
     map Some
      [[''curl'', ''-fsSLo'', ''$tmp/install.sh'', scriptUrl],
       [''curl'', ''-fsSLo'', ''$tmp/release-manifest.json'', manifestUrl],
       [''curl'', ''-fsSLo'', ''$tmp/release-manifest.json.minisig'', manifestUrl @ ''.minisig''],
       [''minisign'', ''-Vm'', ''$tmp/release-manifest.json'', ''-P'', key],
       [''sudo'', ''env'', ''NODERAX_AGENT_RELEASE_MANIFEST_URL='' @ manifestUrl,
        ''NODERAX_AGENT_MINISIGN_PUBLIC_KEY='' @ key, ''bash'', ''$tmp/install.sh'', ''--api-url'', apiUrl,
        ''--bootstrap-token'', token]] \<and>
   map (\<lambda>i. install_lines scriptUrl manifestUrl key apiUrl token ! i) [0, 1, 2, 7, 8, 9] =
      map (\<lambda>i. install_lines scriptUrl' manifestUrl' key' apiUrl' token' ! i) [0, 1, 2, 7, 8, 9] \<and>
   buildInstallCommand scriptUrl manifestUrl key apiUrl token =
      join_with nl (install_lines scriptUrl manifestUrl key apiUrl token)"
  by (simp_all add: install_lines_def buildInstallCommand_def words_rules)

section \<open>What the tables promise\<close>

text \<open>An install is consumed exactly when it has its node, and is then under way; an enrollment is approved
  exactly when it has its node and agent token.\<close>

definition install_ok :: "node_install \<Rightarrow> bool" where
  "install_ok x \<longleftrightarrow> (ni_consumedAt x = None) = (ni_nodeId x = None) \<and>
     (ni_consumedAt x \<noteq> None \<longrightarrow> ni_status x \<notin> {NI_PENDING, NI_EXPIRED} \<and> ni_hostname x \<noteq> None \<and> ni_startedAt x \<noteq> None) \<and>
     0 \<le> ni_progressPercent x \<and> ni_progressPercent x \<le> 100"

definition enrollment_ok :: "enrollment \<Rightarrow> bool" where
  "enrollment_ok x \<longleftrightarrow> (en_status x = EN_APPROVED) = (en_nodeId x \<noteq> None) \<and> (en_status x = EN_APPROVED) = (en_agentToken x \<noteq> None)"

definition pending_for :: "string \<Rightarrow> string \<Rightarrow> enrollment \<Rightarrow> bool" where
  "pending_for email hostname x \<longleftrightarrow> en_email x = email \<and> en_hostname x = hostname \<and> en_status x = EN_PENDING"

text \<open>What becomes of an install: its token stays, and once consumed it stays consumed for the same node.\<close>

definition follows :: "node_install \<Rightarrow> node_install \<Rightarrow> bool" where
  "follows x y \<longleftrightarrow> ni_id y = ni_id x \<and> ni_tokenLookupHash y = ni_tokenLookupHash x \<and> ni_tokenHash y = ni_tokenHash x \<and>
     (ni_consumedAt x \<noteq> None \<longrightarrow> ni_consumedAt y = ni_consumedAt x \<and> ni_nodeId y = ni_nodeId x)"

definition grows :: "node_install list \<Rightarrow> node_install list \<Rightarrow> bool" where
  "grows xs ys \<longleftrightarrow> length xs \<le> length ys \<and> (\<forall>i < length xs. follows (xs ! i) (ys ! i))"

lemma follows_refl [simp]: "follows x x"
  and follows_trans: "follows x y \<Longrightarrow> follows y z \<Longrightarrow> follows x z"
  by (auto simp: follows_def)

lemma grows_refl [simp]: "grows xs xs"
  by (simp add: grows_def)

lemma grows_append: "grows xs ys \<Longrightarrow> grows xs (ys @ zs)"
  by (auto simp: grows_def nth_append)

lemma grows_save:
  assumes "grows xs ys" "distinct (map ni_id ys)" "y \<in> set ys" "follows y r"
  shows "grows xs (save_row ni_id r ys)"
proof -
  have r: "ni_id r = ni_id y" using assms(4) by (simp add: follows_def)
  then have save: "save_row ni_id r ys = map (\<lambda>x. if ni_id x = ni_id y then r else x) ys"
    using assms(3) by (auto simp: save_row_def update_rows_def)
  have "follows (ys ! i) (save_row ni_id r ys ! i)" if "i < length ys" for i
  proof (cases "ni_id (ys ! i) = ni_id y")
    case True
    then have "ys ! i = y" using assms(2,3) that by (metis (no_types, lifting) eq_key_imp_eq_value in_set_zip inj_on_def distinct_map nth_mem)
    then show ?thesis using assms(4) that by (simp add: save)
  next
    case False
    then show ?thesis using that by (simp add: save)
  qed
  then have "follows (xs ! i) (save_row ni_id r ys ! i)" if "i < length xs" for i
    using assms(1) that follows_trans[of "xs ! i" "ys ! i"] by (auto simp: grows_def)
  moreover have "length (save_row ni_id r ys) = length ys" by (simp add: save)
  ultimately show ?thesis using assms(1) by (simp add: grows_def)
qed

lemma grows_find:
  assumes "find_row (\<lambda>x. ni_tokenLookupHash x = h) xs = Some x" "grows xs ys"
  shows "\<exists>y. find_row (\<lambda>x. ni_tokenLookupHash x = h) ys = Some y \<and> follows x y"
proof -
  obtain i where i: "i < length xs" "ni_tokenLookupHash (xs ! i) = h" "x = xs ! i" "\<forall>j < i. ni_tokenLookupHash (xs ! j) \<noteq> h"
    using assms(1) by (auto simp: find_row_def find_Some_iff)
  then have "i < length ys" "ni_tokenLookupHash (ys ! i) = h" "\<forall>j < i. ni_tokenLookupHash (ys ! j) \<noteq> h" "follows x (ys ! i)"
    using assms(2) by (auto simp: grows_def follows_def)
  then show ?thesis by (auto simp: find_row_def find_Some_iff intro!: exI[of _ "ys ! i"])
qed

text \<open>The invariant, together with the growth since a given install table.\<close>

definition enroll_inv :: "(nat \<Rightarrow> string) \<Rightarrow> node_install list \<Rightarrow> db \<Rightarrow> bool" where
  "enroll_inv u old s \<longleftrightarrow>
     drawn_ids u (drawn s) (map ni_id (node_installs s)) \<and> drawn_ids u (drawn s) (map en_id (enrollments s)) \<and>
     (\<forall>x \<in> set (node_installs s). install_ok x) \<and> (\<forall>x \<in> set (enrollments s). enrollment_ok x) \<and>
     (\<forall>email hostname. count_rows (pending_for email hostname) (enrollments s) \<le> 1) \<and> grows old (node_installs s)"

subsection \<open>Handlers that leave the two tables alone\<close>

definition apart_rel :: "db \<Rightarrow> db \<Rightarrow> bool" where
  "apart_rel s t \<longleftrightarrow> node_installs t = node_installs s \<and> enrollments t = enrollments s \<and> drawn s \<le> drawn t"

interpretation apart: effect_order apart_rel
  by unfold_locales (auto simp: apart_rel_def)

lemma apart_outputs: "outputs m \<Longrightarrow> apart.confined m"
  unfolding apart.confined_def apart_rel_def outputs_def by (metis core_eqD(15,16))

lemma apart_createFromEnrollment [simp]: "apart.confined (createFromEnrollment e w t nm d h os arch hash info)"
  unfolding createFromEnrollment_def assertHostnameAvailable_def insertNode_def
  by (intro apart.confined_rules) (auto intro: apart.confined_quiet apart_outputs apart.confined_writeE simp: apart_rel_def)

lemma apart_emitNodeInstallUpdated [simp]: "apart.confined (emitNodeInstallUpdated e x)"
  by (rule apart_outputs) (auto simp: emitNodeInstallUpdated_def intro!: output_rules)

lemma apart_tokens [simp]: "apart.confined (fresh_id e)" "apart.confined (issueAgentToken e)" "apart.confined (hashToken e token)"
  by (auto simp: apart.confined_def hashToken_def issueAgentToken_def fresh_token_def apart_rel_def)

lemma apart_issueEnrollmentToken [simp]: "apart.confined (issueEnrollmentToken e)"
  unfolding issueEnrollmentToken_def by (intro apart.confined_rules) (auto intro: apart_outputs)

lemma apart_notify [simp]: "apart.confined (notifyEnrollmentInitiated me email hostname t known)"
  unfolding notifyEnrollmentInitiated_def by (intro apart.confined_rules) (auto intro: apart_outputs)

text \<open>An assertion about the two tables survives them.\<close>

definition tabled :: "(db \<Rightarrow> bool) \<Rightarrow> bool" where
  "tabled P \<longleftrightarrow> (\<forall>s t. P s \<and> apart_rel s t \<longrightarrow> P t)"

lemma tabled_inv [simp]: "tabled (enroll_inv u old)"
  unfolding tabled_def enroll_inv_def apart_rel_def by (metis drawn_ids_Suc)

lemma tabled_install [simp]: "tabled (\<lambda>s. enroll_inv u old s \<and> x \<in> set (node_installs s))"
  and tabled_enrollment [simp]: "tabled (\<lambda>s. enroll_inv u old s \<and> y \<in> set (enrollments s))"
  using tabled_inv[of u old] unfolding tabled_def apart_rel_def by (simp_all, metis+)

lemma leads_after_apart:
  "tabled P \<Longrightarrow> apart.confined m \<Longrightarrow> (\<And>s. P s \<Longrightarrow> Q s) \<Longrightarrow> (\<And>x. leads P (f x) Q) \<Longrightarrow> leads P (bindE m f) Q"
  unfolding tabled_def apart.confined_def by (rule leads_seq[where R = P]) (auto simp: leads_def)

lemma leads_apart: "tabled P \<Longrightarrow> apart.confined m \<Longrightarrow> (\<And>s. P s \<Longrightarrow> Q s) \<Longrightarrow> leads P m Q"
  unfolding tabled_def apart.confined_def leads_def by blast

subsection \<open>Saving\<close>

lemma enroll_inv_save_install:
  assumes inv: "enroll_inv u old s" "x \<in> set (node_installs s)" and r: "follows x r" "install_ok r"
  shows "enroll_inv u old (s\<lparr>node_installs := save_row ni_id r (node_installs s)\<rparr>)"
proof -
  have d: "distinct (map ni_id (node_installs s))" using inv(1) by (simp add: enroll_inv_def drawn_ids_def)
  have "ni_id r = ni_id x" using r(1) by (simp add: follows_def)
  then have "map ni_id (save_row ni_id r (node_installs s)) = map ni_id (node_installs s)"
    using inv(2) by (auto simp: map_key_save_row)
  moreover have "grows old (save_row ni_id r (node_installs s))"
    using inv d r(1) by (intro grows_save[where y = x]) (simp_all add: enroll_inv_def)
  ultimately show ?thesis using inv(1) r(2) by (auto simp: enroll_inv_def set_save_row)
qed

lemma saveInstall_leads:
  assumes "follows x (y\<lparr>ni_updatedAt := e_now e\<rparr>)" "install_ok x \<Longrightarrow> install_ok (y\<lparr>ni_updatedAt := e_now e\<rparr>)"
  shows "leads (\<lambda>s. enroll_inv u old s \<and> x \<in> set (node_installs s)) (saveInstall e x y) (enroll_inv u old)"
  unfolding leads_def
proof (intro allI impI, elim conjE)
  fix s assume s: "enroll_inv u old s" "x \<in> set (node_installs s)"
  then have "install_ok x" by (simp add: enroll_inv_def)
  then have "enroll_inv u old (s\<lparr>node_installs := save_row ni_id (y\<lparr>ni_updatedAt := e_now e\<rparr>) (node_installs s)\<rparr>)"
    by (intro enroll_inv_save_install[OF s assms(1)] assms(2))
  then show "enroll_inv u old (after (saveInstall e x y) s)" using s(1) by (simp add: saveInstall_def Let_def)
qed

lemma saveInstall_then:
  assumes "follows x (y\<lparr>ni_updatedAt := e_now e\<rparr>)" "install_ok x \<Longrightarrow> install_ok (y\<lparr>ni_updatedAt := e_now e\<rparr>)"
    and "\<And>z. apart.confined (f z)"
  shows "leads (\<lambda>s. enroll_inv u old s \<and> x \<in> set (node_installs s)) (bindE (saveInstall e x y) f) (enroll_inv u old)"
  by (rule leads_seq[OF saveInstall_leads[OF assms(1,2)]]) (simp_all add: leads_apart assms(3))

lemma enroll_inv_save_enrollment:
  assumes inv: "enroll_inv u old s" "x \<in> set (enrollments s)"
    and r: "en_id r = en_id x" "en_status r \<noteq> EN_PENDING" "enrollment_ok r"
  shows "enroll_inv u old (s\<lparr>enrollments := save_row en_id r (enrollments s)\<rparr>)"
proof -
  have "map en_id (save_row en_id r (enrollments s)) = map en_id (enrollments s)"
    using inv(2) r(1) by (auto simp: map_key_save_row)
  moreover have "count_rows (pending_for email hostname) (save_row en_id r (enrollments s)) \<le> 1" for email hostname
  proof -
    have "en_id r \<in> en_id ` set (enrollments s)" "\<not> pending_for email hostname r"
      using inv(2) r(1,2) by (auto simp: pending_for_def)
    then have "count_rows (pending_for email hostname) (save_row en_id r (enrollments s)) \<le>
        count_rows (pending_for email hostname) (enrollments s)" by (rule count_save_le)
    also have "\<dots> \<le> 1" using inv(1) by (simp add: enroll_inv_def)
    finally show ?thesis .
  qed
  ultimately show ?thesis using inv(1) r(3) by (auto simp: enroll_inv_def set_save_row)
qed

lemma saveEnrollment_then:
  assumes "en_id r = en_id x" "en_status r \<noteq> EN_PENDING" "enrollment_ok x \<Longrightarrow> enrollment_ok r" "\<And>z. apart.confined (f z)"
  shows "leads (\<lambda>s. enroll_inv u old s \<and> x \<in> set (enrollments s)) (bindE (saveEnrollment r) f) (enroll_inv u old)"
proof (rule leads_seq[where R = "enroll_inv u old"])
  show "leads (\<lambda>s. enroll_inv u old s \<and> x \<in> set (enrollments s)) (saveEnrollment r) (enroll_inv u old)"
    unfolding saveEnrollment_def
  proof (rule leads_write, elim conjE)
    fix s assume s: "enroll_inv u old s" "x \<in> set (enrollments s)"
    then have "enrollment_ok r" using assms(3) by (simp add: enroll_inv_def)
    then show "enroll_inv u old (s\<lparr>enrollments := save_row en_id r (enrollments s)\<rparr>)"
      by (rule enroll_inv_save_enrollment[OF s assms(1,2)])
  qed
qed (simp_all add: leads_apart assms(4))

subsection \<open>Every operation keeps it\<close>

lemma leads_install_token:
  assumes "\<And>s. P s \<Longrightarrow> Q s" "\<And>x. leads (\<lambda>s. P s \<and> x \<in> set (node_installs s)) (f x) Q"
  shows "leads P (bindE (findNodeInstallByTokenOrThrow e token) f) Q"
  using assms by (auto simp: leads_def findNodeInstallByTokenOrThrow_def dest: find_row_Some split: option.split)

lemma leads_enrollment_token:
  assumes "\<And>s. P s \<Longrightarrow> Q s" "\<And>x. leads (\<lambda>s. P s \<and> x \<in> set (enrollments s)) (f x) Q"
  shows "leads P (bindE (findByTokenOrThrow e token) f) Q"
  using assms by (auto simp: leads_def findByTokenOrThrow_def dest: find_row_Some split: option.split)

lemma expire_result: "\<exists>r t. expireNodeInstall e x s = (Inr r, t) \<and> ni_status r = NI_EXPIRED"
proof -
  define y where "y = x\<lparr>ni_status := NI_EXPIRED, ni_stage := EXPIRED_NODE_INSTALL_STAGE,
              ni_statusMessage := Some (resolveDefaultNodeInstallMessage EXPIRED_NODE_INSTALL_STAGE NI_EXPIRED)\<rparr>"
  have "ni_status y = NI_EXPIRED" by (simp add: y_def)
  then have "\<exists>r t. saveInstall e x y s = (Inr r, t) \<and> ni_status r = NI_EXPIRED"
    by (auto simp: saveInstall_def Let_def)
  then show ?thesis
    unfolding expireNodeInstall_def y_def[symmetric]
    by (auto simp: emitNodeInstallUpdated_def publish_def bindE_Inr[where m = "saveInstall e x y" and s = s])
qed

lemma leads_expire:
  assumes "ni_consumedAt x = None" "\<And>r. ni_status r = NI_EXPIRED \<Longrightarrow> leads (enroll_inv u old) (f r) (enroll_inv u old)"
  shows "leads (\<lambda>s. enroll_inv u old s \<and> x \<in> set (node_installs s)) (bindE (expireNodeInstall e x) f) (enroll_inv u old)"
  unfolding leads_def
proof (intro allI impI)
  fix s assume s: "enroll_inv u old s \<and> x \<in> set (node_installs s)"
  have "leads (\<lambda>s. enroll_inv u old s \<and> x \<in> set (node_installs s)) (expireNodeInstall e x) (enroll_inv u old)"
    unfolding expireNodeInstall_def
    by (rule saveInstall_then) (use assms(1) in \<open>auto simp: follows_def install_ok_def intro!: apart.confined_rules\<close>)
  then have inv: "enroll_inv u old (after (expireNodeInstall e x) s)" using s by (simp add: leads_def)
  obtain r t where r: "expireNodeInstall e x s = (Inr r, t)" "ni_status r = NI_EXPIRED" using expire_result by metis
  show "enroll_inv u old (after (bindE (expireNodeInstall e x) f) s)"
    using assms(2)[OF r(2)] inv by (simp add: bindE_Inr[where m = "expireNodeInstall e x" and s = s, OF r(1)] r(1) leads_def)
qed

lemma leads_fetched: "leads (enroll_inv u old) m Q \<Longrightarrow> leads (\<lambda>s. enroll_inv u old s \<and> R s) m Q"
  by (simp add: leads_def)

text \<open>What the validation of a progress report guarantees.\<close>

definition valid_progress :: "install_progress_dto \<Rightarrow> bool" where
  "valid_progress dto \<longleftrightarrow> ip_status dto \<notin> {Some NI_PENDING, Some NI_EXPIRED} \<and>
     (case ip_progressPercent dto of None \<Rightarrow> True | Some p \<Rightarrow> 0 \<le> p \<and> p \<le> 100)"

lemma progressed_ok:
  assumes "valid_progress dto" "install_ok x"
  shows "install_ok (progressed_install e dto x\<lparr>ni_updatedAt := t\<rparr>)" "follows x (progressed_install e dto x\<lparr>ni_updatedAt := t\<rparr>)"
  using assms by (auto simp: valid_progress_def install_ok_def follows_def progressed_install_def Let_def orElse_def orKeep_def
      split: option.splits)

lemma follows_progressed: "follows x (progressed_install e dto x\<lparr>ni_updatedAt := t\<rparr>)"
  by (simp add: follows_def progressed_install_def Let_def)

lemma report_inv:
  assumes "valid_progress dto"
  shows "keeps (enroll_inv u old) (reportNodeInstallProgress e dto)"
  unfolding leads_keeps reportNodeInstallProgress_def
proof (rule leads_install_token)
  fix x
  define body where "body normalized =
       (if ni_status normalized \<in> TERMINAL_NODE_INSTALL_STATUSES \<and> Some (ni_status normalized) \<noteq> ip_status dto
       then ret (toNodeInstallStatusResponse normalized)
       else
         bindE (saveInstall e normalized (progressed_install e dto normalized)) (\<lambda>saved.
         bindE (emitNodeInstallUpdated e saved) (\<lambda>_.
         ret (toNodeInstallStatusResponse saved))))" for normalized
  have body: "leads (\<lambda>s. enroll_inv u old s \<and> x \<in> set (node_installs s)) (body x) (enroll_inv u old)"
    unfolding body_def
    by (rule leads_if, rule leads_quiet, simp_all)
      (rule saveInstall_then, auto intro!: apart.confined_rules follows_progressed progressed_ok(1)[OF assms])
  show "leads (\<lambda>s. enroll_inv u old s \<and> x \<in> set (node_installs s))
      (bindE (expireNodeInstallIfNeeded e x) (\<lambda>normalized.
       bindE (guardE (ni_status normalized \<noteq> NI_EXPIRED) (Gone ''Bootstrap token has expired'')) (\<lambda>_. body normalized)))
      (enroll_inv u old)"
  proof (cases "ni_status x = NI_EXPIRED \<or> \<not> isNodeInstallExpired e x")
    case True
    show ?thesis
      unfolding expireNodeInstallIfNeeded_def if_P[OF True] bindE_ret by (rule leads_after_guard) (simp_all add: body)
  next
    case False
    then show ?thesis
      by (simp add: expireNodeInstallIfNeeded_def)
        (rule leads_expire, auto simp: isNodeInstallExpired_def leads_def after_bindE_quiet)
  qed
qed simp

lemma getNodeInstallStatus_inv: "keeps (enroll_inv u old) (getNodeInstallStatus e w i)"
  unfolding leads_keeps getNodeInstallStatus_def
proof (rule leads_after_apart[OF tabled_inv], simp add: findWorkspaceOrFail_def, simp, rule leads_find, simp)
  fix x
  show "leads (\<lambda>s. enroll_inv u old s \<and> x \<in> set (node_installs s) \<and> ni_id x = i \<and> ni_workspaceId x = w)
     (bindE (expireNodeInstallIfNeeded e x) (\<lambda>normalized. ret (toNodeInstallStatusResponse normalized))) (enroll_inv u old)"
  proof (cases "ni_status x = NI_EXPIRED \<or> \<not> isNodeInstallExpired e x")
    case True
    then show ?thesis by (auto simp: expireNodeInstallIfNeeded_def leads_def)
  next
    case False
    then have "leads (\<lambda>s. enroll_inv u old s \<and> x \<in> set (node_installs s))
       (bindE (expireNodeInstall e x) (\<lambda>normalized. ret (toNodeInstallStatusResponse normalized))) (enroll_inv u old)"
      by (intro leads_expire) (auto simp: isNodeInstallExpired_def leads_quiet)
    then show ?thesis using False by (auto simp: expireNodeInstallIfNeeded_def leads_def)
  qed
qed

lemma consume_inv: "keeps (enroll_inv u old) (consumeNodeInstall e dto)"
  unfolding leads_keeps consumeNodeInstall_def
proof (intro leads_install_token leads_after_guard leads_if, goal_cases)
  case (3 x)
  then show ?case by (intro leads_expire) (auto simp: leads_def)
next
  case (4 x)
  show ?case
    by (rule leads_after_apart[OF tabled_install apart.confined_quiet[OF assertWorkspaceWritable_quiet]], simp,
        rule leads_after_apart[OF tabled_install apart_tokens(2)], simp,
        rule leads_after_apart[OF tabled_install apart_createFromEnrollment], simp, rule leads_case_prod, rule saveInstall_then)
      (use 4 in \<open>auto simp: follows_def consumed_install_def install_ok_def orKeep_def split: option.splits intro!: apart.confined_rules\<close>)
qed auto

text \<open>A row that is not approved stays consistent when it is revoked.\<close>

lemma revoke_leads:
  assumes "en_status x \<noteq> EN_APPROVED" "\<And>z. apart.confined (f z)"
  shows "leads (\<lambda>s. enroll_inv u old s \<and> x \<in> set (enrollments s)) (bindE (revoke_enrollment e x) f) (enroll_inv u old)"
  unfolding revoke_enrollment_def
  by (rule saveEnrollment_then) (use assms in \<open>auto simp: enrollment_ok_def\<close>)

lemma getStatus_inv: "keeps (enroll_inv u old) (getStatus e token)"
  unfolding leads_keeps getStatus_def
  by (rule leads_enrollment_token, simp, rule leads_if, rule revoke_leads, simp, simp, rule leads_quiet) auto

lemma finalize_inv: "keeps (enroll_inv u old) (finalize_enrollment e token dto w)"
  unfolding leads_keeps finalize_enrollment_def pendingEnrollment_def bindE_assoc
proof (rule leads_enrollment_token, simp, rule leads_after_guard, simp, rule leads_after_guard, simp, rule leads_after_guard, simp, goal_cases)
  case (1 x)
  have ws: "apart.confined (case w of Some w \<Rightarrow> ret w | None \<Rightarrow> bindE getDefaultWorkspaceOrFail (\<lambda>w. ret (w_id w)))"
    by (rule apart.confined_quiet) (auto intro!: quiet_rules split: option.split)
  show ?case
  proof (cases "isExpired e x")
    case True
    then show ?thesis using 1 by (simp, intro revoke_leads) auto
  next
    case False
    show ?thesis unfolding if_not_P[OF False] bindE_ret
      by (rule leads_after_apart[OF tabled_enrollment ws], simp,
          rule leads_after_apart[OF tabled_enrollment apart.confined_quiet[OF assertWorkspaceWritable_quiet]], simp,
          rule leads_after_apart[OF tabled_enrollment apart_tokens(2)], simp,
          rule leads_after_apart[OF tabled_enrollment apart_createFromEnrollment], simp, rule leads_case_prod,
          rule saveEnrollment_then) (simp_all add: enrollment_ok_def)
  qed
qed

lemma initiate_inv:
  assumes "inj u" "e_uuid e = u"
  shows "keeps (enroll_inv u old) (initiate e me dto)"
  unfolding leads_keeps initiate_def Let_def
proof (rule leads_after_apart[OF tabled_inv], simp, simp, rule leads_case_prod, rule leads_case_prod, rule leads_after_read, goal_cases)
  case (1 p token hashes tokenHash tokenLookupHash known)
  let ?email = "normalizeEmail (in_email dto)" and ?hostname = "normalizeHostname (in_hostname dto)"
  let ?x = "\<lambda>i. \<lparr>en_id = i, en_workspaceId = None, en_email = ?email, en_tokenHash = tokenHash,
               en_tokenLookupHash = tokenLookupHash, en_hostname = ?hostname, en_additionalInfo = in_additionalInfo dto,
               en_createdAt = e_now e, en_expiresAt = e_now e + ENROLLMENT_TOKEN_TTL_MINUTES * 60 * 1000,
               en_status = EN_PENDING, en_nodeId = None, en_agentToken = None\<rparr>"
  have revoked: "enroll_inv u old (after (revokePendingByEmailAndHostname e ?email ?hostname) s) \<and>
      count_rows (pending_for ?email ?hostname) (enrollments (after (revokePendingByEmailAndHostname e ?email ?hostname) s)) = 0"
    if inv: "enroll_inv u old s" for s
  proof -
    define rows where "rows = update_rows (\<lambda>x. en_email x = ?email \<and> en_hostname x = ?hostname \<and> en_status x = EN_PENDING)
       (\<lambda>x. x\<lparr>en_status := EN_REVOKED, en_expiresAt := e_now e\<rparr>) (enrollments s)"
    have "map en_id rows = map en_id (enrollments s)" unfolding rows_def by (rule map_update_rows) simp
    moreover have "\<forall>x \<in> set rows. enrollment_ok x"
      using inv by (auto simp: rows_def set_update_rows enroll_inv_def enrollment_ok_def)
    moreover have "count_rows (pending_for email hostname) rows \<le> 1" for email hostname
    proof -
      have "count_rows (pending_for email hostname) rows \<le> count_rows (pending_for email hostname) (enrollments s)"
        unfolding rows_def by (rule count_update_le) (simp add: pending_for_def)
      also have "\<dots> \<le> 1" using inv by (simp add: enroll_inv_def)
      finally show ?thesis .
    qed
    moreover have "count_rows (pending_for ?email ?hostname) rows = 0"
      by (auto simp: count_rows_zero rows_def set_update_rows pending_for_def)
    ultimately show ?thesis using inv
      by (auto simp: enroll_inv_def revokePendingByEmailAndHostname_def rows_def[symmetric])
  qed
  show ?case
  proof (rule leads_weaken[where P = "enroll_inv u old"], rule leads_seq[where R = "\<lambda>s. enroll_inv u old s \<and>
      count_rows (pending_for ?email ?hostname) (enrollments s) = 0"])
    show "leads (enroll_inv u old) (revokePendingByEmailAndHostname e ?email ?hostname)
       (\<lambda>s. enroll_inv u old s \<and> count_rows (pending_for ?email ?hostname) (enrollments s) = 0)"
      using revoked by (simp add: leads_def)
    have added: "enroll_inv u old (s\<lparr>drawn := Suc (drawn s), enrollments := enrollments s @ [?x (u (drawn s))]\<rparr>)"
      if s: "enroll_inv u old s \<and> count_rows (pending_for ?email ?hostname) (enrollments s) = 0" for s
    proof -
      have "drawn_ids u (Suc (drawn s)) (map en_id (enrollments s) @ [u (drawn s)])"
        using s assms(1) by (intro drawn_ids_fresh(2)[where n = "drawn s"]) (simp_all add: enroll_inv_def)
      moreover have "count_rows (pending_for email hostname) (enrollments s @ [?x (u (drawn s))]) \<le> 1" for email hostname
        using s by (auto simp: count_rows_def pending_for_def enroll_inv_def)
      ultimately show ?thesis using s drawn_ids_Suc[of u "drawn s" _ "Suc (drawn s)"]
        by (auto simp: enroll_inv_def enrollment_ok_def)
    qed
    have tail: "leads (enroll_inv u old) (bindE (notifyEnrollmentInitiated me ?email ?hostname
        (e_now e + ENROLLMENT_TOKEN_TTL_MINUTES * 60 * 1000) (known \<noteq> None)) (\<lambda>_. ret v)) (enroll_inv u old)" for v :: "string \<times> int"
      by (rule leads_apart[OF tabled_inv]) (auto intro!: apart.confined_rules)
    show "leads (\<lambda>s. enroll_inv u old s \<and> count_rows (pending_for ?email ?hostname) (enrollments s) = 0)
      (bindE (fresh_id e) (\<lambda>i. bindE (writeE (\<lambda>s. s\<lparr>enrollments := enrollments s @ [?x i]\<rparr>)) (\<lambda>_.
         bindE (notifyEnrollmentInitiated me ?email ?hostname (e_now e + ENROLLMENT_TOKEN_TTL_MINUTES * 60 * 1000) (known \<noteq> None))
           (\<lambda>_. ret (token, e_now e + ENROLLMENT_TOKEN_TTL_MINUTES * 60 * 1000))))) (enroll_inv u old)"
      unfolding leads_def
    proof (intro allI impI)
      fix s assume "enroll_inv u old s \<and> count_rows (pending_for ?email ?hostname) (enrollments s) = 0"
      from leadsD[OF tail added[OF this]] assms(2)
      show "enroll_inv u old (after (bindE (fresh_id e) (\<lambda>i. bindE (writeE (\<lambda>s. s\<lparr>enrollments := enrollments s @ [?x i]\<rparr>)) (\<lambda>_.
         bindE (notifyEnrollmentInitiated me ?email ?hostname (e_now e + ENROLLMENT_TOKEN_TTL_MINUTES * 60 * 1000) (known \<noteq> None))
           (\<lambda>_. ret (token, e_now e + ENROLLMENT_TOKEN_TTL_MINUTES * 60 * 1000))))) s)" by simp
    qed
  qed auto
qed

lemma createNodeInstall_inv:
  assumes "inj u" "e_uuid e = u"
  shows "keeps (enroll_inv u old) (createNodeInstall e ie w dto rq)"
  unfolding leads_keeps createNodeInstall_def
proof (rule leads_after_apart[OF tabled_inv apart.confined_quiet[OF assertWorkspaceWritable_quiet]], simp,
    rule leads_after_apart[OF tabled_inv apart.confined_quiet[OF requestedTeam_quiet]], simp,
    rule leads_after_apart[OF tabled_inv apart_issueEnrollmentToken], simp, rule leads_case_prod, rule leads_case_prod, goal_cases)
  case (1 _ team p token hashes tokenHash tokenLookupHash)
  have "enroll_inv u old (s\<lparr>drawn := Suc (drawn s),
      node_installs := node_installs s @ [new_install e (u (drawn s)) w dto team tokenHash tokenLookupHash]\<rparr>)"
    if s: "enroll_inv u old s" for s
  proof -
    have "drawn_ids u (Suc (drawn s)) (map ni_id (node_installs s) @ [u (drawn s)])"
      using s assms(1) by (intro drawn_ids_fresh(2)[where n = "drawn s"]) (simp_all add: enroll_inv_def)
    then show ?thesis using s drawn_ids_Suc[of u "drawn s" _ "Suc (drawn s)"]
      by (auto simp: enroll_inv_def install_ok_def new_install_def INITIAL_NODE_INSTALL_PROGRESS_def intro: grows_append)
  qed
  then show ?case using assms(2) by (simp add: leads_def Let_def)
qed

section \<open>The tables as a transition system\<close>

text \<open>The operations on enrollments and installs; the rest of the system leaves the two tables alone, except that deleting
  a workspace detaches its enrollments.\<close>

inductive enroll_step :: "(nat \<Rightarrow> string) \<Rightarrow> db \<Rightarrow> db \<Rightarrow> bool" for u where
  initiate: "e_uuid e = u \<Longrightarrow> enroll_step u s (after (initiate e me dto) s)"
| finalize: "enroll_step u s (after (finalize_enrollment e token fdto w) s)"
| status: "enroll_step u s (after (getStatus e token) s)"
| install: "e_uuid e = u \<Longrightarrow> enroll_step u s (after (createNodeInstall e ie wi cdto rq) s)"
| install_status: "enroll_step u s (after (getNodeInstallStatus e wi i) s)"
| progress: "valid_progress pdto \<Longrightarrow> enroll_step u s (after (reportNodeInstallProgress e pdto) s)"
| consume: "enroll_step u s (after (consumeNodeInstall e odto) s)"
| elsewhere: "node_installs t = node_installs s \<Longrightarrow>
    enrollments t = update_rows p (\<lambda>x. x\<lparr>en_workspaceId := None\<rparr>) (enrollments s) \<Longrightarrow> drawn s \<le> drawn t \<Longrightarrow> enroll_step u s t"

lemma elsewhere_inv:
  assumes "node_installs t = node_installs s" "enrollments t = update_rows p (\<lambda>x. x\<lparr>en_workspaceId := None\<rparr>) (enrollments s)"
    "drawn s \<le> drawn t" "enroll_inv u old s"
  shows "enroll_inv u old t"
proof -
  have "map en_id (enrollments t) = map en_id (enrollments s)" unfolding assms(2) by (rule map_update_rows) simp
  moreover have "map (pending_for email hostname) (enrollments t) = map (pending_for email hostname) (enrollments s)" for email hostname
    unfolding assms(2) by (rule map_update_rows) (simp add: pending_for_def)
  then have "count_rows (pending_for email hostname) (enrollments t) = count_rows (pending_for email hostname) (enrollments s)" for email hostname
    unfolding count_rows_def by (metis (no_types) filter_map length_map comp_id id_comp)
  moreover have "\<forall>x \<in> set (enrollments t). enrollment_ok x"
    using assms(2,4) by (auto simp: set_update_rows enroll_inv_def enrollment_ok_def)
  ultimately show ?thesis using assms(1,3,4) drawn_ids_Suc[of u "drawn s" _ "drawn t"] by (auto simp: enroll_inv_def)
qed

interpretation enroll_system: transition_system "\<lambda>s. node_installs s = old \<and> enroll_inv u old s" "\<lambda>s t. inj u \<and> enroll_step u s t"
  "enroll_inv u old" for u old
proof
  show "enroll_inv u old t" if "inj u \<and> enroll_step u s t" "enroll_inv u old s" for s t
  proof -
    from that(1) have "enroll_step u s t" "inj u" by simp_all
    then show ?thesis using that(2)
      by cases (auto intro: keepsD[OF initiate_inv] keepsD[OF finalize_inv] keepsD[OF getStatus_inv] keepsD[OF createNodeInstall_inv]
        keepsD[OF getNodeInstallStatus_inv] keepsD[OF report_inv] keepsD[OF consume_inv] elsewhere_inv)
  qed
qed simp

section \<open>Following a token through the operations\<close>

lemma find_saved_token:
  assumes "distinct (map key rows)" "find_row (\<lambda>x. h x = c) rows = Some x" "key r = key x" "h r = h x"
  shows "find_row (\<lambda>x. h x = c) (save_row key r rows) = Some r"
proof -
  obtain i where i: "i < length rows" "h (rows ! i) = c" "x = rows ! i" "\<forall>j < i. h (rows ! j) \<noteq> c"
    using assms(2) by (auto simp: find_row_def find_Some_iff)
  define xs where "xs = take i rows"
  define ys where "ys = drop (Suc i) rows"
  have rows: "rows = xs @ x # ys" using i(1,3) by (simp add: xs_def ys_def id_take_nth_drop[symmetric])
  have "\<forall>y \<in> set xs. h y \<noteq> c" using i(4) by (fastforce simp: xs_def in_set_conv_nth)
  moreover have "h r = c" using i(2,3) assms(4) by simp
  moreover have "List.find (\<lambda>x. h x = c) (zs @ r # ys) = Some r" if "\<forall>y \<in> set zs. h y \<noteq> c" "h r = c" for zs
    using that by (induction zs) auto
  moreover have "save_row key r (xs @ x # ys) = xs @ r # ys" using assms(1,3) unfolding rows by (rule save_row_split)
  ultimately show ?thesis by (simp add: rows find_row_def)
qed

lemma consume_success:
  assumes c: "consumeNodeInstall e dto s = (Inr r, s1)" and d: "distinct (map ni_id (node_installs s))"
  shows "\<exists>x. find_row (\<lambda>x. ni_tokenLookupHash x = e_lookupHash e (co_token dto)) (node_installs s1) = Some x \<and>
    ni_consumedAt x \<noteq> None \<and> verifyToken e (co_token dto) (ni_tokenHash x) (ni_tokenLookupHash x)"
proof -
  obtain x where x: "find_row (\<lambda>x. ni_tokenLookupHash x = e_lookupHash e (co_token dto)) (node_installs s) = Some x"
      "verifyToken e (co_token dto) (ni_tokenHash x) (ni_tokenLookupHash x)" "ni_consumedAt x = None"
    using c by (auto simp: consumeNodeInstall_def findNodeInstallByTokenOrThrow_def createLookupHash_def split: option.splits if_splits)
  define go where "go = bindE (assertWorkspaceWritable (ni_workspaceId x)) (\<lambda>_. bindE (issueAgentToken e) (\<lambda>agentToken.
         bindE (createFromEnrollment e (ni_workspaceId x) (ni_teamId x) (ni_nodeName x) (ni_description x)
                  (normalizeHostname (co_hostname dto)) (resolveNodeOs (co_additionalInfo dto))
                  (resolveNodeArch (co_additionalInfo dto)) (hashAgentToken e agentToken)
                  (reported_info (co_additionalInfo dto))) (\<lambda>(n, _). ret (n_id n, agentToken))))"
  define fin where "fin p = bindE (saveInstall e x (consumed_install e (fst p) (normalizeHostname (co_hostname dto)) (co_additionalInfo dto) x))
      (\<lambda>saved. bindE (emitNodeInstallUpdated e saved) (\<lambda>_. ret p))" for p :: "string \<times> string"
  have run: "bindE go fin s = (Inr r, s1)"
    using c x by (simp add: consumeNodeInstall_def findNodeInstallByTokenOrThrow_def createLookupHash_def go_def fin_def[abs_def]
        case_prod_beta' split: if_splits) (auto simp: expireNodeInstall_def bindE_failure bindE_success)
  then obtain p s' where p: "go s = (Inr p, s')" "fin p s' = (Inr r, s1)" by (auto simp: bindE_success)
  have "apart.confined go" unfolding go_def by (auto intro!: apart.confined_rules intro: apart.confined_quiet)
  then have "node_installs s' = node_installs s" using p(1) unfolding apart.confined_def apart_rel_def by (metis snd_conv)
  moreover define y where "y = (consumed_install e (fst p) (normalizeHostname (co_hostname dto)) (co_additionalInfo dto) x)\<lparr>ni_updatedAt := e_now e\<rparr>"
  have "ni_consumedAt (consumed_install e (fst p) (normalizeHostname (co_hostname dto)) (co_additionalInfo dto) x) \<noteq> ni_consumedAt x"
    using x(3) by (simp add: consumed_install_def)
  then have "consumed_install e (fst p) (normalizeHostname (co_hostname dto)) (co_additionalInfo dto) x \<noteq> x" by auto
  then have "node_installs s1 = save_row ni_id y (node_installs s')"
    using p(2) by (auto simp: fin_def saveInstall_def y_def Let_def emitNodeInstallUpdated_def publish_def)
  moreover have "ni_id y = ni_id x" "ni_tokenLookupHash y = ni_tokenLookupHash x" "ni_tokenHash y = ni_tokenHash x" "ni_consumedAt y \<noteq> None"
    by (simp_all add: y_def consumed_install_def)
  ultimately show ?thesis
    using find_saved_token[of ni_id "node_installs s" ni_tokenLookupHash "e_lookupHash e (co_token dto)" x y] d x(1,2) by auto
qed

lemma createFromEnrollment_run:
  assumes "h \<notin> n_hostname ` set (nodes s)" "writable s w" "requestedTeam w t s = (Inr team, s)"
  shows "\<exists>n v. createFromEnrollment e w t nm d h os arch hash info s =
      (Inr (n, v), s\<lparr>drawn := Suc (drawn s), nodes := nodes s @ [n]\<rparr>) \<and>
    n_id n = e_uuid e (drawn s) \<and> n_workspaceId n = w \<and> n_hostname n = h \<and> n_agentTokenHash n = Some hash \<and>
    n_pendingAgentTokenExpiresAt n = None"
proof -
  let ?n = "(blank_node e (e_uuid e (drawn s)) w nm d h os arch team)
       \<lparr>n_agentTokenHash := Some hash, n_agentVersion := ag_agentVersion info,
        n_platformVersion := ag_platformVersion info, n_kernelVersion := ag_kernelVersion info,
        n_lastVersionReportedAt := (if reports_version info then Some (e_now e) else None),
        n_location := resolveLocationPatch (ag_location info) (e_now e) no_location\<rparr>"
  let ?t = "s\<lparr>drawn := Suc (drawn s), nodes := nodes s @ [?n]\<rparr>"
  have free: "find_row (\<lambda>n. n_hostname n = h) (nodes s) = None" using assms(1) by (auto simp: find_row_None)
  have team: "n_teamId ?n = team" "n_workspaceId ?n = w" by (simp_all add: blank_node_def)
  have "\<exists>v. populateNode ?n ?t = (Inr (?n, v), ?t)"
    using assms(3) unfolding populateNode_eq team
    by (auto simp: requestedTeam_def findTeamOrFail_def split: if_splits option.splits dest!: find_row_Some) (auto simp: find_row_None)
  then obtain v where "populateNode ?n ?t = (Inr (?n, v), ?t)" ..
  then have "createFromEnrollment e w t nm d h os arch hash info s = (Inr (?n, v), ?t)"
    using assms(2,3) free
    by (simp add: createFromEnrollment_def assertHostnameAvailable_def assertWorkspaceWritable_run insertNode_def
        bindE_Inr[where m = "requestedTeam w t" and s = s])
  then show ?thesis by (intro exI[of _ ?n] exI[of _ v]) (simp add: blank_node_def)
qed

section \<open>Properties of the tables\<close>

text \<open>C39: In every state the operations reach: an install is consumed exactly when it has its node, and then
  it is neither pending nor expired and its progress lies between 0 and 100; an enrollment is approved exactly when it has its node and
  its agent token; and of the enrollments of one address and hostname at most one is pending.\<close>

theorem enrollments_sound:
  assumes "node_installs s0 = []" "enrollments s0 = []" "(\<lambda>s t. inj u \<and> enroll_step u s t)\<^sup>*\<^sup>* s0 s"
  shows "distinct (map ni_id (node_installs s)) \<and> distinct (map en_id (enrollments s)) \<and>
    (\<forall>x \<in> set (node_installs s).
       (ni_consumedAt x \<noteq> None) = (ni_nodeId x \<noteq> None) \<and>
       (ni_consumedAt x \<noteq> None \<longrightarrow> ni_status x \<notin> {NI_PENDING, NI_EXPIRED} \<and> ni_startedAt x \<noteq> None) \<and>
       ni_progressPercent x \<in> {0..100}) \<and>
    (\<forall>x \<in> set (enrollments s).
       (en_status x = EN_APPROVED) = (en_nodeId x \<noteq> None) \<and> (en_status x = EN_APPROVED) = (en_agentToken x \<noteq> None)) \<and>
    (\<forall>email hostname. count_rows (\<lambda>x. en_email x = email \<and> en_hostname x = hostname \<and> en_status x = EN_PENDING)
       (enrollments s) \<le> 1)"
proof -
  have "enroll_inv u [] s0"
    using assms(1,2) by (simp add: enroll_inv_def drawn_ids_def count_rows_def)
  then have inv: "enroll_inv u [] s" using enroll_system.run_invar[OF assms(3), of "[]"] by simp
  have "count_rows (\<lambda>x. en_email x = email \<and> en_hostname x = hostname \<and> en_status x = EN_PENDING) (enrollments s) \<le> 1" for email hostname
    using inv unfolding enroll_inv_def pending_for_def by blast
  moreover have "\<forall>x \<in> set (node_installs s). install_ok x" "\<forall>x \<in> set (enrollments s). enrollment_ok x"
      "distinct (map ni_id (node_installs s))" "distinct (map en_id (enrollments s))"
    using inv by (simp_all add: enroll_inv_def drawn_ids_def)
  ultimately show ?thesis by (auto simp: install_ok_def enrollment_ok_def)
qed

text \<open>C37: A bootstrap token is used once. After it has been consumed, whatever the operators, the installers and the rest
  of the system do, consuming it again is refused and changes nothing; so one install makes at most one node.\<close>

theorem install_token_single_use:
  assumes start: "node_installs s0 = []" "enrollments s0 = []" "(\<lambda>s t. inj u \<and> enroll_step u s t)\<^sup>*\<^sup>* s0 s"
    and consumed: "consumeNodeInstall e dto s = (Inr r, s1)"
    and later: "(\<lambda>s t. inj u \<and> enroll_step u s t)\<^sup>*\<^sup>* s1 s2"
    and again: "co_token dto' = co_token dto" "e_lookupHash e' = e_lookupHash e" "e_matchesSecret e' = e_matchesSecret e"
  shows "consumeNodeInstall e' dto' s2 = (Inl (Conflict ''Bootstrap token has already been used''), s2)"
proof -
  have "enroll_inv u [] s0"
    using start(1,2) by (simp add: enroll_inv_def drawn_ids_def count_rows_def)
  then have inv: "enroll_inv u [] s" using enroll_system.run_invar[OF start(3), of "[]"] by simp
  have "enroll_inv u [] s1" using keepsD[OF consume_inv inv, of e dto] consumed by simp
  then have "enroll_inv u (node_installs s1) s1" by (simp add: enroll_inv_def)
  then have "enroll_inv u (node_installs s1) s2" using enroll_system.run_invar[OF later] by simp
  then have grown: "grows (node_installs s1) (node_installs s2)" by (simp add: enroll_inv_def)
  have "distinct (map ni_id (node_installs s))" using inv by (simp add: enroll_inv_def drawn_ids_def)
  from consume_success[OF consumed this] obtain x where
    x: "find_row (\<lambda>x. ni_tokenLookupHash x = e_lookupHash e (co_token dto)) (node_installs s1) = Some x"
      "ni_consumedAt x \<noteq> None" "verifyToken e (co_token dto) (ni_tokenHash x) (ni_tokenLookupHash x)" by blast
  from grows_find[OF x(1) grown] obtain y where
    y: "find_row (\<lambda>x. ni_tokenLookupHash x = e_lookupHash e (co_token dto)) (node_installs s2) = Some y" "follows x y" by blast
  moreover have "ni_consumedAt y \<noteq> None" "verifyToken e' (co_token dto) (ni_tokenHash y) (ni_tokenLookupHash y)"
    using x(2,3) y(2) again(2,3) by (auto simp: follows_def verifyToken_def matchesLookupHash_def createLookupHash_def)
  ultimately show ?thesis
    using again by (auto simp: consumeNodeInstall_def findNodeInstallByTokenOrThrow_def createLookupHash_def)
qed

lemma consume_run:
  assumes found: "findNodeInstallByTokenOrThrow e (co_token dto) s = (Inr x, s)"
    and x: "ni_consumedAt x = None" "ni_nodeId x = None" "\<not> isNodeInstallExpired e x"
    and w: "writable s (ni_workspaceId x)" "requestedTeam (ni_workspaceId x) (ni_teamId x) s = (Inr team, s)"
      "normalizeHostname (co_hostname dto) \<notin> n_hostname ` set (nodes s)"
  shows "\<exists>n s2. consumeNodeInstall e dto s = (Inr (n_id n, e_token e (drawn s)), s2) \<and> nodes s2 = nodes s @ [n] \<and>
    n_id n = e_uuid e (Suc (drawn s)) \<and> n_workspaceId n = ni_workspaceId x \<and> n_hostname n = normalizeHostname (co_hostname dto) \<and>
    n_agentTokenHash n = Some (hashAgentToken e (e_token e (drawn s))) \<and> n_pendingAgentTokenExpiresAt n = None"
proof -
  let ?s = "s\<lparr>drawn := Suc (drawn s)\<rparr>"
  define m where "m = createFromEnrollment e (ni_workspaceId x) (ni_teamId x) (ni_nodeName x) (ni_description x)
      (normalizeHostname (co_hostname dto)) (resolveNodeOs (co_additionalInfo dto)) (resolveNodeArch (co_additionalInfo dto))
      (hashAgentToken e (e_token e (drawn s))) (reported_info (co_additionalInfo dto))"
  have "requestedTeam (ni_workspaceId x) (ni_teamId x) ?s = (Inr team, ?s)"
    using w(2) by (auto simp: requestedTeam_def findTeamOrFail_def split: if_splits option.splits)
  moreover have "writable ?s (ni_workspaceId x)" "normalizeHostname (co_hostname dto) \<notin> n_hostname ` set (nodes ?s)"
    using w(1,3) by (simp_all add: writable_def)
  ultimately have "\<exists>n v. m ?s = (Inr (n, v), ?s\<lparr>drawn := Suc (drawn ?s), nodes := nodes ?s @ [n]\<rparr>) \<and>
    n_id n = e_uuid e (drawn ?s) \<and> n_workspaceId n = ni_workspaceId x \<and> n_hostname n = normalizeHostname (co_hostname dto) \<and>
    n_agentTokenHash n = Some (hashAgentToken e (e_token e (drawn s))) \<and> n_pendingAgentTokenExpiresAt n = None"
    unfolding m_def by (intro createFromEnrollment_run)
  then obtain n v where n: "m ?s = (Inr (n, v), ?s\<lparr>drawn := Suc (drawn ?s), nodes := nodes ?s @ [n]\<rparr>)"
    "n_id n = e_uuid e (drawn ?s)" "n_workspaceId n = ni_workspaceId x" "n_hostname n = normalizeHostname (co_hostname dto)"
    "n_agentTokenHash n = Some (hashAgentToken e (e_token e (drawn s)))" "n_pendingAgentTokenExpiresAt n = None" by blast
  note step = bindE_Inr[where m = m and s = ?s, OF n(1)]
  let ?t = "?s\<lparr>drawn := Suc (drawn ?s), nodes := nodes ?s @ [n]\<rparr>"
  define fin where "fin = (\<lambda>n :: node. bindE (saveInstall e x (consumed_install e (n_id n) (normalizeHostname (co_hostname dto)) (co_additionalInfo dto) x))
      (\<lambda>saved. bindE (emitNodeInstallUpdated e saved) (\<lambda>_. ret (n_id n, e_token e (drawn s)))))"
  have "consumeNodeInstall e dto s = bindE m (\<lambda>(n, _). fin n) ?s"
    using x w(1)
    by (simp add: consumeNodeInstall_def bindE_Inr[where m = "findNodeInstallByTokenOrThrow e (co_token dto)" and s = s, OF found]
        assertWorkspaceWritable_run issueAgentToken_def m_def fin_def)
  also have "\<dots> = fin n ?t" by (simp add: step)
  finally have run: "consumeNodeInstall e dto s = fin n ?t" .
  have "\<exists>s2. fin n ?t = (Inr (n_id n, e_token e (drawn s)), s2) \<and> nodes s2 = nodes s @ [n]"
    by (auto simp: fin_def saveInstall_def Let_def emitNodeInstallUpdated_def publish_def)
  then show ?thesis using run n(2-6) by auto
qed

text \<open>C38: The bootstrap token of an install command works: used before its fifteen minutes are over, for a hostname that is free,
  it gives a new node of the workspace and an agent token, and with these the agent is authenticated
  from then on, at whatever time.\<close>

theorem bootstrap_token_roundtrip:
  assumes created: "createNodeInstall e ie w dto rq s = (Inr answer, s1)"
    and token: "co_token cdto = e_token e (drawn s)"
    and unused: "e_lookupHash e (e_token e (drawn s)) \<notin> ni_tokenLookupHash ` set (node_installs s)"
    and crypto: "e_lookupHash e' = e_lookupHash e" "\<And>n x. e_matchesSecret e' x (e_hashSecret e n x)" "\<And>x. e_sha256 e' x \<noteq> []"
    and time: "e_now e' < e_now e + 15 * 60 * 1000"
    and ids: "inj u" "e_uuid e' = u" "nodes_inv u s"
    and free: "normalizeHostname (co_hostname cdto) \<notin> n_hostname ` set (nodes s)"
  shows "\<exists>nodeId agentToken s2. consumeNodeInstall e' cdto s1 = (Inr (nodeId, agentToken), s2) \<and>
    (\<forall>e''. e_sha256 e'' = e_sha256 e' \<longrightarrow>
       (\<exists>n. authenticateAgent e'' nodeId agentToken s2 = (Inr n, s2) \<and> n_id n = nodeId \<and> n_workspaceId n = w \<and>
          n_hostname n = normalizeHostname (co_hostname cdto)))"
proof -
  have writable: "writable s w"
  proof (rule ccontr)
    assume "\<not> writable s w"
    then have "\<exists>err. createNodeInstall e ie w dto rq s = (Inl err, s)"
      unfolding createNodeInstall_def by (rule assertWorkspaceWritable_run(2))
    then show False using created by auto
  qed
  obtain team where team: "requestedTeam w (ci_teamId dto) s = (Inr team, s)"
  proof (cases "outcome (requestedTeam w (ci_teamId dto)) s")
    case (Inl err)
    then have "requestedTeam w (ci_teamId dto) s = (Inl err, s)"
      using quietD[OF requestedTeam_quiet, of w "ci_teamId dto" s] by (metis prod.collapse)
    then have "createNodeInstall e ie w dto rq s = (Inl err, s)"
      by (simp add: createNodeInstall_def assertWorkspaceWritable_run(1)[OF writable]
          bindE_Inl[where m = "requestedTeam w (ci_teamId dto)" and s = s])
    then show ?thesis using created by simp
  next
    case (Inr team)
    then show ?thesis using that quietD[OF requestedTeam_quiet, of w "ci_teamId dto" s] by (metis prod.collapse)
  qed
  let ?tok = "e_token e (drawn s)" and ?d = "drawn s"
  define x where "x = new_install e (e_uuid e (Suc (Suc ?d))) w dto team (e_hashSecret e (Suc ?d) ?tok) (e_lookupHash e ?tok)"
  have s1: "s1 = s\<lparr>drawn := Suc (Suc (Suc ?d)), node_installs := node_installs s @ [x]\<rparr>"
    using created writable
    by (simp add: createNodeInstall_def assertWorkspaceWritable_run bindE_Inr[where m = "requestedTeam w (ci_teamId dto)" and s = s, OF team]
        issueEnrollmentToken_def hashToken_def createLookupHash_def x_def Let_def)
  have x: "ni_workspaceId x = w" "ni_teamId x = team" "ni_consumedAt x = None" "ni_nodeId x = None" "\<not> isNodeInstallExpired e' x"
      "ni_tokenLookupHash x = e_lookupHash e ?tok" "ni_tokenHash x = e_hashSecret e (Suc ?d) ?tok"
    using time by (simp_all add: x_def new_install_def isNodeInstallExpired_def NODE_INSTALL_TOKEN_TTL_MINUTES_def)
  have "find_row (\<lambda>y. ni_tokenLookupHash y = e_lookupHash e ?tok) (node_installs s @ [x]) = Some x"
  proof -
    have "List.find (\<lambda>y. ni_tokenLookupHash y = e_lookupHash e ?tok) (ys @ [x]) = Some x"
      if "e_lookupHash e ?tok \<notin> ni_tokenLookupHash ` set ys" for ys
      using that x(6) by (induction ys) auto
    then show ?thesis using unused by (simp add: find_row_def)
  qed
  then have found: "findNodeInstallByTokenOrThrow e' (co_token cdto) s1 = (Inr x, s1)"
    using crypto(1,2) x(6,7) token
    by (simp add: findNodeInstallByTokenOrThrow_def createLookupHash_def verifyToken_def matchesLookupHash_def s1)
  have t': "requestedTeam w team s1 = (Inr team, s1)"
    using team by (auto simp: requestedTeam_def findTeamOrFail_def s1 split: if_splits option.splits dest!: find_row_Some)
      (auto simp: find_row_None truthy_def dest: find_row_Some)
  let ?h = "normalizeHostname (co_hostname cdto)" and ?agent = "e_token e' (drawn s1)"
  have "writable s1 w" "?h \<notin> n_hostname ` set (nodes s1)" using writable free by (simp_all add: s1 writable_def)
  then obtain n s2 where run: "consumeNodeInstall e' cdto s1 = (Inr (n_id n, ?agent), s2)" "nodes s2 = nodes s @ [n]"
    and n: "n_id n = u (Suc (drawn s1))" "n_workspaceId n = w" "n_hostname n = ?h"
      "n_agentTokenHash n = Some (hashAgentToken e' ?agent)" "n_pendingAgentTokenExpiresAt n = None"
    using consume_run[OF found x(3,4,5), of team] x(1,2) t' ids(2) by (auto simp: s1)
  have "u (Suc (drawn s1)) \<notin> n_id ` set (nodes s)"
    using drawn_ids_fresh(1)[of u "drawn s" "map n_id (nodes s)" "Suc (drawn s1)"] ids(1,3) by (simp add: nodes_inv_def s1)
  then have "List.find (\<lambda>m. n_id m = n_id n) (nodes s @ [n]) = Some n"
  proof -
    have "List.find (\<lambda>m. n_id m = n_id n) (ys @ [n]) = Some n" if "n_id n \<notin> n_id ` set ys" for ys
      using that by (induction ys) auto
    then show ?thesis using \<open>u (Suc (drawn s1)) \<notin> n_id ` set (nodes s)\<close> n(1) by simp
  qed
  then have "find_row (\<lambda>m. n_id m = n_id n) (nodes s2) = Some n" by (simp add: find_row_def run(2))
  then have "authenticateAgent e'' (n_id n) ?agent s2 = (Inr n, s2)" if "e_sha256 e'' = e_sha256 e'" for e''
    using n(4,5) crypto(3) that by (simp add: authenticateAgent_def hashAgentToken_def agentTokenHashMatches_def Let_def)
  then show ?thesis using run(1) n(2,3) by blast
qed

section \<open>Closed instances\<close>

definition install_env0 :: install_env where
  "install_env0 = \<lparr>ie_URL = (\<lambda>_. None), ie_AGENT_PUBLIC_API_URL = None, ie_publicApiUrl = ''https://api.example.org'',
     ie_installScriptUrl = ''https://cdn.example.org/install.sh'', ie_releaseManifestUrl = ''https://cdn.example.org/m.json'',
     ie_releaseMinisignPublicKey = ''RWQ''\<rparr>"

definition install_dto0 :: create_install_dto where
  "install_dto0 = \<lparr>ci_nodeName = ''web'', ci_description = None, ci_teamId = None\<rparr>"

definition consume_dto0 :: consume_dto where
  "consume_dto0 = \<lparr>co_token = show_nat 0, co_hostname = ''srv-1'', co_additionalInfo = None\<rparr>"

definition ready_db :: db where
  "ready_db = empty_db\<lparr>workspaces := [owned_workspace]\<rparr>"

lemma ready_writable: "writable ready_db ''w''"
  by (simp add: writable_def ready_db_def find_row_def owned_workspace_def)

lemma ready_install:
  "createNodeInstall base_env install_env0 ''w'' install_dto0 None ready_db = (r, t) \<Longrightarrow> \<exists>answer. r = Inr answer"
  by (auto simp: createNodeInstall_def assertWorkspaceWritable_run(1)[OF ready_writable] requestedTeam_def install_dto0_def
      issueEnrollmentToken_def hashToken_def Let_def)

definition hashing_env :: env where
  "hashing_env = base_env\<lparr>e_sha256 := \<lambda>x. CHR ''h'' # x\<rparr>"

lemma ready_facts:
  "node_installs ready_db = []" "nodes ready_db = []" "drawn ready_db = 0" "enrollments ready_db = []" "nodes_inv show_nat ready_db"
  by (simp_all add: ready_db_def empty_db_def nodes_inv_def drawn_ids_def)

lemma hashing_env:
  "e_lookupHash hashing_env = e_lookupHash base_env" "e_matchesSecret hashing_env x (e_hashSecret base_env n x)"
  "e_sha256 hashing_env x \<noteq> []" "e_now hashing_env < e_now base_env + 15 * 60 * 1000" "e_uuid hashing_env = show_nat"
  by (simp_all add: hashing_env_def base_env_def)

theorem bootstrap_token_roundtrip_witness:
  "\<exists>answer s1 nodeId agentToken s2.
     createNodeInstall base_env install_env0 ''w'' install_dto0 None ready_db = (Inr answer, s1) \<and>
     consumeNodeInstall hashing_env consume_dto0 s1 = (Inr (nodeId, agentToken), s2)"
proof -
  obtain answer s1 where created: "createNodeInstall base_env install_env0 ''w'' install_dto0 None ready_db = (Inr answer, s1)"
    using ready_install by (metis surj_pair)
  have tok: "co_token consume_dto0 = e_token base_env (drawn ready_db)"
    by (simp add: consume_dto0_def base_env_def ready_facts(3))
  have "\<exists>nodeId agentToken s2. consumeNodeInstall hashing_env consume_dto0 s1 = (Inr (nodeId, agentToken), s2)"
    using bootstrap_token_roundtrip[OF created tok _ hashing_env(1,2,3,4) inj_show_nat hashing_env(5) ready_facts(5)] ready_facts
    by fastforce
  with created show ?thesis by blast
qed

theorem enrollments_sound_witness:
  "distinct (map en_id (enrollments (after (initiate base_env sample_mail_env
     \<lparr>in_email = ''a@x.org'', in_hostname = ''srv'', in_additionalInfo = None\<rparr>) ready_db)))"
proof -
  let ?t = "after (initiate base_env sample_mail_env \<lparr>in_email = ''a@x.org'', in_hostname = ''srv'', in_additionalInfo = None\<rparr>) ready_db"
  have "(\<lambda>s t. inj show_nat \<and> enroll_step show_nat s t)\<^sup>*\<^sup>* ready_db ?t"
    by (rule r_into_rtranclp) (auto intro: enroll_step.initiate inj_show_nat simp: base_env_def)
  from enrollments_sound[OF ready_facts(1,4) this] show ?thesis by blast
qed

text \<open>The same install, consumed by two installers.\<close>

theorem install_token_single_use_witness:
  "\<exists>r s1 s2. consumeNodeInstall hashing_env consume_dto0 s1 = (Inr r, s2) \<and>
     consumeNodeInstall hashing_env consume_dto0 s2 = (Inl (Conflict ''Bootstrap token has already been used''), s2)"
proof -
  obtain answer s1 where created: "createNodeInstall hashing_env install_env0 ''w'' install_dto0 None ready_db = (Inr answer, s1)"
    by (auto simp: createNodeInstall_def assertWorkspaceWritable_run(1)[OF ready_writable] requestedTeam_def install_dto0_def
      issueEnrollmentToken_def hashToken_def Let_def)
  have step: "(\<lambda>s t. inj show_nat \<and> enroll_step show_nat s t)\<^sup>*\<^sup>* ready_db s1"
    using enroll_step.install[of hashing_env show_nat ready_db install_env0 "''w''" install_dto0 None] hashing_env(5) created inj_show_nat
    by (intro r_into_rtranclp) simp
  let ?x = "new_install hashing_env (e_uuid hashing_env 2) ''w'' install_dto0 None (show_nat 0) (show_nat 0)"
  have s1: "s1 = ready_db\<lparr>drawn := 3, node_installs := [?x]\<rparr>"
    using created by (auto simp: createNodeInstall_def assertWorkspaceWritable_run(1)[OF ready_writable] requestedTeam_def install_dto0_def
      issueEnrollmentToken_def hashToken_def Let_def ready_facts hashing_env_def base_env_def createLookupHash_def eval_nat_numeral)
  have found: "findNodeInstallByTokenOrThrow hashing_env (co_token consume_dto0) s1 = (Inr ?x, s1)"
    by (simp add: findNodeInstallByTokenOrThrow_def s1 find_row_def new_install_def consume_dto0_def createLookupHash_def
        verifyToken_def matchesLookupHash_def hashing_env_def base_env_def)
  have x: "ni_workspaceId ?x = ''w''" "ni_teamId ?x = None" "ni_consumedAt ?x = None" "ni_nodeId ?x = None"
    "\<not> isNodeInstallExpired hashing_env ?x"
    by (simp_all add: new_install_def isNodeInstallExpired_def NODE_INSTALL_TOKEN_TTL_MINUTES_def)
  have "writable s1 ''w''" "normalizeHostname (co_hostname consume_dto0) \<notin> n_hostname ` set (nodes s1)"
      "requestedTeam ''w'' None s1 = (Inr None, s1)"
    using ready_writable by (simp_all add: s1 writable_def ready_facts requestedTeam_def)
  then have "\<exists>r s2. consumeNodeInstall hashing_env consume_dto0 s1 = (Inr r, s2)"
    using consume_run[OF found x(3,4,5), of None] x(1,2) by auto
  then obtain r s2 where c: "consumeNodeInstall hashing_env consume_dto0 s1 = (Inr r, s2)" by blast
  have "consumeNodeInstall hashing_env consume_dto0 s2 = (Inl (Conflict ''Bootstrap token has already been used''), s2)"
    by (rule install_token_single_use[OF ready_facts(1,4) step c rtranclp.rtrancl_refl]) simp_all
  with c show ?thesis by blast
qed

end
