(* ===== verification/Users.thy ===== *)
theory Users
  imports Workspaces Notifications
begin

text \<open>
  User accounts (\<open>src/modules/users/users.service.ts\<close>): invitations and their acceptance, editing, deactivating
  and deleting users, preferences, passwords and password resets. Emails are compared after \<open>LOWER\<close>, secrets
  are stored as bcrypt hashes with a SHA-256 lookup hash, and \<open>sessionVersion\<close> is what the access tokens of a user
  are checked against. The lemmas at the end bound what one operation can do to the accounts.
\<close>

section \<open>Requests and answers\<close>

record create_user_dto =
  cu_email :: string
  cu_name :: string
  cu_role :: "user_role option"

record update_user_dto =
  uu_email :: "string option"
  uu_name :: "string option"
  uu_role :: "user_role option"
  uu_isActive :: "bool option"

record preferences_dto =
  up_timezone :: "string option"
  up_criticalEventEmailsEnabled :: "bool option"
  up_enrollmentEmailsEnabled :: "bool option"

record user_response =
  ur_id :: string
  ur_email :: string
  ur_name :: string
  ur_role :: user_role
  ur_isActive :: bool
  ur_timezone :: string
  ur_inviteStatus :: invite_status
  ur_lastInvitedAt :: "int option"
  ur_activatedAt :: "int option"
  ur_criticalEventEmailsEnabled :: bool
  ur_enrollmentEmailsEnabled :: bool
  ur_mfaEnabled :: bool
  ur_createdAt :: int
  ur_updatedAt :: int

fun user_role_str :: "user_role \<Rightarrow> string" where
  "user_role_str PLATFORM_ADMIN = ''platform_admin''"
| "user_role_str USER = ''user''"

definition INVITATION_TTL_HOURS :: int where
  "INVITATION_TTL_HOURS = 72"

definition PASSWORD_RESET_TTL_HOURS :: int where
  "PASSWORD_RESET_TTL_HOURS = 1"

definition toResponse :: "user \<Rightarrow> user_response" where
  "toResponse u =
     \<lparr>ur_id = u_id u, ur_email = u_email u, ur_name = u_name u, ur_role = u_role u, ur_isActive = u_isActive u,
      ur_timezone = u_timezone u, ur_inviteStatus = u_inviteStatus u, ur_lastInvitedAt = u_lastInvitedAt u,
      ur_activatedAt = u_activatedAt u, ur_criticalEventEmailsEnabled = u_criticalEventEmailsEnabled u,
      ur_enrollmentEmailsEnabled = u_enrollmentEmailsEnabled u, ur_mfaEnabled = u_mfaEnabled u,
      ur_createdAt = u_createdAt u, ur_updatedAt = u_updatedAt u\<rparr>"

section \<open>Helpers\<close>

definition normalizeUserEmail :: "string \<Rightarrow> http_error + string" where
  "normalizeUserEmail email =
     (let n = toLowerCase (trim email) in if n = [] then Inl (BadRequest ''Email is required.'') else Inr n)"

definition normalizeName :: "string \<Rightarrow> http_error + string" where
  "normalizeName name =
     (let n = trim name in
      if length n < 2 then Inl (BadRequest ''Name must be at least 2 characters.'') else Inr n)"

definition findByEmail :: "string \<Rightarrow> user option op" where
  "findByEmail email = readE (\<lambda>s. find_row (\<lambda>u. u_email u = trim (toLowerCase email)) (users s))"

definition findByEmailWithPassword :: "string \<Rightarrow> user option op" where
  "findByEmailWithPassword email = readE (\<lambda>s. find_row (\<lambda>u. toLowerCase (u_email u) = toLowerCase email) (users s))"

definition findByEmailCaseInsensitive :: "string \<Rightarrow> string \<Rightarrow> user option op" where
  "findByEmailCaseInsensitive email excludeUserId =
     readE (\<lambda>s. find_row (\<lambda>u. toLowerCase (u_email u) = toLowerCase email \<and>
                               (excludeUserId \<noteq> [] \<longrightarrow> u_id u \<noteq> excludeUserId)) (users s))"

definition findUserOrFail :: "string \<Rightarrow> user op" where
  "findUserOrFail i = findE users (\<lambda>u. u_id u = i) (NotFound (''User '' @ i @ '' was not found''))"

definition hashPassword :: "env \<Rightarrow> string \<Rightarrow> string op" where
  "hashPassword e password =
     bindE (readE drawn) (\<lambda>n. bindE (writeE (\<lambda>s. s\<lparr>drawn := Suc n\<rparr>)) (\<lambda>_. ret (e_hashSecret e n password)))"

definition saveUser :: "env \<Rightarrow> user \<Rightarrow> user \<Rightarrow> user op" where
  "saveUser e old new =
     (let saved = touched (\<lambda>t r. r\<lparr>u_updatedAt := t\<rparr>) (e_now e) old new
      in bindE (writeE (\<lambda>s. s\<lparr>users := save_row u_id saved (users s)\<rparr>)) (\<lambda>_. ret saved))"

definition user_audit :: "string \<Rightarrow> user \<Rightarrow> json_object option \<Rightarrow> audit_input" where
  "user_audit action u metadata =
     \<lparr>ai_scope = ''platform'', ai_workspaceId = None, ai_action = action, ai_targetType = ''user'',
      ai_targetId = Some (u_id u), ai_targetLabel = Some (u_email u), ai_changes = None, ai_metadata = metadata\<rparr>"

definition self_context :: "user \<Rightarrow> audit_context option" where
  "self_context u =
     Some \<lparr>ac_actorType = Some ''user'', ac_actorUserId = Some (u_id u), ac_actorEmailSnapshot = Some (u_email u),
           ac_ipAddress = None, ac_userAgent = None\<rparr>"

text \<open>\<open>manager.transaction\<close>: what the entity manager wrote is undone when the callback throws; the audit trail is written
  through another connection, and a mail that is sent stays sent.\<close>

definition transaction :: "'a op \<Rightarrow> 'a op" where
  "transaction m =
     (\<lambda>s. case m s of
            (Inl err, t) \<Rightarrow> (Inl err, t\<lparr>users := users s, invitations := invitations s, password_resets := password_resets s\<rparr>)
          | (Inr x, t) \<Rightarrow> (Inr x, t))"

section \<open>One-time tokens\<close>

text \<open>\<open>issueOpaqueToken\<close>: the token, its hash and its lookup hash.\<close>

definition createOpaqueTokenLookupHash :: "env \<Rightarrow> string \<Rightarrow> string" where
  "createOpaqueTokenLookupHash e token = e_sha256 e token"

definition verifyOpaqueToken :: "env \<Rightarrow> string \<Rightarrow> user_token \<Rightarrow> bool" where
  "verifyOpaqueToken e token t \<longleftrightarrow>
     createOpaqueTokenLookupHash e token = ut_tokenLookupHash t \<and> e_matchesSecret e token (ut_tokenHash t)"

definition issueOpaqueToken :: "env \<Rightarrow> (string \<times> string \<times> string) op" where
  "issueOpaqueToken e =
     bindE (fresh_token e) (\<lambda>token.
     bindE (hashPassword e token) (\<lambda>tokenHash.
     ret (token, tokenHash, createOpaqueTokenLookupHash e token)))"

text \<open>Invitations and password resets work alike; \<open>sel\<close> and \<open>upd\<close> choose the table.\<close>

definition revoke_pending :: "env \<Rightarrow> string \<Rightarrow> string option \<Rightarrow> user_token list \<Rightarrow> user_token list" where
  "revoke_pending e userId exclude rows =
     update_rows (\<lambda>t. ut_userId t = userId \<and> ut_status t = TK_PENDING \<and> exclude \<noteq> Some (ut_id t))
       (\<lambda>t. t\<lparr>ut_status := TK_REVOKED, ut_revokedAt := Some (e_now e), ut_updatedAt := e_now e\<rparr>) rows"

definition revokePendingInvitations :: "env \<Rightarrow> string \<Rightarrow> string option \<Rightarrow> unit op" where
  "revokePendingInvitations e userId exclude =
     writeE (\<lambda>s. s\<lparr>invitations := revoke_pending e userId exclude (invitations s)\<rparr>)"

definition revokePendingPasswordResetTokens :: "env \<Rightarrow> string \<Rightarrow> string option \<Rightarrow> unit op" where
  "revokePendingPasswordResetTokens e userId exclude =
     writeE (\<lambda>s. s\<lparr>password_resets := revoke_pending e userId exclude (password_resets s)\<rparr>)"

definition new_user_token :: "env \<Rightarrow> string \<Rightarrow> string \<Rightarrow> string option \<Rightarrow> string \<times> string \<times> string \<Rightarrow> int \<Rightarrow> user_token" where
  "new_user_token e i userId createdBy token expiresAt =
     \<lparr>ut_id = i, ut_userId = userId, ut_tokenLookupHash = snd (snd token), ut_tokenHash = fst (snd token),
      ut_status = TK_PENDING, ut_createdByUserId = createdBy, ut_expiresAt = expiresAt, ut_consumedAt = None,
      ut_revokedAt = None, ut_createdAt = e_now e, ut_updatedAt = e_now e\<rparr>"

definition createInvitationRecord :: "env \<Rightarrow> string \<Rightarrow> string option \<Rightarrow> int \<Rightarrow> (string \<times> int) op" where
  "createInvitationRecord e userId createdByUserId issuedAt =
     bindE (revokePendingInvitations e userId None) (\<lambda>_.
     bindE (issueOpaqueToken e) (\<lambda>token.
     let expiresAt = issuedAt + INVITATION_TTL_HOURS * 60 * 60 * 1000 in
     bindE (fresh_id e) (\<lambda>i.
     bindE (writeE (\<lambda>s. s\<lparr>invitations := invitations s @ [new_user_token e i userId createdByUserId token expiresAt]\<rparr>)) (\<lambda>_.
     ret (fst token, expiresAt)))))"

definition createPasswordResetRecord :: "env \<Rightarrow> string \<Rightarrow> int \<Rightarrow> (string \<times> int) op" where
  "createPasswordResetRecord e userId issuedAt =
     bindE (revokePendingPasswordResetTokens e userId None) (\<lambda>_.
     bindE (issueOpaqueToken e) (\<lambda>token.
     let expiresAt = issuedAt + PASSWORD_RESET_TTL_HOURS * 60 * 60 * 1000 in
     bindE (fresh_id e) (\<lambda>i.
     bindE (writeE (\<lambda>s. s\<lparr>password_resets := password_resets s @ [new_user_token e i userId None token expiresAt]\<rparr>)) (\<lambda>_.
     ret (fst token, expiresAt)))))"

definition findInvitationByTokenOrThrow :: "env \<Rightarrow> string \<Rightarrow> user_token op" where
  "findInvitationByTokenOrThrow e token =
     bindE (findE invitations (\<lambda>t. ut_tokenLookupHash t = createOpaqueTokenLookupHash e token)
              (NotFound ''Invitation token was not found.'')) (\<lambda>candidate.
     bindE (guardE (verifyOpaqueToken e token candidate) (NotFound ''Invitation token was not found.'')) (\<lambda>_.
     ret candidate))"

definition findPasswordResetTokenOrThrow :: "env \<Rightarrow> string \<Rightarrow> user_token op" where
  "findPasswordResetTokenOrThrow e token =
     bindE (findE password_resets (\<lambda>t. ut_tokenLookupHash t = createOpaqueTokenLookupHash e token)
              (NotFound ''Password reset token was not found.'')) (\<lambda>candidate.
     bindE (guardE (verifyOpaqueToken e token candidate) (NotFound ''Password reset token was not found.'')) (\<lambda>_.
     ret candidate))"

definition assertInvitationAvailable :: "env \<Rightarrow> user_token \<Rightarrow> unit op" where
  "assertInvitationAvailable e t =
     bindE (guardE (ut_status t \<noteq> TK_CONSUMED) (Conflict ''Invitation token has already been used.'')) (\<lambda>_.
     bindE (guardE (ut_status t \<noteq> TK_REVOKED) (Gone ''Invitation token has expired or was revoked.'')) (\<lambda>_.
     guardE (e_now e < ut_expiresAt t) (Gone ''Invitation token has expired or was revoked.'')))"

definition assertPasswordResetAvailable :: "env \<Rightarrow> user_token \<Rightarrow> unit op" where
  "assertPasswordResetAvailable e t =
     bindE (guardE (ut_status t \<noteq> TK_CONSUMED) (Conflict ''Password reset token has already been used.'')) (\<lambda>_.
     bindE (guardE (ut_status t \<noteq> TK_REVOKED) (Gone ''Password reset token has expired or was revoked.'')) (\<lambda>_.
     guardE (e_now e < ut_expiresAt t) (Gone ''Password reset token has expired or was revoked.'')))"

section \<open>Guards\<close>

definition active_admin :: "user \<Rightarrow> bool" where
  "active_admin u \<longleftrightarrow> u_role u = PLATFORM_ADMIN \<and> u_isActive u"

definition assertPlatformAdminRetention :: "user \<Rightarrow> user_role \<Rightarrow> bool \<Rightarrow> unit op" where
  "assertPlatformAdminRetention u nextRole nextIsActive =
     (if u_role u \<noteq> PLATFORM_ADMIN \<or> \<not> u_isActive u \<or> nextRole = PLATFORM_ADMIN \<and> nextIsActive then ret ()
      else bindE (readE (\<lambda>s. count_rows active_admin (users s))) (\<lambda>n.
           guardE (1 < n) (Conflict ''At least one active platform admin must remain.'')))"

definition assertSelfMutationAllowed :: "actor \<Rightarrow> user \<Rightarrow> user_role \<Rightarrow> bool \<Rightarrow> unit op" where
  "assertSelfMutationAllowed a u nextRole nextIsActive =
     (if a_id a \<noteq> u_id u then ret ()
      else bindE (guardE nextIsActive (BadRequest ''You cannot deactivate your own account.'')) (\<lambda>_.
           guardE (nextRole = PLATFORM_ADMIN) (BadRequest ''You cannot downgrade your own platform admin role.'')))"

definition assertSelfDeletionAllowed :: "actor \<Rightarrow> user \<Rightarrow> unit op" where
  "assertSelfDeletionAllowed a u = guardE (a_id a \<noteq> u_id u) (BadRequest ''You cannot delete your own account.'')"

definition assertDeletable :: "user \<Rightarrow> unit op" where
  "assertDeletable u =
     bindE (readE (\<lambda>s. (count_rows (\<lambda>m. m_userId m = u_id u) (memberships s),
                         count_rows (\<lambda>m. tmm_userId m = u_id u) (team_memberships s),
                         count_rows (\<lambda>t. st_ownerUserId t = Some (u_id u)) (scheduled_tasks s)))) (\<lambda>(w, t, k).
     bindE (guardE (w = 0) (Conflict ''Remove this user from all workspaces before deleting the account.'')) (\<lambda>_.
     bindE (guardE (t = 0) (Conflict ''Remove this user from all teams before deleting the account.'')) (\<lambda>_.
     guardE (k = 0) (Conflict ''Delete or reassign this user's scheduled tasks before deleting the account.''))))"


section \<open>Operations\<close>

definition new_user :: "env \<Rightarrow> string \<Rightarrow> string \<Rightarrow> string \<Rightarrow> user_role \<Rightarrow> user" where
  "new_user e i email name role =
     \<lparr>u_id = i, u_email = email, u_name = name, u_role = role, u_isActive = False, u_inviteStatus = INVITE_PENDING,
      u_passwordHash = None, u_timezone = DEFAULT_TIMEZONE, u_lastInvitedAt = Some (e_now e), u_activatedAt = None,
      u_criticalEventEmailsEnabled = True, u_enrollmentEmailsEnabled = True, u_sessionVersion = 0,
      u_mfaEnabled = False, u_mfaSecretEncrypted = None, u_mfaPendingSecretEncrypted = None,
      u_mfaRecoveryCodes = None, u_mfaEnabledAt = None, u_createdAt = e_now e, u_updatedAt = e_now e\<rparr>"

definition createUser :: "env \<Rightarrow> mail_env \<Rightarrow> actor \<Rightarrow> create_user_dto \<Rightarrow> user_response op" where
  "createUser e me a dto =
     bindE (liftE (normalizeUserEmail (cu_email dto))) (\<lambda>email.
     bindE (findByEmail email) (\<lambda>existing.
     bindE (guardE (existing = None) (Conflict ''A user with this email already exists'')) (\<lambda>_.
     bindE (transaction
       (bindE (liftE (normalizeName (cu_name dto))) (\<lambda>name.
        bindE (fresh_id e) (\<lambda>i.
        let user = new_user e i email name (orElse (cu_role dto) USER) in
        bindE (writeE (\<lambda>s. s\<lparr>users := users s @ [user]\<rparr>)) (\<lambda>_.
        bindE (createInvitationRecord e (u_id user) (Some (a_id a)) (e_now e)) (\<lambda>(token, expiresAt).
        bindE (sendUserInvitation me (u_email user) (u_name user) token expiresAt) (\<lambda>_.
        ret user))))))) (\<lambda>createdUser.
     bindE (recordAudit e (user_audit ''user.created'' createdUser (Some [(''role'', JStr (user_role_str (u_role createdUser)))]))
              (user_context a)) (\<lambda>_.
     ret (toResponse createdUser))))))"

text \<open>The answer is the expiry date of the new invitation. The update does not load the row again.\<close>

definition resendInvite :: "env \<Rightarrow> mail_env \<Rightarrow> actor \<Rightarrow> string \<Rightarrow> int op" where
  "resendInvite e me a userId =
     bindE (findUserOrFail userId) (\<lambda>user.
     bindE (guardE (\<not> (u_inviteStatus user = INVITE_ACCEPTED \<and> u_activatedAt user \<noteq> None))
              (Conflict ''Only pending invited users can receive another invitation.'')) (\<lambda>_.
     transaction
       (bindE (writeE (\<lambda>s. s\<lparr>users := update_rows (\<lambda>u. u_id u = u_id user)
            (\<lambda>u. u\<lparr>u_inviteStatus := INVITE_PENDING, u_lastInvitedAt := Some (e_now e), u_updatedAt := e_now e\<rparr>) (users s)\<rparr>)) (\<lambda>_.
        bindE (createInvitationRecord e (u_id user) (Some (a_id a)) (e_now e)) (\<lambda>(token, expiresAt).
        bindE (sendUserInvitation me (u_email user) (u_name user) token expiresAt) (\<lambda>_.
        bindE (recordAudit e (user_audit ''user.invitation.resent'' user None) (user_context a)) (\<lambda>_.
        ret expiresAt)))))))"

definition listUsers :: "user_response list op" where
  "listUsers = readE (\<lambda>s. map toResponse (sort_key (\<lambda>u. - u_createdAt u) (users s)))"

definition checked_email :: "string \<Rightarrow> user \<Rightarrow> string op" where
  "checked_email email user =
     bindE (liftE (normalizeUserEmail email)) (\<lambda>email.
     bindE (findByEmailCaseInsensitive email (u_id user)) (\<lambda>existing.
     bindE (guardE (existing = None) (Conflict ''A user with this email already exists'')) (\<lambda>_.
     ret email)))"

definition activity_change :: "env \<Rightarrow> user_role \<Rightarrow> bool \<Rightarrow> user \<Rightarrow> user" where
  "activity_change e nextRole nextIsActive u =
     u\<lparr>u_sessionVersion := (if nextRole \<noteq> u_role u \<or> nextIsActive \<noteq> u_isActive u then u_sessionVersion u + 1
                            else u_sessionVersion u),
       u_isActive := nextIsActive,
       u_activatedAt := (if nextIsActive \<and> u_inviteStatus u = INVITE_ACCEPTED \<and> u_activatedAt u = None
                         then Some (e_now e) else u_activatedAt u),
       u_role := nextRole\<rparr>"

definition updateUser :: "env \<Rightarrow> actor \<Rightarrow> string \<Rightarrow> update_user_dto \<Rightarrow> user_response op" where
  "updateUser e a userId dto =
     bindE (findUserOrFail userId) (\<lambda>user.
     let nextRole = orElse (uu_role dto) (u_role user);
         nextIsActive = orElse (uu_isActive dto) (u_isActive user)
     in bindE (assertPlatformAdminRetention user nextRole nextIsActive) (\<lambda>_.
        bindE (assertSelfMutationAllowed a user nextRole nextIsActive) (\<lambda>_.
        bindE (case uu_email dto of None \<Rightarrow> ret (u_email user) | Some m \<Rightarrow> checked_email m user) (\<lambda>email.
        bindE (case uu_name dto of None \<Rightarrow> ret (u_name user) | Some n \<Rightarrow> liftE (normalizeName n)) (\<lambda>name.
        bindE (guardE (\<not> (nextIsActive \<and> u_inviteStatus user \<noteq> INVITE_ACCEPTED))
                 (Conflict ''Pending invited users can only become active after accepting their invitation.'')) (\<lambda>_.
        bindE (saveUser e user (activity_change e nextRole nextIsActive (user\<lparr>u_email := email, u_name := name\<rparr>))) (\<lambda>saved.
        bindE (recordAudit e (user_audit ''user.updated'' saved
                 (Some [(''role'', JStr (user_role_str (u_role saved))), (''isActive'', JBool (u_isActive saved))]))
                 (user_context a)) (\<lambda>_.
        ret (toResponse saved)))))))))"

text \<open>What \<open>ON DELETE\<close> does to the rows of a user: invitations, resets, memberships and linked identities go, schedules and workspaces
  lose their owner.\<close>

definition cascade_user :: "string \<Rightarrow> db \<Rightarrow> db" where
  "cascade_user i s =
     s\<lparr>users := delete_rows (\<lambda>u. u_id u = i) (users s),
       invitations := delete_rows (\<lambda>t. ut_userId t = i) (invitations s),
       password_resets := delete_rows (\<lambda>t. ut_userId t = i) (password_resets s),
       oidc_identities := delete_rows (\<lambda>x. oi_userId x = i) (oidc_identities s),
       memberships := delete_rows (\<lambda>m. m_userId m = i) (memberships s),
       team_memberships := delete_rows (\<lambda>m. tmm_userId m = i) (team_memberships s),
       scheduled_tasks := update_rows (\<lambda>t. st_ownerUserId t = Some i) (\<lambda>t. t\<lparr>st_ownerUserId := None\<rparr>) (scheduled_tasks s),
       workspaces := update_rows (\<lambda>w. w_createdByUserId w = Some i) (\<lambda>w. w\<lparr>w_createdByUserId := None\<rparr>) (workspaces s)\<rparr>"

definition deleteUser :: "env \<Rightarrow> actor \<Rightarrow> string \<Rightarrow> string op" where
  "deleteUser e a userId =
     bindE (findUserOrFail userId) (\<lambda>user.
     bindE (assertPlatformAdminRetention user USER False) (\<lambda>_.
     bindE (assertSelfDeletionAllowed a user) (\<lambda>_.
     bindE (assertDeletable user) (\<lambda>_.
     bindE (writeE (cascade_user (u_id user))) (\<lambda>_.
     bindE (recordAudit e (user_audit ''user.deleted'' user None) (user_context a)) (\<lambda>_.
     ret (u_id user)))))))"

definition updatePreferences :: "env \<Rightarrow> string \<Rightarrow> preferences_dto \<Rightarrow> user_response op" where
  "updatePreferences e userId dto =
     bindE (findUserOrFail userId) (\<lambda>user.
     bindE (case up_timezone dto of
              None \<Rightarrow> ret (u_timezone user)
            | Some z \<Rightarrow> bindE (liftE (assertValidTimeZone e z)) (\<lambda>tz.
                         bindE (guardE (tz \<noteq> []) (BadRequest ''Timezone is required.'')) (\<lambda>_. ret tz))) (\<lambda>timezone.
     let changed = user\<lparr>u_timezone := timezone,
                        u_criticalEventEmailsEnabled :=
                          orElse (up_criticalEventEmailsEnabled dto) (u_criticalEventEmailsEnabled user),
                        u_enrollmentEmailsEnabled :=
                          orElse (up_enrollmentEmailsEnabled dto) (u_enrollmentEmailsEnabled user)\<rparr>
     in if changed = user then ret (toResponse user)
        else bindE (saveUser e user changed) (\<lambda>saved.
             bindE (recordAudit e (user_audit ''user.preferences.updated'' saved
                      (Some [(''timezone'', JStr (u_timezone saved)),
                             (''criticalEventEmailsEnabled'', JBool (u_criticalEventEmailsEnabled saved)),
                             (''enrollmentEmailsEnabled'', JBool (u_enrollmentEmailsEnabled saved))]))
                      (self_context saved)) (\<lambda>_.
             ret (toResponse saved)))))"

definition changePassword :: "env \<Rightarrow> string \<Rightarrow> string \<Rightarrow> string \<Rightarrow> unit op" where
  "changePassword e userId currentPassword newPassword =
     bindE (findUserOrFail userId) (\<lambda>user.
     bindE (guardE (truthy (u_passwordHash user))
              (BadRequest ''This account must finish invitation activation before changing the password.'')) (\<lambda>_.
     bindE (guardE (e_matchesSecret e currentPassword (the (u_passwordHash user)))
              (Unauthorized ''Current password is incorrect.'')) (\<lambda>_.
     bindE (hashPassword e newPassword) (\<lambda>h.
     bindE (saveUser e user (user\<lparr>u_passwordHash := Some h, u_sessionVersion := u_sessionVersion user + 1\<rparr>)) (\<lambda>saved.
     bindE (recordAudit e (user_audit ''user.password.changed'' saved None) (self_context saved)) (\<lambda>_.
     ret ()))))))"

text \<open>Email, name and expiry date; email and expiry date.\<close>

definition getInvitationPreview :: "env \<Rightarrow> string \<Rightarrow> (string \<times> string \<times> int) op" where
  "getInvitationPreview e token =
     bindE (findInvitationByTokenOrThrow e token) (\<lambda>invitation.
     bindE (assertInvitationAvailable e invitation) (\<lambda>_.
     bindE (findUserOrFail (ut_userId invitation)) (\<lambda>user.
     ret (u_email user, u_name user, ut_expiresAt invitation))))"

definition consume_token :: "env \<Rightarrow> user_token \<Rightarrow> user_token" where
  "consume_token e t = t\<lparr>ut_status := TK_CONSUMED, ut_consumedAt := Some (e_now e), ut_updatedAt := e_now e\<rparr>"

definition acceptInvitation :: "env \<Rightarrow> string \<Rightarrow> string \<Rightarrow> unit op" where
  "acceptInvitation e token password =
     transaction
       (bindE (findInvitationByTokenOrThrow e token) (\<lambda>invitation.
        bindE (assertInvitationAvailable e invitation) (\<lambda>_.
        bindE (findUserOrFail (ut_userId invitation)) (\<lambda>user.
        bindE (guardE (\<not> (u_inviteStatus user = INVITE_ACCEPTED \<and> u_activatedAt user \<noteq> None))
                 (Conflict ''Invitation token has already been used.'')) (\<lambda>_.
        bindE (hashPassword e password) (\<lambda>h.
        bindE (saveUser e user (user\<lparr>u_passwordHash := Some h, u_isActive := True, u_inviteStatus := INVITE_ACCEPTED,
                 u_activatedAt := Some (e_now e), u_sessionVersion := u_sessionVersion user + 1\<rparr>)) (\<lambda>_.
        bindE (writeE (\<lambda>s. s\<lparr>invitations := save_row ut_id (consume_token e invitation) (invitations s)\<rparr>)) (\<lambda>_.
        revokePendingInvitations e (u_id user) (Some (ut_id invitation))))))))))"

definition requestPasswordReset :: "env \<Rightarrow> mail_env \<Rightarrow> string \<Rightarrow> unit op" where
  "requestPasswordReset e me email =
     bindE (findByEmailWithPassword email) (\<lambda>found.
     (case found of
        None \<Rightarrow> ret ()
      | Some user \<Rightarrow>
          (if \<not> u_isActive user \<or> u_inviteStatus user \<noteq> INVITE_ACCEPTED \<or> \<not> truthy (u_passwordHash user) then ret ()
           else transaction
             (bindE (createPasswordResetRecord e (u_id user) (e_now e)) (\<lambda>(token, expiresAt).
              sendPasswordReset me (u_email user) (u_name user) token expiresAt)))))"

definition getPasswordResetPreview :: "env \<Rightarrow> string \<Rightarrow> (string \<times> int) op" where
  "getPasswordResetPreview e token =
     bindE (findPasswordResetTokenOrThrow e token) (\<lambda>reset.
     bindE (assertPasswordResetAvailable e reset) (\<lambda>_.
     bindE (findUserOrFail (ut_userId reset)) (\<lambda>user.
     ret (u_email user, ut_expiresAt reset))))"

definition resetPassword :: "env \<Rightarrow> string \<Rightarrow> string \<Rightarrow> unit op" where
  "resetPassword e token password =
     transaction
       (bindE (findPasswordResetTokenOrThrow e token) (\<lambda>reset.
        bindE (assertPasswordResetAvailable e reset) (\<lambda>_.
        bindE (findUserOrFail (ut_userId reset)) (\<lambda>user.
        bindE (guardE (u_isActive user \<and> u_inviteStatus user = INVITE_ACCEPTED)
                 (Conflict ''Only active accepted accounts can reset their password.'')) (\<lambda>_.
        bindE (hashPassword e password) (\<lambda>h.
        bindE (saveUser e user (user\<lparr>u_passwordHash := Some h, u_sessionVersion := u_sessionVersion user + 1\<rparr>)) (\<lambda>_.
        bindE (writeE (\<lambda>s. s\<lparr>password_resets := save_row ut_id (consume_token e reset) (password_resets s)\<rparr>)) (\<lambda>_.
        revokePendingPasswordResetTokens e (u_id user) (Some (ut_id reset))))))))))"

text \<open>The bootstrap configuration: whether to seed, email, name and password.\<close>

definition ensureDefaultAdmin :: "env \<Rightarrow> bool \<Rightarrow> string \<Rightarrow> string \<Rightarrow> string \<Rightarrow> unit op" where
  "ensureDefaultAdmin e seedDefaultAdmin adminEmail adminName adminPassword =
     (if \<not> seedDefaultAdmin then ret ()
      else bindE (readE (\<lambda>s. find_row (\<lambda>u. u_email u = toLowerCase adminEmail) (users s))) (\<lambda>existing.
           if existing \<noteq> None then ret ()
           else bindE (hashPassword e adminPassword) (\<lambda>h.
                bindE (fresh_id e) (\<lambda>i.
                writeE (\<lambda>s. s\<lparr>users := users s @ [(new_user e i (toLowerCase adminEmail) adminName PLATFORM_ADMIN)
                  \<lparr>u_passwordHash := Some h, u_isActive := True, u_inviteStatus := INVITE_ACCEPTED,
                   u_lastInvitedAt := None, u_activatedAt := Some (e_now e)\<rparr>]\<rparr>)))))"


section \<open>What the tables promise\<close>

text \<open>An accepted account has a password and an activation date, an active one is accepted, emails are in lower case, and the
  columns of the second factor are set together.\<close>

definition user_ok :: "user \<Rightarrow> bool" where
  "user_ok x \<longleftrightarrow> (u_inviteStatus x = INVITE_ACCEPTED) = (u_passwordHash x \<noteq> None) \<and>
     (u_inviteStatus x = INVITE_ACCEPTED) = (u_activatedAt x \<noteq> None) \<and>
     (u_isActive x \<longrightarrow> u_inviteStatus x = INVITE_ACCEPTED) \<and> toLowerCase (u_email x) = u_email x \<and>
     u_mfaEnabled x = (u_mfaSecretEncrypted x \<noteq> None) \<and> u_mfaEnabled x = (u_mfaEnabledAt x \<noteq> None) \<and>
     u_mfaEnabled x = (u_mfaRecoveryCodes x \<noteq> None)"

text \<open>What decides whether and as what a user gets in; whenever it changes, the session version grows.\<close>

definition credential :: "user \<Rightarrow> string option \<times> user_role \<times> bool \<times> bool \<times> string option" where
  "credential x = (u_passwordHash x, u_role x, u_isActive x, u_mfaEnabled x, u_mfaSecretEncrypted x)"

definition user_follows :: "user \<Rightarrow> user \<Rightarrow> bool" where
  "user_follows x y \<longleftrightarrow> u_id y = u_id x \<and> u_sessionVersion x \<le> u_sessionVersion y \<and>
     (credential y \<noteq> credential x \<longrightarrow> u_sessionVersion x < u_sessionVersion y)"

definition token_ok :: "user_token \<Rightarrow> bool" where
  "token_ok t \<longleftrightarrow> (ut_status t = TK_CONSUMED) = (ut_consumedAt t \<noteq> None) \<and> (ut_status t = TK_REVOKED) = (ut_revokedAt t \<noteq> None)"

definition token_follows :: "user_token \<Rightarrow> user_token \<Rightarrow> bool" where
  "token_follows x y \<longleftrightarrow> ut_id y = ut_id x \<and> ut_userId y = ut_userId x \<and> ut_tokenLookupHash y = ut_tokenLookupHash x \<and>
     ut_tokenHash y = ut_tokenHash x \<and> (ut_status x \<noteq> TK_PENDING \<longrightarrow> ut_status y = ut_status x)"

lemma follows_preorder [simp]:
  "user_follows x x" "token_follows y y"
  by (simp_all add: user_follows_def token_follows_def)

lemma follows_transp [simp]: "transp user_follows" "transp token_follows"
  by (auto simp: transp_def user_follows_def token_follows_def)

subsection \<open>Tables whose rows are followed from a start\<close>

text \<open>\<open>old\<close> is the table at the start, of which rows may have been changed within \<open>F\<close> or deleted; identifiers are never reused.\<close>

definition tracked ::
  "(nat \<Rightarrow> string) \<Rightarrow> nat \<Rightarrow> ('r \<Rightarrow> string) \<Rightarrow> ('r \<Rightarrow> 'r \<Rightarrow> bool) \<Rightarrow> 'r list \<Rightarrow> 'r list \<Rightarrow> bool" where
  "tracked u n key F old rows \<longleftrightarrow> drawn_ids u n (map key rows) \<and> (\<forall>x \<in> set old. \<exists>k < n. key x = u k) \<and>
     (\<forall>x \<in> set old. \<forall>y \<in> set rows. key x = key y \<longrightarrow> F x y)"

lemma tracked_start:
  assumes "drawn_ids u n (map key rows)" "\<And>x. F x x"
  shows "tracked u n key F rows rows"
proof -
  have "F x y" if "x \<in> set rows" "y \<in> set rows" "key x = key y" for x y
    using assms that by (metis drawn_ids_def distinct_map inj_on_def)
  then show ?thesis using assms(1) by (auto simp: tracked_def drawn_ids_def)
qed

lemma tracked_distinct: "tracked u n key F old rows \<Longrightarrow> distinct (map key rows)"
  by (simp add: tracked_def drawn_ids_def)

text \<open>Saving by either of two keys is the same when both are unique.\<close>

lemma save_row_same_key:
  assumes "distinct (map k rows)" "distinct (map l rows)" "x \<in> set rows" "k r = k x" "l r = l x"
  shows "save_row k r rows = save_row l r rows"
proof -
  obtain xs ys where split: "rows = xs @ x # ys" using assms(3) by (meson split_list)
  have "save_row k r (xs @ x # ys) = xs @ r # ys" "save_row l r (xs @ x # ys) = xs @ r # ys"
    using assms by (auto intro!: save_row_split simp: split)
  then show ?thesis by (simp add: split)
qed

lemma tracked_later: "tracked u n key F old rows \<Longrightarrow> n \<le> n' \<Longrightarrow> tracked u n' key F old rows"
  unfolding tracked_def by (meson drawn_ids_Suc less_le_trans)

lemma tracked_save:
  assumes "tracked u n key F old rows" "x \<in> set rows" "key r = key x" "F x r" "transp F"
  shows "tracked u n key F old (save_row key r rows)"
proof -
  have "map key (save_row key r rows) = map key rows" using assms(2,3) by (auto simp: map_key_save_row)
  moreover have "F z r" if "z \<in> set old" "key z = key r" for z
    using that assms unfolding tracked_def by (metis transpD)
  ultimately show ?thesis using assms(1) by (auto simp: tracked_def set_save_row)
qed

lemma tracked_update:
  assumes "tracked u n key F old rows" "\<And>r. p r \<Longrightarrow> key (f r) = key r \<and> F r (f r)" "transp F"
  shows "tracked u n key F old (update_rows p f rows)"
proof -
  have "map key (update_rows p f rows) = map key rows" using assms(2) by (auto intro: map_update_rows)
  moreover have "F z (f r)" if "z \<in> set old" "r \<in> set rows" "key z = key r" "p r" for z r
    using that assms unfolding tracked_def by (metis transpD)
  ultimately show ?thesis using assms(1,2) by (auto simp: tracked_def set_update_rows)
qed

lemma tracked_delete: "tracked u n key F old rows \<Longrightarrow> tracked u n key F old (delete_rows p rows)"
  by (auto simp: tracked_def drawn_ids_filter)

lemma tracked_add:
  assumes "tracked u n key F old rows" "inj u" "n \<le> k" "k < n'" "key r = u k"
  shows "tracked u n' key F old (rows @ [r])"
proof -
  have "drawn_ids u n' (map key rows @ [u k])" using assms by (intro drawn_ids_fresh(2)) (auto simp: tracked_def)
  moreover have "key x \<noteq> u k" if "x \<in> set old" for x
    using that assms unfolding tracked_def by (metis injD not_le)
  moreover have "\<exists>k < n'. key x = u k" if "x \<in> set old" for x
    using that assms(1,3,4) unfolding tracked_def by (meson less_le_trans less_imp_le)
  ultimately show ?thesis using assms(1,5) by (auto simp: tracked_def)
qed

subsection \<open>The invariant\<close>

definition users_ok :: "user list \<Rightarrow> bool" where
  "users_ok rows \<longleftrightarrow> distinct (map u_email rows) \<and> (\<forall>x \<in> set rows. user_ok x)"

definition pending_of :: "string \<Rightarrow> user_token \<Rightarrow> bool" where
  "pending_of i t \<longleftrightarrow> ut_userId t = i \<and> ut_status t = TK_PENDING"

definition tokens_ok :: "(nat \<Rightarrow> string) \<Rightarrow> nat \<Rightarrow> user_token list \<Rightarrow> user_token list \<Rightarrow> bool" where
  "tokens_ok h n old rows \<longleftrightarrow> tracked h n ut_tokenLookupHash token_follows old rows \<and> (\<forall>t \<in> set rows. token_ok t) \<and>
     (\<forall>i. count_rows (pending_of i) rows \<le> 1)"

definition has_admin :: "db \<Rightarrow> bool" where
  "has_admin s \<longleftrightarrow> (\<exists>x \<in> set (users s). active_admin x)"

text \<open>\<open>u\<close> is the stream of identifiers, \<open>h\<close> that of the lookup hashes of the tokens drawn, \<open>old\<close> the state at the start.\<close>

definition accounts_inv :: "(nat \<Rightarrow> string) \<Rightarrow> (nat \<Rightarrow> string) \<Rightarrow> db \<Rightarrow> db \<Rightarrow> bool" where
  "accounts_inv u h old s \<longleftrightarrow>
     tracked u (drawn s) u_id user_follows (users old) (users s) \<and> users_ok (users s) \<and> (has_admin old \<longrightarrow> has_admin s) \<and>
     tracked u (drawn s) ut_id token_follows (invitations old) (invitations s) \<and> tokens_ok h (drawn s) (invitations old) (invitations s) \<and>
     tracked u (drawn s) ut_id token_follows (password_resets old) (password_resets s) \<and> tokens_ok h (drawn s) (password_resets old) (password_resets s)"

lemma tokens_ok_later: "tokens_ok h n old rows \<Longrightarrow> n \<le> n' \<Longrightarrow> tokens_ok h n' old rows"
  by (auto simp: tokens_ok_def intro: tracked_later)

lemma tracked_revoke:
  "tracked u n key token_follows old rows \<Longrightarrow> key = ut_id \<or> key = ut_tokenLookupHash \<Longrightarrow>
     tracked u n key token_follows old (revoke_pending e i exclude rows)"
  unfolding revoke_pending_def by (rule tracked_update) (auto simp: token_follows_def)

lemma tokens_ok_revoke: "tokens_ok h n old rows \<Longrightarrow> tokens_ok h n old (revoke_pending e i exclude rows)"
  unfolding revoke_pending_def tokens_ok_def
proof (intro conjI allI; (elim conjE)?)
  fix j assume "\<forall>i. count_rows (pending_of i) rows \<le> 1"
  then have "count_rows (pending_of j) rows \<le> 1" ..
  then show "count_rows (pending_of j) (update_rows (\<lambda>t. ut_userId t = i \<and> ut_status t = TK_PENDING \<and> exclude \<noteq> Some (ut_id t))
      (\<lambda>t. t\<lparr>ut_status := TK_REVOKED, ut_revokedAt := Some (e_now e), ut_updatedAt := e_now e\<rparr>) rows) \<le> 1"
    by (rule order_trans[OF count_update_le, rotated]) (simp add: pending_of_def)
qed (auto simp: set_update_rows token_ok_def tracked_revoke[unfolded revoke_pending_def])

lemma revoke_none_pending: "count_rows (pending_of i) (revoke_pending e i None rows) = 0"
  by (simp add: count_rows_def revoke_pending_def update_rows_def pending_of_def filter_empty_conv)

lemma tokens_ok_add:
  assumes "tokens_ok h n old rows" "inj h" "n \<le> k" "k < n'" "ut_tokenLookupHash r = h k" "token_ok r"
    "count_rows (pending_of (ut_userId r)) rows = 0"
  shows "tokens_ok h n' old (rows @ [r])"
proof -
  have "tracked h n' ut_tokenLookupHash token_follows old (rows @ [r])"
    using assms(1-5) by (intro tracked_add[where n = n and k = k]) (simp_all add: tokens_ok_def)
  moreover have "count_rows (pending_of i) (rows @ [r]) \<le> 1" for i
    using assms(1,7) by (auto simp: tokens_ok_def count_rows_def pending_of_def)
  ultimately show ?thesis using assms(1,6) by (auto simp: tokens_ok_def)
qed

lemma tokens_ok_consume:
  assumes "tokens_ok h n old rows" "distinct (map ut_id rows)" "t \<in> set rows" "ut_status t = TK_PENDING"
  shows "tokens_ok h n old (save_row ut_id (consume_token e t) rows)"
proof -
  have key: "ut_id (consume_token e t) = ut_id t" by (simp add: consume_token_def)
  have "count_rows (pending_of i) (save_row ut_id (consume_token e t) rows) \<le> 1" for i
  proof -
    have "count_rows (pending_of i) (save_row ut_id (consume_token e t) rows) \<le> count_rows (pending_of i) rows"
      using assms(3) by (intro count_save_le) (auto simp: key pending_of_def, simp add: consume_token_def)
    also have "\<dots> \<le> 1" using assms(1) by (simp add: tokens_ok_def)
    finally show ?thesis .
  qed
  moreover have "tracked h n ut_tokenLookupHash token_follows old (save_row ut_id (consume_token e t) rows)"
  proof -
    have same: "save_row ut_id (consume_token e t) rows = save_row ut_tokenLookupHash (consume_token e t) rows"
      using assms(1,2,3) by (intro save_row_same_key[where x = t]) (auto simp: tokens_ok_def tracked_distinct key, simp add: consume_token_def)
    show ?thesis unfolding same using assms(1,3,4)
      by (intro tracked_save[where x = t]) (simp_all add: tokens_ok_def consume_token_def token_follows_def)
  qed
  moreover have "token_ok (consume_token e t)" using assms by (auto simp: token_ok_def consume_token_def tokens_ok_def)
  ultimately show ?thesis using assms(1) by (simp add: tokens_ok_def set_save_row)
qed

lemma tracked_consume:
  assumes "tracked u n ut_id token_follows old rows" "t \<in> set rows" "ut_status t = TK_PENDING"
  shows "tracked u n ut_id token_follows old (save_row ut_id (consume_token e t) rows)"
  using assms by (intro tracked_save[where x = t]) (simp_all add: consume_token_def token_follows_def)

subsection \<open>Handlers that leave the accounts alone\<close>

definition beside_rel :: "db \<Rightarrow> db \<Rightarrow> bool" where
  "beside_rel s t \<longleftrightarrow> users t = users s \<and> invitations t = invitations s \<and> password_resets t = password_resets s \<and>
     drawn s \<le> drawn t"

interpretation beside: effect_order beside_rel
  by unfold_locales (auto simp: beside_rel_def)

lemma beside_outputs: "outputs m \<Longrightarrow> beside.confined m"
  unfolding beside.confined_def beside_rel_def outputs_def by (metis core_eqD(5,11,12))

lemma beside_hashPassword [simp]: "beside.confined (hashPassword e p)"
  by (simp add: beside.confined_def hashPassword_def beside_rel_def)

lemma beside_mail [simp]: "beside.confined (sendUserInvitation me email name token t)"
  "beside.confined (sendPasswordReset me email name token t)"
  by (simp_all add: sendUserInvitation_def sendPasswordReset_def beside_outputs)

lemma beside_recordAudit [simp]: "beside.confined (recordAudit e inp ctx)"
  by (simp add: beside_outputs)

definition account_fact :: "(db \<Rightarrow> bool) \<Rightarrow> bool" where
  "account_fact P \<longleftrightarrow> (\<forall>s t. P s \<and> beside_rel s t \<longrightarrow> P t)"

lemma accounts_inv_beside: "accounts_inv u h old s \<Longrightarrow> beside_rel s t \<Longrightarrow> accounts_inv u h old t"
  unfolding accounts_inv_def beside_rel_def has_admin_def by (auto intro: tracked_later tokens_ok_later)

lemma account_fact_inv [simp]: "account_fact (accounts_inv u h old)"
  unfolding account_fact_def using accounts_inv_beside by blast

lemma account_fact_rows [simp]:
  "account_fact (\<lambda>s. accounts_inv u h old s \<and> x \<in> set (users s))"
  "account_fact (\<lambda>s. accounts_inv u h old s \<and> t \<in> set (invitations s) \<and> x \<in> set (users s))"
  "account_fact (\<lambda>s. accounts_inv u h old s \<and> t \<in> set (password_resets s) \<and> x \<in> set (users s))"
  using account_fact_inv[of u h old] unfolding account_fact_def by (simp_all add: beside_rel_def) metis+

lemma leads_after_beside:
  "account_fact P \<Longrightarrow> beside.confined m \<Longrightarrow> (\<And>s. P s \<Longrightarrow> Q s) \<Longrightarrow> (\<And>x. leads P (f x) Q) \<Longrightarrow> leads P (bindE m f) Q"
  unfolding account_fact_def beside.confined_def by (rule leads_seq[where R = P]) (auto simp: leads_def)

lemma leads_beside: "account_fact P \<Longrightarrow> beside.confined m \<Longrightarrow> (\<And>s. P s \<Longrightarrow> Q s) \<Longrightarrow> leads P m Q"
  unfolding account_fact_def beside.confined_def leads_def by blast

text \<open>A transaction that fails restores the accounts; identifiers stay drawn.\<close>

interpretation drawing: effect_order "\<lambda>s t. drawn s \<le> drawn t"
  by unfold_locales auto

lemma drawing_beside: "beside.confined m \<Longrightarrow> drawing.confined m"
  by (simp add: beside.confined_def drawing.confined_def beside_rel_def)

lemma drawing_saveUser [simp]: "drawing.confined (saveUser e x y)"
  by (simp add: drawing.confined_def saveUser_def Let_def)

lemma drawing_fresh [simp]: "drawing.confined (fresh_id e)" "drawing.confined (fresh_token e)"
  by (simp_all add: drawing.confined_def fresh_token_def)

lemma drawing_hashPassword [simp]: "drawing.confined (hashPassword e p)"
  and drawing_mail [simp]: "drawing.confined (sendUserInvitation me email name token t)"
    "drawing.confined (sendPasswordReset me email name token t)"
  and drawing_recordAudit [simp]: "drawing.confined (recordAudit e inp ctx)"
  by (simp_all add: drawing_beside)

lemma drawing_records [simp]:
  "drawing.confined (createInvitationRecord e i c t)" "drawing.confined (createPasswordResetRecord e i t)"
  unfolding createInvitationRecord_def createPasswordResetRecord_def revokePendingInvitations_def issueOpaqueToken_def
    revokePendingPasswordResetTokens_def Let_def
  by (auto intro!: drawing.confined_rules drawing.confined_writeE) (simp_all add: drawing.confined_def)

lemma leads_transaction:
  assumes "leads P m Q" "drawing.confined m" "account_fact P" "\<And>s. P s \<Longrightarrow> Q s"
  shows "leads P (transaction m) Q"
  unfolding leads_def
proof (intro allI impI)
  fix s assume s: "P s"
  show "Q (after (transaction m) s)"
  proof (cases m s rule: handler_cases)
    case (error err t)
    then have "beside_rel s (t\<lparr>users := users s, invitations := invitations s, password_resets := password_resets s\<rparr>)"
      using assms(2) by (simp add: drawing.confined_def beside_rel_def) (metis snd_conv)
    then show ?thesis using assms(3,4) s error by (auto simp: transaction_def account_fact_def)
  next
    case (result x t)
    then show ?thesis using leadsD[OF assms(1) s] by (simp add: transaction_def)
  qed
qed

subsection \<open>Saving\<close>

lemma has_admin_save:
  assumes "has_admin s" "x \<in> set (users s)" "u_id r = u_id x"
    "active_admin x \<Longrightarrow> active_admin r \<or> (\<exists>y \<in> set (users s). u_id y \<noteq> u_id x \<and> active_admin y)"
    "distinct (map u_id (users s))"
  shows "has_admin (s\<lparr>users := save_row u_id r (users s)\<rparr>)"
proof -
  obtain a where a: "a \<in> set (users s)" "active_admin a" using assms(1) by (auto simp: has_admin_def)
  show ?thesis
  proof (cases "u_id a = u_id x")
    case True
    then have "a = x" using a(1) assms(2,5) by (metis distinct_map inj_on_def)
    then show ?thesis using a(2) assms(3,4) by (auto simp: has_admin_def set_save_row)
  next
    case False
    then show ?thesis using a assms(3) by (auto simp: has_admin_def set_save_row)
  qed
qed

lemma accounts_inv_save_user:
  assumes inv: "accounts_inv u h old s" "x \<in> set (users s)" and r: "user_follows x r" "user_ok x \<Longrightarrow> user_ok r"
    and email: "\<And>y. y \<in> set (users s) \<Longrightarrow> u_email y = u_email r \<Longrightarrow> u_id y = u_id x"
    and admin: "active_admin x \<Longrightarrow> active_admin r \<or> (\<exists>y \<in> set (users s). u_id y \<noteq> u_id x \<and> active_admin y)"
  shows "accounts_inv u h old (s\<lparr>users := save_row u_id r (users s)\<rparr>)"
proof -
  have id: "u_id r = u_id x" using r(1) by (simp add: user_follows_def)
  have d: "distinct (map u_id (users s))" "distinct (map u_email (users s))"
    using inv(1) by (simp_all add: accounts_inv_def tracked_def drawn_ids_def users_ok_def)
  have "distinct (map u_email (save_row u_id r (users s)))"
  proof -
    obtain xs ys where split: "users s = xs @ x # ys" using inv(2) by (meson split_list)
    have "save_row u_id r (xs @ x # ys) = xs @ r # ys" using d(1) id by (intro save_row_split) (simp_all add: split)
    moreover have "u_email r \<notin> u_email ` (set xs \<union> set ys)"
    proof
      assume "u_email r \<in> u_email ` (set xs \<union> set ys)"
      then obtain y where y: "y \<in> set xs \<union> set ys" "u_email y = u_email r" by (metis imageE)
      then have "u_id y = u_id x" using email by (auto simp: split)
      then show False using d(1) y(1) by (auto simp: split image_iff)
    qed
    ultimately show ?thesis using d(2) by (auto simp: split)
  qed
  moreover have "has_admin old \<longrightarrow> has_admin (s\<lparr>users := save_row u_id r (users s)\<rparr>)"
    using has_admin_save[OF _ inv(2) id admin d(1)] inv(1) by (auto simp: accounts_inv_def)
  moreover have "tracked u (drawn s) u_id user_follows (users old) (save_row u_id r (users s))"
    using inv r(1) id by (intro tracked_save[where x = x]) (simp_all add: accounts_inv_def)
  ultimately show ?thesis using inv r(2) by (auto simp: accounts_inv_def users_ok_def set_save_row has_admin_def)
qed


lemma touched_user [simp]:
  "u_id (touched (\<lambda>t r. r\<lparr>u_updatedAt := t\<rparr>) now x r) = u_id r"
  "u_email (touched (\<lambda>t r. r\<lparr>u_updatedAt := t\<rparr>) now x r) = u_email r"
  "active_admin (touched (\<lambda>t r. r\<lparr>u_updatedAt := t\<rparr>) now x r) = active_admin r"
  "user_follows y (touched (\<lambda>t r. r\<lparr>u_updatedAt := t\<rparr>) now x r) = user_follows y r"
  "user_ok (touched (\<lambda>t r. r\<lparr>u_updatedAt := t\<rparr>) now x r) = user_ok r"
  by (simp_all add: touched_def active_admin_def user_follows_def credential_def user_ok_def)

definition may_save :: "user \<Rightarrow> user \<Rightarrow> db \<Rightarrow> bool" where
  "may_save x r s \<longleftrightarrow> x \<in> set (users s) \<and> (\<forall>y \<in> set (users s). u_email y = u_email r \<longrightarrow> u_id y = u_id x) \<and>
     (active_admin x \<longrightarrow> active_admin r \<or> (\<exists>y \<in> set (users s). u_id y \<noteq> u_id x \<and> active_admin y))"

lemma saveUser_with:
  assumes "user_follows x r" "user_ok x \<Longrightarrow> user_ok r"
    and "\<And>z. leads (\<lambda>s. accounts_inv u h old s \<and> K (invitations s) (password_resets s)) (f z) (accounts_inv u h old)"
  shows "leads (\<lambda>s. accounts_inv u h old s \<and> may_save x r s \<and> K (invitations s) (password_resets s)) (bindE (saveUser e x r) f)
     (accounts_inv u h old)"
proof (rule leads_seq[where R = "\<lambda>s. accounts_inv u h old s \<and> K (invitations s) (password_resets s)"])
  show "leads (\<lambda>s. accounts_inv u h old s \<and> may_save x r s \<and> K (invitations s) (password_resets s)) (saveUser e x r)
     (\<lambda>s. accounts_inv u h old s \<and> K (invitations s) (password_resets s))"
    unfolding leads_def saveUser_def Let_def
    by (auto simp: may_save_def intro!: accounts_inv_save_user[where x = x] assms)
qed (simp_all add: assms(3))

lemma saveUser_checked:
  assumes "user_follows x r" "user_ok x \<Longrightarrow> user_ok r" "\<And>z. leads (accounts_inv u h old) (f z) (accounts_inv u h old)"
  shows "leads (\<lambda>s. accounts_inv u h old s \<and> may_save x r s) (bindE (saveUser e x r) f) (accounts_inv u h old)"
  using saveUser_with[where K = "\<lambda>_ _. True", OF assms(1,2), of u h old f e] assms(3) by simp

lemma may_save_same_email:
  assumes "accounts_inv u h old s" "x \<in> set (users s)" "u_email r = u_email x" "active_admin x \<Longrightarrow> active_admin r"
  shows "may_save x r s"
proof -
  have "distinct (map u_email (users s))" using assms(1) by (simp add: accounts_inv_def users_ok_def)
  then have "u_id y = u_id x" if "y \<in> set (users s)" "u_email y = u_email r" for y
    using that assms(2,3) by (metis distinct_map inj_on_def)
  then show ?thesis using assms(2,4) by (simp add: may_save_def)
qed

lemma saveUser_then:
  assumes "user_follows x r" "user_ok x \<Longrightarrow> user_ok r" "u_email r = u_email x" "active_admin x \<Longrightarrow> active_admin r"
    and "\<And>z. leads (accounts_inv u h old) (f z) (accounts_inv u h old)"
  shows "leads (\<lambda>s. accounts_inv u h old s \<and> x \<in> set (users s)) (bindE (saveUser e x r) f) (accounts_inv u h old)"
  by (rule leads_weaken[OF saveUser_checked[where x = x and r = r]]) (auto intro: assms may_save_same_email)

lemma leads_quiet_inv: "leads (accounts_inv u h old) m (accounts_inv u h old)" if "beside.confined m" for m :: "'a op"
  using that by (intro leads_beside) simp_all

lemma then_output: "leads (accounts_inv u h old) (bindE (recordAudit e inp ctx) (\<lambda>_. ret y)) (accounts_inv u h old)"
  by (intro leads_quiet_inv beside.confined_rules) simp

section \<open>Every operation keeps the invariant\<close>

lemma leads_find_user:
  assumes "\<And>s. P s \<Longrightarrow> Q s" "\<And>x. leads (\<lambda>s. P s \<and> x \<in> set (users s)) (f x) Q"
  shows "leads P (bindE (findUserOrFail i) f) Q"
  unfolding findUserOrFail_def by (rule leads_find[OF assms(1)]) (auto intro: leads_weaken[OF assms(2)])

lemma changePassword_inv: "keeps (accounts_inv u h old) (changePassword e i old_pw new_pw)"
  unfolding leads_keeps changePassword_def
proof (rule leads_find_user, simp, rule leads_after_guard, simp, rule leads_after_guard, simp, goal_cases)
  case (1 x)
  show ?case
    by (rule leads_after_beside, simp_all, rule saveUser_then)
      (use 1 in \<open>auto simp: user_follows_def user_ok_def active_admin_def credential_def intro: then_output\<close>)
qed

lemma updatePreferences_inv: "keeps (accounts_inv u h old) (updatePreferences e i dto)"
  unfolding leads_keeps updatePreferences_def Let_def
proof (rule leads_find_user, simp, rule leads_after_quiet, goal_cases)
  case (3 x tz)
  show ?case
    by (rule leads_if, simp add: leads_def, rule saveUser_then)
      (auto simp: user_follows_def user_ok_def active_admin_def credential_def intro: then_output)
qed (auto intro!: quiet_rules split: option.split)

text \<open>Accepting an invitation or a reset: the account is saved and the token consumed.\<close>

lemma leads_invitation_token:
  assumes "\<And>s. P s \<Longrightarrow> Q s" "\<And>x. leads (\<lambda>s. P s \<and> x \<in> set (invitations s)) (f x) Q"
  shows "leads P (bindE (findInvitationByTokenOrThrow e token) f) Q"
  using assms by (auto simp: leads_def findInvitationByTokenOrThrow_def dest: find_row_Some split: option.split)

lemma leads_reset_token:
  assumes "\<And>s. P s \<Longrightarrow> Q s" "\<And>x. leads (\<lambda>s. P s \<and> x \<in> set (password_resets s)) (f x) Q"
  shows "leads P (bindE (findPasswordResetTokenOrThrow e token) f) Q"
  using assms by (auto simp: leads_def findPasswordResetTokenOrThrow_def dest: find_row_Some split: option.split)

lemma pending_if: "ut_status t \<noteq> TK_CONSUMED \<Longrightarrow> ut_status t \<noteq> TK_REVOKED \<Longrightarrow> ut_status t = TK_PENDING"
  by (cases "ut_status t") simp_all

lemma accounts_inv_invitations:
  assumes "accounts_inv u h old s" "tracked u (drawn s) ut_id token_follows (invitations old) rows" "tokens_ok h (drawn s) (invitations old) rows"
  shows "accounts_inv u h old (s\<lparr>invitations := rows\<rparr>)"
  using assms by (simp add: accounts_inv_def has_admin_def)

lemma accounts_inv_resets:
  assumes "accounts_inv u h old s" "tracked u (drawn s) ut_id token_follows (password_resets old) rows" "tokens_ok h (drawn s) (password_resets old) rows"
  shows "accounts_inv u h old (s\<lparr>password_resets := rows\<rparr>)"
  using assms by (simp add: accounts_inv_def has_admin_def)

lemma consume_invitation:
  assumes "accounts_inv u h old s" "t \<in> set (invitations s)" "ut_status t = TK_PENDING"
  shows "accounts_inv u h old (s\<lparr>invitations := save_row ut_id (consume_token e t) (invitations s)\<rparr>)"
  using assms by (intro accounts_inv_invitations tracked_consume tokens_ok_consume)
    (auto simp: accounts_inv_def intro: tracked_distinct)

lemma consume_reset:
  assumes "accounts_inv u h old s" "t \<in> set (password_resets s)" "ut_status t = TK_PENDING"
  shows "accounts_inv u h old (s\<lparr>password_resets := save_row ut_id (consume_token e t) (password_resets s)\<rparr>)"
  using assms by (intro accounts_inv_resets tracked_consume tokens_ok_consume)
    (auto simp: accounts_inv_def intro: tracked_distinct)

lemma revoke_invitations_inv: "keeps (accounts_inv u h old) (revokePendingInvitations e i exclude)"
  unfolding revokePendingInvitations_def
  by (intro keeps_writeE accounts_inv_invitations tracked_revoke tokens_ok_revoke) (auto simp: accounts_inv_def)

lemma revoke_resets_inv: "keeps (accounts_inv u h old) (revokePendingPasswordResetTokens e i exclude)"
  unfolding revokePendingPasswordResetTokens_def
  by (intro keeps_writeE accounts_inv_resets tracked_revoke tokens_ok_revoke) (auto simp: accounts_inv_def)


lemma assertInvitationAvailable_then:
  assumes "\<And>s. P s \<Longrightarrow> Q s" "ut_status t = TK_PENDING \<Longrightarrow> e_now e < ut_expiresAt t \<Longrightarrow> leads P (f ()) Q"
  shows "leads P (bindE (assertInvitationAvailable e t) f) Q"
  using assms by (auto simp: assertInvitationAvailable_def leads_def dest: pending_if)

lemma assertPasswordResetAvailable_then:
  assumes "\<And>s. P s \<Longrightarrow> Q s" "ut_status t = TK_PENDING \<Longrightarrow> e_now e < ut_expiresAt t \<Longrightarrow> leads P (f ()) Q"
  shows "leads P (bindE (assertPasswordResetAvailable e t) f) Q"
  using assms by (auto simp: assertPasswordResetAvailable_def leads_def dest: pending_if)

lemma drawing_quiet: "quiet m \<Longrightarrow> drawing.confined m"
  by (rule drawing.confined_quiet)

lemma drawing_revokes [simp]:
  "drawing.confined (revokePendingInvitations e i x)" "drawing.confined (revokePendingPasswordResetTokens e i x)"
  by (simp_all add: drawing.confined_def revokePendingInvitations_def revokePendingPasswordResetTokens_def)

lemma quiet_token_checks [simp]:
  "quiet (assertInvitationAvailable e t)" "quiet (assertPasswordResetAvailable e t)" "quiet (findUserOrFail i)"
  "quiet (findInvitationByTokenOrThrow e token)" "quiet (findPasswordResetTokenOrThrow e token)"
  by (auto simp: assertInvitationAvailable_def assertPasswordResetAvailable_def findUserOrFail_def
      findInvitationByTokenOrThrow_def findPasswordResetTokenOrThrow_def intro!: quiet_rules)

lemma acceptInvitation_inv: "keeps (accounts_inv u h old) (acceptInvitation e token pw)"
  unfolding leads_keeps acceptInvitation_def
proof (rule leads_transaction)
  show "leads (accounts_inv u h old)
     (bindE (findInvitationByTokenOrThrow e token) (\<lambda>invitation.
      bindE (assertInvitationAvailable e invitation) (\<lambda>_.
      bindE (findUserOrFail (ut_userId invitation)) (\<lambda>user.
      bindE (guardE (\<not> (u_inviteStatus user = INVITE_ACCEPTED \<and> u_activatedAt user \<noteq> None))
               (Conflict ''Invitation token has already been used.'')) (\<lambda>_.
      bindE (hashPassword e pw) (\<lambda>h.
      bindE (saveUser e user (user\<lparr>u_passwordHash := Some h, u_isActive := True, u_inviteStatus := INVITE_ACCEPTED,
               u_activatedAt := Some (e_now e), u_sessionVersion := u_sessionVersion user + 1\<rparr>)) (\<lambda>_.
      bindE (writeE (\<lambda>s. s\<lparr>invitations := save_row ut_id (consume_token e invitation) (invitations s)\<rparr>)) (\<lambda>_.
      revokePendingInvitations e (u_id user) (Some (ut_id invitation))))))))))
     (accounts_inv u h old)"
  proof (rule leads_invitation_token, simp, rule assertInvitationAvailable_then, simp, rule leads_find_user, simp,
      rule leads_after_guard, simp, rule leads_after_beside, simp, simp, simp, goal_cases)
    case (1 t x pwhash)
    show ?case
      by (rule leads_weaken[OF saveUser_with[where x = x and K = "\<lambda>ts _. t \<in> set ts"]])
        (use 1 in \<open>auto simp: user_follows_def user_ok_def active_admin_def leads_keeps[symmetric]
          intro!: may_save_same_email leads_after_write[where R = "accounts_inv u h old"] consume_invitation revoke_invitations_inv\<close>)
  qed
qed (auto intro!: drawing.confined_rules intro: drawing_quiet drawing_beside drawing.confined_writeE)

lemma resetPassword_inv: "keeps (accounts_inv u h old) (resetPassword e token pw)"
  unfolding leads_keeps resetPassword_def
proof (rule leads_transaction)
  show "leads (accounts_inv u h old)
     (bindE (findPasswordResetTokenOrThrow e token) (\<lambda>reset.
      bindE (assertPasswordResetAvailable e reset) (\<lambda>_.
      bindE (findUserOrFail (ut_userId reset)) (\<lambda>user.
      bindE (guardE (u_isActive user \<and> u_inviteStatus user = INVITE_ACCEPTED)
               (Conflict ''Only active accepted accounts can reset their password.'')) (\<lambda>_.
      bindE (hashPassword e pw) (\<lambda>h.
      bindE (saveUser e user (user\<lparr>u_passwordHash := Some h, u_sessionVersion := u_sessionVersion user + 1\<rparr>)) (\<lambda>_.
      bindE (writeE (\<lambda>s. s\<lparr>password_resets := save_row ut_id (consume_token e reset) (password_resets s)\<rparr>)) (\<lambda>_.
      revokePendingPasswordResetTokens e (u_id user) (Some (ut_id reset))))))))))
     (accounts_inv u h old)"
  proof (rule leads_reset_token, simp, rule assertPasswordResetAvailable_then, simp, rule leads_find_user, simp,
      rule leads_after_guard, simp, rule leads_after_beside, simp, simp, simp, goal_cases)
    case (1 t x pwhash)
    show ?case
      by (rule leads_weaken[OF saveUser_with[where x = x and K = "\<lambda>_ ts. t \<in> set ts"]])
        (use 1 in \<open>auto simp: user_follows_def user_ok_def active_admin_def leads_keeps[symmetric]
          intro!: may_save_same_email leads_after_write[where R = "accounts_inv u h old"] consume_reset revoke_resets_inv\<close>)
  qed
qed (auto intro!: drawing.confined_rules intro: drawing_quiet drawing_beside drawing.confined_writeE)


text \<open>The streams a handler draws from.\<close>

definition draws_from :: "(nat \<Rightarrow> string) \<Rightarrow> (nat \<Rightarrow> string) \<Rightarrow> env \<Rightarrow> bool" where
  "draws_from u h e \<longleftrightarrow> e_uuid e = u \<and> (\<lambda>n. e_sha256 e (e_token e n)) = h"

text \<open>One pending token per user: the earlier ones are revoked when another is issued.\<close>

lemma issue_tokens_ok:
  assumes "tokens_ok h n old rows" "inj h" "m = Suc (Suc (Suc n))"
  shows "tokens_ok h m old (revoke_pending e i None rows @ [new_user_token e k i c (tok, th, h n) x])"
  using assms by (intro tokens_ok_add[where n = n and k = n] tokens_ok_revoke)
    (simp_all add: new_user_token_def token_ok_def revoke_none_pending)

lemma issue_tracked:
  assumes "tracked u n ut_id token_follows old rows" "inj u" "m = Suc (Suc (Suc n))" "k = u (Suc (Suc n))"
  shows "tracked u m ut_id token_follows old (revoke_pending e i None rows @ [new_user_token e k i c tok x])"
  using assms by (intro tracked_add[where n = n and k = "Suc (Suc n)"] tracked_revoke) (simp_all add: new_user_token_def)

lemma createInvitationRecord_inv:
  assumes "inj u" "inj h" "draws_from u h e"
  shows "keeps (accounts_inv u h old) (createInvitationRecord e i c t)"
proof (rule keepsI)
  fix s assume inv: "accounts_inv u h old s"
  have h: "e_sha256 e (e_token e n) = h n" for n using assms(3) by (auto simp: draws_from_def)
  have "accounts_inv u h old (s\<lparr>drawn := Suc (Suc (Suc (drawn s)))\<rparr>)"
    by (rule accounts_inv_beside[OF inv]) (simp add: beside_rel_def)
  then have "accounts_inv u h old (s\<lparr>drawn := Suc (Suc (Suc (drawn s)))\<rparr>\<lparr>invitations := revoke_pending e i None (invitations s) @
     [new_user_token e (u (Suc (Suc (drawn s)))) i c (e_token e (drawn s), e_hashSecret e (Suc (drawn s)) (e_token e (drawn s)), h (drawn s))
        (t + INVITATION_TTL_HOURS * 60 * 60 * 1000)]\<rparr>)"
    using inv assms by (intro accounts_inv_invitations issue_tokens_ok issue_tracked) (simp_all add: accounts_inv_def)
  then show "accounts_inv u h old (after (createInvitationRecord e i c t) s)"
    using assms(3) by (simp add: createInvitationRecord_def revokePendingInvitations_def issueOpaqueToken_def hashPassword_def
        createOpaqueTokenLookupHash_def draws_from_def h Let_def)
qed

lemma createPasswordResetRecord_inv:
  assumes "inj u" "inj h" "draws_from u h e"
  shows "keeps (accounts_inv u h old) (createPasswordResetRecord e i t)"
proof (rule keepsI)
  fix s assume inv: "accounts_inv u h old s"
  have h: "e_sha256 e (e_token e n) = h n" for n using assms(3) by (auto simp: draws_from_def)
  have "accounts_inv u h old (s\<lparr>drawn := Suc (Suc (Suc (drawn s)))\<rparr>)"
    by (rule accounts_inv_beside[OF inv]) (simp add: beside_rel_def)
  then have "accounts_inv u h old (s\<lparr>drawn := Suc (Suc (Suc (drawn s)))\<rparr>\<lparr>password_resets := revoke_pending e i None (password_resets s) @
     [new_user_token e (u (Suc (Suc (drawn s)))) i None (e_token e (drawn s), e_hashSecret e (Suc (drawn s)) (e_token e (drawn s)), h (drawn s))
        (t + PASSWORD_RESET_TTL_HOURS * 60 * 60 * 1000)]\<rparr>)"
    using inv assms by (intro accounts_inv_resets issue_tokens_ok issue_tracked) (simp_all add: accounts_inv_def)
  then show "accounts_inv u h old (after (createPasswordResetRecord e i t) s)"
    using assms(3) by (simp add: createPasswordResetRecord_def revokePendingPasswordResetTokens_def issueOpaqueToken_def hashPassword_def
        createOpaqueTokenLookupHash_def draws_from_def h Let_def)
qed

lemma issue_then:
  assumes "keeps (accounts_inv u h old) m" "\<And>x y. beside.confined (f x y)"
  shows "leads (accounts_inv u h old) (bindE m (\<lambda>(x, y). f x y)) (accounts_inv u h old)"
  by (rule leads_seq[OF assms(1)[unfolded leads_keeps]]) (auto intro!: leads_case_prod leads_quiet_inv assms(2))

lemma requestPasswordReset_inv:
  assumes "inj u" "inj h" "draws_from u h e"
  shows "keeps (accounts_inv u h old) (requestPasswordReset e me email)"
  unfolding leads_keeps requestPasswordReset_def findByEmailWithPassword_def
proof (rule leads_after_quiet, simp, simp, rule leads_case_option, simp add: leads_def, rule leads_if, simp add: leads_def, goal_cases)
  case (1 found x)
  show ?case
    by (rule leads_transaction) (auto intro!: issue_then createPasswordResetRecord_inv assms drawing.confined_rules)
qed

subsection \<open>Adding, editing and deleting accounts\<close>

lemma accounts_inv_add:
  assumes inv: "accounts_inv u h old s" and "inj u" "user_ok x" "u_id x = u (drawn s)"
    "\<And>y. y \<in> set (users s) \<Longrightarrow> u_email y \<noteq> u_email x"
  shows "accounts_inv u h old (s\<lparr>drawn := Suc (drawn s), users := users s @ [x]\<rparr>)"
proof -
  have "accounts_inv u h old (s\<lparr>drawn := Suc (drawn s)\<rparr>)"
    by (rule accounts_inv_beside[OF inv]) (simp add: beside_rel_def)
  moreover have "tracked u (Suc (drawn s)) u_id user_follows (users old) (users s @ [x])"
    using inv assms(2,4) by (intro tracked_add[where n = "drawn s" and k = "drawn s"]) (simp_all add: accounts_inv_def)
  moreover have "users_ok (users s @ [x])"
  proof -
    have "u_email x \<notin> u_email ` set (users s)" using assms(5) by (metis imageE)
    then show ?thesis using inv assms(3) by (simp add: accounts_inv_def users_ok_def)
  qed
  ultimately show ?thesis by (auto simp: accounts_inv_def has_admin_def)
qed

lemma lower_upper [simp]: "toLowerCase (toLowerCase x) = toLowerCase x"
proof -
  have "char_lower (char_lower c) = char_lower c" for c by (auto simp: char_lower_def Let_def)
  then show ?thesis by (simp add: toLowerCase_def)
qed

lemma ensureDefaultAdmin_inv:
  assumes "inj u" "draws_from u h e"
  shows "keeps (accounts_inv u h old) (ensureDefaultAdmin e b email name pw)"
proof (rule keepsI)
  fix s assume inv: "accounts_inv u h old s"
  define x where "x n = (new_user e (u (Suc n)) (toLowerCase email) name PLATFORM_ADMIN)
    \<lparr>u_passwordHash := Some (e_hashSecret e n pw), u_isActive := True, u_inviteStatus := INVITE_ACCEPTED,
     u_lastInvitedAt := None, u_activatedAt := Some (e_now e)\<rparr>" for n
  have "accounts_inv u h old (s\<lparr>drawn := Suc (drawn s)\<rparr>)"
    by (rule accounts_inv_beside[OF inv]) (simp add: beside_rel_def)
  from accounts_inv_add[OF this assms(1), of "x (drawn s)"]
  have "accounts_inv u h old (s\<lparr>drawn := Suc (Suc (drawn s)), users := users s @ [x (drawn s)]\<rparr>)"
    if "find_row (\<lambda>u. u_email u = toLowerCase email) (users s) = None"
    using that by (auto simp: x_def new_user_def user_ok_def find_row_None)
  then show "accounts_inv u h old (after (ensureDefaultAdmin e b email name pw) s)"
    using inv assms(2) by (auto simp: ensureDefaultAdmin_def hashPassword_def x_def draws_from_def)
qed


lemma is_ws_code: "is_ws c \<longleftrightarrow> (of_char c :: nat) \<in> {32, 9, 10, 11, 12, 13}"
  unfolding is_ws_def by (simp only: of_char_eq_iff[symmetric, where 'a = nat] insert_iff empty_iff) simp

lemma is_ws_lower: "is_ws (char_lower c) = is_ws c"
  by (auto simp: is_ws_code char_lower_def Let_def)

lemma trim_lower: "trim (toLowerCase (trim x)) = toLowerCase (trim x)"
  by (rule trim_fixed) (simp add: toLowerCase_def hd_map last_map is_ws_lower trim_ends)

lemma createUser_inv:
  assumes "inj u" "inj h" "draws_from u h e"
  shows "keeps (accounts_inv u h old) (createUser e me a dto)"
proof (rule keepsI)
  fix s assume inv: "accounts_inv u h old s"
  show "accounts_inv u h old (after (createUser e me a dto) s)"
  proof (cases "normalizeUserEmail (cu_email dto)")
    case (Inl err)
    then show ?thesis using inv by (simp add: createUser_def)
  next
    case (Inr email)
    then have lower: "toLowerCase email = email" by (auto simp: normalizeUserEmail_def Let_def split: if_splits)
    have trimmed: "trim (toLowerCase email) = email"
      using Inr by (auto simp: normalizeUserEmail_def Let_def trim_lower split: if_splits)
    define free where "free s \<longleftrightarrow> accounts_inv u h old s \<and> (\<forall>y \<in> set (users s). u_email y \<noteq> email)" for s
    have body: "leads free (transaction (bindE (liftE (normalizeName (cu_name dto))) (\<lambda>name.
        bindE (fresh_id e) (\<lambda>i.
        let user = new_user e i email name (orElse (cu_role dto) USER) in
        bindE (writeE (\<lambda>s. s\<lparr>users := users s @ [user]\<rparr>)) (\<lambda>_.
        bindE (createInvitationRecord e (u_id user) (Some (a_id a)) (e_now e)) (\<lambda>(token, expiresAt).
        bindE (sendUserInvitation me (u_email user) (u_name user) token expiresAt) (\<lambda>_.
        ret user))))))) (accounts_inv u h old)"
    proof (rule leads_transaction, goal_cases)
      case 1
      show ?case
      proof (rule leads_after_quiet, simp, simp add: free_def, goal_cases)
        case (1 name)
        have step: "leads (accounts_inv u h old) (bindE (createInvitationRecord e i (Some (a_id a)) (e_now e)) (\<lambda>(token, expiresAt).
            bindE (sendUserInvitation me (u_email user) (u_name user) token expiresAt) (\<lambda>_. ret user))) (accounts_inv u h old)" for i user
          by (intro issue_then createInvitationRecord_inv assms) (auto intro!: beside.confined_rules)
        have added: "accounts_inv u h old (s\<lparr>drawn := Suc (drawn s),
            users := users s @ [new_user e (u (drawn s)) email name (orElse (cu_role dto) USER)]\<rparr>)" if "free s" for s
          using that lower by (intro accounts_inv_add assms(1)) (auto simp: free_def new_user_def user_ok_def)
        have "accounts_inv u h old (after (bindE (createInvitationRecord e i (Some (a_id a)) (e_now e)) (\<lambda>(token, expiresAt).
            bindE (sendUserInvitation me (u_email user) (u_name user) token expiresAt) (\<lambda>_. ret user)))
            (s\<lparr>drawn := Suc (drawn s), users := users s @ [user]\<rparr>))"
          if "free s" "user = new_user e (u (drawn s)) email name (orElse (cu_role dto) USER)" for s i user
          using leadsD[OF step added[OF that(1)], of i user] that(2) by simp
        then show ?case using assms(3) by (simp add: leads_def draws_from_def Let_def)
      qed
    next
      case 2
      show ?case by (auto simp: Let_def intro!: drawing.confined_rules drawing.confined_writeE)
    next
      case 3
      show ?case unfolding free_def using account_fact_inv[of u h old] by (auto simp: account_fact_def beside_rel_def)
    qed (simp add: free_def)
    have "free s" if "find_row (\<lambda>u. u_email u = email) (users s) = None"
      using that inv by (simp add: free_def find_row_None)
    note started = leadsD[OF leads_seq[OF body _ then_output] this]
    show ?thesis
    proof (cases "find_row (\<lambda>u. u_email u = email) (users s)")
      case None
      show ?thesis using started[OF _ None] Inr None by (simp add: createUser_def findByEmail_def trimmed del: bindE_assoc)
    next
      case (Some y)
      then show ?thesis using inv Inr by (simp add: createUser_def findByEmail_def trimmed)
    qed
  qed
qed

lemma resendInvite_inv:
  assumes "inj u" "inj h" "draws_from u h e"
  shows "keeps (accounts_inv u h old) (resendInvite e me a i)"
  unfolding leads_keeps resendInvite_def
proof (rule leads_find_user, simp, rule leads_after_guard, simp, rule leads_transaction, goal_cases)
  case (1 x)
  have marked: "accounts_inv u h old (s\<lparr>users := update_rows (\<lambda>u. u_id u = u_id x)
      (\<lambda>u. u\<lparr>u_inviteStatus := INVITE_PENDING, u_lastInvitedAt := Some (e_now e), u_updatedAt := e_now e\<rparr>) (users s)\<rparr>)"
    if s: "accounts_inv u h old s" "x \<in> set (users s)" for s
  proof -
    let ?f = "\<lambda>u. u\<lparr>u_inviteStatus := INVITE_PENDING, u_lastInvitedAt := Some (e_now e), u_updatedAt := e_now e\<rparr>"
    let ?rows = "update_rows (\<lambda>u. u_id u = u_id x) ?f (users s)"
    have d: "distinct (map u_id (users s))" using s(1) by (auto simp: accounts_inv_def tracked_distinct)
    have "y = x" if "y \<in> set (users s)" "u_id y = u_id x" for y using d that s(2) by (metis distinct_map inj_on_def)
    moreover have "user_ok x" using s by (simp add: accounts_inv_def users_ok_def)
    then have "user_ok (?f x)" using 1 by (auto simp: user_ok_def)
    ultimately have ok: "\<forall>y \<in> set ?rows. user_ok y" using s(1) by (auto simp: set_update_rows accounts_inv_def users_ok_def)
    have "map u_email ?rows = map u_email (users s)" by (rule map_update_rows) simp
    moreover have "map active_admin ?rows = map active_admin (users s)" by (rule map_update_rows) (simp add: active_admin_def)
    then have "active_admin ` set ?rows = active_admin ` set (users s)" by (metis set_map)
    then have "has_admin s \<Longrightarrow> has_admin (s\<lparr>users := ?rows\<rparr>)" by (auto simp: has_admin_def image_iff set_eq_iff)
    moreover have "tracked u (drawn s) u_id user_follows (users old) ?rows"
      using s(1) by (intro tracked_update) (auto simp: accounts_inv_def user_follows_def credential_def)
    ultimately show ?thesis using s(1) ok by (auto simp: accounts_inv_def users_ok_def has_admin_def)
  qed
  have step: "leads (accounts_inv u h old) (bindE (createInvitationRecord e (u_id x) (Some (a_id a)) (e_now e)) (\<lambda>(token, expiresAt).
      bindE (sendUserInvitation me (u_email x) (u_name x) token expiresAt) (\<lambda>_.
      bindE (recordAudit e (user_audit ''user.invitation.resent'' x None) (user_context a)) (\<lambda>_. ret expiresAt)))) (accounts_inv u h old)"
    by (intro issue_then createInvitationRecord_inv assms) (auto intro!: beside.confined_rules)
  show ?case by (rule leads_after_write[where R = "accounts_inv u h old"]) (use marked step in auto)
qed (auto intro!: drawing.confined_rules drawing.confined_writeE)

text \<open>The checks of an edit are what its saving needs.\<close>

lemma other_admin:
  assumes "count_rows active_admin (users s) > 1" "distinct (map u_id (users s))"
  shows "\<exists>y \<in> set (users s). u_id y \<noteq> i \<and> active_admin y"
proof -
  obtain a b zs where ab: "filter active_admin (users s) = a # b # zs"
    using assms(1) unfolding count_rows_def by (metis One_nat_def length_Cons less_SucE list.exhaust list.size(3) not_less_zero)
  then have "distinct (map u_id (a # b # zs))" using assms(2) by (metis distinct_map_filter)
  then have "u_id a \<noteq> i \<or> u_id b \<noteq> i" by auto
  moreover have "{a, b} \<subseteq> set (filter active_admin (users s))" by (simp add: ab)
  then have "a \<in> set (users s) \<and> active_admin a" "b \<in> set (users s) \<and> active_admin b" by auto
  ultimately show ?thesis by blast
qed


lemma retention_outcome:
  assumes "outcome (assertPlatformAdminRetention x role active) s = Inr v" "active_admin x" "\<not> (role = PLATFORM_ADMIN \<and> active)"
  shows "count_rows active_admin (users s) > 1"
  using assms by (auto simp: assertPlatformAdminRetention_def active_admin_def split: if_splits)

lemma quiet_user_checks [simp]:
  "quiet (assertPlatformAdminRetention x role active)" "quiet (assertSelfMutationAllowed a x role active)"
  "quiet (assertSelfDeletionAllowed a x)" "quiet (assertDeletable x)" "quiet (checked_email m x)"
  by (auto simp: assertPlatformAdminRetention_def assertSelfMutationAllowed_def assertSelfDeletionAllowed_def
      assertDeletable_def checked_email_def findByEmailCaseInsensitive_def intro!: quiet_rules)

lemma checked_email_outcome:
  assumes "outcome (checked_email m x) s = Inr email"
  shows "toLowerCase email = email" "y \<in> set (users s) \<Longrightarrow> toLowerCase (u_email y) = u_email y \<Longrightarrow> u_email y = email \<Longrightarrow> u_id y = u_id x"
  using assms
  by (auto simp: checked_email_def findByEmailCaseInsensitive_def normalizeUserEmail_def Let_def find_row_None
      split: if_splits sum.splits)

lemma deleteUser_inv: "keeps (accounts_inv u h old) (deleteUser e a i)"
  unfolding leads_keeps deleteUser_def
proof (rule leads_find_user, simp, rule leads_outcome, simp, simp, goal_cases)
  case (1 x _)
  have gone: "accounts_inv u h old (cascade_user (u_id x) s)"
    if s: "accounts_inv u h old s" "x \<in> set (users s)" "outcome (assertPlatformAdminRetention x USER False) s = Inr ()" for s
  proof -
    have d: "distinct (map u_id (users s))" using s(1) by (auto simp: accounts_inv_def tracked_distinct)
    have "has_admin (cascade_user (u_id x) s)" if admin: "has_admin s"
    proof (cases "active_admin x")
      case True
      then have "count_rows active_admin (users s) > 1" using retention_outcome[OF s(3)] by simp
      then show ?thesis using other_admin[OF _ d, of "u_id x"] by (auto simp: has_admin_def cascade_user_def)
    next
      case False
      then have "u_id y \<noteq> u_id x" if "y \<in> set (users s)" "active_admin y" for y
        using that s(2) d by (metis distinct_map inj_on_def)
      then show ?thesis using admin by (auto simp: has_admin_def cascade_user_def)
    qed
    moreover have "count_rows (pending_of j) (delete_rows p rows) \<le> 1" if "\<forall>i. count_rows (pending_of i) rows \<le> 1" for j p rows
    proof -
      have "count_rows (pending_of j) (delete_rows p rows) \<le> count_rows (pending_of j) rows"
        by (induction rows) (auto simp: count_rows_def delete_rows_def)
      then show ?thesis using that by (meson order_trans)
    qed
    then have "tokens_ok h n ts (delete_rows p rows)" if "tokens_ok h n ts rows" for n ts p rows
      using that by (auto simp: tokens_ok_def tracked_delete)
    moreover have "users_ok (delete_rows (\<lambda>u. u_id u = u_id x) (users s))"
      using s(1) by (auto simp: accounts_inv_def users_ok_def)
    ultimately show ?thesis using s(1) by (auto simp: accounts_inv_def tracked_delete, simp_all add: cascade_user_def tracked_delete)
  qed
  show ?case
    by (rule leads_after_quiet, simp, simp, rule leads_after_quiet, simp, simp, rule leads_after_write[where R = "accounts_inv u h old"])
      (use gone in \<open>auto intro: then_output\<close>)
qed

lemma updateUser_inv: "keeps (accounts_inv u h old) (updateUser e a i dto)"
  unfolding leads_keeps updateUser_def Let_def
proof (rule leads_find_user, simp, rule leads_outcome, simp, simp, rule leads_after_quiet, simp, simp, rule leads_outcome,
    simp split: option.split, simp, rule leads_after_quiet, simp split: option.split, simp, rule leads_after_guard, simp, goal_cases)
  case (1 x _ _ email name)
  let ?role = "orElse (uu_role dto) (u_role x)" and ?active = "orElse (uu_isActive dto) (u_isActive x)"
  let ?r = "activity_change e ?role ?active (x\<lparr>u_email := email, u_name := name\<rparr>)"
  let ?m = "case uu_email dto of None \<Rightarrow> ret (u_email x) | Some m \<Rightarrow> checked_email m x"
  have lower: "toLowerCase email = email" if "outcome ?m s = Inr email" "user_ok x" for s
    using that checked_email_outcome(1) by (auto simp: user_ok_def split: option.splits)
  have may: "may_save x ?r s" if s: "accounts_inv u h old s" "x \<in> set (users s)"
    "outcome (assertPlatformAdminRetention x ?role ?active) s = Inr ()" "outcome ?m s = Inr email" for s
  proof -
    have d: "distinct (map u_id (users s))" "distinct (map u_email (users s))" and ok: "\<forall>y \<in> set (users s). user_ok y"
      using s(1) by (auto simp: accounts_inv_def users_ok_def tracked_distinct)
    have "u_id y = u_id x" if "y \<in> set (users s)" "u_email y = email" for y
    proof (cases "uu_email dto")
      case None
      then have "u_email y = u_email x" using s(4) that(2) by simp
      then show ?thesis using that(1) s(2) d(2) by (metis distinct_map inj_on_def)
    next
      case (Some m)
      then have "outcome (checked_email m x) s = Inr email" using s(4) by simp
      from checked_email_outcome(2)[OF this that(1) _ that(2)] show ?thesis using ok that(1) by (simp add: user_ok_def)
    qed
    moreover have "active_admin ?r \<or> (\<exists>y \<in> set (users s). u_id y \<noteq> u_id x \<and> active_admin y)" if "active_admin x"
    proof (cases "?role = PLATFORM_ADMIN \<and> ?active")
      case True
      then show ?thesis by (simp add: active_admin_def activity_change_def)
    next
      case False
      from other_admin[OF retention_outcome[OF s(3) that False] d(1)] show ?thesis by blast
    qed
    ultimately show ?thesis using s(2) by (simp add: may_save_def activity_change_def)
  qed
  define P where "P s \<longleftrightarrow> (accounts_inv u h old s \<and> x \<in> set (users s)) \<and>
      outcome (assertPlatformAdminRetention x ?role ?active) s = Inr () \<and> outcome ?m s = Inr email" for s
  have "leads P (bindE (saveUser e x ?r) (\<lambda>saved. bindE (recordAudit e (user_audit ''user.updated'' saved
       (Some [(''role'', JStr (user_role_str (u_role saved))), (''isActive'', JBool (u_isActive saved))])) (user_context a))
       (\<lambda>_. ret (toResponse saved)))) (accounts_inv u h old)"
  proof (cases "\<exists>s. P s")
    case True
    then obtain s where "P s" ..
    then have "user_ok x" "toLowerCase email = email"
      using lower[of s] by (auto simp: P_def accounts_inv_def users_ok_def)
    moreover have "user_follows x ?r"
      by (auto simp: user_follows_def activity_change_def credential_def)
    moreover have "user_ok ?r" using 1 calculation by (auto simp: user_ok_def activity_change_def)
    ultimately show ?thesis
      by (intro leads_weaken[OF saveUser_checked[where x = x and r = ?r]] then_output) (auto simp: P_def may)
  next
    case False
    then show ?thesis by (simp add: leads_def)
  qed
  then show ?case by (rule leads_weaken) (auto simp: P_def)
qed

end
