(* ===== verification/Spec2Isabelle.thy ===== *)
theory Spec2Isabelle
  imports ScheduledTasks Rollouts Packages Enrollments Users
begin

text \<open>
  A verification of the control plane of Noderax (\<open>src/src\<close>): the NestJS service that manages
  workspaces and their members, the servers of a workspace, the tasks that agents on these servers
  execute, recurring work, agent releases, package management, notifications and the enrollment of
  new servers.

  \<^bold>\<open>How the program is modelled.\<close> The services keep their data in PostgreSQL; \<open>Store\<close> has a record per entity
  class and one record \<open>db\<close> of tables (lists of rows in insertion order) together with what the
  services leave outside the database: realtime emissions, Redis publications, mails, Telegram
  messages, dispatches to agents, in-memory counters. A service method is a handler
  \<open>db \<Rightarrow> (http_error + 'a) \<times> db\<close>: \<open>Inl\<close> is the NestJS exception it throws, and the state holds what was
  written before the throw, since no transaction surrounds a handler (where the source opens one, the
  model keeps the old state on failure). \<open>bindE\<close> is \<open>await\<close> in sequence, \<open>catchE\<close> is \<open>try/catch\<close>, \<open>forE\<close> a loop
  with an awaited body. A handler runs as one atomic step and reads the clock once (\<open>e_now\<close>); what other requests, agents and
  instances do in between two handlers is covered, since the invariants hold after any sequence of handlers
  in any order, with any clock at each. Interleavings inside one handler are not covered, except where the source
  protects a statement itself (the claims of tasks, schedules and outbox events are single
  \<open>UPDATE \<dots> SKIP LOCKED\<close> statements).

  \<^bold>\<open>Parameters.\<close> Code outside the repository is an argument: identifiers and random secrets are
  streams (\<open>e_uuid\<close>, \<open>e_token\<close>; the identifiers are assumed not to repeat where a property needs it), SHA-256, the keyed lookup hash
  and bcrypt are functions (\<open>e_matchesSecret\<close> is assumed to accept the hash of the same secret where tokens are used), time zones are
  what \<open>Intl.DateTimeFormat\<close> answers (\<open>e_offsetMs\<close>, \<open>e_zoneName\<close>), the mail transport, Telegram, the web and
  \<open>new URL\<close> are functions of their request. Strings are ASCII.

  \<^bold>\<open>Theories\<close>, each with the properties of its part:

  \<^item> \<open>Prelude\<close>: errors, handlers and their logic (\<open>keeps\<close>: an invariant is preserved; \<open>frames\<close>: a part of the state is left
    alone; \<open>leads\<close>: an assertion is established; \<open>quiet\<close>: nothing is written), JSON, the JavaScript string and date
    functions, list-backed tables, and the locales \<open>repository\<close> (a keyed table with save, update,
    delete), \<open>transition_system\<close> (reachable states and an inductive invariant) and \<open>effect_order\<close> (handlers
    whose effect stays in a reflexive transitive relation). Each is interpreted on the program's own tables and steps.
  \<^item> \<open>Store\<close>: \<open>src/modules/*/entities\<close>, the state, the environment.
  \<^item> \<open>Outbox\<close>: \<open>outbox.service.ts\<close>, \<open>outbox-dispatcher.service.ts\<close>. The claim of a batch, leases, backoff, the polling loop
    (it ends: each round settles or postpones what it claims, measured by the attempts left), the life cycle of a row.
  \<^item> \<open>Events\<close>: \<open>events.service.ts\<close>, \<open>audit-logs.service.ts\<close>. \<open>Notifications\<close>: \<open>notifications.service.ts\<close>, \<open>mailer.service.ts\<close>; who
    is told of what over which channel, when a failure is retried, and that user text cannot add markup to a mail.
  \<^item> \<open>Schedule\<close>: \<open>scheduled-task.utils.ts\<close>, \<open>timezone.util.ts\<close>. Calendar arithmetic; the search for the next run is
    refined to an abstract description of it.
  \<^item> \<open>Workspaces\<close>: \<open>workspaces.service.ts\<close> and the data it starts from; membership, teams, the default workspace, archiving, deletion with
    its cascades.
  \<^item> \<open>NodeLocation\<close>, \<open>Nodes\<close>: \<open>node-location.util.ts\<close>, \<open>nodes.service.ts\<close>; the state machine of a node (root access grants, agent tokens with
    their rotation, maintenance, heartbeats and both sweeps).
  \<^item> \<open>Tasks\<close>, \<open>TaskLifecycle\<close>: \<open>tasks.service.ts\<close>. Queueing, the claim by an agent, start, logs, completion,
    cancellation and the two sweeps; \<open>TaskLifecycle\<close> has the invariant of the table and a partial order on task rows within which every
    operation stays. \<open>claimNextTask\<close> polls until its waiting time is over: the instants of its rounds are a list argument, one per round, so the recursion
    is on that list and every list the clock can produce is covered.
  \<^item> \<open>Packages\<close>: \<open>packages.service.ts\<close> and the reading of package results in \<open>tasks.service.ts\<close>.
  \<^item> \<open>ScheduledTasks\<close>: \<open>scheduled-tasks.service.ts\<close>, \<open>scheduled-task-runner.service.ts\<close>, \<open>task-templates.service.ts\<close>. A pass of the runner is
    a recursion over the instants of its rounds, as above.
  \<^item> \<open>ReleaseCatalog\<close>, \<open>AgentUpdates\<close>, \<open>Rollouts\<close>: \<open>agent-release-catalog.service.ts\<close>, \<open>agent-updates.service.ts\<close>; the operations,
    and the state machine of rollouts and targets with its invariant.
  \<^item> \<open>Enrollments\<close>: \<open>enrollments.service.ts\<close>, \<open>enrollment-tokens.service.ts\<close>; bootstrap tokens end to end (issued here, consumed once, and the
    agent token they give is the one \<open>Nodes\<close> authenticates), and the shell command an operator pastes.

  \<^bold>\<open>How the parts interact.\<close> Creating a task (\<open>Tasks\<close>) checks the node and the root policy (\<open>Nodes\<close>) and the workspace (\<open>Workspaces\<close>); schedules
  and rollouts create tasks; every service records events and audit entries (\<open>Events\<close>), whose notifications travel through
  \<open>Outbox\<close>, which retries \<open>Notifications\<close>. Handlers that only produce such output satisfy \<open>outputs\<close> (in \<open>Store\<close>): they leave the business
  tables alone, so that every invariant over these tables survives them.

  \<^bold>\<open>Not modelled.\<close> HTTP controllers, DTO validation and guards (decorators of the framework: the handlers take validated
  arguments); start-up, configuration and SQL migrations; log output; timers and the cluster lock (the handlers they start are modelled).
  An \<open>ORDER BY\<close> without a tie-break is stable in insertion order, and rows have no generated database defaults beyond
  those the entity classes state. That TypeORM clears the primary key of the entity object it removes is left out.
\<close>

end
